(* ===== verification/Ztl_Prelude.thy ===== *)
theory Ztl_Prelude
  imports Main "HOL-Library.Word" "HOL-Library.Monad_Syntax"
begin

unbundle bit_operations_syntax

text \<open>
  Shared vocabulary of the development.

  \<^item> Unsigned C integers are natural numbers; \<open>u8\<close>, \<open>u16\<close>, \<open>u32\<close> and \<open>u64\<close> reduce a
    value to its width, and are written wherever the C expression can leave it.
    \<open>usub w a b\<close> is the wrapping subtraction at width \<open>w\<close>. Signed values that can
    overflow are integers reduced by \<open>s32\<close>; \<open>u64_of_int\<close> converts to 64 bits unsigned.
  \<^item> Arrays are lists. \<open>get_at\<close> and \<open>set_at\<close> access them with the bounds check that C
    does not perform: \<open>None\<close> stands for undefined behaviour (an index out of range, a
    null pointer, an element unlinked from a queue it is not on).
  \<^item> The queues of \<open>sys/queue.h\<close> are lists of references.
  \<^item> \<open>bf_get\<close> and \<open>bf_set\<close> read and write a bit-field of a 64-bit word; the locales
    \<open>field\<close> and \<open>field_pair\<close> state what a struct field promises.
\<close>

named_theorems ztl_width \<open>facts that discard a reduction to a machine width\<close>
named_theorems ztl_mem \<open>facts about checked array accesses and intrusive queues\<close>

section \<open>Machine widths\<close>

type_synonym maddr_bits = "64 word"

abbreviation u8 :: "nat \<Rightarrow> nat" where "u8 \<equiv> take_bit 8"
abbreviation u16 :: "nat \<Rightarrow> nat" where "u16 \<equiv> take_bit 16"
abbreviation u32 :: "nat \<Rightarrow> nat" where "u32 \<equiv> take_bit 32"
abbreviation u64 :: "nat \<Rightarrow> nat" where "u64 \<equiv> take_bit 64"

definition usub :: "nat \<Rightarrow> nat \<Rightarrow> nat \<Rightarrow> nat" where
  "usub w a b = take_bit w (a + (2 ^ w - take_bit w b))"

abbreviation s32 :: "int \<Rightarrow> int" where "s32 \<equiv> signed_take_bit 31"

definition u64_of_int :: "int \<Rightarrow> nat" where
  "u64_of_int i = nat (take_bit 64 i)"

lemma u64_of_int_small [ztl_width]: "0 \<le> i \<Longrightarrow> i < 2 ^ 64 \<Longrightarrow> u64_of_int i = nat i"
  by (simp add: u64_of_int_def take_bit_int_eq_self)

lemma s32_small [ztl_width]: "0 \<le> i \<Longrightarrow> i < 2147483648 \<Longrightarrow> s32 i = i"
  by (simp add: signed_take_bit_int_eq_self)

lemma take_bit_small [ztl_width]: "n < 2 ^ w \<Longrightarrow> take_bit w n = n" for n :: nat
  by (rule take_bit_nat_eq_self)

lemma take_bit_lt: "take_bit w n < 2 ^ w" for n :: nat
  by (rule take_bit_nat_less_exp)

lemma u16_small [ztl_width]: "n < 65536 \<Longrightarrow> u16 n = n"
  by (simp add: take_bit_small)

lemma u32_small [ztl_width]: "n < 4294967296 \<Longrightarrow> u32 n = n"
  by (simp add: take_bit_small)

lemma u64_small [ztl_width]: "n < 18446744073709551616 \<Longrightarrow> u64 n = n"
  by (simp add: take_bit_small)

lemma usub_small [ztl_width]:
  assumes "b \<le> a" "a < 2 ^ w"
  shows "usub w a b = a - b"
proof -
  have "b < 2 ^ w" using assms by simp
  then have "a + (2 ^ w - take_bit w b) = (a - b) + 2 ^ w"
    using assms by (simp add: take_bit_small)
  moreover have "take_bit w ((a - b) + 2 ^ w) = a - b"
    using assms by (simp only: take_bit_eq_mod mod_add_self2) simp
  ultimately show ?thesis by (simp only: usub_def)
qed

lemma usub_lt: "usub w a b < 2 ^ w"
  unfolding usub_def by (rule take_bit_lt)

section \<open>Checked memory\<close>

definition get_at :: "'a list \<Rightarrow> nat \<Rightarrow> 'a option" where
  "get_at xs i = (if i < length xs then Some (xs ! i) else None)"

definition set_at :: "'a list \<Rightarrow> nat \<Rightarrow> 'a \<Rightarrow> 'a list option" where
  "set_at xs i v = (if i < length xs then Some (xs[i := v]) else None)"

lemma get_at_Some [simp, ztl_mem]: "get_at xs i = Some x \<longleftrightarrow> i < length xs \<and> xs ! i = x"
  by (auto simp: get_at_def)

lemma get_at_None [simp, ztl_mem]: "get_at xs i = None \<longleftrightarrow> length xs \<le> i"
  by (auto simp: get_at_def)

lemma set_at_Some [simp, ztl_mem]: "set_at xs i v = Some ys \<longleftrightarrow> i < length xs \<and> ys = xs[i := v]"
  by (auto simp: set_at_def)

lemma set_at_None [simp, ztl_mem]: "set_at xs i v = None \<longleftrightarrow> length xs \<le> i"
  by (auto simp: set_at_def)

lemma get_at_lt [simp, ztl_mem]: "i < length xs \<Longrightarrow> get_at xs i = Some (xs ! i)"
  by simp

lemma set_at_lt [simp, ztl_mem]: "i < length xs \<Longrightarrow> set_at xs i v = Some (xs[i := v])"
  by simp

text \<open>An update that keeps a property of the element keeps it everywhere.\<close>

lemma nth_update_same: "f v = f (xs ! n) \<Longrightarrow> f (xs[n := v] ! k) = f (xs ! k)"
  by (cases "n = k"; cases "n < length xs") (auto simp: list_update_beyond)

text \<open>The intrusive queues: \<open>TAILQ_REMOVE\<close> and \<open>LIST_REMOVE\<close> unlink through the links of
  the element and through the given head, so the element has to be on that queue (the last
  element of another queue would redirect the tail pointer of this one).\<close>

definition tailq_insert_tail :: "'a list \<Rightarrow> 'a \<Rightarrow> 'a list" where
  "tailq_insert_tail q x = q @ [x]"

definition list_insert_head :: "'a list \<Rightarrow> 'a \<Rightarrow> 'a list" where
  "list_insert_head q x = x # q"

definition tailq_first :: "'a list \<Rightarrow> 'a option" where
  "tailq_first q = (case q of [] \<Rightarrow> None | x # _ \<Rightarrow> Some x)"

definition tailq_remove :: "'a list \<Rightarrow> 'a \<Rightarrow> 'a list option" where
  "tailq_remove q x = (if x \<in> set q then Some (remove1 x q) else None)"

lemma set_tailq_insert_tail [simp, ztl_mem]: "set (tailq_insert_tail q x) = insert x (set q)"
  by (simp add: tailq_insert_tail_def)

lemma length_tailq_insert_tail [simp, ztl_mem]: "length (tailq_insert_tail q x) = Suc (length q)"
  by (simp add: tailq_insert_tail_def)

lemma distinct_tailq_insert_tail [simp, ztl_mem]:
  "distinct (tailq_insert_tail q x) \<longleftrightarrow> distinct q \<and> x \<notin> set q"
  by (auto simp: tailq_insert_tail_def)

lemma tailq_remove_Some [simp, ztl_mem]:
  "tailq_remove q x = Some q' \<longleftrightarrow> x \<in> set q \<and> q' = remove1 x q"
  by (auto simp: tailq_remove_def)

lemma tailq_remove_None [simp, ztl_mem]: "tailq_remove q x = None \<longleftrightarrow> x \<notin> set q"
  by (auto simp: tailq_remove_def)

lemma tailq_first_Some [simp, ztl_mem]: "tailq_first q = Some x \<longleftrightarrow> q \<noteq> [] \<and> hd q = x"
  by (cases q) (auto simp: tailq_first_def)

lemma tailq_first_None [simp, ztl_mem]: "tailq_first q = None \<longleftrightarrow> q = []"
  by (cases q) (auto simp: tailq_first_def)

lemma tailq_remove_in [simp, ztl_mem]: "x \<in> set q \<Longrightarrow> tailq_remove q x = Some (remove1 x q)"
  by simp

lemma tailq_first_simps [simp, ztl_mem]: "tailq_first [] = None" "tailq_first (x # q) = Some x"
  by (simp_all add: tailq_first_def)

section \<open>Bit-fields\<close>

text \<open>A field of width \<open>w\<close> at bit \<open>off\<close> of a 64-bit union; the fields of a struct are
  laid out from the least significant bit, as the System V ABI does on x86-64.\<close>

definition bf_get :: "nat \<Rightarrow> nat \<Rightarrow> maddr_bits \<Rightarrow> nat" where
  "bf_get off w x = unat (take_bit w (drop_bit off x))"

definition bf_set :: "nat \<Rightarrow> nat \<Rightarrow> nat \<Rightarrow> maddr_bits \<Rightarrow> maddr_bits" where
  "bf_set off w v x =
     (x AND NOT (push_bit off (mask w))) OR push_bit off (take_bit w (word_of_nat v))"

lemma bit_bf_set:
  "bit (bf_set off w v x) n \<longleftrightarrow>
     n < 64 \<and> (if off \<le> n \<and> n < off + w then bit v (n - off) else bit x n)"
  by (auto simp: bf_set_def bit_simps)

lemma bit_bf_get: "off + w \<le> 64 \<Longrightarrow> bit (bf_get off w x) n \<longleftrightarrow> n < w \<and> bit x (off + n)"
  by (auto simp: bf_get_def bit_simps dest: bit_imp_le_length)

lemma bf_get_bound: "off + w \<le> 64 \<Longrightarrow> bf_get off w x < 2 ^ w"
proof -
  assume "off + w \<le> 64"
  then have "take_bit w (bf_get off w x) = bf_get off w x"
    by (intro bit_eqI) (auto simp: bit_take_bit_iff bit_bf_get)
  then show ?thesis by (metis take_bit_lt)
qed

lemma bf_get_set_same: "off + w \<le> 64 \<Longrightarrow> bf_get off w (bf_set off w v x) = take_bit w v"
  by (intro bit_eqI) (auto simp: bit_take_bit_iff bit_bf_get bit_bf_set)

lemma bf_get_set_other:
  "\<lbrakk>off + w \<le> 64; off' + w' \<le> off \<or> off + w \<le> off'\<rbrakk> \<Longrightarrow>
   bf_get off w (bf_set off' w' v x) = bf_get off w x"
  by (intro bit_eqI) (auto simp: bit_bf_get bit_bf_set dest: bit_imp_le_length)

lemma bf_set_get: "off + w \<le> 64 \<Longrightarrow> bf_set off w (bf_get off w x) x = x"
  by (intro bit_word_eqI) (auto simp: bit_bf_get bit_bf_set)

lemma bf_set_set: "bf_set off w v (bf_set off w u x) = bf_set off w v x"
  by (intro bit_word_eqI) (auto simp: bit_bf_set)

lemma bf_set_commute:
  "off' + w' \<le> off \<or> off + w \<le> off' \<Longrightarrow>
   bf_set off w v (bf_set off' w' u x) = bf_set off' w' u (bf_set off w v x)"
  by (intro bit_word_eqI) (auto simp: bit_bf_set)

lemmas bf_laws = bf_get_bound bf_get_set_same bf_get_set_other bf_set_get bf_set_set

text \<open>What the reader and the writer of a struct field promise each other.\<close>

locale field =
  fixes get :: "'s \<Rightarrow> nat"
    and put :: "nat \<Rightarrow> 's \<Rightarrow> 's"
    and w :: nat
  assumes get_bound: "get s < 2 ^ w"
    and get_put: "get (put v s) = take_bit w v"
    and put_get: "put (get s) s = s"
    and put_put: "put v (put u s) = put v s"
begin

lemma get_put_small: "v < 2 ^ w \<Longrightarrow> get (put v s) = v"
  by (simp add: get_put take_bit_small)

lemma get_put_iff: "get (put v s) = v \<longleftrightarrow> v < 2 ^ w"
  using get_bound [of "put v s"] by (auto simp: get_put_small)

lemma put_truncates: "put (take_bit w v) s = put v s"
proof -
  have "put (take_bit w v) s = put (get (put v s)) (put v s)"
    by (simp only: get_put put_put)
  then show ?thesis by (simp only: put_get)
qed

end

text \<open>Two fields of one struct that do not overlap.\<close>

locale field_pair =
  f: field get put w + g: field get' put' w'
  for get :: "'s \<Rightarrow> nat" and put w and get' :: "'s \<Rightarrow> nat" and put' w' +
  assumes get_put': "get (put' v s) = get s"
    and get'_put: "get' (put v s) = get' s"
begin

lemma both_read_back:
  "\<lbrakk>v < 2 ^ w; u < 2 ^ w'\<rbrakk> \<Longrightarrow>
   get (put v (put' u s)) = v \<and> get' (put v (put' u s)) = u \<and>
   get (put' u (put v s)) = v \<and> get' (put' u (put v s)) = u"
  by (simp add: get_put' get'_put f.get_put_small g.get_put_small)

end

text \<open>Bit-fields of a 64-bit word are such fields, and disjoint ones such pairs.\<close>

lemma field_bf: "off + w \<le> 64 \<Longrightarrow> field (bf_get off w) (bf_set off w) w"
  by unfold_locales (simp_all add: bf_laws)

lemma field_pair_bf:
  assumes "off + w \<le> 64" "off' + w' \<le> 64" "off + w \<le> off'"
  shows "field_pair (bf_get off w) (bf_set off w) w (bf_get off' w') (bf_set off' w') w'"
proof (rule field_pair.intro)
  show "field (bf_get off w) (bf_set off w) w" "field (bf_get off' w') (bf_set off' w') w'"
    using assms by (simp_all add: field_bf)
  show "field_pair_axioms (bf_get off w) (bf_set off w) (bf_get off' w') (bf_set off' w')"
    using assms by unfold_locales (simp_all add: bf_laws)
qed

end
