(* ===== verification/Xztl_Types.thy ===== *)
theory Xztl_Types
  imports Ztl_Prelude
begin

text \<open>
  The data of the library: the constants, enums and structs of \<open>xztl.h\<close>,
  \<open>xztl-mods.h\<close>, \<open>xztl-pro.h\<close>, \<open>xztl-media.h\<close> and \<open>libzrocks.h\<close>.
  Enums are datatypes with a function to their integer code. Pointers into the tables
  of a group are indices (\<open>None\<close> is the null pointer): a node refers to its zones by
  their index in the zone array, a zone to its metadata entry by the index in the
  metadata table, and the free, used and full queues hold node indices.
  The packed unions (\<open>xztl_maddr\<close>, \<open>app_map_entry\<close>, \<open>map_md_addr\<close>,
  \<open>zrocks_map\<close>) are 64-bit words with one reader and one writer per bit-field; the
  interpretations at the end show that every field obeys the field laws and that the
  fields of one struct do not disturb each other.
\<close>

section \<open>Constants and enums\<close>

abbreviation (input) ZNS_ALIGMENT :: nat where "ZNS_ALIGMENT \<equiv> 4096"
abbreviation (input) ZNA_1M_BUF :: nat where "ZNA_1M_BUF \<equiv> ZNS_ALIGMENT * 256"
abbreviation (input) ZNS_MAX_M_BUF :: nat where "ZNS_MAX_M_BUF \<equiv> 32"
abbreviation (input) ZNS_MAX_BUF :: nat where "ZNS_MAX_BUF \<equiv> ZNS_MAX_M_BUF * ZNA_1M_BUF"
abbreviation (input) ZONE_SIZE :: nat where "ZONE_SIZE \<equiv> 96 * 1024 * 1024"
abbreviation (input) ZTL_IO_SEC_MCMD :: nat where "ZTL_IO_SEC_MCMD \<equiv> 8"
abbreviation (input) ZTL_PRO_ZONE_NUM_INNODE :: nat where "ZTL_PRO_ZONE_NUM_INNODE \<equiv> 64"
abbreviation (input) ZROCKS_LEVEL_NUM :: nat where "ZROCKS_LEVEL_NUM \<equiv> 5"
abbreviation (input) ZTL_IO_RC_NUM :: nat where
  "ZTL_IO_RC_NUM \<equiv> ZNS_MAX_BUF div (ZTL_IO_SEC_MCMD * ZNS_ALIGMENT)"
abbreviation (input) XZTL_IO_MAX_MCMD :: nat where "XZTL_IO_MAX_MCMD \<equiv> 65536"
abbreviation (input) XZTL_WIO_MAX_MCMD :: nat where "XZTL_WIO_MAX_MCMD \<equiv> 1024"
abbreviation (input) MAX_CALLBACK_ERR_CNT :: nat where "MAX_CALLBACK_ERR_CNT \<equiv> 3"
abbreviation (input) XZTL_READ_RS_NUM :: nat where "XZTL_READ_RS_NUM \<equiv> 256"
abbreviation (input) APP_MAGIC :: nat where "APP_MAGIC \<equiv> 60"
abbreviation (input) AND64 :: nat where "AND64 \<equiv> 18446744073709551615"
abbreviation (input) APP_PRO_MAX_OFFS :: nat where "APP_PRO_MAX_OFFS \<equiv> 128"
abbreviation (input) ZTL_PRO_SEC_NUM_INZONE :: nat where
  "ZTL_PRO_SEC_NUM_INZONE \<equiv> ZONE_SIZE div 1024 div 4"
abbreviation (input) ZTL_PRO_OPT_SEC_NUM_INNODE :: nat where
  "ZTL_PRO_OPT_SEC_NUM_INNODE \<equiv>
     ZTL_PRO_ZONE_NUM_INNODE * ZTL_PRO_SEC_NUM_INZONE div ZTL_IO_SEC_MCMD"

datatype xztl_status =
    XZTL_OK | XZTL_MEM | XZTL_NOMEDIA | XZTL_NOINIT | XZTL_NOEXIT | XZTL_MEDIA_NOGEO
  | XZTL_MEDIA_GEO | XZTL_MEDIA_NOIO | XZTL_MEDIA_NOZONE | XZTL_MEDIA_NOALLOC
  | XZTL_MEDIA_NOFREE | XZTL_MCTX_MEM_ERR | XZTL_MCTX_ASYNC_ERR | XZTL_MCTX_MP_ERR
  | XZTL_ZTL_PROV_ERR | XZTL_ZTL_GROUP_ERR | XZTL_ZTL_PROV_GRP_ERR | XZTL_ZTL_MOD_ERR
  | XZTL_ZTL_ZMD_REP | XZTL_ZTL_PROV_FULL | XZTL_ZTL_MPE_ERR | XZTL_ZTL_MAP_ERR
  | XZTL_ZTL_IO_ERR | XZTL_ZTL_APPEND_ERR | XZTL_ZTL_IO_S_ERR | XZTL_ZTL_IO_S2_ERR
  | XZTL_ZTL_MD_INIT_ERR | XZTL_ZTL_MD_READ_ERR | XZTL_ZTL_MD_WRITE_ERR
  | XZTL_ZTL_MD_WRITE_FULL | XZTL_ZTL_MD_RESET_ERR | XZTL_ZTL_STATS_ERR
  | XZTL_ZTL_PROMETHEUS_ERR | XZTL_MEDIA_ERROR | XZTL_ZROCKS_INIT_ERR
  | XZTL_ZROCKS_WRITE_ERR | XZTL_ZROCKS_READ_ERR | XZTL_ZTL_MGMT_ERR

primrec xz :: "xztl_status \<Rightarrow> int" where
  "xz XZTL_OK = 0x00"
| "xz XZTL_MEM = 0x01"
| "xz XZTL_NOMEDIA = 0x02"
| "xz XZTL_NOINIT = 0x03"
| "xz XZTL_NOEXIT = 0x04"
| "xz XZTL_MEDIA_NOGEO = 0x05"
| "xz XZTL_MEDIA_GEO = 0x06"
| "xz XZTL_MEDIA_NOIO = 0x07"
| "xz XZTL_MEDIA_NOZONE = 0x08"
| "xz XZTL_MEDIA_NOALLOC = 0x09"
| "xz XZTL_MEDIA_NOFREE = 0x0a"
| "xz XZTL_MCTX_MEM_ERR = 0x0b"
| "xz XZTL_MCTX_ASYNC_ERR = 0x0c"
| "xz XZTL_MCTX_MP_ERR = 0x0d"
| "xz XZTL_ZTL_PROV_ERR = 0x0e"
| "xz XZTL_ZTL_GROUP_ERR = 0x0f"
| "xz XZTL_ZTL_PROV_GRP_ERR = 0x10"
| "xz XZTL_ZTL_MOD_ERR = 0x11"
| "xz XZTL_ZTL_ZMD_REP = 0x12"
| "xz XZTL_ZTL_PROV_FULL = 0x13"
| "xz XZTL_ZTL_MPE_ERR = 0x14"
| "xz XZTL_ZTL_MAP_ERR = 0x15"
| "xz XZTL_ZTL_IO_ERR = 0x16"
| "xz XZTL_ZTL_APPEND_ERR = 0x17"
| "xz XZTL_ZTL_IO_S_ERR = 0x18"
| "xz XZTL_ZTL_IO_S2_ERR = 0x19"
| "xz XZTL_ZTL_MD_INIT_ERR = 0x1a"
| "xz XZTL_ZTL_MD_READ_ERR = 0x1b"
| "xz XZTL_ZTL_MD_WRITE_ERR = 0x1c"
| "xz XZTL_ZTL_MD_WRITE_FULL = 0x1d"
| "xz XZTL_ZTL_MD_RESET_ERR = 0x1e"
| "xz XZTL_ZTL_STATS_ERR = 0x1f"
| "xz XZTL_ZTL_PROMETHEUS_ERR = 0x20"
| "xz XZTL_MEDIA_ERROR = 0x100"
| "xz XZTL_ZROCKS_INIT_ERR = 0x101"
| "xz XZTL_ZROCKS_WRITE_ERR = 0x102"
| "xz XZTL_ZROCKS_READ_ERR = 0x103"
| "xz XZTL_ZTL_MGMT_ERR = 0x104"

text \<open>The opcodes the library issues or dispatches on (the admin and Open-Channel opcodes
  of the enum are never used).\<close>

datatype xztl_media_opcodes =
    XZTL_CMD_WRITE | XZTL_CMD_READ | XZTL_ZONE_MGMT | XZTL_ZONE_APPEND
  | XZTL_ZONE_MGMT_CLOSE | XZTL_ZONE_MGMT_FINISH | XZTL_ZONE_MGMT_OPEN
  | XZTL_ZONE_MGMT_RESET | XZTL_ZONE_MGMT_REPORT
  | XZTL_MISC_ASYNCH_INIT | XZTL_MISC_ASYNCH_TERM | XZTL_MISC_ASYNCH_POKE
  | XZTL_MISC_ASYNCH_OUTS | XZTL_MISC_ASYNCH_WAIT

primrec op :: "xztl_media_opcodes \<Rightarrow> nat" where
  "op XZTL_CMD_WRITE = 0x01"
| "op XZTL_CMD_READ = 0x02"
| "op XZTL_ZONE_MGMT = 0x79"
| "op XZTL_ZONE_APPEND = 0x7D"
| "op XZTL_ZONE_MGMT_CLOSE = 0x1"
| "op XZTL_ZONE_MGMT_FINISH = 0x2"
| "op XZTL_ZONE_MGMT_OPEN = 0x3"
| "op XZTL_ZONE_MGMT_RESET = 0x4"
| "op XZTL_ZONE_MGMT_REPORT = 0xf"
| "op XZTL_MISC_ASYNCH_INIT = 0x1"
| "op XZTL_MISC_ASYNCH_TERM = 0x2"
| "op XZTL_MISC_ASYNCH_POKE = 0x3"
| "op XZTL_MISC_ASYNCH_OUTS = 0x4"
| "op XZTL_MISC_ASYNCH_WAIT = 0x5"

datatype znd_media_error =
    ZND_MEDIA_NODEVICE | ZND_MEDIA_NOGEO | ZND_INVALID_OPCODE | ZND_MEDIA_REPORT_ERR
  | ZND_MEDIA_OPEN_ERR | ZND_MEDIA_ASYNCH_ERR | ZND_MEDIA_ASYNCH_MEM | ZND_MEDIA_ASYNCH_TH
  | ZND_MEDIA_POKE_ERR | ZND_MEDIA_OUTS_ERR | ZND_MEDIA_WAIT_ERR

primrec zerr :: "znd_media_error \<Rightarrow> int" where
  "zerr ZND_MEDIA_NODEVICE = 0x1"
| "zerr ZND_MEDIA_NOGEO = 0x2"
| "zerr ZND_INVALID_OPCODE = 0x3"
| "zerr ZND_MEDIA_REPORT_ERR = 0x4"
| "zerr ZND_MEDIA_OPEN_ERR = 0x5"
| "zerr ZND_MEDIA_ASYNCH_ERR = 0x6"
| "zerr ZND_MEDIA_ASYNCH_MEM = 0x7"
| "zerr ZND_MEDIA_ASYNCH_TH = 0x8"
| "zerr ZND_MEDIA_POKE_ERR = 0x9"
| "zerr ZND_MEDIA_OUTS_ERR = 0xa"
| "zerr ZND_MEDIA_WAIT_ERR = 0xb"

datatype xztl_zmd_node_status =
    XZTL_ZMD_NODE_FREE | XZTL_ZMD_NODE_USED | XZTL_ZMD_NODE_FULL | XZTL_ZMD_NODE_RESET

datatype ztl_pro_mgmt_opcode = ZTL_MGMG_FULL_ZONE | ZTL_MGMG_RESET_ZONE

datatype xztl_zmd_flags =
    XZTL_ZMD_USED | XZTL_ZMD_OPEN | XZTL_ZMD_RSVD | XZTL_ZMD_AVLB | XZTL_ZMD_COLD
  | XZTL_ZMD_META

primrec zmd_flag :: "xztl_zmd_flags \<Rightarrow> nat" where
  "zmd_flag XZTL_ZMD_USED = 1"
| "zmd_flag XZTL_ZMD_OPEN = 2"
| "zmd_flag XZTL_ZMD_RSVD = 4"
| "zmd_flag XZTL_ZMD_AVLB = 8"
| "zmd_flag XZTL_ZMD_COLD = 16"
| "zmd_flag XZTL_ZMD_META = 32"

definition has_flag :: "nat \<Rightarrow> xztl_zmd_flags \<Rightarrow> bool" where
  "has_flag flags f \<longleftrightarrow> flags AND zmd_flag f \<noteq> 0"

section \<open>Packed addresses\<close>

type_synonym maddr = maddr_bits

definition g_grp :: "maddr \<Rightarrow> nat" where "g_grp = bf_get 0 5"
definition g_punit :: "maddr \<Rightarrow> nat" where "g_punit = bf_get 5 3"
definition g_zone :: "maddr \<Rightarrow> nat" where "g_zone = bf_get 8 20"
definition g_sect :: "maddr \<Rightarrow> nat" where "g_sect = bf_get 28 36"

definition set_grp :: "nat \<Rightarrow> maddr \<Rightarrow> maddr" where "set_grp = bf_set 0 5"
definition set_punit :: "nat \<Rightarrow> maddr \<Rightarrow> maddr" where "set_punit = bf_set 5 3"
definition set_zone :: "nat \<Rightarrow> maddr \<Rightarrow> maddr" where "set_zone = bf_set 8 20"
definition set_sect :: "nat \<Rightarrow> maddr \<Rightarrow> maddr" where "set_sect = bf_set 28 36"

type_synonym zrocks_map = maddr_bits

definition zm_node_id :: "zrocks_map \<Rightarrow> nat" where "zm_node_id = bf_get 0 14"
definition zm_start :: "zrocks_map \<Rightarrow> nat" where "zm_start = bf_get 14 22"
definition zm_num :: "zrocks_map \<Rightarrow> nat" where "zm_num = bf_get 36 11"
definition zm_padding :: "zrocks_map \<Rightarrow> nat" where "zm_padding = bf_get 47 16"

definition set_node_id :: "nat \<Rightarrow> zrocks_map \<Rightarrow> zrocks_map" where "set_node_id = bf_set 0 14"
definition set_start :: "nat \<Rightarrow> zrocks_map \<Rightarrow> zrocks_map" where "set_start = bf_set 14 22"
definition set_num :: "nat \<Rightarrow> zrocks_map \<Rightarrow> zrocks_map" where "set_num = bf_set 36 11"
definition set_padding :: "nat \<Rightarrow> zrocks_map \<Rightarrow> zrocks_map" where "set_padding = bf_set 47 16"

type_synonym app_map_entry = maddr_bits

definition me_offset :: "app_map_entry \<Rightarrow> nat" where "me_offset = bf_get 0 40"
definition me_nsec :: "app_map_entry \<Rightarrow> nat" where "me_nsec = bf_get 40 23"
definition me_multi :: "app_map_entry \<Rightarrow> nat" where "me_multi = bf_get 63 1"

definition set_offset :: "nat \<Rightarrow> app_map_entry \<Rightarrow> app_map_entry" where "set_offset = bf_set 0 40"
definition set_nsec :: "nat \<Rightarrow> app_map_entry \<Rightarrow> app_map_entry" where "set_nsec = bf_set 40 23"
definition set_multi :: "nat \<Rightarrow> app_map_entry \<Rightarrow> app_map_entry" where "set_multi = bf_set 63 1"

type_synonym map_md_addr = maddr_bits

definition md_addr :: "map_md_addr \<Rightarrow> nat" where "md_addr = bf_get 0 63"
definition md_flag :: "map_md_addr \<Rightarrow> nat" where "md_flag = bf_get 63 1"
definition set_md_addr :: "nat \<Rightarrow> map_md_addr \<Rightarrow> map_md_addr" where "set_md_addr = bf_set 0 63"
definition set_md_flag :: "nat \<Rightarrow> map_md_addr \<Rightarrow> map_md_addr" where "set_md_flag = bf_set 63 1"

lemmas maddr_defs = g_grp_def g_punit_def g_zone_def g_sect_def
  set_grp_def set_punit_def set_zone_def set_sect_def
lemmas zrocks_map_defs = zm_node_id_def zm_start_def zm_num_def zm_padding_def
  set_node_id_def set_start_def set_num_def set_padding_def
lemmas map_entry_defs = me_offset_def me_nsec_def me_multi_def
  set_offset_def set_nsec_def set_multi_def
lemmas md_addr_defs = md_addr_def md_flag_def set_md_addr_def set_md_flag_def

section \<open>Structs\<close>

text \<open>The zone report comes from xNVMe; the library reads the state, the capacity and the
  write pointer of each descriptor. The states it names are constructors, every other
  code is \<open>ZND_STATE_OTHER\<close>.\<close>

datatype znd_state =
    ZND_STATE_EMPTY | ZND_STATE_IOPEN | ZND_STATE_EOPEN | ZND_STATE_CLOSED | ZND_STATE_FULL
  | ZND_STATE_OTHER nat

record znd_descr =
  zi_zs :: znd_state
  zi_zcap :: nat
  zi_wp :: nat

record app_zmd_entry =
  ze_flags :: nat
  ze_level :: nat
  ze_addr :: maddr
  ze_wptr :: nat
  ze_wptr_inflight :: nat

record app_zmd =
  zd_magic :: nat
  zd_entries :: nat
  zd_entry_sz :: nat
  zd_tbl :: "app_zmd_entry list option"
  zd_ent_per_pg :: nat
  zd_report :: "znd_descr list option"

record ztl_pro_zone =
  zn_addr :: maddr
  zn_zmd_entry :: "nat option"
  zn_capacity :: nat
  zn_lock :: nat
  zn_state :: "znd_state option"

record ztl_pro_node =
  nd_id :: nat
  nd_vzones :: "nat option list"
  nd_optimal_write_sec_left :: nat
  nd_optimal_write_sec_used :: nat
  nd_nr_finish_err :: nat
  nd_nr_reset_err :: nat
  nd_nr_valid :: nat
  nd_status :: xztl_zmd_node_status
  nd_level :: int

record ztl_pro_node_grp =
  pg_vnodes :: "ztl_pro_node list"
  pg_vzones :: "ztl_pro_zone list"
  pg_nfree :: nat
  pg_nzones :: nat
  pg_nnodes :: nat
  pg_free_head :: "nat list"
  pg_used_head :: "nat list"
  pg_full_head :: "nat list"

record app_grp_flags =
  fl_active :: nat
  fl_need_gc :: nat
  fl_busy :: nat

record app_group =
  gr_id :: nat
  gr_flags :: app_grp_flags
  gr_zmd :: app_zmd
  gr_pro :: "ztl_pro_node_grp option"
  gr_cp_zone :: nat

text \<open>A provisioning context; its group is always \<open>glist[0]\<close>, so the pointer is the flag
  that it has been set.\<close>

record app_pro_addr =
  pa_grp :: "nat option"
  pa_addr :: "maddr list"
  pa_nsec :: "nat list"
  pa_naddr :: nat
  pa_thread_id :: nat
  pa_ptype :: nat

text \<open>Media commands. The one-element arrays (\<open>XZTL_MAX_MADDR\<close> is 1) are plain fields; the
  buffer pointers \<open>prp\<close> are addresses. The back pointer to the user command is implicit:
  a queue works on one user command at a time. \<open>mc_ptr\<close> stands for the
  address of the command: its slot in the array of its queue.\<close>

datatype mcmd_callback = CB_NONE | CB_READ | CB_WRITE

record xztl_io_mcmd =
  mc_opcode :: nat
  mc_submitted :: nat
  mc_synch :: nat
  mc_callback_err_cnt :: nat
  mc_sequence :: nat
  mc_sequence_zn :: nat
  mc_buf_off :: nat
  mc_cpsize :: nat
  mc_naddr :: nat
  mc_status :: nat
  mc_nsec :: nat
  mc_addr :: maddr
  mc_prp :: nat
  mc_paddr :: nat
  mc_callback :: mcmd_callback
  mc_async_ctx :: nat
  mc_media_ctx :: nat
  mc_ptr :: nat

definition zero_mcmd :: xztl_io_mcmd where
  "zero_mcmd = \<lparr>mc_opcode = 0, mc_submitted = 0, mc_synch = 0, mc_callback_err_cnt = 0,
     mc_sequence = 0, mc_sequence_zn = 0, mc_buf_off = 0, mc_cpsize = 0, mc_naddr = 0, mc_status = 0,
     mc_nsec = 0, mc_addr = 0, mc_prp = 0, mc_paddr = 0, mc_callback = CB_NONE, mc_async_ctx = 0,
     mc_media_ctx = 0, mc_ptr = 0\<rparr>"

record xztl_zn_mcmd =
  zc_opcode :: nat
  zc_status :: nat
  zc_addr :: maddr
  zc_nzones :: nat
  zc_opaque :: "znd_descr list option"

record xztl_misc_cmd =
  mi_opcode :: nat
  mi_ctx :: nat
  mi_depth :: nat
  mi_limit :: nat
  mi_count :: nat

record xztl_mgeo =
  ge_ngrps :: nat
  ge_pu_grp :: nat
  ge_zn_pu :: nat
  ge_sec_zn :: nat
  ge_nbytes :: nat
  ge_nbytes_oob :: nat
  ge_zn_dev :: nat
  ge_zn_grp :: nat
  ge_sec_dev :: nat
  ge_sec_grp :: nat
  ge_sec_pu :: nat
  ge_nbytes_zn :: nat
  ge_nbytes_grp :: nat
  ge_oob_grp :: nat
  ge_oob_pu :: nat
  ge_oob_zn :: nat

text \<open>The media abstraction: the geometry and the function pointers, each possibly null,
  over a state \<open>'s\<close> of the media layer. The command functions can be undefined (\<open>None\<close>).\<close>

record 's xztl_media =
  mm_geo :: xztl_mgeo
  mm_init_fn :: "('s \<Rightarrow> int \<times> 's) option"
  mm_exit_fn :: "('s \<Rightarrow> int \<times> 's) option"
  mm_submit_io :: "(xztl_io_mcmd \<Rightarrow> 's \<Rightarrow> (int \<times> xztl_io_mcmd \<times> 's) option) option"
  mm_zone_fn :: "(xztl_zn_mcmd \<Rightarrow> 's \<Rightarrow> (int \<times> xztl_zn_mcmd \<times> 's) option) option"
  mm_dma_alloc :: "(nat \<Rightarrow> 's \<Rightarrow> nat \<times> 's) option"
  mm_dma_free :: "(nat \<Rightarrow> 's \<Rightarrow> 's) option"
  mm_cmd_exec :: "(xztl_misc_cmd \<Rightarrow> 's \<Rightarrow> (int \<times> xztl_misc_cmd \<times> 's) option) option"

section \<open>Field laws of the packed unions\<close>

interpretation grp_field: field g_grp set_grp 5
  unfolding maddr_defs by (rule field_bf) simp

interpretation punit_field: field g_punit set_punit 3
  unfolding maddr_defs by (rule field_bf) simp

interpretation zone_field: field g_zone set_zone 20
  unfolding maddr_defs by (rule field_bf) simp

interpretation sect_field: field g_sect set_sect 36
  unfolding maddr_defs by (rule field_bf) simp

interpretation zone_sect: field_pair g_zone set_zone 20 g_sect set_sect 36
  unfolding maddr_defs by (rule field_pair_bf) simp_all

interpretation grp_sect: field_pair g_grp set_grp 5 g_sect set_sect 36
  unfolding maddr_defs by (rule field_pair_bf) simp_all

interpretation grp_zone: field_pair g_grp set_grp 5 g_zone set_zone 20
  unfolding maddr_defs by (rule field_pair_bf) simp_all

interpretation node_id_field: field zm_node_id set_node_id 14
  unfolding zrocks_map_defs by (rule field_bf) simp

interpretation start_field: field zm_start set_start 22
  unfolding zrocks_map_defs by (rule field_bf) simp

interpretation num_field: field zm_num set_num 11
  unfolding zrocks_map_defs by (rule field_bf) simp

interpretation padding_field: field zm_padding set_padding 16
  unfolding zrocks_map_defs by (rule field_bf) simp

interpretation offset_field: field me_offset set_offset 40
  unfolding map_entry_defs by (rule field_bf) simp

interpretation nsec_field: field me_nsec set_nsec 23
  unfolding map_entry_defs by (rule field_bf) simp

interpretation multi_field: field me_multi set_multi 1
  unfolding map_entry_defs by (rule field_bf) simp

interpretation md_addr_flag: field_pair md_addr set_md_addr 63 md_flag set_md_flag 1
  unfolding md_addr_defs by (rule field_pair_bf) simp_all

lemma maddr_frame [simp]:
  "g_grp (set_sect v a) = g_grp a" "g_zone (set_sect v a) = g_zone a"
  "g_punit (set_sect v a) = g_punit a"
  "g_grp (set_zone v a) = g_grp a" "g_sect (set_zone v a) = g_sect a"
  "g_punit (set_zone v a) = g_punit a"
  "g_zone (set_grp v a) = g_zone a" "g_sect (set_grp v a) = g_sect a"
  "g_punit (set_grp v a) = g_punit a"
  by (simp_all add: maddr_defs bf_laws)

lemma maddr_zero [simp]: "g_grp 0 = 0" "g_punit 0 = 0" "g_zone 0 = 0" "g_sect 0 = 0"
  by (simp_all add: maddr_defs bf_get_def)

lemmas maddr_read = grp_field.get_put zone_field.get_put sect_field.get_put

lemma zrocks_map_frame [simp]:
  "zm_node_id (set_start v m) = zm_node_id m" "zm_node_id (set_num v m) = zm_node_id m"
  "zm_node_id (set_padding v m) = zm_node_id m"
  "zm_start (set_node_id v m) = zm_start m" "zm_start (set_num v m) = zm_start m"
  "zm_start (set_padding v m) = zm_start m"
  "zm_num (set_node_id v m) = zm_num m" "zm_num (set_start v m) = zm_num m"
  "zm_num (set_padding v m) = zm_num m"
  "zm_padding (set_node_id v m) = zm_padding m" "zm_padding (set_start v m) = zm_padding m"
  "zm_padding (set_num v m) = zm_padding m"
  by (simp_all add: zrocks_map_defs bf_laws)

lemmas zrocks_map_read = node_id_field.get_put start_field.get_put num_field.get_put
  padding_field.get_put

end
