(* ===== verification/Xztl_Mempool.thy ===== *)
theory Xztl_Mempool
  imports Xztl_Types "HOL-Library.Multiset"
begin

text \<open>
  The memory pools (\<open>xztl-mempool.c\<close>), in the locking build (\<open>MP_LOCKFREE\<close> is not
  defined by any build file). The static table of pools is a list of 5 types by 64
  threads. Allocation is the environment's choice: \<open>ent_at i\<close> and \<open>opq_at i\<close> are the
  addresses the allocator returns for the entry and the payload of slot \<open>i\<close>, 0 for
  \<open>NULL\<close>. Releases are recorded as events, so that a leak or a release through the
  wrong function is visible.
  \<open>xztl_mempool_get\<close> retries while its pool is empty; \<open>None\<close> is that case, and an
  index outside the table.
  The locale \<open>entry_pool\<close> is what the users of a pool rely on.
\<close>

section \<open>Model\<close>

abbreviation (input) XZTLMP_THREADS :: nat where "XZTLMP_THREADS \<equiv> 64"
abbreviation (input) XZTLMP_TYPES :: nat where "XZTLMP_TYPES \<equiv> 5"
abbreviation (input) XZTLMP_MAX_ENT :: nat where "XZTLMP_MAX_ENT \<equiv> 65536 + 2"
abbreviation (input) XZTLMP_MAX_ENT_SZ :: nat where "XZTLMP_MAX_ENT_SZ \<equiv> 1024 * 1024"

datatype xztl_mp_types =
  XZTL_MEMPOOL_MCMD | XZTL_ZTL_PRO_CTX | ZROCKS_MEMORY | XZTL_PROMETHEUS_LAT | XZTL_NODE_MGMT_ENTRY

primrec mpt :: "xztl_mp_types \<Rightarrow> nat" where
  "mpt XZTL_MEMPOOL_MCMD = 0x0"
| "mpt XZTL_ZTL_PRO_CTX = 0x1"
| "mpt ZROCKS_MEMORY = 0x2"
| "mpt XZTL_PROMETHEUS_LAT = 0x3"
| "mpt XZTL_NODE_MGMT_ENTRY = 0x4"

datatype xztl_mp_status =
  XZTL_MP_OUTBOUNDS | XZTL_MP_INVALID | XZTL_MP_ACTIVE | XZTL_MP_MEMERROR | XZTL_MP_ASYNCH_ERR

primrec mps :: "xztl_mp_status \<Rightarrow> int" where
  "mps XZTL_MP_OUTBOUNDS = 0x1"
| "mps XZTL_MP_INVALID = 0x2"
| "mps XZTL_MP_ACTIVE = 0x3"
| "mps XZTL_MP_MEMERROR = 0x4"
| "mps XZTL_MP_ASYNCH_ERR = 0x5"

record xztl_mp_entry =
  en_ptr :: nat
  en_opaque :: nat
  en_tid :: nat
  en_entry_id :: nat

record xztl_mp_pool_i =
  po_active :: bool
  po_in_count :: nat
  po_out_count :: nat
  po_entries :: nat
  po_alloc_fn :: bool
  po_free_fn :: bool
  po_head :: "xztl_mp_entry list"

type_synonym xztl_mempool = "xztl_mp_pool_i list list"

datatype mem_event = Libc_free nat | User_free nat

definition zero_pool :: xztl_mp_pool_i where
  "zero_pool = \<lparr>po_active = False, po_in_count = 0, po_out_count = 0, po_entries = 0,
     po_alloc_fn = False, po_free_fn = False, po_head = []\<rparr>"

definition xztl_mempool_init :: "xztl_mempool \<Rightarrow> int \<times> xztl_mempool" where
  "xztl_mempool_init _ = (xz XZTL_OK, replicate XZTLMP_TYPES (replicate XZTLMP_THREADS zero_pool))"

definition pool_at :: "xztl_mempool \<Rightarrow> nat \<Rightarrow> nat \<Rightarrow> xztl_mp_pool_i option" where
  "pool_at mp type tid = do { row \<leftarrow> get_at mp type; get_at row tid }"

definition pool_upd :: "xztl_mempool \<Rightarrow> nat \<Rightarrow> nat \<Rightarrow> xztl_mp_pool_i \<Rightarrow> xztl_mempool" where
  "pool_upd mp type tid p = mp[type := (mp ! type)[tid := p]]"

text \<open>Draining a pool: every entry leaves the queue; its payload goes back through the
  user's function when both functions are set, through \<open>free\<close> otherwise.\<close>

fun release_entries :: "bool \<Rightarrow> xztl_mp_entry list \<Rightarrow> mem_event list" where
  "release_entries user [] = []"
| "release_entries user (e # es) =
     (if en_opaque e \<noteq> 0
      then [if user then User_free (en_opaque e) else Libc_free (en_opaque e)] else [])
     @ Libc_free (en_ptr e) # release_entries user es"

definition xztl_mempool_free :: "xztl_mp_pool_i \<Rightarrow> xztl_mp_pool_i \<times> mem_event list" where
  "xztl_mempool_free p =
     (p\<lparr>po_head := []\<rparr>, release_entries (po_alloc_fn p \<and> po_free_fn p) (po_head p))"

definition xztl_mempool_destroy ::
    "xztl_mempool \<Rightarrow> nat \<Rightarrow> nat \<Rightarrow> (int \<times> xztl_mempool \<times> mem_event list) option" where
  "xztl_mempool_destroy mp type tid =
     (if XZTLMP_TYPES \<le> type \<or> XZTLMP_THREADS \<le> tid
      then Some (mps XZTL_MP_OUTBOUNDS, mp, [])
      else do {
        pool \<leftarrow> pool_at mp type tid;
        if \<not> po_active pool then Some (xz XZTL_OK, mp, [])
        else
          let (pool', evs) = xztl_mempool_free (pool\<lparr>po_active := False\<rparr>)
          in Some (xz XZTL_OK,
                   pool_upd mp type tid (pool'\<lparr>po_alloc_fn := False, po_free_fn := False\<rparr>), evs)
      })"

text \<open>The allocation loop of \<open>xztl_mempool_create\<close>: it stops at the first null pointer.
  On a null payload the entry is passed to the parameter \<open>free\<close>, which shadows the C
  function of that name, and only when that parameter is set.\<close>

fun mempool_fill ::
    "(nat \<Rightarrow> nat) \<Rightarrow> (nat \<Rightarrow> nat) \<Rightarrow> bool \<Rightarrow> nat \<Rightarrow> nat \<Rightarrow> nat \<Rightarrow> xztl_mp_entry list \<Rightarrow>
     bool \<times> xztl_mp_entry list \<times> mem_event list" where
  "mempool_fill ent_at opq_at free_set tid ent_i 0 head = (True, head, [])"
| "mempool_fill ent_at opq_at free_set tid ent_i (Suc left) head =
     (if ent_at ent_i = 0 then (False, head, [])
      else if opq_at ent_i = 0
      then (False, head, if free_set then [User_free (ent_at ent_i)] else [])
      else mempool_fill ent_at opq_at free_set tid (Suc ent_i) left
             (tailq_insert_tail head
                \<lparr>en_ptr = ent_at ent_i, en_opaque = opq_at ent_i, en_tid = tid,
                 en_entry_id = ent_i\<rparr>))"

definition xztl_mempool_create ::
    "bool \<Rightarrow> (nat \<Rightarrow> nat) \<Rightarrow> (nat \<Rightarrow> nat) \<Rightarrow> xztl_mempool \<Rightarrow> nat \<Rightarrow> nat \<Rightarrow> nat \<Rightarrow> nat \<Rightarrow>
     bool \<Rightarrow> bool \<Rightarrow> (int \<times> xztl_mempool \<times> mem_event list) option" where
  "xztl_mempool_create spin_fails ent_at opq_at mp type tid entries ent_sz alloc_set free_set =
     (if XZTLMP_TYPES \<le> type \<or> XZTLMP_THREADS \<le> tid
      then Some (mps XZTL_MP_OUTBOUNDS, mp, [])
      else if entries = 0 \<or> XZTLMP_MAX_ENT < entries \<or> ent_sz = 0 \<or> XZTLMP_MAX_ENT_SZ < ent_sz
      then Some (mps XZTL_MP_INVALID, mp, [])
      else do {
        pool \<leftarrow> pool_at mp type tid;
        if po_active pool then Some (mps XZTL_MP_ACTIVE, mp, [])
        else if spin_fails then Some (mps XZTL_MP_MEMERROR, mp, [])
        else
          let pool = pool\<lparr>po_head := [], po_alloc_fn := alloc_set, po_free_fn := free_set\<rparr>;
              (ok, head, evs) = mempool_fill ent_at opq_at free_set tid 0 entries [];
              pool = pool\<lparr>po_head := head\<rparr>
          in if ok
             then Some (xz XZTL_OK,
                    pool_upd mp type tid (pool\<lparr>po_entries := entries, po_in_count := 0,
                                              po_out_count := 0, po_active := True\<rparr>), evs)
             else let (pool', evs') = xztl_mempool_free pool
                  in Some (mps XZTL_MP_MEMERROR, pool_upd mp type tid pool', evs @ evs')
      })"

definition mp_left :: "xztl_mp_pool_i \<Rightarrow> nat" where
  "mp_left pool = u32 (usub 32 (po_entries pool) (po_out_count pool) + po_in_count pool)"

definition xztl_mempool_left :: "xztl_mempool \<Rightarrow> nat \<Rightarrow> nat \<Rightarrow> nat option" where
  "xztl_mempool_left mp type tid = do {
     pool \<leftarrow> pool_at mp type tid;
     Some (mp_left pool) }"

definition mp_take :: "xztl_mp_pool_i \<Rightarrow> (xztl_mp_entry \<times> xztl_mp_pool_i) option" where
  "mp_take pool = do {
     ent \<leftarrow> tailq_first (po_head pool);
     Some (ent, pool\<lparr>po_head := tl (po_head pool), po_out_count := u16 (po_out_count pool + 1)\<rparr>) }"

definition mp_give :: "xztl_mp_entry \<Rightarrow> xztl_mp_pool_i \<Rightarrow> xztl_mp_pool_i" where
  "mp_give ent pool = pool\<lparr>po_head := tailq_insert_tail (po_head pool) ent\<rparr>"

definition xztl_mempool_get ::
    "xztl_mempool \<Rightarrow> nat \<Rightarrow> nat \<Rightarrow> (xztl_mp_entry \<times> xztl_mempool) option" where
  "xztl_mempool_get mp type tid = do {
     pool \<leftarrow> pool_at mp type tid;
     (ent, pool') \<leftarrow> mp_take pool;
     Some (ent, pool_upd mp type tid pool') }"

definition xztl_mempool_put ::
    "xztl_mempool \<Rightarrow> xztl_mp_entry \<Rightarrow> nat \<Rightarrow> nat \<Rightarrow> xztl_mempool option" where
  "xztl_mempool_put mp ent type tid = do {
     pool \<leftarrow> pool_at mp type tid;
     Some (pool_upd mp type tid (mp_give ent pool)) }"

fun mempool_destroy_all ::
    "(nat \<times> nat) list \<Rightarrow> xztl_mempool \<Rightarrow> (xztl_mempool \<times> mem_event list) option" where
  "mempool_destroy_all [] mp = Some (mp, [])"
| "mempool_destroy_all ((type, tid) # ps) mp = do {
     (_, mp', evs) \<leftarrow> xztl_mempool_destroy mp type tid;
     (mp'', evs') \<leftarrow> mempool_destroy_all ps mp';
     Some (mp'', evs @ evs') }"

definition xztl_mempool_exit :: "xztl_mempool \<Rightarrow> (int \<times> xztl_mempool \<times> mem_event list) option" where
  "xztl_mempool_exit mp = do {
     (mp', evs) \<leftarrow> mempool_destroy_all (List.product [0..<XZTLMP_TYPES] [0..<XZTLMP_THREADS]) mp;
     Some (xz XZTL_OK, mp', evs) }"

section \<open>The contract of a pool\<close>

text \<open>Clients of a pool take entries and give entries back, in any order.\<close>

datatype pool_op = Take | Give nat

fun pool_trace ::
    "('p \<Rightarrow> ('e \<times> 'p) option) \<Rightarrow> ('e \<Rightarrow> 'p \<Rightarrow> 'p) \<Rightarrow> pool_op list \<Rightarrow> 'p \<Rightarrow> 'e list \<Rightarrow>
     ('p \<times> 'e list) option" where
  "pool_trace take_fn give_fn [] p held = Some (p, held)"
| "pool_trace take_fn give_fn (Take # ops) p held = do {
     (e, p') \<leftarrow> take_fn p;
     pool_trace take_fn give_fn ops p' (e # held) }"
| "pool_trace take_fn give_fn (Give i # ops) p held = do {
     e \<leftarrow> get_at held i;
     pool_trace take_fn give_fn ops (give_fn e p) (List.take i held @ drop (Suc i) held) }"

locale entry_pool =
  fixes take_fn :: "'p \<Rightarrow> ('e \<times> 'p) option"
    and give_fn :: "'e \<Rightarrow> 'p \<Rightarrow> 'p"
    and free_ents :: "'p \<Rightarrow> 'e list"
  assumes take_None: "take_fn p = None \<longleftrightarrow> free_ents p = []"
    and take_Some: "take_fn p = Some (e, p') \<Longrightarrow> free_ents p = e # free_ents p'"
    and give_free: "free_ents (give_fn e p) = free_ents p @ [e]"
begin

lemma mset_remove_at: "i < length xs \<Longrightarrow> mset xs = add_mset (xs ! i) (mset (List.take i xs @ drop (Suc i) xs))"
  by (subst id_take_nth_drop, assumption) simp

lemma trace_conserves:
  "pool_trace take_fn give_fn ops p held = Some (p', held') \<Longrightarrow>
   mset (free_ents p') + mset held' = mset (free_ents p) + mset held"
proof (induction ops arbitrary: p held)
  case Nil
  then show ?case by simp
next
  case (Cons oper ops)
  show ?case
  proof (cases oper)
    case Take
    with Cons.prems obtain e q where q: "take_fn p = Some (e, q)"
      "pool_trace take_fn give_fn ops q (e # held) = Some (p', held')"
      by (auto split: bind_splits)
    with Cons.IH [OF q(2)] take_Some [OF q(1)] show ?thesis by simp
  next
    case (Give i)
    with Cons.prems have g: "i < length held"
      "pool_trace take_fn give_fn ops (give_fn (held ! i) p) (List.take i held @ drop (Suc i) held)
        = Some (p', held')"
      by (auto split: bind_splits)
    with Cons.IH [OF g(2)] mset_remove_at [OF g(1)] show ?thesis by (simp add: give_free)
  qed
qed

text \<open>No entry is ever in two hands, and a pool is exhausted only when all are taken.\<close>

lemma trace_exclusive:
  assumes run: "pool_trace take_fn give_fn ops p [] = Some (p', held')"
    and "distinct (free_ents p)"
  shows "distinct held' \<and> set held' \<inter> set (free_ents p') = {} \<and>
         length held' + length (free_ents p') = length (free_ents p)"
proof -
  from trace_conserves [OF run] have m: "mset (free_ents p' @ held') = mset (free_ents p)" by simp
  then have "distinct (free_ents p' @ held')" and "length (free_ents p' @ held') = length (free_ents p)"
    using assms(2) by (metis mset_eq_imp_distinct_iff, metis mset_eq_length)
  then show ?thesis by auto
qed

lemma take_succeeds_iff:
  assumes "pool_trace take_fn give_fn ops p [] = Some (p', held')"
  shows "(\<exists>e p''. take_fn p' = Some (e, p'')) \<longleftrightarrow> length held' < length (free_ents p)"
proof -
  have "length (free_ents p') + length held' = length (free_ents p)"
    using arg_cong [OF trace_conserves [OF assms], of size] by simp
  moreover have "(\<exists>e p''. take_fn p' = Some (e, p'')) \<longleftrightarrow> free_ents p' \<noteq> []"
    using take_None [of p'] by (cases "take_fn p'") auto
  ultimately show ?thesis by (cases "free_ents p'") auto
qed

end

interpretation mp: entry_pool mp_take mp_give po_head
  by unfold_locales (auto simp: mp_take_def mp_give_def tailq_insert_tail_def split: bind_splits)

section \<open>Lemmas\<close>

definition mp_wf :: "xztl_mempool \<Rightarrow> bool" where
  "mp_wf mp \<longleftrightarrow> length mp = XZTLMP_TYPES \<and> (\<forall>row \<in> set mp. length row = XZTLMP_THREADS)"

lemma mp_wf_init: "mp_wf (snd (xztl_mempool_init mp))"
  by (simp add: mp_wf_def xztl_mempool_init_def)

lemma pool_at_wf:
  "\<lbrakk>mp_wf mp; type < 5; tid < 64\<rbrakk> \<Longrightarrow> pool_at mp type tid = Some (mp ! type ! tid)"
  by (simp add: pool_at_def mp_wf_def)

lemma mp_wf_row: "\<lbrakk>mp_wf mp; type < 5\<rbrakk> \<Longrightarrow> length (mp ! type) = 64"
  by (simp add: mp_wf_def)

lemma pool_at_upd:
  "\<lbrakk>mp_wf mp; type < 5; tid < 64\<rbrakk> \<Longrightarrow>
   pool_at (pool_upd mp type tid p) type' tid' =
     (if type' = type \<and> tid' = tid then Some p else pool_at mp type' tid')"
  by (auto simp: pool_at_def pool_upd_def mp_wf_def get_at_def nth_list_update)

lemma mp_wf_upd: "\<lbrakk>mp_wf mp; type < 5; tid < 64\<rbrakk> \<Longrightarrow> mp_wf (pool_upd mp type tid p)"
  using mp_wf_row [of mp type]
  by (auto simp: mp_wf_def pool_upd_def dest!: subsetD [OF set_update_subset_insert])

definition mk_entry :: "(nat \<Rightarrow> nat) \<Rightarrow> (nat \<Rightarrow> nat) \<Rightarrow> nat \<Rightarrow> nat \<Rightarrow> xztl_mp_entry" where
  "mk_entry ent_at opq_at tid i =
     \<lparr>en_ptr = ent_at i, en_opaque = opq_at i, en_tid = tid, en_entry_id = i\<rparr>"

lemma mempool_fill_ok:
  assumes "\<And>i. \<lbrakk>ent_i \<le> i; i < ent_i + left\<rbrakk> \<Longrightarrow> ent_at i \<noteq> 0 \<and> opq_at i \<noteq> 0"
  shows "mempool_fill ent_at opq_at fs tid ent_i left head =
    (True, head @ map (mk_entry ent_at opq_at tid) [ent_i..<ent_i + left], [])"
  using assms
proof (induction left arbitrary: ent_i head)
  case 0
  then show ?case by simp
next
  case (Suc left)
  have ok: "ent_at ent_i \<noteq> 0 \<and> opq_at ent_i \<noteq> 0" using Suc.prems by simp
  have "[ent_i..<ent_i + Suc left] = ent_i # [Suc ent_i..<Suc ent_i + left]"
    by (simp add: upt_conv_Cons)
  with ok Suc.IH [of "Suc ent_i"] Suc.prems show ?case
    by (simp add: tailq_insert_tail_def mk_entry_def)
qed

lemma mempool_fill_fails:
  assumes "ent_i \<le> n" "n < ent_i + left" "ent_at n = 0 \<or> opq_at n = 0"
    and "\<And>i. \<lbrakk>ent_i \<le> i; i < n\<rbrakk> \<Longrightarrow> ent_at i \<noteq> 0 \<and> opq_at i \<noteq> 0"
  shows "mempool_fill ent_at opq_at fs tid ent_i left head =
    (False, head @ map (mk_entry ent_at opq_at tid) [ent_i..<n],
     if ent_at n \<noteq> 0 \<and> fs then [User_free (ent_at n)] else [])"
  using assms
proof (induction left arbitrary: ent_i head)
  case 0
  then show ?case by simp
next
  case (Suc left)
  show ?case
  proof (cases "n = ent_i")
    case True
    with Suc.prems(3) show ?thesis by auto
  next
    case False
    with Suc.prems have ok: "ent_at ent_i \<noteq> 0 \<and> opq_at ent_i \<noteq> 0" "Suc ent_i \<le> n" by simp_all
    then have "[ent_i..<n] = ent_i # [Suc ent_i..<n]" by (simp add: upt_conv_Cons)
    with ok Suc.IH [of "Suc ent_i"] Suc.prems show ?thesis
      by (simp add: tailq_insert_tail_def mk_entry_def)
  qed
qed

lemmas mempool_call_defs = xztl_mempool_get_def xztl_mempool_put_def xztl_mempool_left_def
  mp_take_def mp_give_def

section \<open>Properties\<close>

text \<open>C23: Creating a pool with valid arguments in an unused slot, when every allocation
  succeeds, returns \<open>XZTL_OK\<close>, leaves the slot active with exactly the requested entries,
  numbered in order and all free, releases nothing and touches no other pool.\<close>

theorem mempool_create_correct:
  assumes "mp_wf mp" "type < 5" "tid < 64" "\<not> po_active (mp ! type ! tid)"
    and "0 < entries" "entries \<le> 65538" "0 < ent_sz" "ent_sz \<le> 1048576"
    and "\<And>i. i < entries \<Longrightarrow> ent_at i \<noteq> 0 \<and> opq_at i \<noteq> 0"
  shows "\<exists>mp' pool. xztl_mempool_create False ent_at opq_at mp type tid entries ent_sz al fr
      = Some (xz XZTL_OK, mp', []) \<and> mp_wf mp' \<and>
    pool_at mp' type tid = Some pool \<and> po_active pool \<and> po_entries pool = entries \<and>
    map en_entry_id (po_head pool) = [0..<entries] \<and>
    map en_opaque (po_head pool) = map opq_at [0..<entries] \<and>
    (\<forall>ty td. (ty, td) \<noteq> (type, tid) \<longrightarrow> pool_at mp' ty td = pool_at mp ty td)"
proof -
  have fill: "mempool_fill ent_at opq_at fr tid 0 entries [] =
      (True, map (mk_entry ent_at opq_at tid) [0..<entries], [])"
    using mempool_fill_ok [of 0 entries] assms(9) by simp
  define pool where "pool = (mp ! type ! tid)\<lparr>po_alloc_fn := al, po_free_fn := fr,
      po_head := map (mk_entry ent_at opq_at tid) [0..<entries], po_entries := entries,
      po_in_count := 0, po_out_count := 0, po_active := True\<rparr>"
  have "xztl_mempool_create False ent_at opq_at mp type tid entries ent_sz al fr
      = Some (xz XZTL_OK, pool_upd mp type tid pool, [])"
    using assms fill by (simp add: xztl_mempool_create_def pool_at_wf pool_def)
  moreover have "map en_entry_id (po_head pool) = [0..<entries]"
    "map en_opaque (po_head pool) = map opq_at [0..<entries]" "po_active pool" "po_entries pool = entries"
    by (simp_all add: pool_def mk_entry_def comp_def)
  ultimately show ?thesis
    using assms by (intro exI [of _ "pool_upd mp type tid pool"] exI [of _ pool])
      (auto simp: mp_wf_upd pool_at_upd)
qed

theorem mempool_create_correct_witness:
  "\<exists>mp' pool. xztl_mempool_create False (\<lambda>i. 100 + i) (\<lambda>i. 200 + i)
      (snd (xztl_mempool_init [])) 4 0 384 32 False False = Some (xz XZTL_OK, mp', []) \<and> mp_wf mp' \<and>
    pool_at mp' 4 0 = Some pool \<and> po_active pool \<and> po_entries pool = 384 \<and>
    map en_entry_id (po_head pool) = [0..<384] \<and>
    map en_opaque (po_head pool) = map (\<lambda>i. 200 + i) [0..<384] \<and>
    (\<forall>ty td. (ty, td) \<noteq> (4, 0) \<longrightarrow> pool_at mp' ty td = pool_at (snd (xztl_mempool_init [])) ty td)"
proof -
  have "\<not> po_active (snd (xztl_mempool_init []) ! 4 ! 0)"
    by (simp add: xztl_mempool_init_def zero_pool_def)
  then show ?thesis
    using mempool_create_correct [OF mp_wf_init, of 4 0 "[]" 384 32 "\<lambda>i. 100 + i" "\<lambda>i. 200 + i" False False]
    by simp
qed

text \<open>C24: Whatever sequence of gets and puts the users of a pool perform, no entry is held
  twice or held while free, none is lost, and a get succeeds (does not keep retrying)
  exactly when fewer entries are held than the pool was created with.\<close>

theorem mempool_entries_exclusive:
  assumes "pool_trace mp_take mp_give ops pool [] = Some (pool', held)"
    and "distinct (po_head pool)"
  shows "distinct held \<and> set held \<inter> set (po_head pool') = {} \<and>
    length held + length (po_head pool') = length (po_head pool) \<and>
    ((\<exists>ent pool''. mp_take pool' = Some (ent, pool'')) \<longleftrightarrow> length held < length (po_head pool))"
  using mp.trace_exclusive [OF assms] mp.take_succeeds_iff [OF assms(1)] by simp

definition sample_pool :: xztl_mp_pool_i where
  "sample_pool = zero_pool\<lparr>po_active := True, po_entries := 3,
     po_head := map (mk_entry (\<lambda>i. 100 + i) (\<lambda>i. 200 + i) 0) [0, 1, 2]\<rparr>"

theorem mempool_entries_exclusive_witness:
  "\<exists>pool' held. pool_trace mp_take mp_give [Take, Take, Give 1, Take] sample_pool [] = Some (pool', held) \<and>
    distinct held \<and> length held + length (po_head pool') = 3 \<and>
    ((\<exists>ent pool''. mp_take pool' = Some (ent, pool'')) \<longleftrightarrow> length held < 3)"
proof -
  have run: "\<exists>pool' held. pool_trace mp_take mp_give [Take, Take, Give 1, Take] sample_pool [] = Some (pool', held)"
    by (simp add: sample_pool_def zero_pool_def mk_entry_def mp_take_def mp_give_def tailq_first_def
        tailq_insert_tail_def)
  then obtain pool' held where
    run: "pool_trace mp_take mp_give [Take, Take, Give 1, Take] sample_pool [] = Some (pool', held)" by blast
  moreover have "distinct (po_head sample_pool)" "length (po_head sample_pool) = 3"
    by (simp_all add: sample_pool_def mk_entry_def)
  ultimately show ?thesis using mempool_entries_exclusive [OF run] by auto
qed

text \<open>The two counters behind \<open>xztl_mempool_left\<close>: a get moves one of them, and in this
  build nothing moves the other.\<close>

lemma get_put_round:
  assumes "po_head pool \<noteq> []"
  shows "pool_trace mp_take mp_give [Take, Give 0] pool [] =
    Some (pool\<lparr>po_head := tl (po_head pool) @ [hd (po_head pool)],
               po_out_count := u16 (po_out_count pool + 1)\<rparr>, [])"
  using assms by (cases "po_head pool")
    (simp_all add: mp_take_def mp_give_def tailq_first_def tailq_insert_tail_def)

lemma pool_trace_append:
  "pool_trace take_fn give_fn (xs @ ys) p held =
     do { (p', held') \<leftarrow> pool_trace take_fn give_fn xs p held; pool_trace take_fn give_fn ys p' held' }"
proof (induction take_fn give_fn xs p held rule: pool_trace.induct)
  case (2 take_fn give_fn ops p held)
  then show ?case by (cases "take_fn p") auto
next
  case (3 take_fn give_fn i ops p held)
  then show ?case by (cases "i < length held") (auto simp: get_at_def)
qed simp

lemma get_put_rounds:
  assumes "po_head pool \<noteq> []" "po_out_count pool + n < 65536"
  shows "\<exists>h. pool_trace mp_take mp_give (concat (replicate n [Take, Give 0])) pool [] =
      Some (pool\<lparr>po_head := h, po_out_count := po_out_count pool + n\<rparr>, []) \<and>
    mset h = mset (po_head pool)"
  using assms
proof (induction n arbitrary: pool)
  case 0
  then show ?case by (intro exI [of _ "po_head pool"]) simp
next
  case (Suc n)
  define pool1 where "pool1 = pool\<lparr>po_head := tl (po_head pool) @ [hd (po_head pool)],
    po_out_count := po_out_count pool + 1\<rparr>"
  have step: "pool_trace mp_take mp_give [Take, Give 0] pool [] = Some (pool1, [])"
    using Suc.prems get_put_round [of pool] by (simp add: pool1_def u16_small)
  have ms: "mset (po_head pool1) = mset (po_head pool)" "po_head pool1 \<noteq> []"
    using Suc.prems(1) by (cases "po_head pool"; simp add: pool1_def)+
  from Suc.IH [of pool1] Suc.prems ms obtain h where
    "pool_trace mp_take mp_give (concat (replicate n [Take, Give 0])) pool1 [] =
      Some (pool1\<lparr>po_head := h, po_out_count := po_out_count pool1 + n\<rparr>, [])"
    "mset h = mset (po_head pool1)" by (auto simp: pool1_def)
  moreover have "pool_trace mp_take mp_give (concat (replicate (Suc n) [Take, Give 0])) pool [] =
      pool_trace mp_take mp_give (concat (replicate n [Take, Give 0])) pool1 []"
    by (simp only: replicate_Suc concat.simps pool_trace_append step) simp
  ultimately show ?case
    using ms(1) by (intro exI [of _ h]) (simp add: pool1_def)
qed

text \<open>\<open>xztl_mempool_left\<close> does not count the free entries. After \<open>n\<close> rounds of one
  get and one put on a fresh pool every entry is free again, yet the reported number has
  dropped by \<open>n\<close>; after as many rounds as there are entries it reports an empty pool.\<close>

theorem mempool_left_counts_gets:
  assumes "po_head pool \<noteq> []" "po_entries pool = length (po_head pool)"
    and "po_out_count pool = 0" "po_in_count pool = 0"
    and "n \<le> po_entries pool" "po_entries pool < 65536"
  shows "\<exists>pool'. pool_trace mp_take mp_give (concat (replicate n [Take, Give 0])) pool [] = Some (pool', []) \<and>
    mset (po_head pool') = mset (po_head pool) \<and> mp_left pool' = po_entries pool - n"
proof -
  from get_put_rounds [of pool n] assms obtain h where h:
    "pool_trace mp_take mp_give (concat (replicate n [Take, Give 0])) pool [] =
      Some (pool\<lparr>po_head := h, po_out_count := n\<rparr>, [])" "mset h = mset (po_head pool)" by auto
  moreover have "mp_left (pool\<lparr>po_head := h, po_out_count := n\<rparr>) = po_entries pool - n"
    using assms usub_small [of n "po_entries pool" 32] by (simp add: mp_left_def u32_small)
  ultimately show ?thesis by auto
qed

theorem mempool_left_counts_gets_witness:
  "\<exists>pool'. pool_trace mp_take mp_give (concat (replicate 3 [Take, Give 0])) sample_pool [] = Some (pool', []) \<and>
    mset (po_head pool') = mset (po_head sample_pool) \<and> mp_left pool' = 0"
  using mempool_left_counts_gets [of sample_pool 3]
  by (simp add: sample_pool_def zero_pool_def)

text \<open>C27: When the allocation of slot \<open>n\<close> fails, creation returns \<open>XZTL_MP_MEMERROR\<close>,
  the slot stays inactive with an empty queue, and the entries built before are released
  once each. The entry of slot \<open>n\<close> itself, allocated with \<open>aligned_alloc\<close>, is handed
  to the caller's release function when there is one and is never released otherwise.\<close>

theorem mempool_create_memerror:
  assumes "mp_wf mp" "type < 5" "tid < 64" "\<not> po_active (mp ! type ! tid)"
    and "entries \<le> 65538" "0 < ent_sz" "ent_sz \<le> 1048576"
    and "n < entries" "ent_at n = 0 \<or> opq_at n = 0"
    and "\<And>i. i < n \<Longrightarrow> ent_at i \<noteq> 0 \<and> opq_at i \<noteq> 0"
  shows "\<exists>mp' pool. xztl_mempool_create False ent_at opq_at mp type tid entries ent_sz al fr =
      Some (mps XZTL_MP_MEMERROR, mp',
        (if ent_at n \<noteq> 0 \<and> fr then [User_free (ent_at n)] else []) @
        release_entries (al \<and> fr) (map (mk_entry ent_at opq_at tid) [0..<n])) \<and>
    pool_at mp' type tid = Some pool \<and> \<not> po_active pool \<and> po_head pool = []"
proof -
  have fill: "mempool_fill ent_at opq_at fr tid 0 entries [] =
      (False, map (mk_entry ent_at opq_at tid) [0..<n],
       if ent_at n \<noteq> 0 \<and> fr then [User_free (ent_at n)] else [])"
    using mempool_fill_fails [of 0 n entries] assms(8-10) by simp
  define pool where "pool = (mp ! type ! tid)\<lparr>po_alloc_fn := al, po_free_fn := fr, po_head := []\<rparr>"
  have "xztl_mempool_create False ent_at opq_at mp type tid entries ent_sz al fr =
      Some (mps XZTL_MP_MEMERROR, pool_upd mp type tid pool,
        (if ent_at n \<noteq> 0 \<and> fr then [User_free (ent_at n)] else []) @
        release_entries (al \<and> fr) (map (mk_entry ent_at opq_at tid) [0..<n]))"
    using assms fill
    by (simp add: xztl_mempool_create_def xztl_mempool_free_def pool_at_wf pool_def)
  then show ?thesis
    using assms by (intro exI [of _ "pool_upd mp type tid pool"] exI [of _ pool])
      (simp add: pool_at_upd pool_def)
qed

theorem mempool_create_memerror_witness:
  "\<exists>mp' pool. xztl_mempool_create False (\<lambda>i. 100 + i) (\<lambda>i. if i = 1 then 0 else 200 + i)
      (snd (xztl_mempool_init [])) 2 0 4 4096 True True =
      Some (mps XZTL_MP_MEMERROR, mp', [User_free 101, User_free 200, Libc_free 100]) \<and>
    pool_at mp' 2 0 = Some pool \<and> \<not> po_active pool \<and> po_head pool = []"
proof -
  have "\<not> po_active (snd (xztl_mempool_init []) ! 2 ! 0)"
    by (simp add: xztl_mempool_init_def zero_pool_def)
  then show ?thesis
    using mempool_create_memerror [OF mp_wf_init, of 2 0 "[]" 4 4096 1 "\<lambda>i. 100 + i"
        "\<lambda>i. if i = 1 then 0 else 200 + i" True True]
    by (simp add: mk_entry_def)
qed

end
