(* ===== verification/Xztl_Core.thy ===== *)
theory Xztl_Core
  imports Xztl_Types
begin

text \<open>
  The media abstraction of \<open>xztl-core.c\<close>: the check of a media layer and of its
  geometry, the derived geometry fields (computed in 32-bit arithmetic, as the C
  expressions are), the installation of a media layer, and the calls through its
  function pointers. A call through a null pointer is undefined (\<open>None\<close>).
\<close>

section \<open>Model\<close>

abbreviation (input) XZTL_MEDIA_MAX_GRP :: nat where "XZTL_MEDIA_MAX_GRP \<equiv> 128"
abbreviation (input) XZTL_MEDIA_MAX_PUGRP :: nat where "XZTL_MEDIA_MAX_PUGRP \<equiv> 8"
abbreviation (input) XZTL_MEDIA_MAX_ZNPU :: nat where "XZTL_MEDIA_MAX_ZNPU \<equiv> 8388608"
abbreviation (input) XZTL_MEDIA_MAX_SECZN :: nat where "XZTL_MEDIA_MAX_SECZN \<equiv> 8388608"
abbreviation (input) XZTL_MEDIA_MAX_SECSZ :: nat where "XZTL_MEDIA_MAX_SECSZ \<equiv> 1048576"
abbreviation (input) XZTL_MEDIA_MAX_OOBSZ :: nat where "XZTL_MEDIA_MAX_OOBSZ \<equiv> 128"

text \<open>\<open>core.media\<close>: null until a media layer is installed.\<close>

type_synonym 's xztl_core = "'s xztl_media option"

definition geo_bad :: "xztl_mgeo \<Rightarrow> bool" where
  "geo_bad g \<longleftrightarrow>
     ge_ngrps g = 0 \<or> XZTL_MEDIA_MAX_GRP < ge_ngrps g \<or>
     ge_pu_grp g = 0 \<or> XZTL_MEDIA_MAX_PUGRP < ge_pu_grp g \<or>
     ge_zn_pu g = 0 \<or> XZTL_MEDIA_MAX_ZNPU < ge_zn_pu g \<or>
     ge_sec_zn g = 0 \<or> XZTL_MEDIA_MAX_SECZN < ge_sec_zn g \<or>
     ge_nbytes g = 0 \<or> XZTL_MEDIA_MAX_SECSZ < ge_nbytes g \<or>
     XZTL_MEDIA_MAX_OOBSZ < ge_nbytes_oob g"

text \<open>The assignments run in order, each reading the fields set before. All of them are
  32-bit products, except \<open>nbytes_grp\<close>; the product for \<open>nbytes_zn\<close> is formed in 32
  bits before the factor \<open>1UL\<close> widens it.\<close>

definition geo_fill :: "xztl_mgeo \<Rightarrow> xztl_mgeo" where
  "geo_fill g =
     (let g = g\<lparr>ge_zn_grp := u32 (ge_pu_grp g * ge_zn_pu g)\<rparr>;
          g = g\<lparr>ge_zn_dev := u32 (ge_zn_grp g * ge_ngrps g)\<rparr>;
          g = g\<lparr>ge_sec_grp := u32 (ge_zn_grp g * ge_sec_zn g)\<rparr>;
          g = g\<lparr>ge_sec_pu := u32 (ge_zn_pu g * ge_sec_zn g)\<rparr>;
          g = g\<lparr>ge_sec_dev := u32 (ge_sec_grp g * ge_ngrps g)\<rparr>;
          g = g\<lparr>ge_nbytes_zn := u32 (ge_nbytes g * ge_sec_zn g)\<rparr>;
          g = g\<lparr>ge_nbytes_grp := u64 (ge_nbytes_zn g * ge_zn_grp g)\<rparr>;
          g = g\<lparr>ge_oob_grp := u32 (ge_sec_grp g * ge_nbytes_oob g)\<rparr>;
          g = g\<lparr>ge_oob_pu := u32 (ge_sec_pu g * ge_nbytes_oob g)\<rparr>
      in g\<lparr>ge_oob_zn := u32 (ge_sec_zn g * ge_nbytes_oob g)\<rparr>)"

definition xztl_media_check :: "'s xztl_media \<Rightarrow> int \<times> 's xztl_media" where
  "xztl_media_check m =
     (if mm_init_fn m = None then (xz XZTL_NOINIT, m)
      else if mm_exit_fn m = None then (xz XZTL_NOEXIT, m)
      else if mm_submit_io m = None then (xz XZTL_MEDIA_NOIO, m)
      else if mm_zone_fn m = None then (xz XZTL_MEDIA_NOZONE, m)
      else if mm_dma_alloc m = None then (xz XZTL_MEDIA_NOALLOC, m)
      else if mm_dma_free m = None then (xz XZTL_MEDIA_NOFREE, m)
      else if geo_bad (mm_geo m) then (xz XZTL_MEDIA_GEO, m)
      else (xz XZTL_OK, m\<lparr>mm_geo := geo_fill (mm_geo m)\<rparr>))"

definition xztl_media_set :: "bool \<Rightarrow> 's xztl_media \<Rightarrow> 's xztl_core \<Rightarrow> int \<times> 's xztl_core" where
  "xztl_media_set malloc_fails media core =
     (let (ret, media') = xztl_media_check media
      in if ret \<noteq> 0 then (ret, core)
         else if malloc_fails then (xz XZTL_MEM, None)
         else (xz XZTL_OK, Some media'))"

definition xztl_media_init :: "'s xztl_core \<Rightarrow> 's \<Rightarrow> int \<times> 's" where
  "xztl_media_init core s =
     (case core of None \<Rightarrow> (xz XZTL_NOMEDIA, s)
      | Some m \<Rightarrow> (case mm_init_fn m of None \<Rightarrow> (xz XZTL_NOINIT, s) | Some f \<Rightarrow> f s))"

definition xztl_media_exit :: "'s xztl_core \<Rightarrow> 's \<Rightarrow> int \<times> 's" where
  "xztl_media_exit core s =
     (case core of None \<Rightarrow> (xz XZTL_NOMEDIA, s)
      | Some m \<Rightarrow> (case mm_exit_fn m of None \<Rightarrow> (xz XZTL_NOEXIT, s) | Some f \<Rightarrow> f s))"

definition xztl_media_submit_io ::
    "'s xztl_core \<Rightarrow> xztl_io_mcmd \<Rightarrow> 's \<Rightarrow> (int \<times> xztl_io_mcmd \<times> 's) option" where
  "xztl_media_submit_io core cmd s = do { m \<leftarrow> core; f \<leftarrow> mm_submit_io m; f cmd s }"

definition xztl_media_submit_zn ::
    "'s xztl_core \<Rightarrow> xztl_zn_mcmd \<Rightarrow> 's \<Rightarrow> (int \<times> xztl_zn_mcmd \<times> 's) option" where
  "xztl_media_submit_zn core cmd s = do { m \<leftarrow> core; f \<leftarrow> mm_zone_fn m; f cmd s }"

definition xztl_media_submit_misc ::
    "'s xztl_core \<Rightarrow> xztl_misc_cmd \<Rightarrow> 's \<Rightarrow> (int \<times> xztl_misc_cmd \<times> 's) option" where
  "xztl_media_submit_misc core cmd s = do { m \<leftarrow> core; f \<leftarrow> mm_cmd_exec m; f cmd s }"

definition xztl_media_dma_alloc :: "'s xztl_core \<Rightarrow> nat \<Rightarrow> 's \<Rightarrow> (nat \<times> 's) option" where
  "xztl_media_dma_alloc core bytes s = do { m \<leftarrow> core; f \<leftarrow> mm_dma_alloc m; Some (f bytes s) }"

definition xztl_media_dma_free :: "'s xztl_core \<Rightarrow> nat \<Rightarrow> 's \<Rightarrow> 's option" where
  "xztl_media_dma_free core ptr s = do { m \<leftarrow> core; f \<leftarrow> mm_dma_free m; Some (f ptr s) }"

section \<open>Lemmas\<close>

lemma geo_fill_inputs [simp]:
  "ge_ngrps (geo_fill g) = ge_ngrps g" "ge_pu_grp (geo_fill g) = ge_pu_grp g"
  "ge_zn_pu (geo_fill g) = ge_zn_pu g" "ge_sec_zn (geo_fill g) = ge_sec_zn g"
  "ge_nbytes (geo_fill g) = ge_nbytes g" "ge_nbytes_oob (geo_fill g) = ge_nbytes_oob g"
  by (simp_all add: geo_fill_def Let_def)

lemma geo_fill_derived:
  "ge_zn_grp (geo_fill g) = u32 (ge_pu_grp g * ge_zn_pu g)"
  "ge_sec_grp (geo_fill g) = u32 (ge_zn_grp (geo_fill g) * ge_sec_zn g)"
  "ge_sec_dev (geo_fill g) = u32 (ge_sec_grp (geo_fill g) * ge_ngrps g)"
  "ge_zn_dev (geo_fill g) = u32 (ge_zn_grp (geo_fill g) * ge_ngrps g)"
  "ge_nbytes_zn (geo_fill g) = u32 (ge_nbytes g * ge_sec_zn g)"
  "ge_nbytes_grp (geo_fill g) = u64 (ge_nbytes_zn (geo_fill g) * ge_zn_grp (geo_fill g))"
  by (simp_all add: geo_fill_def Let_def)

text \<open>The zones of a group always fit: the limits keep that product under \<open>2 ^ 26\<close>.\<close>

lemma zn_grp_exact:
  assumes "\<not> geo_bad g"
  shows "ge_zn_grp (geo_fill g) = ge_pu_grp g * ge_zn_pu g" "0 < ge_zn_grp (geo_fill g)"
    "ge_zn_grp (geo_fill g) \<le> 67108864"
proof -
  have "ge_pu_grp g \<le> 8" "ge_zn_pu g \<le> 8388608" "0 < ge_pu_grp g" "0 < ge_zn_pu g"
    using assms by (simp_all add: geo_bad_def)
  then have b: "ge_pu_grp g * ge_zn_pu g \<le> 8 * 8388608" "0 < ge_pu_grp g * ge_zn_pu g"
    using mult_le_mono [of "ge_pu_grp g" 8 "ge_zn_pu g" 8388608] by simp_all
  then show "ge_zn_grp (geo_fill g) = ge_pu_grp g * ge_zn_pu g"
    by (simp add: geo_fill_derived u32_small)
  with b show "0 < ge_zn_grp (geo_fill g)" "ge_zn_grp (geo_fill g) \<le> 67108864" by simp_all
qed

text \<open>A geometry, and a media layer whose zone commands succeed without a report, for the
  witnesses.\<close>

definition sample_geo :: xztl_mgeo where
  "sample_geo = \<lparr>ge_ngrps = 1, ge_pu_grp = 1, ge_zn_pu = 904, ge_sec_zn = 1048576, ge_nbytes = 4096,
     ge_nbytes_oob = 0, ge_zn_dev = 0, ge_zn_grp = 0, ge_sec_dev = 0, ge_sec_grp = 0, ge_sec_pu = 0,
     ge_nbytes_zn = 0, ge_nbytes_grp = 0, ge_oob_grp = 0, ge_oob_pu = 0, ge_oob_zn = 0\<rparr>"

definition sample_media :: "unit xztl_media" where
  "sample_media = \<lparr>mm_geo = geo_fill sample_geo, mm_init_fn = None, mm_exit_fn = None,
     mm_submit_io = None, mm_zone_fn = Some (\<lambda>c s. Some (0, c, s)), mm_dma_alloc = None,
     mm_dma_free = None, mm_cmd_exec = None\<rparr>"

definition sample_zn_mcmd :: xztl_zn_mcmd where
  "sample_zn_mcmd = \<lparr>zc_opcode = 0, zc_status = 0, zc_addr = 0, zc_nzones = 0, zc_opaque = None\<rparr>"

lemma sample_media_geo [simp]:
  "ge_ngrps (mm_geo sample_media) = 1" "ge_zn_grp (mm_geo sample_media) = 904"
  "ge_sec_zn (mm_geo sample_media) = 1048576" "ge_nbytes (mm_geo sample_media) = 4096"
  by (simp_all add: sample_media_def sample_geo_def geo_fill_derived u32_small)

section \<open>Properties\<close>

text \<open>A media layer is installed exactly when its six function pointers are set, its geometry has between 1 and
  128 groups, 8 units per group, 8388608 zones per unit and 8388608 sectors per zone, sectors of 1 byte to 1 MB and at
  most 128 bytes of metadata per sector, and memory is available. The installed layer has the functions of the layer
  and exact counts of zones per group and of sectors per unit below \<open>2 ^ 32\<close>; its count of all zones is exact if
  and only if it is below \<open>2 ^ 32\<close>. A layer that is refused leaves the installed one, and a failed allocation removes it.\<close>

theorem media_set_correct:
  assumes "xztl_media_set malloc_fails media core = (ret, core')" "g = mm_geo media"
  shows "(ret = xz XZTL_OK \<longleftrightarrow>
      mm_init_fn media \<noteq> None \<and> mm_exit_fn media \<noteq> None \<and> mm_submit_io media \<noteq> None \<and>
      mm_zone_fn media \<noteq> None \<and> mm_dma_alloc media \<noteq> None \<and> mm_dma_free media \<noteq> None \<and>
      ge_ngrps g \<in> {1..128} \<and> ge_pu_grp g \<in> {1..8} \<and> ge_zn_pu g \<in> {1..8388608} \<and> ge_sec_zn g \<in> {1..8388608} \<and>
      ge_nbytes g \<in> {1..1048576} \<and> ge_nbytes_oob g \<le> 128 \<and> \<not> malloc_fails) \<and>
    (ret = xz XZTL_OK \<longrightarrow> (\<exists>g'. core' = Some (media\<lparr>mm_geo := g'\<rparr>) \<and> ge_ngrps g' = ge_ngrps g \<and> ge_sec_zn g' = ge_sec_zn g \<and>
      ge_nbytes g' = ge_nbytes g \<and> ge_zn_grp g' = ge_pu_grp g * ge_zn_pu g \<and>
      (ge_zn_dev g' = ge_ngrps g * ge_pu_grp g * ge_zn_pu g \<longleftrightarrow> ge_ngrps g * ge_pu_grp g * ge_zn_pu g < 2 ^ 32) \<and>
      (ge_zn_pu g * ge_sec_zn g < 2 ^ 32 \<longrightarrow> ge_sec_pu g' = ge_zn_pu g * ge_sec_zn g))) \<and>
    (ret \<noteq> xz XZTL_OK \<longrightarrow> core' = core \<or> malloc_fails \<and> ret = xz XZTL_MEM \<and> core' = None)"
proof -
  have limits: "\<not> geo_bad g \<longleftrightarrow> ge_ngrps g \<in> {1..128} \<and> ge_pu_grp g \<in> {1..8} \<and> ge_zn_pu g \<in> {1..8388608} \<and>
      ge_sec_zn g \<in> {1..8388608} \<and> ge_nbytes g \<in> {1..1048576} \<and> ge_nbytes_oob g \<le> 128"
    by (auto simp: geo_bad_def Suc_le_eq)
  have outcome: "(ret = 0 \<longleftrightarrow> mm_init_fn media \<noteq> None \<and> mm_exit_fn media \<noteq> None \<and> mm_submit_io media \<noteq> None \<and>
      mm_zone_fn media \<noteq> None \<and> mm_dma_alloc media \<noteq> None \<and> mm_dma_free media \<noteq> None \<and> \<not> geo_bad g \<and> \<not> malloc_fails) \<and>
      (ret = 0 \<longrightarrow> core' = Some (media\<lparr>mm_geo := geo_fill g\<rparr>)) \<and> (ret \<noteq> 0 \<longrightarrow> core' = core \<or> malloc_fails \<and> ret = 1 \<and> core' = None)"
    using assms by (auto simp: xztl_media_set_def xztl_media_check_def split: if_splits)
  have wrap: "u32 n = n \<longleftrightarrow> n < 2 ^ 32" for n using take_bit_lt [of 32 n] by (auto simp: take_bit_small)
  have "ge_sec_pu (geo_fill g) = u32 (ge_zn_pu g * ge_sec_zn g)" by (simp add: geo_fill_def Let_def)
  then have pu: "ge_zn_pu g * ge_sec_zn g < 2 ^ 32 \<longrightarrow> ge_sec_pu (geo_fill g) = ge_zn_pu g * ge_sec_zn g" by (simp only: wrap simp_thms)
  have dev: "ge_zn_dev (geo_fill g) = ge_ngrps g * ge_pu_grp g * ge_zn_pu g \<longleftrightarrow> ge_ngrps g * ge_pu_grp g * ge_zn_pu g < 2 ^ 32" if "\<not> geo_bad g"
  proof -
    have "ge_zn_dev (geo_fill g) = u32 (ge_ngrps g * ge_pu_grp g * ge_zn_pu g)" by (simp only: geo_fill_derived(4) zn_grp_exact(1) [OF that] ac_simps)
    then show ?thesis by (simp only: wrap)
  qed
  show ?thesis
  proof (intro conjI impI)
    assume "ret = xz XZTL_OK"
    then have ok: "\<not> geo_bad g" "core' = Some (media\<lparr>mm_geo := geo_fill g\<rparr>)" using outcome by simp_all
    show "\<exists>g'. core' = Some (media\<lparr>mm_geo := g'\<rparr>) \<and> ge_ngrps g' = ge_ngrps g \<and> ge_sec_zn g' = ge_sec_zn g \<and>
        ge_nbytes g' = ge_nbytes g \<and> ge_zn_grp g' = ge_pu_grp g * ge_zn_pu g \<and>
        (ge_zn_dev g' = ge_ngrps g * ge_pu_grp g * ge_zn_pu g \<longleftrightarrow> ge_ngrps g * ge_pu_grp g * ge_zn_pu g < 2 ^ 32) \<and>
        (ge_zn_pu g * ge_sec_zn g < 2 ^ 32 \<longrightarrow> ge_sec_pu g' = ge_zn_pu g * ge_sec_zn g)"
      by (intro exI [of _ "geo_fill g"] conjI ok(2) zn_grp_exact(1) [OF ok(1)] dev [OF ok(1)] pu geo_fill_inputs)
  qed (use outcome [unfolded limits] in simp_all, blast?)
qed

theorem media_set_correct_witness:
  "\<exists>core. xztl_media_set False (sample_media\<lparr>mm_init_fn := Some (\<lambda>s. (0, s)), mm_exit_fn := Some (\<lambda>s. (0, s)), mm_submit_io := Some (\<lambda>c s. None),
      mm_dma_alloc := Some (\<lambda>n s. (1, s)), mm_dma_free := Some (\<lambda>p s. s)\<rparr>) None = (0, Some core) \<and> ge_zn_dev (mm_geo core) = 904"
proof -
  let ?m = "sample_media\<lparr>mm_init_fn := Some (\<lambda>s. (0, s)), mm_exit_fn := Some (\<lambda>s. (0, s)), mm_submit_io := Some (\<lambda>c s. None),
      mm_dma_alloc := Some (\<lambda>n s. (1, s)), mm_dma_free := Some (\<lambda>p s. s)\<rparr>"
  obtain ret core where r: "xztl_media_set False ?m None = (ret, core)" by force
  show ?thesis using media_set_correct [OF r refl] r by (auto simp: sample_media_def sample_geo_def)
qed

text \<open>The derived sector and byte counts are the true products exactly as long as they
  fit 32 bits: for an accepted geometry the sectors of a group and the bytes of a zone are
  exact if and only if they are below \<open>2 ^ 32\<close>, although the byte count is stored in a
  64-bit field.\<close>

theorem geometry_exact_iff:
  assumes "\<not> geo_bad g"
  shows "(ge_sec_grp (geo_fill g) = ge_pu_grp g * ge_zn_pu g * ge_sec_zn g \<longleftrightarrow>
            ge_pu_grp g * ge_zn_pu g * ge_sec_zn g < 2 ^ 32) \<and>
         (ge_nbytes_zn (geo_fill g) = ge_nbytes g * ge_sec_zn g \<longleftrightarrow>
            ge_nbytes g * ge_sec_zn g < 2 ^ 32)"
proof -
  have wrap: "u32 n = n \<longleftrightarrow> n < 2 ^ 32" for n
    using take_bit_lt [of 32 n] by (auto simp: take_bit_small)
  show ?thesis
    by (simp only: geo_fill_derived(2,5) zn_grp_exact(1) [OF assms] wrap simp_thms)
qed

theorem geometry_exact_iff_witness:
  "\<not> geo_bad sample_geo \<and> ge_sec_grp (geo_fill sample_geo) = 904 * 1048576 \<and>
   ge_nbytes_zn (geo_fill sample_geo) \<noteq> 4096 * 1048576"
proof -
  have ok: "\<not> geo_bad sample_geo" by (simp add: geo_bad_def sample_geo_def)
  then show ?thesis using geometry_exact_iff [OF ok] by (simp add: sample_geo_def)
qed

end
