(* ===== verification/Xztl_Stats.thy ===== *)
theory Xztl_Stats
  imports Xztl_Core
begin

text \<open>
  The I/O and node counters of \<open>xztl-stats.c\<close>. Counters are 64 bits wide and wrap; an
  index outside a table is undefined (\<open>None\<close>). Printing is not modelled, except for the
  numbers that \<open>xztl_stats_print_io_simple\<close> derives; the Prometheus hooks are compiled
  out (\<open>XZTL_PROMETHEUS\<close> is 0).
\<close>

section \<open>Model\<close>

datatype xztl_stats_io_types =
    XZTL_STATS_READ_BYTES | XZTL_STATS_APPEND_BYTES | XZTL_STATS_READ_MCMD
  | XZTL_STATS_APPEND_MCMD | XZTL_STATS_RESET_MCMD | XZTL_STATS_READ_BYTES_U
  | XZTL_STATS_APPEND_BYTES_U | XZTL_STATS_READ_UCMD | XZTL_STATS_APPEND_UCMD
  | XZTL_STATS_READ_BYTES_GC | XZTL_STATS_APPEND_BYTES_GC | XZTL_STATS_READ_GC_CMD
  | XZTL_STATS_APPEND_GC_CMD | XZTL_STATS_RECYCLED_BYTES | XZTL_STATS_RECYCLED_ZONES
  | XZTL_STATS_WRITE_SUBMIT_FAIL | XZTL_STATS_READ_SUBMIT_FAIL
  | XZTL_STATS_WRITE_CALLBACK_FAIL | XZTL_STATS_READ_CALLBACK_FAIL | XZTL_STATS_MGMT_FAIL
  | XZTL_STATS_META_WRITE_FAIL | XZTL_STATS_META_READ_FAIL

primrec st :: "xztl_stats_io_types \<Rightarrow> nat" where
  "st XZTL_STATS_READ_BYTES = 0"
| "st XZTL_STATS_APPEND_BYTES = 1"
| "st XZTL_STATS_READ_MCMD = 2"
| "st XZTL_STATS_APPEND_MCMD = 3"
| "st XZTL_STATS_RESET_MCMD = 4"
| "st XZTL_STATS_READ_BYTES_U = 5"
| "st XZTL_STATS_APPEND_BYTES_U = 6"
| "st XZTL_STATS_READ_UCMD = 7"
| "st XZTL_STATS_APPEND_UCMD = 8"
| "st XZTL_STATS_READ_BYTES_GC = 9"
| "st XZTL_STATS_APPEND_BYTES_GC = 10"
| "st XZTL_STATS_READ_GC_CMD = 11"
| "st XZTL_STATS_APPEND_GC_CMD = 12"
| "st XZTL_STATS_RECYCLED_BYTES = 13"
| "st XZTL_STATS_RECYCLED_ZONES = 14"
| "st XZTL_STATS_WRITE_SUBMIT_FAIL = 15"
| "st XZTL_STATS_READ_SUBMIT_FAIL = 16"
| "st XZTL_STATS_WRITE_CALLBACK_FAIL = 17"
| "st XZTL_STATS_READ_CALLBACK_FAIL = 18"
| "st XZTL_STATS_MGMT_FAIL = 19"
| "st XZTL_STATS_META_WRITE_FAIL = 20"
| "st XZTL_STATS_META_READ_FAIL = 21"

datatype xztl_stats_node_types = XZTL_CMD_ENTRY_VALID | XZTL_CMD_ENTRY_USED

primrec sn :: "xztl_stats_node_types \<Rightarrow> nat" where
  "sn XZTL_CMD_ENTRY_VALID = 0"
| "sn XZTL_CMD_ENTRY_USED = 1"

abbreviation (input) XZTL_STATS_IO_TYPES :: nat where "XZTL_STATS_IO_TYPES \<equiv> 22"
abbreviation (input) XZTL_CMD_ENTRY_MAX :: nat where "XZTL_CMD_ENTRY_MAX \<equiv> 2"

type_synonym xztl_stats_data = "nat list"
type_synonym xztl_node_stats_data = "nat list list"

definition xztl_stats_init :: "xztl_stats_data \<times> xztl_node_stats_data" where
  "xztl_stats_init = (replicate XZTL_STATS_IO_TYPES 0,
     replicate ZROCKS_LEVEL_NUM (replicate XZTL_CMD_ENTRY_MAX 0))"

definition xztl_stats_inc :: "nat \<Rightarrow> nat \<Rightarrow> xztl_stats_data \<Rightarrow> xztl_stats_data option" where
  "xztl_stats_inc type val io = do { v \<leftarrow> get_at io type; set_at io type (u64 (v + val)) }"

definition xztl_stats_node_inc ::
    "nat \<Rightarrow> nat \<Rightarrow> nat \<Rightarrow> xztl_node_stats_data \<Rightarrow> xztl_node_stats_data option" where
  "xztl_stats_node_inc level type val data = do {
     row \<leftarrow> get_at data level;
     v \<leftarrow> get_at row type;
     row' \<leftarrow> set_at row type (u64 (v + val));
     set_at data level row' }"

text \<open>The sectors of a command: a media command holds one address (\<open>XZTL_MAX_MADDR\<close>), so
  a larger \<open>naddr\<close> reads past its arrays.\<close>

definition mcmd_nsec :: "xztl_io_mcmd \<Rightarrow> nat option" where
  "mcmd_nsec cmd =
     (if mc_naddr cmd = 0 then Some 0 else if mc_naddr cmd = 1 then Some (u32 (mc_nsec cmd)) else None)"

definition xztl_stats_add_io ::
    "'s xztl_core \<Rightarrow> xztl_io_mcmd \<Rightarrow> xztl_stats_data \<Rightarrow> xztl_stats_data option" where
  "xztl_stats_add_io core cmd io = do {
     nsec \<leftarrow> mcmd_nsec cmd;
     if mc_opcode cmd = op XZTL_ZONE_APPEND \<or> mc_opcode cmd = op XZTL_CMD_WRITE
     then do { m \<leftarrow> core;
       io \<leftarrow> xztl_stats_inc (st XZTL_STATS_APPEND_MCMD) 1 io;
       xztl_stats_inc (st XZTL_STATS_APPEND_BYTES) (u32 (nsec * ge_nbytes (mm_geo m))) io }
     else if mc_opcode cmd = op XZTL_CMD_READ
     then do { m \<leftarrow> core;
       io \<leftarrow> xztl_stats_inc (st XZTL_STATS_READ_MCMD) 1 io;
       xztl_stats_inc (st XZTL_STATS_READ_BYTES) (u32 (nsec * ge_nbytes (mm_geo m))) io }
     else Some io }"

fun stats_reset_loop :: "nat \<Rightarrow> nat \<Rightarrow> xztl_stats_data \<Rightarrow> xztl_stats_data option" where
  "stats_reset_loop type_i 0 io = Some io"
| "stats_reset_loop type_i (Suc left) io =
     do { io' \<leftarrow> set_at io type_i 0; stats_reset_loop (Suc type_i) left io' }"

definition xztl_stats_reset_io :: "xztl_stats_data \<Rightarrow> xztl_stats_data option" where
  "xztl_stats_reset_io = stats_reset_loop 0 XZTL_STATS_IO_TYPES"

text \<open>The derived numbers of \<open>xztl_stats_print_io_simple\<close>: padding, and the valid and used
  command entries of all levels.\<close>

definition print_io_simple_padding :: "xztl_stats_data \<Rightarrow> nat option" where
  "print_io_simple_padding io = do {
     flush_w \<leftarrow> get_at io (st XZTL_STATS_APPEND_BYTES);
     app_w \<leftarrow> get_at io (st XZTL_STATS_APPEND_BYTES_U);
     gc_w \<leftarrow> get_at io (st XZTL_STATS_APPEND_BYTES_GC);
     Some (usub 64 (usub 64 flush_w app_w) gc_w) }"

definition print_io_simple_total :: "xztl_stats_node_types \<Rightarrow> xztl_node_stats_data \<Rightarrow> nat option" where
  "print_io_simple_total type data =
     foldr (\<lambda>row acc. do { t \<leftarrow> acc; v \<leftarrow> get_at row (sn type); Some (u64 (t + v)) })
       (rev data) (Some 0)"

section \<open>Lemmas\<close>

lemma xztl_stats_inc_Some: "t < length io \<Longrightarrow>
  xztl_stats_inc t val io = Some (io[t := u64 (io ! t + val)])"
  by (simp add: xztl_stats_inc_def)

fun stats_add_all ::
    "'s xztl_core \<Rightarrow> xztl_io_mcmd list \<Rightarrow> xztl_stats_data \<Rightarrow> xztl_stats_data option" where
  "stats_add_all core [] io = Some io"
| "stats_add_all core (c # cs) io =
     do { io' \<leftarrow> xztl_stats_add_io core c io; stats_add_all core cs io' }"

abbreviation is_write :: "xztl_io_mcmd \<Rightarrow> bool" where
  "is_write c \<equiv> mc_opcode c = op XZTL_ZONE_APPEND \<or> mc_opcode c = op XZTL_CMD_WRITE"

abbreviation is_read :: "xztl_io_mcmd \<Rightarrow> bool" where
  "is_read c \<equiv> mc_opcode c = op XZTL_CMD_READ"

lemma u64_add_left: "u64 (u64 a + b) = u64 (a + b)"
  by (simp add: take_bit_eq_mod mod_add_left_eq)

lemma stats_add_io_one:
  assumes "mc_naddr c = 1" "length io = XZTL_STATS_IO_TYPES"
    "u32 (mc_nsec c) * ge_nbytes (mm_geo m) < 2 ^ 32"
  shows "\<exists>io'. xztl_stats_add_io (Some m) c io = Some io' \<and> length io' = XZTL_STATS_IO_TYPES \<and>
     io' ! 2 = (if is_read c then u64 (io ! 2 + 1) else io ! 2) \<and>
     io' ! 3 = (if is_write c then u64 (io ! 3 + 1) else io ! 3) \<and>
     io' ! 0 = (if is_read c then u64 (io ! 0 + u32 (mc_nsec c) * ge_nbytes (mm_geo m)) else io ! 0) \<and>
     io' ! 1 = (if is_write c then u64 (io ! 1 + u32 (mc_nsec c) * ge_nbytes (mm_geo m)) else io ! 1)"
  using assms
  by (auto simp: xztl_stats_add_io_def mcmd_nsec_def xztl_stats_inc_Some u32_small)

section \<open>Properties\<close>



end
