(* ===== verification/Ztl_Groups.thy ===== *)
theory Ztl_Groups
  imports Xztl_Core
begin

text \<open>
  Zone metadata (\<open>ztl-zmd.c\<close>), the groups of zones (\<open>xztl-groups.c\<close>) and the atomic
  group flags of \<open>xztl-pro.h\<close>. The list of groups is kept as the C code keeps it, most
  recently inserted first. Allocation outcomes and the uninitialised command on the
  stack are arguments.
\<close>

section \<open>Group flags\<close>

definition app_grp_switch_read :: "app_group \<Rightarrow> nat" where
  "app_grp_switch_read g = fl_active (gr_flags g)"

definition app_grp_need_gc :: "app_group \<Rightarrow> nat" where
  "app_grp_need_gc g = fl_need_gc (gr_flags g)"

definition app_grp_need_gc_on :: "app_group \<Rightarrow> app_group" where
  "app_grp_need_gc_on g = g\<lparr>gr_flags := (gr_flags g)\<lparr>fl_need_gc := 1\<rparr>\<rparr>"

definition app_grp_need_gc_off :: "app_group \<Rightarrow> app_group" where
  "app_grp_need_gc_off g = g\<lparr>gr_flags := (gr_flags g)\<lparr>fl_need_gc := 0\<rparr>\<rparr>"

definition app_grp_ctxs_read :: "app_group \<Rightarrow> nat" where
  "app_grp_ctxs_read g = fl_busy (gr_flags g)"

definition app_grp_switch_on :: "app_group \<Rightarrow> app_group" where
  "app_grp_switch_on g = g\<lparr>gr_flags := (gr_flags g)\<lparr>fl_active := 1\<rparr>\<rparr>"

definition app_grp_switch_off :: "app_group \<Rightarrow> app_group" where
  "app_grp_switch_off g = g\<lparr>gr_flags := (gr_flags g)\<lparr>fl_active := 0\<rparr>\<rparr>"

definition app_grp_ctx_add :: "app_group \<Rightarrow> app_group" where
  "app_grp_ctx_add g = g\<lparr>gr_flags := (gr_flags g)\<lparr>fl_busy := u8 (fl_busy (gr_flags g) + 1)\<rparr>\<rparr>"

definition app_grp_ctx_sub :: "app_group \<Rightarrow> app_group" where
  "app_grp_ctx_sub g = g\<lparr>gr_flags := (gr_flags g)\<lparr>fl_busy := usub 8 (fl_busy (gr_flags g)) 1\<rparr>\<rparr>"

section \<open>Zone metadata\<close>

definition zero_zmd_entry :: app_zmd_entry where
  "zero_zmd_entry = \<lparr>ze_flags = 0, ze_level = 0, ze_addr = 0, ze_wptr = 0, ze_wptr_inflight = 0\<rparr>"

definition zmd_new_entry :: "xztl_mgeo \<Rightarrow> nat \<Rightarrow> nat \<Rightarrow> app_zmd_entry" where
  "zmd_new_entry g grp_id zn_i =
     (let a = set_sect (u64 (u32 (ge_sec_grp g * grp_id) + u64 (ge_sec_zn g * zn_i)))
                (set_zone zn_i (set_grp grp_id 0))
      in \<lparr>ze_flags = 0 OR zmd_flag XZTL_ZMD_AVLB, ze_level = 0, ze_addr = a,
          ze_wptr = g_sect a, ze_wptr_inflight = g_sect a\<rparr>)"

fun zmd_create_loop ::
    "xztl_mgeo \<Rightarrow> nat \<Rightarrow> nat \<Rightarrow> nat \<Rightarrow> app_zmd_entry list \<Rightarrow> app_zmd_entry list option" where
  "zmd_create_loop g grp_id zn_i 0 tbl = Some tbl"
| "zmd_create_loop g grp_id zn_i (Suc left) tbl = do {
     tbl' \<leftarrow> set_at tbl zn_i (zmd_new_entry g grp_id zn_i);
     zmd_create_loop g grp_id (Suc zn_i) left tbl' }"

definition ztl_zmd_create :: "xztl_mgeo \<Rightarrow> app_group \<Rightarrow> (int \<times> app_group) option" where
  "ztl_zmd_create g grp = do {
     tbl \<leftarrow> zd_tbl (gr_zmd grp);
     tbl' \<leftarrow> zmd_create_loop g (gr_id grp) 0 (zd_entries (gr_zmd grp)) tbl;
     Some (xz XZTL_OK, grp\<lparr>gr_zmd := (gr_zmd grp)\<lparr>zd_tbl := Some tbl'\<rparr>\<rparr>) }"

definition ztl_zmd_load_report ::
    "'s xztl_core \<Rightarrow> xztl_zn_mcmd \<Rightarrow> app_group \<Rightarrow> 's \<Rightarrow> (int \<times> app_group \<times> 's) option" where
  "ztl_zmd_load_report core cmd0 grp s = do {
     m \<leftarrow> core;
     let cmd = cmd0\<lparr>zc_opcode := op XZTL_ZONE_MGMT_REPORT,
       zc_addr := set_zone (u64 (u32 (ge_zn_grp (mm_geo m) * gr_id grp)))
                    (set_grp (gr_id grp) (zc_addr cmd0)),
       zc_nzones := ge_zn_grp (mm_geo m)\<rparr>;
     (ret, cmd', s') \<leftarrow> xztl_media_submit_zn core cmd s;
     Some (ret,
       if ret = 0 then grp\<lparr>gr_zmd := (gr_zmd grp)\<lparr>zd_report := zc_opaque cmd'\<rparr>\<rparr> else grp, s') }"

definition ztl_zmd_load ::
    "'s xztl_core \<Rightarrow> xztl_zn_mcmd \<Rightarrow> app_group \<Rightarrow> 's \<Rightarrow> (int \<times> app_group \<times> 's) option" where
  "ztl_zmd_load core cmd0 grp s = do {
     (ret, grp', s') \<leftarrow> ztl_zmd_load_report core cmd0 grp s;
     if ret \<noteq> 0 then Some (xz XZTL_ZTL_ZMD_REP, grp', s')
     else Some (xz XZTL_OK, grp'\<lparr>gr_zmd := (gr_zmd grp')\<lparr>zd_magic := APP_MAGIC\<rparr>\<rparr>, s') }"

text \<open>The address of the entry of a zone, or of the zone that holds a sector; the index is
  not checked against the table.\<close>

definition ztl_zmd_get :: "xztl_mgeo \<Rightarrow> app_group \<Rightarrow> nat \<Rightarrow> bool \<Rightarrow> nat option" where
  "ztl_zmd_get g grp zone by_offset =
     (if zd_tbl (gr_zmd grp) = None then None
      else Some (if by_offset then zone div ge_sec_zn g else zone))"

section \<open>Groups\<close>

definition groups_get :: "app_group list \<Rightarrow> nat \<Rightarrow> app_group option" where
  "groups_get head grp_id = find (\<lambda>g. gr_id g = grp_id) head"

fun groups_get_list_loop ::
    "app_group list \<Rightarrow> nat option list \<Rightarrow> int \<Rightarrow> nat \<Rightarrow> nat option list \<times> nat" where
  "groups_get_list_loop [] arr i n = (arr, n)"
| "groups_get_list_loop (grp # gs) arr i n =
     (if i < 0 then (arr, n)
      else groups_get_list_loop gs (arr[nat i := Some (gr_id grp)]) (i - 1) (Suc n))"

definition groups_get_list ::
    "app_group list \<Rightarrow> nat option list \<Rightarrow> nat \<Rightarrow> nat option list \<times> nat" where
  "groups_get_list head arr ngrp = groups_get_list_loop head arr (int (u16 ngrp) - 1) 0"

definition groups_zmd_init ::
    "bool \<Rightarrow> 's xztl_core \<Rightarrow> xztl_zn_mcmd \<Rightarrow> app_group \<Rightarrow> 's \<Rightarrow> (int \<times> app_group \<times> 's) option" where
  "groups_zmd_init calloc_fails core cmd0 grp s = do {
     m \<leftarrow> core;
     let g = mm_geo m;
     let zmd = (gr_zmd grp)\<lparr>zd_entry_sz := 32, zd_ent_per_pg := ge_nbytes g div 32,
                 zd_entries := ge_zn_grp g\<rparr>;
     if calloc_fails
     then Some (xz XZTL_ZTL_GROUP_ERR, grp\<lparr>gr_zmd := zmd\<lparr>zd_tbl := None\<rparr>\<rparr>, s)
     else do {
       let grp = grp\<lparr>gr_zmd :=
             zmd\<lparr>zd_tbl := Some (replicate (ge_zn_grp g) zero_zmd_entry), zd_magic := 0\<rparr>\<rparr>;
       (ret, grp, s) \<leftarrow> ztl_zmd_load core cmd0 grp s;
       if ret \<noteq> 0 then Some (xz XZTL_ZTL_GROUP_ERR, grp, s)
       else if zd_magic (gr_zmd grp) = APP_MAGIC
       then do {
         (ret, grp) \<leftarrow> ztl_zmd_create g grp;
         if ret \<noteq> 0 then Some (xz XZTL_ZTL_GROUP_ERR, grp, s) else Some (xz XZTL_OK, grp, s) }
       else Some (xz XZTL_OK, grp, s) } }"

definition zero_group :: app_group where
  "zero_group = \<lparr>gr_id = 0, gr_flags = \<lparr>fl_active = 0, fl_need_gc = 0, fl_busy = 0\<rparr>,
     gr_zmd = \<lparr>zd_magic = 0, zd_entries = 0, zd_entry_sz = 0, zd_tbl = None, zd_ent_per_pg = 0,
               zd_report = None\<rparr>,
     gr_pro = None, gr_cp_zone = 0\<rparr>"

text \<open>\<open>grp_fails\<close> and \<open>tbl_fails\<close> say which \<open>calloc\<close> calls return \<open>NULL\<close>. The result is
  the number of groups, or \<open>XZTL_ZTL_GROUP_ERR\<close>. The counter has 16 bits, the number of groups 32; \<open>fuel\<close> bounds the
  rounds of the loop.\<close>

fun groups_init_loop ::
    "(nat \<Rightarrow> bool) \<Rightarrow> (nat \<Rightarrow> bool) \<Rightarrow> 's xztl_core \<Rightarrow> xztl_zn_mcmd \<Rightarrow> nat \<Rightarrow> nat \<Rightarrow> nat \<Rightarrow>
     app_group list \<Rightarrow> 's \<Rightarrow> (int \<times> app_group list \<times> 's) option" where
  "groups_init_loop grp_fails tbl_fails core cmd0 ngrps 0 grp_i head s = None"
| "groups_init_loop grp_fails tbl_fails core cmd0 ngrps (Suc fuel) grp_i head s =
     (if \<not> grp_i < ngrps then Some (int grp_i, head, s)
      else if grp_fails grp_i then Some (xz XZTL_ZTL_GROUP_ERR, head, s)
      else do {
        (ret, grp, s') \<leftarrow> groups_zmd_init (tbl_fails grp_i) core cmd0 (zero_group\<lparr>gr_id := grp_i\<rparr>) s;
        if ret \<noteq> 0 then Some (xz XZTL_ZTL_GROUP_ERR, [], s')
        else groups_init_loop grp_fails tbl_fails core cmd0 ngrps fuel (u16 (grp_i + 1))
               (list_insert_head head (app_grp_switch_on grp)) s' })"

definition groups_init ::
    "nat \<Rightarrow> (nat \<Rightarrow> bool) \<Rightarrow> (nat \<Rightarrow> bool) \<Rightarrow> 's xztl_core \<Rightarrow> xztl_zn_mcmd \<Rightarrow> app_group list \<Rightarrow> 's \<Rightarrow>
     (int \<times> app_group list \<times> 's) option" where
  "groups_init fuel grp_fails tbl_fails core cmd0 head s = do {
     m \<leftarrow> core;
     groups_init_loop grp_fails tbl_fails core cmd0 (ge_ngrps (mm_geo m)) fuel 0 head s }"

definition groups_exit :: "app_group list \<Rightarrow> app_group list" where
  "groups_exit head = []"

section \<open>Lemmas\<close>

lemma zmd_create_loop_correct:
  assumes "zn_i + left \<le> length tbl"
  shows "\<exists>tbl'. zmd_create_loop g gid zn_i left tbl = Some tbl' \<and> length tbl' = length tbl \<and>
    (\<forall>z < length tbl. tbl' ! z =
       (if zn_i \<le> z \<and> z < zn_i + left then zmd_new_entry g gid z else tbl ! z))"
  using assms
proof (induction left arbitrary: zn_i tbl)
  case 0
  then show ?case by auto
next
  case (Suc left)
  let ?tbl = "tbl[zn_i := zmd_new_entry g gid zn_i]"
  from Suc.prems Suc.IH [of "Suc zn_i" ?tbl] obtain tbl' where
    "zmd_create_loop g gid (Suc zn_i) left ?tbl = Some tbl'" "length tbl' = length tbl"
    "\<forall>z < length tbl. tbl' ! z =
       (if Suc zn_i \<le> z \<and> z < Suc zn_i + left then zmd_new_entry g gid z else ?tbl ! z)"
    by auto
  with Suc.prems show ?case by (auto simp: nth_list_update)
qed

lemma zmd_create_full:
  "length tbl = n \<Longrightarrow> zmd_create_loop g gid 0 n tbl = Some (map (zmd_new_entry g gid) [0..<n])"
proof -
  assume "length tbl = n"
  with zmd_create_loop_correct [of 0 n tbl g gid] obtain tbl' where
    t: "zmd_create_loop g gid 0 n tbl = Some tbl'" "length tbl' = n"
       "\<forall>z < n. tbl' ! z = zmd_new_entry g gid z" by auto
  moreover from t(2,3) have "tbl' = map (zmd_new_entry g gid) [0..<n]"
    by (intro nth_equalityI) simp_all
  ultimately show ?thesis by simp
qed

lemma get_list_loop_desc:
  "\<lbrakk>map gr_id gs = rev [0..<k]; length arr = n; k \<le> n\<rbrakk> \<Longrightarrow>
   groups_get_list_loop gs arr (int k - 1) m = (map Some [0..<k] @ drop k arr, m + k)"
proof (induction k arbitrary: gs arr m)
  case 0
  then show ?case by simp
next
  case (Suc k)
  then obtain grp gs' where gs: "gs = grp # gs'" "gr_id grp = k" "map gr_id gs' = rev [0..<k]"
    by (cases gs) auto
  have "groups_get_list_loop gs arr (int (Suc k) - 1) m =
      groups_get_list_loop gs' (arr[k := Some k]) (int k - 1) (Suc m)"
    using gs by simp
  also have "\<dots> = (map Some [0..<k] @ drop k (arr[k := Some k]), Suc m + k)"
    using gs Suc.prems by (intro Suc.IH) simp_all
  also have "drop k (arr[k := Some k]) = Some k # drop (Suc k) arr"
    using Suc.prems by (simp add: drop_update_swap Cons_nth_drop_Suc [symmetric] list_update_append1)
  finally show ?case by simp
qed

lemma zmd_new_entry_fields:
  assumes "gid < 32" "z < 2 ^ 20" "ge_sec_grp g * gid < 2 ^ 32"
    "ge_sec_grp g * gid + ge_sec_zn g * z < 2 ^ 36"
  shows "g_grp (ze_addr (zmd_new_entry g gid z)) = gid"
    "g_zone (ze_addr (zmd_new_entry g gid z)) = z"
    "g_sect (ze_addr (zmd_new_entry g gid z)) = ge_sec_grp g * gid + ge_sec_zn g * z"
    "ze_wptr (zmd_new_entry g gid z) = ge_sec_grp g * gid + ge_sec_zn g * z"
    "ze_wptr_inflight (zmd_new_entry g gid z) = ge_sec_grp g * gid + ge_sec_zn g * z"
    "ze_flags (zmd_new_entry g gid z) = zmd_flag XZTL_ZMD_AVLB"
proof -
  let ?s = "ge_sec_grp g * gid + ge_sec_zn g * z"
  have "u32 (ge_sec_grp g * gid) = ge_sec_grp g * gid" using assms(3) by (simp add: u32_small)
  moreover have "u64 (ge_sec_zn g * z) = ge_sec_zn g * z" "u64 ?s = ?s"
    using assms(4) by (simp_all add: u64_small)
  moreover have "g_sect (set_sect ?s a) = ?s" for a
    using assms(4) by (simp add: sect_field.get_put_small)
  ultimately show "g_sect (ze_addr (zmd_new_entry g gid z)) = ?s"
    "ze_wptr (zmd_new_entry g gid z) = ?s" "ze_wptr_inflight (zmd_new_entry g gid z) = ?s"
    by (simp_all add: zmd_new_entry_def Let_def)
  show "g_grp (ze_addr (zmd_new_entry g gid z)) = gid"
    "g_zone (ze_addr (zmd_new_entry g gid z)) = z"
    "ze_flags (zmd_new_entry g gid z) = zmd_flag XZTL_ZMD_AVLB"
    using assms(1,2) by (simp_all add: zmd_new_entry_def Let_def grp_field.get_put_small
      zone_field.get_put_small)
qed

text \<open>What the start of a group leaves behind, when allocation and the zone report succeed.\<close>

definition group_started :: "xztl_mgeo \<Rightarrow> app_group \<Rightarrow> bool" where
  "group_started g grp \<longleftrightarrow>
     app_grp_switch_read grp = 1 \<and> zd_entries (gr_zmd grp) = ge_zn_grp g \<and>
     zd_tbl (gr_zmd grp) = Some (map (zmd_new_entry g (gr_id grp)) [0..<ge_zn_grp g])"

definition zone_fn_ok :: "'s xztl_media \<Rightarrow> bool" where
  "zone_fn_ok m \<longleftrightarrow> (\<exists>f. mm_zone_fn m = Some f \<and>
     (\<forall>c s. zc_opcode c = op XZTL_ZONE_MGMT_REPORT \<longrightarrow> (\<exists>c' s'. f c s = Some (0, c', s'))))"

lemma groups_zmd_init_ok:
  assumes "zone_fn_ok m"
  shows "\<exists>grp' s'. groups_zmd_init False (Some m) cmd0 grp s = Some (0, grp', s') \<and>
    gr_id grp' = gr_id grp \<and> group_started (mm_geo m) (app_grp_switch_on grp')"
proof -
  from assms obtain f where f: "mm_zone_fn m = Some f"
    "\<And>c s. zc_opcode c = op XZTL_ZONE_MGMT_REPORT \<Longrightarrow> \<exists>c' s'. f c s = Some (0, c', s')"
    unfolding zone_fn_ok_def by blast
  define cmd where "cmd = cmd0\<lparr>zc_opcode := op XZTL_ZONE_MGMT_REPORT,
       zc_addr := set_zone (u64 (u32 (ge_zn_grp (mm_geo m) * gr_id grp)))
                    (set_grp (gr_id grp) (zc_addr cmd0)), zc_nzones := ge_zn_grp (mm_geo m)\<rparr>"
  obtain c' s' where r: "f cmd s = Some (0, c', s')" using f(2) [of cmd s] by (auto simp: cmd_def)
  then show ?thesis unfolding cmd_def
    using f(1) by (simp add: groups_zmd_init_def ztl_zmd_load_def ztl_zmd_load_report_def
      xztl_media_submit_zn_def Let_def ztl_zmd_create_def zmd_create_full
      group_started_def app_grp_switch_on_def app_grp_switch_read_def)
qed

lemma groups_init_step:
  assumes "zone_fn_ok m" "\<not> grp_fails k" "\<not> tbl_fails k" "k < ngrps"
  shows "\<exists>grp s1. groups_init_loop grp_fails tbl_fails (Some m) cmd0 ngrps (Suc fuel) k head s =
      groups_init_loop grp_fails tbl_fails (Some m) cmd0 ngrps fuel (u16 (k + 1)) (list_insert_head head (app_grp_switch_on grp)) s1 \<and>
    gr_id grp = k \<and> group_started (mm_geo m) (app_grp_switch_on grp)"
proof -
  obtain grp s1 where "groups_zmd_init False (Some m) cmd0 (zero_group\<lparr>gr_id := k\<rparr>) s = Some (0, grp, s1)" "gr_id grp = k"
    "group_started (mm_geo m) (app_grp_switch_on grp)" using groups_zmd_init_ok [OF assms(1), of cmd0 "zero_group\<lparr>gr_id := k\<rparr>" s] by auto
  then show ?thesis using assms(2-4) by (intro exI [of _ grp] exI [of _ s1]) simp
qed

lemma groups_init_loop_ok:
  assumes "zone_fn_ok m" "\<And>i. \<not> grp_fails i" "\<And>i. \<not> tbl_fails i" "k + n < 2 ^ 16" "n < fuel"
    "map gr_id head = rev [0..<k]" "\<forall>grp \<in> set head. group_started (mm_geo m) grp"
  shows "\<exists>head' s'. groups_init_loop grp_fails tbl_fails (Some m) cmd0 (k + n) fuel k head s =
       Some (int (k + n), head', s') \<and> map gr_id head' = rev [0..<k + n] \<and>
     (\<forall>grp \<in> set head'. group_started (mm_geo m) grp)"
  using assms(4-)
proof (induction n arbitrary: k fuel head s)
  case 0
  then show ?case by (cases fuel) simp_all
next
  case (Suc n)
  obtain f where f: "fuel = Suc f" "n < f" using Suc.prems(2) by (cases fuel) auto
  obtain grp s1 where g: "groups_init_loop grp_fails tbl_fails (Some m) cmd0 (k + Suc n) fuel k head s =
      groups_init_loop grp_fails tbl_fails (Some m) cmd0 (k + Suc n) f (u16 (k + 1)) (list_insert_head head (app_grp_switch_on grp)) s1"
    "gr_id grp = k" "group_started (mm_geo m) (app_grp_switch_on grp)"
    unfolding f(1) using groups_init_step [OF assms(1), of grp_fails k tbl_fails "k + Suc n" cmd0 f head s] assms(2,3) by auto
  have "map gr_id (list_insert_head head (app_grp_switch_on grp)) = rev [0..<Suc k]"
    using Suc.prems(3) g(2) by (simp add: list_insert_head_def app_grp_switch_on_def)
  moreover have "\<forall>grp \<in> set (list_insert_head head (app_grp_switch_on grp)).
      group_started (mm_geo m) grp"
    using Suc.prems(4) g(3) by (simp add: list_insert_head_def)
  moreover have "u16 (k + 1) = Suc k" "k + Suc n = Suc k + n" "Suc k + n < 2 ^ 16" using Suc.prems(1) by (simp_all add: u16_small)
  ultimately show ?case using Suc.IH [of "Suc k" f] f(2) g(1) by metis
qed

text \<open>With more groups than the counter can count the loop does not end.\<close>

lemma groups_init_loop_endless:
  assumes "zone_fn_ok m" "\<And>i. \<not> grp_fails i" "\<And>i. \<not> tbl_fails i" "2 ^ 16 \<le> ngrps" "k < 2 ^ 16"
  shows "groups_init_loop grp_fails tbl_fails (Some m) cmd0 ngrps fuel k head s = None"
  using assms(5)
proof (induction fuel arbitrary: k head s)
  case (Suc fuel)
  have "k < ngrps" "u16 (k + 1) < 2 ^ 16" using Suc.prems assms(4) take_bit_nat_less_exp [of 16 "k + 1"] by simp_all
  then show ?case using Suc.IH groups_init_step [OF assms(1), of grp_fails k tbl_fails ngrps cmd0 fuel head s, OF assms(2,3)] by metis
qed simp

lemma find_gr_id: "k < n \<Longrightarrow> map gr_id head = rev [0..<n] \<Longrightarrow>
  \<exists>grp. find (\<lambda>g. gr_id g = k) head = Some grp \<and> gr_id grp = k"
proof -
  assume "k < n" "map gr_id head = rev [0..<n]"
  then have "k \<in> gr_id ` set head" by (metis atLeast0LessThan lessThan_iff list.set_map set_rev set_upt)
  then have "find (\<lambda>g. gr_id g = k) head \<noteq> None" by (auto simp: find_None_iff)
  then show ?thesis by (auto simp: find_Some_iff)
qed

section \<open>Properties\<close>

text \<open>C25: The metadata table of a group gives zone \<open>z\<close> the group of its owner, its own
  number and its first sector, with both write pointers there and only the available flag
  set, provided the geometry fits the bit-fields of an address (32 groups, \<open>2 ^ 20\<close>
  zones, \<open>2 ^ 36\<close> sectors); consecutive zones then start one zone size apart.\<close>

theorem zmd_create_layout:
  assumes "zd_tbl (gr_zmd grp) = Some tbl" "length tbl = zd_entries (gr_zmd grp)"
    "gr_id grp < 32" "zd_entries (gr_zmd grp) \<le> 2 ^ 20" "ge_sec_grp g * gr_id grp < 2 ^ 32"
    "ge_sec_grp g * gr_id grp + ge_sec_zn g * zd_entries (gr_zmd grp) < 2 ^ 36"
  shows "\<exists>tbl'. ztl_zmd_create g grp =
       Some (xz XZTL_OK, grp\<lparr>gr_zmd := (gr_zmd grp)\<lparr>zd_tbl := Some tbl'\<rparr>\<rparr>) \<and>
     length tbl' = length tbl \<and>
     (\<forall>z < length tbl.
        g_grp (ze_addr (tbl' ! z)) = gr_id grp \<and> g_zone (ze_addr (tbl' ! z)) = z \<and>
        g_sect (ze_addr (tbl' ! z)) = ge_sec_grp g * gr_id grp + ge_sec_zn g * z \<and>
        ze_wptr (tbl' ! z) = g_sect (ze_addr (tbl' ! z)) \<and>
        ze_wptr_inflight (tbl' ! z) = g_sect (ze_addr (tbl' ! z)) \<and>
        (\<forall>f. has_flag (ze_flags (tbl' ! z)) f \<longleftrightarrow> f = XZTL_ZMD_AVLB))"
proof -
  have flags: "has_flag (zmd_flag XZTL_ZMD_AVLB) f \<longleftrightarrow> f = XZTL_ZMD_AVLB" for f
    by (cases f) (simp_all add: has_flag_def)
  have z: "ge_sec_grp g * gr_id grp + ge_sec_zn g * z < 2 ^ 36" "z < 2 ^ 20"
    if "z < zd_entries (gr_zmd grp)" for z
    using assms(4,6) that mult_le_mono2 [of z "zd_entries (gr_zmd grp)" "ge_sec_zn g"]
    by linarith+
  note fields = zmd_new_entry_fields [OF assms(3) z(2) assms(5) z(1)]
  show ?thesis using assms(1,2)
    by (intro exI [of _ "map (zmd_new_entry g (gr_id grp)) [0..<zd_entries (gr_zmd grp)]"])
      (simp add: ztl_zmd_create_def zmd_create_full fields flags del: zmd_flag.simps)
qed

theorem zmd_create_layout_witness:
  "\<exists>tbl'. ztl_zmd_create (geo_fill \<lparr>ge_ngrps = 2, ge_pu_grp = 1, ge_zn_pu = 3, ge_sec_zn = 100,
       ge_nbytes = 4096, ge_nbytes_oob = 0, ge_zn_dev = 0, ge_zn_grp = 0, ge_sec_dev = 0,
       ge_sec_grp = 0, ge_sec_pu = 0, ge_nbytes_zn = 0, ge_nbytes_grp = 0, ge_oob_grp = 0,
       ge_oob_pu = 0, ge_oob_zn = 0\<rparr>)
     (zero_group\<lparr>gr_id := 1, gr_zmd := (gr_zmd zero_group)\<lparr>zd_entries := 3,
        zd_tbl := Some (replicate 3 zero_zmd_entry)\<rparr>\<rparr>) =
     Some (0, zero_group\<lparr>gr_id := 1, gr_zmd := (gr_zmd zero_group)\<lparr>zd_entries := 3,
        zd_tbl := Some tbl'\<rparr>\<rparr>) \<and> g_sect (ze_addr (tbl' ! 2)) = 500"
  using zmd_create_layout [of "zero_group\<lparr>gr_id := 1, gr_zmd := (gr_zmd zero_group)\<lparr>zd_entries := 3,
        zd_tbl := Some (replicate 3 zero_zmd_entry)\<rparr>\<rparr>" "replicate 3 zero_zmd_entry"
      "geo_fill \<lparr>ge_ngrps = 2, ge_pu_grp = 1, ge_zn_pu = 3, ge_sec_zn = 100,
       ge_nbytes = 4096, ge_nbytes_oob = 0, ge_zn_dev = 0, ge_zn_grp = 0, ge_sec_dev = 0,
       ge_sec_grp = 0, ge_sec_pu = 0, ge_nbytes_zn = 0, ge_nbytes_grp = 0, ge_oob_grp = 0,
       ge_oob_pu = 0, ge_oob_zn = 0\<rparr>"]
  by (auto simp: geo_fill_def u32_small u64_small zero_group_def)

text \<open>When memory is available and the zone reports succeed, the start of fewer than 65536 groups
  returns their number, leaves every group active with its metadata table created, and the
  list handed to the provisioning module then holds group \<open>i\<close> at index \<open>i\<close> although the
  groups were linked in reverse; looking a group up by its identifier finds it. With 65536 groups or more the
  16-bit counter never reaches their number and the start does not return.\<close>

theorem groups_init_list:
  assumes "zone_fn_ok m" "\<And>i. \<not> grp_fails i" "\<And>i. \<not> tbl_fails i"
    "length arr = ge_ngrps (mm_geo m)" "ge_ngrps (mm_geo m) < fuel"
  shows "(ge_ngrps (mm_geo m) < 2 ^ 16 \<longrightarrow>
     (\<exists>head s'. groups_init fuel grp_fails tbl_fails (Some m) cmd0 [] s =
       Some (int (ge_ngrps (mm_geo m)), head, s') \<and>
     (\<forall>grp \<in> set head. group_started (mm_geo m) grp) \<and>
     groups_get_list head arr (ge_ngrps (mm_geo m)) =
       (map Some [0..<ge_ngrps (mm_geo m)], ge_ngrps (mm_geo m)) \<and>
     (\<forall>k < ge_ngrps (mm_geo m). \<exists>grp. groups_get head k = Some grp \<and> gr_id grp = k))) \<and>
    (2 ^ 16 \<le> ge_ngrps (mm_geo m) \<longrightarrow> groups_init fuel grp_fails tbl_fails (Some m) cmd0 [] s = None)"
proof (intro conjI impI)
  let ?n = "ge_ngrps (mm_geo m)"
  assume n: "?n < 2 ^ 16"
  obtain head s' where h: "groups_init fuel grp_fails tbl_fails (Some m) cmd0 [] s = Some (int ?n, head, s')"
    "map gr_id head = rev [0..<?n]" "\<forall>grp \<in> set head. group_started (mm_geo m) grp"
    using groups_init_loop_ok [of m grp_fails tbl_fails 0 ?n fuel "[]" cmd0 s] assms(1-3,5) n
    by (auto simp: groups_init_def)
  moreover have "groups_get_list head arr ?n = (map Some [0..<?n], ?n)"
    using get_list_loop_desc [OF h(2) assms(4)] assms(4) n by (simp add: groups_get_list_def u16_small)
  moreover have "\<forall>k < ?n. \<exists>grp. groups_get head k = Some grp \<and> gr_id grp = k"
    using find_gr_id [OF _ h(2)] by (simp add: groups_get_def)
  ultimately show "\<exists>head s'. groups_init fuel grp_fails tbl_fails (Some m) cmd0 [] s = Some (int ?n, head, s') \<and>
     (\<forall>grp \<in> set head. group_started (mm_geo m) grp) \<and> groups_get_list head arr ?n = (map Some [0..<?n], ?n) \<and>
     (\<forall>k < ?n. \<exists>grp. groups_get head k = Some grp \<and> gr_id grp = k)" by blast
next
  assume "2 ^ 16 \<le> ge_ngrps (mm_geo m)"
  then show "groups_init fuel grp_fails tbl_fails (Some m) cmd0 [] s = None"
    using groups_init_loop_endless [OF assms(1-3)] by (simp add: groups_init_def)
qed

theorem groups_init_list_witness:
  "(\<exists>head. groups_init 2 (\<lambda>_. False) (\<lambda>_. False) (Some sample_media) sample_zn_mcmd [] () =
       Some (1, head, ()) \<and> groups_get_list head [None] 1 = ([Some 0], 1)) \<and>
   groups_init 70001 (\<lambda>_. False) (\<lambda>_. False) (Some (sample_media\<lparr>mm_geo := sample_geo\<lparr>ge_ngrps := 70000\<rparr>\<rparr>)) sample_zn_mcmd [] () = None"
proof -
  have ok: "zone_fn_ok sample_media" "zone_fn_ok (sample_media\<lparr>mm_geo := sample_geo\<lparr>ge_ngrps := 70000\<rparr>\<rparr>)" by (simp_all add: zone_fn_ok_def sample_media_def)
  show ?thesis
    using groups_init_list [OF ok(1), of "\<lambda>_. False" "\<lambda>_. False" "[None]" 2 sample_zn_mcmd "()"]
      groups_init_list [OF ok(2), of "\<lambda>_. False" "\<lambda>_. False" "replicate 70000 None" 70001 sample_zn_mcmd "()"]
    by (auto simp: sample_media_def sample_geo_def)
qed

end
