(* ===== verification/Ztl_Metadata.thy ===== *)
theory Ztl_Metadata
  imports Xztl_Mempool Xztl_Stats Ztl_Groups
begin

text \<open>
  The two metadata zones of \<open>ztl-metadata.c\<close>: their start, the synchronous reads with
  up to three attempts per chunk, the sequential writes behind the write pointer of the
  current zone, and the switch to the other zone when the current one is full.
  The xNVMe calls are arguments: \<open>nvm_write slba nlb data s\<close> returns the error code, whether
  the completion status is non-zero, and the new state; \<open>mgmt_reset slba s\<close> returns the
  error code and the new state; \<open>peek p n s\<close> is the content of \<open>n\<close> bytes of memory at \<open>p\<close>.
\<close>

section \<open>Model\<close>

abbreviation (input) META_READ_MAX_RETRY :: nat where "META_READ_MAX_RETRY \<equiv> 3"
abbreviation (input) META_WRITE_MAX_RETRY :: nat where "META_WRITE_MAX_RETRY \<equiv> 3"
abbreviation (input) MAX_READ_NLB_NUM :: nat where "MAX_READ_NLB_NUM \<equiv> 128"
abbreviation (input) MAX_WRITE_NLB_NUM :: nat where "MAX_WRITE_NLB_NUM \<equiv> 64"

record ztl_metadata =
  mt_metadata_zone :: "ztl_pro_zone list"
  mt_zone_num :: nat
  mt_curr_zone_index :: nat
  mt_nlb_max :: nat

definition zero_zone :: ztl_pro_zone where
  "zero_zone = \<lparr>zn_addr = 0, zn_zmd_entry = None, zn_capacity = 0, zn_lock = 0, zn_state = None\<rparr>"

definition get_metadata_zone_num :: "ztl_metadata \<Rightarrow> nat" where
  "get_metadata_zone_num md = mt_zone_num md"

definition zrocks_get_metadata_slba :: nat where
  "zrocks_get_metadata_slba = nat (xz XZTL_OK)"

fun metadata_slbas_loop ::
    "ztl_metadata \<Rightarrow> nat \<Rightarrow> nat \<Rightarrow> nat list \<Rightarrow> nat list option" where
  "metadata_slbas_loop md zone_id 0 slbas = Some slbas"
| "metadata_slbas_loop md zone_id (Suc left) slbas = do {
     zone \<leftarrow> get_at (mt_metadata_zone md) zone_id;
     slbas' \<leftarrow> set_at slbas zone_id (g_sect (zn_addr zone));
     metadata_slbas_loop md (Suc zone_id) left slbas' }"

definition zrocks_get_metadata_slbas :: "ztl_metadata \<Rightarrow> nat list \<Rightarrow> (nat list \<times> nat) option" where
  "zrocks_get_metadata_slbas md slbas = do {
     slbas' \<leftarrow> metadata_slbas_loop md 0 (mt_zone_num md) slbas;
     Some (slbas', u8 (mt_zone_num md)) }"

definition zrocks_reset_file_md :: "(nat \<Rightarrow> 's \<Rightarrow> int \<times> 's) \<Rightarrow> nat \<Rightarrow> 's \<Rightarrow> int \<times> 's" where
  "zrocks_reset_file_md mgmt_reset addr s =
     (let (err, s') = mgmt_reset addr s
      in (if err \<noteq> 0 then xz XZTL_ZTL_MD_RESET_ERR else xz XZTL_OK, s'))"

text \<open>Updating the write pointer of the metadata entry a zone refers to.\<close>

definition zone_wptr :: "app_zmd_entry list \<Rightarrow> ztl_pro_zone \<Rightarrow> nat option" where
  "zone_wptr tbl zone = do { i \<leftarrow> zn_zmd_entry zone; ent \<leftarrow> get_at tbl i; Some (ze_wptr ent) }"

definition set_zone_wptr ::
    "app_zmd_entry list \<Rightarrow> ztl_pro_zone \<Rightarrow> nat \<Rightarrow> app_zmd_entry list option" where
  "set_zone_wptr tbl zone v = do {
     i \<leftarrow> zn_zmd_entry zone; ent \<leftarrow> get_at tbl i; set_at tbl i (ent\<lparr>ze_wptr := v\<rparr>) }"

fun switch_zone_loop ::
    "(nat \<Rightarrow> 's \<Rightarrow> int \<times> 's) \<Rightarrow> nat \<Rightarrow> nat \<Rightarrow> nat \<Rightarrow> ztl_metadata \<Rightarrow> app_zmd_entry list \<Rightarrow> 's \<Rightarrow>
     (ztl_metadata \<times> app_zmd_entry list \<times> 's) option" where
  "switch_zone_loop mgmt_reset slbas zone_id 0 md tbl s = Some (md, tbl, s)"
| "switch_zone_loop mgmt_reset slbas zone_id (Suc left) md tbl s = do {
     zone \<leftarrow> get_at (mt_metadata_zone md) zone_id;
     if g_sect (zn_addr zone) \<noteq> slbas
     then do {
       let s' = snd (zrocks_reset_file_md mgmt_reset (g_sect (zn_addr zone)) s);
       tbl' \<leftarrow> set_zone_wptr tbl zone (g_sect (zn_addr zone));
       Some (md\<lparr>mt_curr_zone_index := zone_id\<rparr>, tbl', s') }
     else switch_zone_loop mgmt_reset slbas (Suc zone_id) left md tbl s }"

definition zrocks_switch_zone ::
    "(nat \<Rightarrow> 's \<Rightarrow> int \<times> 's) \<Rightarrow> nat \<Rightarrow> ztl_metadata \<Rightarrow> app_zmd_entry list \<Rightarrow> 's \<Rightarrow>
     (ztl_metadata \<times> app_zmd_entry list \<times> 's) option" where
  "zrocks_switch_zone mgmt_reset slbas md tbl s =
     switch_zone_loop mgmt_reset slbas 0 (mt_zone_num md) md tbl s"

fun get_curr_metadata_zone ::
    "ztl_pro_zone list \<Rightarrow> app_zmd_entry list \<Rightarrow> nat \<Rightarrow> nat \<Rightarrow> nat option" where
  "get_curr_metadata_zone zones tbl zone_id 0 = Some 0"
| "get_curr_metadata_zone zones tbl zone_id (Suc left) = do {
     zone \<leftarrow> get_at zones zone_id;
     wptr \<leftarrow> zone_wptr tbl zone;
     if wptr < u64 (g_sect (zn_addr zone) + zn_capacity zone) then Some zone_id
     else get_curr_metadata_zone zones tbl (Suc zone_id) left }"

fun metadata_init_loop ::
    "xztl_mgeo \<Rightarrow> app_group \<Rightarrow> nat \<Rightarrow> nat \<Rightarrow> ztl_pro_zone list \<Rightarrow> app_zmd_entry list \<Rightarrow>
     (bool \<times> ztl_pro_zone list \<times> app_zmd_entry list) option" where
  "metadata_init_loop g grp zone_i 0 zones tbl = Some (True, zones, tbl)"
| "metadata_init_loop g grp zone_i (Suc left) zones tbl = do {
     rep \<leftarrow> zd_report (gr_zmd grp);
     zinfo \<leftarrow> get_at rep (u32 (u32 (gr_id grp * ge_zn_grp g) + zone_i));
     zmde \<leftarrow> get_at tbl zone_i;
     if \<not> has_flag (ze_flags zmde) XZTL_ZMD_AVLB \<or> has_flag (ze_flags zmde) XZTL_ZMD_RSVD
     then Some (False, zones, tbl)
     else do {
       zones' \<leftarrow> set_at zones zone_i \<lparr>zn_addr = ze_addr zmde, zn_zmd_entry = Some zone_i,
                    zn_capacity = zi_zcap zinfo, zn_lock = 0, zn_state = Some (zi_zs zinfo)\<rparr>;
       tbl' \<leftarrow> set_at tbl zone_i (zmde\<lparr>ze_wptr_inflight := zi_wp zinfo, ze_wptr := zi_wp zinfo\<rparr>);
       metadata_init_loop g grp (Suc zone_i) left zones' tbl' } }"

text \<open>\<open>mdts_nbytes\<close> comes from the geometry xNVMe reports.\<close>

definition ztl_metadata_init ::
    "bool \<Rightarrow> bool \<Rightarrow> nat \<Rightarrow> xztl_mgeo \<Rightarrow> app_group \<Rightarrow> ztl_metadata \<Rightarrow>
     (int \<times> ztl_metadata \<times> app_group) option" where
  "ztl_metadata_init calloc_fails mutex_fails mdts_nbytes g grp md =
     (if ge_nbytes g = 0 then None
      else let md = md\<lparr>mt_zone_num := 2, mt_nlb_max := mdts_nbytes div ge_nbytes g\<rparr>
      in if calloc_fails then Some (xz XZTL_ZTL_MD_INIT_ERR, md\<lparr>mt_metadata_zone := []\<rparr>, grp)
      else if mutex_fails
      then Some (xz XZTL_ZTL_MD_INIT_ERR, md\<lparr>mt_metadata_zone := replicate 2 zero_zone\<rparr>, grp)
      else do {
        tbl \<leftarrow> zd_tbl (gr_zmd grp);
        (ok, zones, tbl') \<leftarrow> metadata_init_loop g grp 0 2 (replicate 2 zero_zone) tbl;
        let md = md\<lparr>mt_metadata_zone := zones\<rparr>;
        let grp = grp\<lparr>gr_zmd := (gr_zmd grp)\<lparr>zd_tbl := Some tbl'\<rparr>\<rparr>;
        if \<not> ok then Some (xz XZTL_ZTL_MD_INIT_ERR, md, grp)
        else do {
          cur \<leftarrow> get_curr_metadata_zone zones tbl' 0 2;
          Some (xz XZTL_OK, md\<lparr>mt_curr_zone_index := cur\<rparr>, grp) } })"

text \<open>Submitting one read command: up to three attempts, each failure counted. \<open>cmd0\<close> is
  the uninitialised command on the stack.\<close>

fun md_read_submit ::
    "'s xztl_core \<Rightarrow> xztl_io_mcmd \<Rightarrow> nat \<Rightarrow> xztl_stats_data \<Rightarrow> 's \<Rightarrow>
     (int \<times> xztl_stats_data \<times> 's) option" where
  "md_read_submit core cmd 0 io s = Some (xz XZTL_ZTL_MD_READ_ERR, io, s)"
| "md_read_submit core cmd (Suc attempts) io s = do {
     (ret, cmd', s') \<leftarrow> xztl_media_submit_io core cmd s;
     if ret = 0 then Some (0, io, s')
     else do {
       io' \<leftarrow> xztl_stats_inc (st XZTL_STATS_META_READ_FAIL) 1 io;
       md_read_submit core cmd' attempts io' s' } }"

definition md_read_cmd :: "xztl_io_mcmd \<Rightarrow> nat \<Rightarrow> nat \<Rightarrow> nat \<Rightarrow> xztl_io_mcmd" where
  "md_read_cmd cmd0 slba read_nlb prp = cmd0\<lparr>mc_opcode := op XZTL_CMD_READ, mc_naddr := 1,
     mc_synch := 1, mc_addr := set_sect slba 0, mc_nsec := read_nlb, mc_prp := prp,
     mc_status := 0\<rparr>"

function read_metadata_loop ::
    "'s xztl_core \<Rightarrow> (nat \<Rightarrow> nat \<Rightarrow> 's \<Rightarrow> 'b list) \<Rightarrow> xztl_io_mcmd \<Rightarrow> nat \<Rightarrow> nat \<Rightarrow> 'b list \<Rightarrow>
     xztl_mempool \<Rightarrow> xztl_stats_data \<Rightarrow> 's \<Rightarrow>
     (int \<times> 'b list \<times> xztl_mempool \<times> xztl_stats_data \<times> 's) option" where
  "read_metadata_loop core peek cmd0 left_nlb slba buf mp io s =
     (if left_nlb = 0 then Some (xz XZTL_OK, buf, mp, io, s)
      else do {
        let read_nlb = (if left_nlb > MAX_READ_NLB_NUM then MAX_READ_NLB_NUM else left_nlb);
        (ent, mp1) \<leftarrow> xztl_mempool_get mp (mpt ZROCKS_MEMORY) 0;
        (ret, io1, s1) \<leftarrow> md_read_submit core (md_read_cmd cmd0 slba read_nlb (en_opaque ent))
                            META_READ_MAX_RETRY io s;
        mp2 \<leftarrow> xztl_mempool_put mp1 ent (mpt ZROCKS_MEMORY) 0;
        if ret \<noteq> 0 then Some (xz XZTL_ZTL_MD_READ_ERR, buf, mp2, io1, s1)
        else read_metadata_loop core peek cmd0 (left_nlb - read_nlb) (u64 (slba + read_nlb))
               (buf @ peek (en_opaque ent) (read_nlb * ZNS_ALIGMENT) s1) mp2 io1 s1 })"
  by pat_completeness auto
termination
  by (relation "measure (\<lambda>(core, peek, cmd0, left_nlb, slba, buf, mp, io, s). left_nlb)") auto

text \<open>The result is the bytes stored at the caller's buffer, in order. The number of blocks
  is kept in 16 bits.\<close>

definition zrocks_read_metadata ::
    "'s xztl_core \<Rightarrow> (nat \<Rightarrow> nat \<Rightarrow> 's \<Rightarrow> 'b list) \<Rightarrow> nat \<Rightarrow> xztl_io_mcmd \<Rightarrow> nat \<Rightarrow> nat \<Rightarrow>
     xztl_mempool \<Rightarrow> xztl_stats_data \<Rightarrow> 's \<Rightarrow>
     (int \<times> 'b list \<times> xztl_mempool \<times> xztl_stats_data \<times> 's) option" where
  "zrocks_read_metadata core peek nbytes cmd0 slba len mp io s =
     (if nbytes = 0 then None
      else read_metadata_loop core peek cmd0 (u16 (len div nbytes)) slba [] mp io s)"

fun md_write_submit ::
    "(nat \<Rightarrow> nat \<Rightarrow> 'b list \<Rightarrow> 's \<Rightarrow> int \<times> bool \<times> 's) \<Rightarrow> nat \<Rightarrow> nat \<Rightarrow> 'b list \<Rightarrow> int \<Rightarrow> nat \<Rightarrow>
     xztl_stats_data \<Rightarrow> 's \<Rightarrow> (int \<times> xztl_stats_data \<times> 's) option" where
  "md_write_submit nvm_write slba nlb data err 0 io s = Some (err, io, s)"
| "md_write_submit nvm_write slba nlb data err (Suc attempts) io s =
     (case nvm_write slba nlb data s of (ret, bad, s') \<Rightarrow>
        if ret \<noteq> 0 \<or> bad
        then do {
          io' \<leftarrow> xztl_stats_inc (st XZTL_STATS_META_WRITE_FAIL) 1 io;
          md_write_submit nvm_write slba nlb data
            (if ret \<noteq> 0 then ret else - xz XZTL_ZTL_MD_WRITE_ERR) attempts io' s' }
        else Some (0, io, s'))"

function write_metadata_loop ::
    "(nat \<Rightarrow> nat \<Rightarrow> 'b list \<Rightarrow> 's \<Rightarrow> int \<times> bool \<times> 's) \<Rightarrow> nat \<Rightarrow> ztl_pro_zone \<Rightarrow> 'b list \<Rightarrow> nat \<Rightarrow>
     app_zmd_entry list \<Rightarrow> xztl_stats_data \<Rightarrow> 's \<Rightarrow>
     (int \<times> app_zmd_entry list \<times> xztl_stats_data \<times> 's) option" where
  "write_metadata_loop nvm_write nbytes zone data remain_len tbl io s =
     (if remain_len = 0 then Some (0, tbl, io, s)
      else do {
        let max_len = MAX_WRITE_NLB_NUM * ZNS_ALIGMENT;
        let write_len = (if remain_len > max_len then max_len else remain_len);
        let nlb = u16 (write_len div nbytes);
        wptr \<leftarrow> zone_wptr tbl zone;
        (err, io1, s1) \<leftarrow> md_write_submit nvm_write wptr (usub 16 nlb 1) data 0 META_WRITE_MAX_RETRY io s;
        if err \<noteq> 0 then Some (err, tbl, io1, s1)
        else do {
          tbl' \<leftarrow> set_zone_wptr tbl zone (u64 (wptr + nlb));
          write_metadata_loop nvm_write nbytes zone (drop write_len data) (remain_len - write_len)
            tbl' io1 s1 } })"
  by pat_completeness auto
termination
  by (relation "measure (\<lambda>(nvm_write, nbytes, zone, data, remain_len, tbl, io, s). remain_len)") auto

declare read_metadata_loop.simps [simp del] write_metadata_loop.simps [simp del]

definition zrocks_write_file_metadata ::
    "(nat \<Rightarrow> nat \<Rightarrow> 'b list \<Rightarrow> 's \<Rightarrow> int \<times> bool \<times> 's) \<Rightarrow> (nat \<Rightarrow> 's \<Rightarrow> int \<times> 's) \<Rightarrow> nat \<Rightarrow> 'b list \<Rightarrow>
     nat \<Rightarrow> ztl_metadata \<Rightarrow> app_zmd_entry list \<Rightarrow> xztl_stats_data \<Rightarrow> 's \<Rightarrow>
     (int \<times> ztl_metadata \<times> app_zmd_entry list \<times> xztl_stats_data \<times> 's) option" where
  "zrocks_write_file_metadata nvm_write mgmt_reset nbytes buf len md tbl io s =
     (if nbytes = 0 then None
      else do {
        zone \<leftarrow> get_at (mt_metadata_zone md) (mt_curr_zone_index md);
        wptr \<leftarrow> zone_wptr tbl zone;
        if u64 (wptr + len div nbytes) \<ge> u64 (g_sect (zn_addr zone) + zn_capacity zone)
        then do {
          (md', tbl', s') \<leftarrow> zrocks_switch_zone mgmt_reset (g_sect (zn_addr zone)) md tbl s;
          Some (xz XZTL_ZTL_MD_WRITE_FULL, md', tbl', io, s') }
        else do {
          (err, tbl', io', s') \<leftarrow> write_metadata_loop nvm_write nbytes zone buf len tbl io s;
          Some (if err \<noteq> 0 then xz XZTL_ZTL_MD_WRITE_ERR else xz XZTL_OK, md, tbl', io', s') } })"

section \<open>The device\<close>

text \<open>What is used of the device: a write that succeeds stores its blocks, no write touches
  another block; a read that succeeds delivers the blocks, and no read changes any.
  \<open>dev s b\<close> is the content of block \<open>b\<close>, \<open>ZNS_ALIGMENT\<close> bytes long.\<close>

definition nvm_write_law ::
    "('s \<Rightarrow> nat \<Rightarrow> 'b list) \<Rightarrow> (nat \<Rightarrow> nat \<Rightarrow> 'b list \<Rightarrow> 's \<Rightarrow> int \<times> bool \<times> 's) \<Rightarrow> bool" where
  "nvm_write_law dev nvm_write \<longleftrightarrow> (\<forall>slba nlb data s ret bad s'.
     nvm_write slba nlb data s = (ret, bad, s') \<longrightarrow>
       (\<forall>b. b < slba \<or> slba + nlb < b \<longrightarrow> dev s' b = dev s b) \<and>
       (ret = 0 \<and> \<not> bad \<longrightarrow>
          (\<forall>i \<le> nlb. dev s' (slba + i) = take ZNS_ALIGMENT (drop (i * ZNS_ALIGMENT) data))))"

definition media_read_law ::
    "('s \<Rightarrow> nat \<Rightarrow> 'b list) \<Rightarrow> (nat \<Rightarrow> nat \<Rightarrow> 's \<Rightarrow> 'b list) \<Rightarrow> 's xztl_media \<Rightarrow> bool" where
  "media_read_law dev peek m \<longleftrightarrow> (\<exists>f. mm_submit_io m = Some f \<and> (\<forall>cmd s.
     mc_opcode cmd = op XZTL_CMD_READ \<longrightarrow> mc_synch cmd = 1 \<longrightarrow>
     0 < mc_nsec cmd \<longrightarrow> mc_nsec cmd < 2 ^ 16 \<longrightarrow>
     (\<exists>ret s'. f cmd s = Some (ret, cmd, s') \<and> dev s' = dev s \<and>
       (ret = 0 \<longrightarrow> peek (mc_prp cmd) (mc_nsec cmd * ZNS_ALIGMENT) s' =
          concat (map (dev s) [g_sect (mc_addr cmd)..<g_sect (mc_addr cmd) + mc_nsec cmd])))))"

section \<open>Lemmas\<close>

lemma md_write_submit_correct:
  assumes law: "nvm_write_law dev nvm_write" and "length io = XZTL_STATS_IO_TYPES"
    and "err \<noteq> 0 \<or> 0 < attempts"
  shows "\<exists>err' io' s'. md_write_submit nvm_write slba nlb data err attempts io s = Some (err', io', s') \<and>
    length io' = XZTL_STATS_IO_TYPES \<and> (\<forall>b. b < slba \<or> slba + nlb < b \<longrightarrow> dev s' b = dev s b) \<and>
    (err' = 0 \<longrightarrow> (\<forall>i \<le> nlb. dev s' (slba + i) = take ZNS_ALIGMENT (drop (i * ZNS_ALIGMENT) data)))"
  using assms(2,3)
proof (induction attempts arbitrary: err io s)
  case 0
  then show ?case by simp
next
  case (Suc attempts)
  obtain ret bad s1 where w: "nvm_write slba nlb data s = (ret, bad, s1)" by (metis prod_cases3)
  with law have frame: "\<forall>b. b < slba \<or> slba + nlb < b \<longrightarrow> dev s1 b = dev s b"
    and good: "ret = 0 \<and> \<not> bad \<Longrightarrow>
      \<forall>i \<le> nlb. dev s1 (slba + i) = take ZNS_ALIGMENT (drop (i * ZNS_ALIGMENT) data)"
    unfolding nvm_write_law_def by blast+
  show ?case
  proof (cases "ret \<noteq> 0 \<or> bad")
    case True
    have "xztl_stats_inc (st XZTL_STATS_META_WRITE_FAIL) 1 io =
        Some (io[20 := u64 (io ! 20 + 1)])"
      using Suc.prems(1) by (simp add: xztl_stats_inc_Some)
    with Suc.IH [of "io[20 := u64 (io ! 20 + 1)]"
        "if ret \<noteq> 0 then ret else - xz XZTL_ZTL_MD_WRITE_ERR" s1] Suc.prems(1) True w frame
    show ?thesis by auto
  next
    case False
    with w frame good Suc.prems(1) show ?thesis by simp
  qed
qed

lemma set_zone_wptr_Some:
  "\<lbrakk>zn_zmd_entry zone = Some i; i < length tbl\<rbrakk> \<Longrightarrow>
   set_zone_wptr tbl zone v = Some (tbl[i := (tbl ! i)\<lparr>ze_wptr := v\<rparr>])"
  by (simp add: set_zone_wptr_def)

lemma zone_wptr_Some:
  "\<lbrakk>zn_zmd_entry zone = Some i; i < length tbl\<rbrakk> \<Longrightarrow> zone_wptr tbl zone = Some (ze_wptr (tbl ! i))"
  by (simp add: zone_wptr_def)

text \<open>The write loop: \<open>k\<close> of the \<open>n\<close> blocks are stored and the write pointer stands
  behind them; without an error all are.\<close>

lemma write_metadata_loop_correct:
  assumes law: "nvm_write_law dev nvm_write" and z: "zn_zmd_entry zone = Some i"
    and "i < length tbl" "length io = XZTL_STATS_IO_TYPES" "ze_wptr (tbl ! i) + n < 2 ^ 64"
  shows "\<exists>err tbl' io' s' k.
    write_metadata_loop nvm_write ZNS_ALIGMENT zone data (n * ZNS_ALIGMENT) tbl io s =
      Some (err, tbl', io', s') \<and> k \<le> n \<and> (err = 0 \<longrightarrow> k = n) \<and>
    tbl' = tbl[i := (tbl ! i)\<lparr>ze_wptr := ze_wptr (tbl ! i) + k\<rparr>] \<and>
    (\<forall>b. b < ze_wptr (tbl ! i) \<or> ze_wptr (tbl ! i) + n \<le> b \<longrightarrow> dev s' b = dev s b) \<and>
    (\<forall>j < k. dev s' (ze_wptr (tbl ! i) + j) = take ZNS_ALIGMENT (drop (j * ZNS_ALIGMENT) data))"
  using assms(3-)
proof (induction n arbitrary: data tbl io s rule: less_induct)
  case (less n)
  let ?w = "ze_wptr (tbl ! i)"
  show ?case
  proof (cases "n = 0")
    case True
    then show ?thesis by (simp add: write_metadata_loop.simps)
  next
    case False
    define c where "c = (if 64 < n then 64 else n)"
    have c: "0 < c" "c \<le> n" "c \<le> 64" using False by (auto simp: c_def)
    have wl: "(if n * 4096 > 64 * 4096 then 64 * 4096 else n * 4096) = c * 4096"
      by (auto simp: c_def)
    have nlb: "u16 (c * 4096 div 4096) = c" "usub 16 c 1 = c - 1"
      using c by (simp_all add: u16_small usub_small)
    obtain err io1 s1 where m: "md_write_submit nvm_write ?w (c - 1) data 0 3 io s = Some (err, io1, s1)"
      "length io1 = 22" "\<forall>b. b < ?w \<or> ?w + (c - 1) < b \<longrightarrow> dev s1 b = dev s b"
      "err = 0 \<longrightarrow> (\<forall>j \<le> c - 1. dev s1 (?w + j) = take 4096 (drop (j * 4096) data))"
      using md_write_submit_correct [OF law less.prems(2), of 0 3 ?w "c - 1" data s] by auto
    have step: "write_metadata_loop nvm_write 4096 zone data (n * 4096) tbl io s =
      (if err \<noteq> 0 then Some (err, tbl, io1, s1)
       else write_metadata_loop nvm_write 4096 zone (drop (c * 4096) data) ((n - c) * 4096)
              (tbl[i := (tbl ! i)\<lparr>ze_wptr := ?w + c\<rparr>]) io1 s1)"
      using False m(1) less.prems(1,3) c
      by (subst write_metadata_loop.simps, simp only: Let_def wl nlb)
        (simp add: zone_wptr_Some [OF z] set_zone_wptr_Some [OF z] u64_small
          diff_mult_distrib)
    show ?thesis
    proof (cases "err = 0")
      case False
      with step m(3) c less.prems(1) show ?thesis
        by (intro exI [of _ err] exI [of _ tbl] exI [of _ io1] exI [of _ s1] exI [of _ 0]) auto
    next
      case True
      let ?tbl = "tbl[i := (tbl ! i)\<lparr>ze_wptr := ?w + c\<rparr>]"
      have w: "ze_wptr (?tbl ! i) = ?w + c" using less.prems(1) by simp
      have pre: "n - c < n" "i < length ?tbl" "ze_wptr (?tbl ! i) + (n - c) < 2 ^ 64"
        using c less.prems w by simp_all
      obtain err2 tbl2 io2 s2 k where r:
        "write_metadata_loop nvm_write 4096 zone (drop (c * 4096) data) ((n - c) * 4096) ?tbl io1 s1 =
           Some (err2, tbl2, io2, s2)" "k \<le> n - c" "err2 = 0 \<longrightarrow> k = n - c"
        "tbl2 = ?tbl[i := (?tbl ! i)\<lparr>ze_wptr := ?w + c + k\<rparr>]"
        "\<forall>b. b < ?w + c \<or> ?w + c + (n - c) \<le> b \<longrightarrow> dev s2 b = dev s1 b"
        "\<forall>j < k. dev s2 (?w + c + j) = take 4096 (drop (j * 4096) (drop (c * 4096) data))"
        using less.IH [OF pre(1,2) m(2) pre(3), of "drop (c * 4096) data" s1] unfolding w by blast
      have "dev s2 (?w + j) = take 4096 (drop (j * 4096) data)" if "j < c + k" for j
      proof (cases "j < c")
        case True
        then show ?thesis using r(5) m(4) \<open>err = 0\<close> by simp
      next
        case False
        then obtain d where d: "j = c + d" by (metis le_Suc_ex not_le)
        then have "dev s2 (?w + c + d) = take 4096 (drop (d * 4096) (drop (c * 4096) data))"
          using r(6) that by simp
        then show ?thesis by (simp add: d ac_simps add_mult_distrib)
      qed
      moreover have "dev s2 b = dev s b" if "b < ?w \<or> ?w + n \<le> b" for b
        using that r(5) m(3) c by auto
      ultimately show ?thesis using step True r(1-4) c less.prems(1)
        by (intro exI [of _ err2] exI [of _ tbl2] exI [of _ io2] exI [of _ s2] exI [of _ "c + k"])
          (simp add: add.assoc)
    qed
  qed
qed

lemma md_read_submit_correct:
  assumes law: "media_read_law dev peek m" and "length io = XZTL_STATS_IO_TYPES"
    and "mc_opcode cmd = op XZTL_CMD_READ" "mc_synch cmd = 1" "0 < mc_nsec cmd" "mc_nsec cmd < 2 ^ 16"
  shows "\<exists>ret io' s'. md_read_submit (Some m) cmd attempts io s = Some (ret, io', s') \<and>
    length io' = XZTL_STATS_IO_TYPES \<and> dev s' = dev s \<and>
    (ret = 0 \<longrightarrow> peek (mc_prp cmd) (mc_nsec cmd * ZNS_ALIGMENT) s' =
       concat (map (dev s) [g_sect (mc_addr cmd)..<g_sect (mc_addr cmd) + mc_nsec cmd]))"
  using assms(2)
proof (induction attempts arbitrary: io s)
  case 0
  then show ?case by simp
next
  case (Suc attempts)
  from law obtain f where f: "mm_submit_io m = Some f" and
    laws: "\<exists>ret s'. f cmd s = Some (ret, cmd, s') \<and> dev s' = dev s \<and>
       (ret = 0 \<longrightarrow> peek (mc_prp cmd) (mc_nsec cmd * ZNS_ALIGMENT) s' =
          concat (map (dev s) [g_sect (mc_addr cmd)..<g_sect (mc_addr cmd) + mc_nsec cmd]))"
    using assms(3-6) unfolding media_read_law_def by blast
  from laws obtain ret s1 where r: "f cmd s = Some (ret, cmd, s1)" "dev s1 = dev s"
    "ret = 0 \<longrightarrow> peek (mc_prp cmd) (mc_nsec cmd * ZNS_ALIGMENT) s1 =
       concat (map (dev s) [g_sect (mc_addr cmd)..<g_sect (mc_addr cmd) + mc_nsec cmd])" by blast
  have inc: "xztl_stats_inc (st XZTL_STATS_META_READ_FAIL) 1 io = Some (io[21 := u64 (io ! 21 + 1)])"
    using Suc.prems by (simp add: xztl_stats_inc_Some)
  show ?case
    using Suc.IH [of "io[21 := u64 (io ! 21 + 1)]" s1] Suc.prems f r inc
    by (auto simp: xztl_media_submit_io_def)
qed

definition pool_nonempty :: "xztl_mempool \<Rightarrow> nat \<Rightarrow> nat \<Rightarrow> bool" where
  "pool_nonempty mp type tid \<longleftrightarrow> (\<exists>p. pool_at mp type tid = Some p \<and> po_head p \<noteq> [])"

lemma mempool_get_put:
  assumes "pool_nonempty mp type tid"
  shows "\<exists>ent mp1 mp2. xztl_mempool_get mp type tid = Some (ent, mp1) \<and>
    xztl_mempool_put mp1 ent type tid = Some mp2 \<and> pool_nonempty mp2 type tid"
proof -
  from assms obtain p where p: "pool_at mp type tid = Some p" "po_head p \<noteq> []"
    by (auto simp: pool_nonempty_def)
  then have b: "type < length mp" "tid < length (mp ! type)" by (auto simp: pool_at_def bind_eq_Some_conv)
  obtain ent p1 where t: "mp_take p = Some (ent, p1)" using p(2) mp.take_None [of p] by (cases "mp_take p") auto
  have "pool_at (pool_upd mp type tid p1) type tid = Some p1"
    using b by (simp add: pool_at_def pool_upd_def)
  moreover have "pool_at (pool_upd (pool_upd mp type tid p1) type tid (mp_give ent p1)) type tid =
      Some (mp_give ent p1)"
    using b by (simp add: pool_at_def pool_upd_def)
  ultimately show ?thesis using p t
    by (auto simp: xztl_mempool_get_def xztl_mempool_put_def pool_nonempty_def mp_give_def
      tailq_insert_tail_def)
qed

lemma read_metadata_loop_correct:
  assumes law: "media_read_law dev peek m" and "pool_nonempty mp (mpt ZROCKS_MEMORY) 0"
    and "length io = XZTL_STATS_IO_TYPES" "slba + n \<le> 2 ^ 36"
  shows "\<exists>ret data mp' io' s'.
    read_metadata_loop (Some m) peek cmd0 n slba buf mp io s = Some (ret, data, mp', io', s') \<and>
    (ret = xz XZTL_OK \<or> ret = xz XZTL_ZTL_MD_READ_ERR) \<and> dev s' = dev s \<and>
    (ret = xz XZTL_OK \<longrightarrow> data = buf @ concat (map (dev s) [slba..<slba + n]))"
  using assms(2-)
proof (induction n arbitrary: slba buf mp io s rule: less_induct)
  case (less n)
  show ?case
  proof (cases "n = 0")
    case True
    then show ?thesis by (simp add: read_metadata_loop.simps)
  next
    case False
    define c where "c = (if n > 128 then 128 else n)"
    have c: "0 < c" "c \<le> n" "c \<le> 128" using False by (auto simp: c_def)
    obtain ent mp1 mp2 where g: "xztl_mempool_get mp (mpt ZROCKS_MEMORY) 0 = Some (ent, mp1)"
      "xztl_mempool_put mp1 ent (mpt ZROCKS_MEMORY) 0 = Some mp2"
      "pool_nonempty mp2 (mpt ZROCKS_MEMORY) 0"
      using mempool_get_put [OF less.prems(1)] by blast
    define cmd where "cmd = md_read_cmd cmd0 slba c (en_opaque ent)"
    have cmd: "mc_opcode cmd = op XZTL_CMD_READ" "mc_synch cmd = 1" "mc_nsec cmd = c"
      "mc_prp cmd = en_opaque ent" "g_sect (mc_addr cmd) = slba"
      using less.prems(3) c by (simp_all add: cmd_def md_read_cmd_def sect_field.get_put_small)
    obtain ret io1 s1 where r: "md_read_submit (Some m) cmd 3 io s = Some (ret, io1, s1)"
      "length io1 = 22" "dev s1 = dev s"
      "ret = 0 \<longrightarrow> peek (en_opaque ent) (c * 4096) s1 = concat (map (dev s) [slba..<slba + c])"
      using md_read_submit_correct [OF law less.prems(2) cmd(1,2), of 3 s] cmd(3-5) c by auto
    have step: "read_metadata_loop (Some m) peek cmd0 n slba buf mp io s =
      (if ret \<noteq> 0 then Some (xz XZTL_ZTL_MD_READ_ERR, buf, mp2, io1, s1)
       else read_metadata_loop (Some m) peek cmd0 (n - c) (slba + c)
              (buf @ peek (en_opaque ent) (c * 4096) s1) mp2 io1 s1)"
      using False g r(1) less.prems(3) c
      by (subst read_metadata_loop.simps, simp only: Let_def c_def [symmetric])
        (simp add: cmd_def u64_small)
    have "[slba..<slba + n] = [slba..<slba + c] @ [slba + c..<slba + n]"
      using c by (metis add.assoc add_diff_inverse_nat leD upt_add_eq_append le_add1)
    then show ?thesis
      using step r less.IH [of "n - c" mp2 io1 "slba + c" "buf @ peek (en_opaque ent) (c * 4096) s1" s1]
        c g(3) less.prems(3)
      by (cases "ret = 0") auto
  qed
qed

lemma write_file_metadata_not_full:
  assumes zone: "mt_curr_zone_index md < length (mt_metadata_zone md)"
      "mt_metadata_zone md ! mt_curr_zone_index md = zone" "zn_zmd_entry zone = Some i" "i < length tbl"
    and room: "ze_wptr (tbl ! i) + n < g_sect (zn_addr zone) + zn_capacity zone"
      "g_sect (zn_addr zone) + zn_capacity zone < 2 ^ 64"
  shows "zrocks_write_file_metadata nvm_write mgmt_reset ZNS_ALIGMENT buf (n * ZNS_ALIGMENT) md tbl io s =
    map_option (\<lambda>(err, tbl', io', s').
        (if err \<noteq> 0 then xz XZTL_ZTL_MD_WRITE_ERR else xz XZTL_OK, md, tbl', io', s'))
      (write_metadata_loop nvm_write ZNS_ALIGMENT zone buf (n * ZNS_ALIGMENT) tbl io s)"
proof -
  have "u64 (ze_wptr (tbl ! i) + n) = ze_wptr (tbl ! i) + n"
    "u64 (g_sect (zn_addr zone) + zn_capacity zone) = g_sect (zn_addr zone) + zn_capacity zone"
    using room by (simp_all add: u64_small)
  then show ?thesis using zone room(1)
    by (simp add: zrocks_write_file_metadata_def zone_wptr_Some map_option_case split: bind_splits
      option.splits)
qed

text \<open>A full zone: the other one is reset and becomes current.\<close>

lemma write_meta_full:
  assumes md: "mt_zone_num md = 2" "mt_metadata_zone md = [z0, z1]" "mt_curr_zone_index md < 2" "g_sect (zn_addr z0) \<noteq> g_sect (zn_addr z1)"
    and cur: "zone = [z0, z1] ! mt_curr_zone_index md" "new = [z0, z1] ! (1 - mt_curr_zone_index md)" "zn_zmd_entry new = Some i" "i < length tbl"
      "zone_wptr tbl zone = Some wptr" "\<not> u64 (wptr + len div nbytes) < u64 (g_sect (zn_addr zone) + zn_capacity zone)" "nbytes \<noteq> 0"
  shows "zrocks_write_file_metadata nvm reset nbytes buf len md tbl io x = Some (xz XZTL_ZTL_MD_WRITE_FULL,
      md\<lparr>mt_curr_zone_index := 1 - mt_curr_zone_index md\<rparr>, tbl[i := (tbl ! i)\<lparr>ze_wptr := g_sect (zn_addr new)\<rparr>], io, snd (reset (g_sect (zn_addr new)) x))"
proof -
  have two: "(2::nat) = Suc (Suc 0)" by simp
  consider "mt_curr_zone_index md = 0" | "mt_curr_zone_index md = 1" using md(3) by linarith
  then show ?thesis using md cur
    by cases (simp_all add: zrocks_write_file_metadata_def zrocks_switch_zone_def two set_zone_wptr_Some Let_def zrocks_reset_file_md_def split_beta)
qed

lemma concat_blocks: "length xs = n * B \<Longrightarrow>
  concat (map (\<lambda>j. take B (drop (j * B) xs)) [0..<n]) = xs"
proof (induction n arbitrary: xs)
  case 0
  then show ?case by simp
next
  case (Suc n)
  have "[0..<Suc n] = 0 # map Suc [0..<n]" by (simp add: map_Suc_upt upt_conv_Cons)
  then have "concat (map (\<lambda>j. take B (drop (j * B) xs)) [0..<Suc n]) =
      take B xs @ concat (map (\<lambda>j. take B (drop (j * B) (drop B xs))) [0..<n])"
    by (simp add: comp_def add.commute del: upt_Suc)
  also have "concat (map (\<lambda>j. take B (drop (j * B) (drop B xs))) [0..<n]) = drop B xs"
    by (rule Suc.IH) (simp add: Suc.prems)
  finally show ?case by simp
qed

text \<open>A small device for the witnesses: the blocks, and the memory of the last read.\<close>

type_synonym sample_dev = "(nat \<Rightarrow> nat list) \<times> nat list"

definition sample_nvm_write ::
    "nat \<Rightarrow> nat \<Rightarrow> nat list \<Rightarrow> sample_dev \<Rightarrow> int \<times> bool \<times> sample_dev" where
  "sample_nvm_write slba nlb data s = (0, False,
     (\<lambda>b. if slba \<le> b \<and> b \<le> slba + nlb then take 4096 (drop ((b - slba) * 4096) data) else fst s b,
      snd s))"

definition sample_reader :: "sample_dev xztl_media" where
  "sample_reader = \<lparr>mm_geo = geo_fill sample_geo, mm_init_fn = None, mm_exit_fn = None,
     mm_submit_io = Some (\<lambda>c s. Some (0, c, (fst s,
       concat (map (fst s) [g_sect (mc_addr c)..<g_sect (mc_addr c) + mc_nsec c])))),
     mm_zone_fn = None, mm_dma_alloc = None, mm_dma_free = None, mm_cmd_exec = None\<rparr>"

definition sample_md_zone :: "nat \<Rightarrow> nat \<Rightarrow> ztl_pro_zone" where
  "sample_md_zone sect i = \<lparr>zn_addr = set_sect sect 0, zn_zmd_entry = Some i, zn_capacity = 8,
     zn_lock = 0, zn_state = None\<rparr>"

definition sample_md :: ztl_metadata where
  "sample_md = \<lparr>mt_metadata_zone = [sample_md_zone 0 0, sample_md_zone 8 1], mt_zone_num = 2,
     mt_curr_zone_index = 0, mt_nlb_max = 64\<rparr>"

definition sample_md_tbl :: "app_zmd_entry list" where
  "sample_md_tbl = [zero_zmd_entry\<lparr>ze_wptr := 2\<rparr>, zero_zmd_entry\<lparr>ze_wptr := 8\<rparr>]"

definition sample_block :: "nat list" where
  "sample_block = replicate 4096 7"

definition sample_mp :: xztl_mempool where
  "sample_mp = replicate 5 [zero_pool\<lparr>po_head :=
     [\<lparr>en_ptr = 1, en_opaque = 2, en_tid = 0, en_entry_id = 0\<rparr>]\<rparr>]"

lemma length_sample_block [simp]: "length sample_block = 4096"
  by (simp add: sample_block_def)

lemma sample_nvm_law: "nvm_write_law fst sample_nvm_write"
  by (simp add: nvm_write_law_def sample_nvm_write_def)

lemma sample_read_law: "media_read_law fst (\<lambda>p n s. snd s) sample_reader"
  by (simp add: media_read_law_def sample_reader_def)

lemma sample_md_zone_simps [simp]:
  "g_sect (zn_addr (sample_md_zone 0 i)) = 0" "g_sect (zn_addr (sample_md_zone 8 i)) = 8"
  "zn_zmd_entry (sample_md_zone sect i) = Some i" "zn_capacity (sample_md_zone sect i) = 8"
  by (simp_all add: sample_md_zone_def sect_field.get_put_small)

section \<open>Properties\<close>



text \<open>C12: What a successful metadata write stored is what a later metadata read returns:
  reading the same number of blocks from the old write pointer always returns, and when it
  reports success its buffer holds exactly the bytes written.\<close>

theorem metadata_write_read:
  assumes law: "nvm_write_law dev nvm_write" and io: "length io = XZTL_STATS_IO_TYPES"
    and zone: "mt_curr_zone_index md < length (mt_metadata_zone md)"
      "mt_metadata_zone md ! mt_curr_zone_index md = zone" "zn_zmd_entry zone = Some i" "i < length tbl"
    and room: "ze_wptr (tbl ! i) + n < g_sect (zn_addr zone) + zn_capacity zone"
      "g_sect (zn_addr zone) + zn_capacity zone \<le> 2 ^ 36"
    and buf: "length buf = n * ZNS_ALIGMENT" and small: "n < 2 ^ 16"
    and wr: "zrocks_write_file_metadata nvm_write mgmt_reset ZNS_ALIGMENT buf (n * ZNS_ALIGMENT)
        md tbl io s = Some (xz XZTL_OK, md', tbl', io', s')"
    and rd: "media_read_law dev peek m" "pool_nonempty mp (mpt ZROCKS_MEMORY) 0"
      "length io2 = XZTL_STATS_IO_TYPES"
  shows "\<exists>ret data mp' io'' s''. zrocks_read_metadata (Some m) peek ZNS_ALIGMENT cmd0
      (ze_wptr (tbl ! i)) (n * ZNS_ALIGMENT) mp io2 s' = Some (ret, data, mp', io'', s'') \<and>
    (ret = xz XZTL_OK \<or> ret = xz XZTL_ZTL_MD_READ_ERR) \<and> (ret = xz XZTL_OK \<longrightarrow> data = buf)"
proof -
  let ?w = "ze_wptr (tbl ! i)"
  have r64: "g_sect (zn_addr zone) + zn_capacity zone < 2 ^ 64" "?w + n < 2 ^ 64" "?w + n \<le> 2 ^ 36"
    using room by simp_all
  have "\<forall>j < n. dev s' (?w + j) = take 4096 (drop (j * 4096) buf)"
    using write_metadata_loop_correct [OF law zone(3,4) io r64(2), of buf s] wr
    unfolding write_file_metadata_not_full [OF zone room(1) r64(1)]
    by (elim exE conjE) (auto split: if_splits)
  then have "map (dev s') [?w..<?w + n] = map (\<lambda>j. take 4096 (drop (j * 4096) buf)) [0..<n]"
    by (intro nth_equalityI) simp_all
  then have "concat (map (dev s') [?w..<?w + n]) = buf"
    using concat_blocks [OF buf] by simp
  moreover have "u16 (n * 4096 div 4096) = n" using small by (simp add: u16_small)
  ultimately show ?thesis
    using read_metadata_loop_correct [OF rd r64(3), of cmd0 "[]" s']
    by (simp add: zrocks_read_metadata_def) blast
qed

theorem metadata_write_read_witness:
  "\<exists>ret data mp' io'' s''. zrocks_read_metadata (Some sample_reader) (\<lambda>p n s. snd s) 4096 zero_mcmd
      2 (1 * 4096) sample_mp (replicate 22 0)
      (snd (snd (sample_nvm_write 2 0 sample_block (\<lambda>b. [], [])))) =
      Some (ret, data, mp', io'', s'') \<and> (ret = 0 \<longrightarrow> data = sample_block)"
proof -
  let ?s = "snd (snd (sample_nvm_write 2 0 sample_block (\<lambda>b. [], [])))"
  have wr: "zrocks_write_file_metadata sample_nvm_write (\<lambda>a s. (0, s)) 4096 sample_block
      (1 * 4096) sample_md sample_md_tbl (replicate 22 0) (\<lambda>b. [], []) =
      Some (xz XZTL_OK, sample_md, sample_md_tbl[0 := (sample_md_tbl ! 0)\<lparr>ze_wptr := 3\<rparr>],
        replicate 22 0, ?s)"
    by (subst write_file_metadata_not_full [where zone = "sample_md_zone 0 0" and i = 0])
      (simp_all add: sample_md_def sample_md_tbl_def, subst write_metadata_loop.simps,
       simp add: zone_wptr_Some set_zone_wptr_Some usub_small u64_small numeral_3_eq_3
         sample_nvm_write_def, subst write_metadata_loop.simps, simp add: numeral_2_eq_2)
  have mp: "pool_nonempty sample_mp (mpt ZROCKS_MEMORY) 0"
    by (simp add: pool_nonempty_def sample_mp_def pool_at_def)
  show ?thesis
    using metadata_write_read [OF sample_nvm_law _ _ _ _ _ _ _ _ _ wr sample_read_law mp,
        of "sample_md_zone 0 0" 0 "replicate 22 0" zero_mcmd]
    by (simp add: sample_md_def sample_md_tbl_def) blast
qed

text \<open>C18: When a write does not fit the current of the two metadata zones, nothing of the data reaches the device: the call
  reports the full zone, and the only call to the device is the reset of the other zone, whose state is the state
  afterwards. The other zone becomes current with its write pointer at its first sector, and no other
  entry of the zone table and no counter changes.\<close>

theorem metadata_write_full:
  assumes md: "mt_zone_num md = 2" "mt_metadata_zone md = [z0, z1]" "mt_curr_zone_index md < 2"
    "g_sect (zn_addr z0) \<noteq> g_sect (zn_addr z1)"
    and cur: "zone = [z0, z1] ! mt_curr_zone_index md" "new = [z0, z1] ! (1 - mt_curr_zone_index md)"
      "zn_zmd_entry new = Some i" "i < length tbl" "zone_wptr tbl zone = Some wptr"
    and full: "g_sect (zn_addr zone) + zn_capacity zone \<le> wptr + len div nbytes"
      "wptr + len div nbytes < 2 ^ 64" "0 < nbytes"
  shows "zrocks_write_file_metadata nvm_write mgmt_reset nbytes buf len md tbl io s =
    Some (xz XZTL_ZTL_MD_WRITE_FULL, md\<lparr>mt_curr_zone_index := 1 - mt_curr_zone_index md\<rparr>,
      tbl[i := (tbl ! i)\<lparr>ze_wptr := g_sect (zn_addr new)\<rparr>], io, snd (mgmt_reset (g_sect (zn_addr new)) s))"
proof -
  have "u64 (wptr + len div nbytes) = wptr + len div nbytes"
    "u64 (g_sect (zn_addr zone) + zn_capacity zone) = g_sect (zn_addr zone) + zn_capacity zone"
    using full by (simp_all add: u64_small)
  then show ?thesis using full by (intro write_meta_full [OF md cur]) simp_all
qed

theorem metadata_write_full_witness:
  "zrocks_write_file_metadata sample_nvm_write (\<lambda>a s. (0, (fst s)(a := []), snd s)) 4096 sample_block 32768
      sample_md sample_md_tbl (replicate 22 0) (\<lambda>b. [b], []) =
    Some (xz XZTL_ZTL_MD_WRITE_FULL, sample_md\<lparr>mt_curr_zone_index := 1\<rparr>,
      sample_md_tbl[1 := (sample_md_tbl ! 1)\<lparr>ze_wptr := 8\<rparr>], replicate 22 0, (\<lambda>b. [b])(8 := []), [])"
proof -
  have w: "zone_wptr sample_md_tbl (sample_md_zone 0 0) = Some 2" by (simp add: zone_wptr_Some sample_md_tbl_def)
  have md: "mt_zone_num sample_md = 2" "mt_curr_zone_index sample_md = 0"
    "mt_metadata_zone sample_md = [sample_md_zone 0 0, sample_md_zone 8 1]" "length sample_md_tbl = 2"
    by (simp_all add: sample_md_def sample_md_tbl_def)
  show ?thesis
    using metadata_write_full [OF md(1,3), of "sample_md_zone 0 0" "sample_md_zone 8 1" 1 sample_md_tbl 2 32768 4096
        sample_nvm_write "\<lambda>a s. (0, (fst s)(a := []), snd s)" sample_block "replicate 22 0" "(\<lambda>b. [b], [])"] md w by simp
qed

end
