(* ===== verification/Ztl_Pro.thy ===== *)
theory Ztl_Pro
  imports Ztl_Metadata "HOL-Library.Signed_Division"
begin

text \<open>
  Provisioning (\<open>ztl-pro-grp.c\<close> and \<open>ztl-pro.c\<close>). The zones of a group behind the
  metadata zones are gathered into nodes of 64 zones; a node is free, in use by one write
  queue, or full. A write takes the next slots of a node: slot \<open>s\<close> is eight sectors at depth
  \<open>s div 64\<close> of zone \<open>s mod 64\<close>.

  The pointers of the code are indices: a queue refers to its node by the index in
  \<open>vnodes\<close> (\<open>None\<close> is the null pointer). The group \<open>glist[0]\<close> is an argument of the
  operations that use it. Outcomes of \<open>calloc\<close> and of the initialisation of locks are
  arguments.
\<close>

section \<open>Model\<close>

definition zero_node :: ztl_pro_node where
  "zero_node = \<lparr>nd_id = 0, nd_vzones = replicate ZTL_PRO_ZONE_NUM_INNODE None,
     nd_optimal_write_sec_left = 0, nd_optimal_write_sec_used = 0, nd_nr_finish_err = 0,
     nd_nr_reset_err = 0, nd_nr_valid = 0, nd_status = XZTL_ZMD_NODE_FREE, nd_level = 0\<rparr>"

definition ztl_pro_grp_new_pro :: "bool \<Rightarrow> nat \<Rightarrow> nat \<Rightarrow> ztl_pro_node_grp option" where
  "ztl_pro_grp_new_pro fails node_num entries =
     (if fails then None
      else Some \<lparr>pg_vnodes = replicate node_num zero_node, pg_vzones = replicate entries zero_zone,
        pg_nfree = 0, pg_nzones = entries, pg_nnodes = node_num,
        pg_free_head = [], pg_used_head = [], pg_full_head = []\<rparr>)"

text \<open>Following the pointers from a node to one of its zones and to the metadata entry.\<close>

definition node_zone :: "ztl_pro_node_grp \<Rightarrow> ztl_pro_node \<Rightarrow> nat \<Rightarrow> ztl_pro_zone option" where
  "node_zone pro node zn_i = do {
     p \<leftarrow> get_at (nd_vzones node) zn_i; zi \<leftarrow> p; get_at (pg_vzones pro) zi }"

function pro_grp_get_loop ::
    "ztl_pro_node_grp \<Rightarrow> ztl_pro_node \<Rightarrow> nat \<Rightarrow> nat \<Rightarrow> nat \<Rightarrow> nat \<Rightarrow> app_pro_addr \<Rightarrow>
     app_zmd_entry list \<Rightarrow> (app_pro_addr \<times> app_zmd_entry list) option" where
  "pro_grp_get_loop pro node num_zn num addition zn_i ctx tbl =
     (if num = 0 then Some (ctx, tbl)
      else if APP_PRO_MAX_OFFS \<le> pa_naddr ctx then None
      else do {
        let i = (if addition = 0 then 0 else 1);
        zone \<leftarrow> node_zone pro node zn_i;
        e \<leftarrow> zn_zmd_entry zone;
        zmd \<leftarrow> get_at tbl e;
        addr \<leftarrow> set_at (pa_addr ctx) (pa_naddr ctx) (set_sect (ze_wptr_inflight zmd) (zn_addr zone));
        let n = u32 ((num_zn + i) * ZTL_IO_SEC_MCMD);
        nsec \<leftarrow> set_at (pa_nsec ctx) (pa_naddr ctx) n;
        tbl' \<leftarrow> set_at tbl e (zmd\<lparr>ze_wptr_inflight := u64 (ze_wptr_inflight zmd + n)\<rparr>);
        pro_grp_get_loop pro node num_zn (usub 32 num (num_zn + i)) (addition - i)
          ((zn_i + 1) mod ZTL_PRO_ZONE_NUM_INNODE)
          (ctx\<lparr>pa_addr := addr, pa_nsec := nsec, pa_naddr := u16 (pa_naddr ctx + 1)\<rparr>) tbl' })"
  by pat_completeness auto
termination
  by (relation "measure (\<lambda>(pro, node, num_zn, num, addition, zn_i, ctx, tbl).
        APP_PRO_MAX_OFFS - pa_naddr ctx)") (auto simp: u16_small)

declare pro_grp_get_loop.simps [simp del]

definition ztl_pro_grp_get ::
    "app_group \<Rightarrow> app_pro_addr \<Rightarrow> nat \<Rightarrow> nat \<Rightarrow> nat \<Rightarrow> (int \<times> app_pro_addr \<times> app_group) option" where
  "ztl_pro_grp_get grp ctx num node_id start = do {
     pro \<leftarrow> gr_pro grp;
     node \<leftarrow> get_at (pg_vnodes pro) node_id;
     tbl \<leftarrow> zd_tbl (gr_zmd grp);
     (ctx', tbl') \<leftarrow> pro_grp_get_loop pro node (num div ZTL_PRO_ZONE_NUM_INNODE) num
        (num mod ZTL_PRO_ZONE_NUM_INNODE) (start mod ZTL_PRO_ZONE_NUM_INNODE) ctx tbl;
     Some (xz XZTL_OK, ctx', grp\<lparr>gr_zmd := (gr_zmd grp)\<lparr>zd_tbl := Some tbl'\<rparr>\<rparr>) }"

definition ztl_pro_grp_free :: "ztl_metadata \<Rightarrow> app_group \<Rightarrow> nat \<Rightarrow> nat \<Rightarrow> app_group option" where
  "ztl_pro_grp_free md grp zone_i nsec = do {
     pro \<leftarrow> gr_pro grp;
     zone \<leftarrow> get_at (pg_vzones pro) (usub 32 zone_i (get_metadata_zone_num md));
     tbl \<leftarrow> zd_tbl (gr_zmd grp);
     wptr \<leftarrow> zone_wptr tbl zone;
     tbl' \<leftarrow> set_zone_wptr tbl zone (u64 (wptr + nsec));
     Some (grp\<lparr>gr_zmd := (gr_zmd grp)\<lparr>zd_tbl := Some tbl'\<rparr>\<rparr>) }"

text \<open>\<open>ztl_pro_grp_get_node\<close> in the pieces between which its locks are released: whether
  a new node is needed, moving the exhausted node to the full list, looking at the first free
  node, and moving that node to the used list.\<close>

definition get_node_needed :: "nat option \<Rightarrow> ztl_pro_node_grp \<Rightarrow> bool option" where
  "get_node_needed q_node pro =
     (case q_node of None \<Rightarrow> Some True
      | Some n \<Rightarrow> do { node \<leftarrow> get_at (pg_vnodes pro) n;
                      Some (nd_optimal_write_sec_left node = 0) })"

definition get_node_retire :: "nat option \<Rightarrow> ztl_pro_node_grp \<Rightarrow> ztl_pro_node_grp option" where
  "get_node_retire q_node pro =
     (case q_node of None \<Rightarrow> Some pro
      | Some n \<Rightarrow> do {
          node \<leftarrow> get_at (pg_vnodes pro) n;
          used \<leftarrow> tailq_remove (pg_used_head pro) (nd_id node);
          Some (pro\<lparr>pg_used_head := used,
                    pg_full_head := tailq_insert_tail (pg_full_head pro) (nd_id node)\<rparr>) })"

definition get_node_pick :: "ztl_pro_node_grp \<Rightarrow> nat option" where
  "get_node_pick pro = tailq_first (pg_free_head pro)"

definition get_node_claim :: "nat \<Rightarrow> ztl_pro_node_grp \<Rightarrow> ztl_pro_node_grp option" where
  "get_node_claim n pro = do {
     free \<leftarrow> tailq_remove (pg_free_head pro) n;
     node \<leftarrow> get_at (pg_vnodes pro) n;
     vnodes \<leftarrow> set_at (pg_vnodes pro) n (node\<lparr>nd_status := XZTL_ZMD_NODE_USED\<rparr>);
     Some (pro\<lparr>pg_free_head := free, pg_used_head := tailq_insert_tail (pg_used_head pro) n,
               pg_vnodes := vnodes, pg_nfree := usub 32 (pg_nfree pro) 1\<rparr>) }"

definition ztl_pro_grp_get_node ::
    "nat option \<Rightarrow> ztl_pro_node_grp \<Rightarrow> (int \<times> nat option \<times> ztl_pro_node_grp) option" where
  "ztl_pro_grp_get_node q_node pro = do {
     needed \<leftarrow> get_node_needed q_node pro;
     if \<not> needed then Some (xz XZTL_OK, q_node, pro)
     else do {
       pro1 \<leftarrow> get_node_retire q_node pro;
       (case get_node_pick pro1 of
          None \<Rightarrow> Some (xz XZTL_ZTL_PROV_ERR, None, pro1)
        | Some n \<Rightarrow> do {
            pro2 \<leftarrow> get_node_claim n pro1;
            Some (xz XZTL_OK, Some n, pro2) }) } }"

text \<open>The start of a group. The state of its loop:\<close>

record node_init_state =
  ni_pro :: ztl_pro_node_grp
  ni_tbl :: "app_zmd_entry list"
  ni_node_i :: nat
  ni_zone_num_in_node :: nat
  ni_full_count :: nat
  ni_sec_num :: int

definition node_init_close :: "node_init_state \<Rightarrow> node_init_state option" where
  "node_init_close ls = do {
     let pro = ni_pro ls;
     let n = ni_node_i ls;
     node \<leftarrow> get_at (pg_vnodes pro) n;
     let node = node\<lparr>nd_id := n, nd_nr_valid := 0, nd_level := -1\<rparr>;
     let pro =
       (if ni_full_count ls = ZTL_PRO_ZONE_NUM_INNODE
        then pro\<lparr>pg_vnodes := (pg_vnodes pro)[n := node\<lparr>nd_status := XZTL_ZMD_NODE_FULL,
                   nd_optimal_write_sec_left := 0,
                   nd_optimal_write_sec_used := ZTL_PRO_OPT_SEC_NUM_INNODE\<rparr>],
                 pg_full_head := tailq_insert_tail (pg_full_head pro) n\<rparr>
        else if ni_sec_num ls = 0
        then pro\<lparr>pg_vnodes := (pg_vnodes pro)[n := node\<lparr>nd_status := XZTL_ZMD_NODE_FREE,
                   nd_optimal_write_sec_left := ZTL_PRO_OPT_SEC_NUM_INNODE,
                   nd_optimal_write_sec_used := 0\<rparr>],
                 pg_free_head := tailq_insert_tail (pg_free_head pro) n,
                 pg_nfree := u32 (pg_nfree pro + 1)\<rparr>
        else pro\<lparr>pg_vnodes := (pg_vnodes pro)[n := node\<lparr>nd_status := XZTL_ZMD_NODE_USED,
                   nd_optimal_write_sec_left :=
                     u64_of_int (s32 (int ZTL_PRO_OPT_SEC_NUM_INNODE - ni_sec_num ls sdiv int ZTL_IO_SEC_MCMD)),
                   nd_optimal_write_sec_used := u64_of_int (ni_sec_num ls sdiv int ZTL_IO_SEC_MCMD)\<rparr>],
                 pg_used_head := tailq_insert_tail (pg_used_head pro) n\<rparr>);
     Some (ls\<lparr>ni_pro := pro, ni_node_i := n + 1, ni_zone_num_in_node := 0, ni_sec_num := 0\<rparr>) }"

definition node_init_zone ::
    "xztl_mgeo \<Rightarrow> ztl_metadata \<Rightarrow> app_group \<Rightarrow> nat \<Rightarrow> node_init_state \<Rightarrow> node_init_state option" where
  "node_init_zone g md grp zone_i ls = do {
     zmde \<leftarrow> get_at (ni_tbl ls) zone_i;
     if g_zone (ze_addr zmde) \<noteq> zone_i \<or> g_grp (ze_addr zmde) \<noteq> gr_id grp then Some ls
     else if has_flag (ze_flags zmde) XZTL_ZMD_RSVD \<or> \<not> has_flag (ze_flags zmde) XZTL_ZMD_AVLB
     then Some ls
     else do {
       rep \<leftarrow> zd_report (gr_zmd grp);
       zinfo \<leftarrow> get_at rep (u32 (u32 (gr_id grp * ge_zn_grp g) + zone_i));
       let pro = ni_pro ls;
       let zi = zone_i - get_metadata_zone_num md;
       vzones \<leftarrow> set_at (pg_vzones pro) zi \<lparr>zn_addr = ze_addr zmde, zn_zmd_entry = Some zone_i,
          zn_capacity = zi_zcap zinfo, zn_lock = 0, zn_state = Some (zi_zs zinfo)\<rparr>;
       node \<leftarrow> get_at (pg_vnodes pro) (ni_node_i ls);
       nz \<leftarrow> set_at (nd_vzones node) (ni_zone_num_in_node ls) (Some zi);
       let ls = ls\<lparr>ni_pro := pro\<lparr>pg_vzones := vzones,
                    pg_vnodes := (pg_vnodes pro)[ni_node_i ls := node\<lparr>nd_vzones := nz\<rparr>]\<rparr>,
                  ni_zone_num_in_node := ni_zone_num_in_node ls + 1\<rparr>;
       if zi_zs zinfo = ZND_STATE_EMPTY \<and>
          (has_flag (ze_flags zmde) XZTL_ZMD_USED \<or> has_flag (ze_flags zmde) XZTL_ZMD_OPEN)
       then Some ls
       else do {
         let ls =
           (case zi_zs zinfo of
              ZND_STATE_FULL \<Rightarrow> ls\<lparr>ni_full_count := ni_full_count ls + 1,
                ni_sec_num := s32 (ni_sec_num ls + int (zi_zcap zinfo))\<rparr>
            | ZND_STATE_EMPTY \<Rightarrow> ls
            | ZND_STATE_OTHER _ \<Rightarrow> ls
            | _ \<Rightarrow> ls\<lparr>ni_sec_num :=
                s32 (ni_sec_num ls + (int (zi_wp zinfo) - int (g_sect (ze_addr zmde))))\<rparr>);
         Some (ls\<lparr>ni_tbl := (ni_tbl ls)[zone_i :=
           zmde\<lparr>ze_wptr_inflight := zi_wp zinfo, ze_wptr := zi_wp zinfo\<rparr>]\<rparr>) } } }"

fun node_init_loop ::
    "xztl_mgeo \<Rightarrow> ztl_metadata \<Rightarrow> app_group \<Rightarrow> nat \<Rightarrow> nat \<Rightarrow> node_init_state \<Rightarrow> node_init_state option" where
  "node_init_loop g md grp zone_i 0 ls = Some ls"
| "node_init_loop g md grp zone_i (Suc left) ls =
     (if ni_zone_num_in_node ls = ZTL_PRO_ZONE_NUM_INNODE
      then do {
        ls \<leftarrow> node_init_close ls;
        if u32 (zd_entries (gr_zmd grp) - zone_i + 1) < ZTL_PRO_ZONE_NUM_INNODE then Some ls
        else do {
          ls \<leftarrow> node_init_zone g md grp zone_i (ls\<lparr>ni_full_count := 0\<rparr>);
          node_init_loop g md grp (zone_i + 1) left ls } }
      else do {
        ls \<leftarrow> node_init_zone g md grp zone_i ls;
        node_init_loop g md grp (zone_i + 1) left ls })"

definition ztl_pro_grp_node_init ::
    "bool \<Rightarrow> xztl_mgeo \<Rightarrow> ztl_metadata \<Rightarrow> app_group \<Rightarrow> (int \<times> app_group) option" where
  "ztl_pro_grp_node_init fails g md grp =
     (let mdn = get_metadata_zone_num md; entries = zd_entries (gr_zmd grp)
      in case ztl_pro_grp_new_pro fails (usub 32 entries mdn div ZTL_PRO_ZONE_NUM_INNODE) entries of
           None \<Rightarrow> Some (xz XZTL_ZTL_PROV_ERR, grp)
         | Some pro \<Rightarrow> do {
             tbl \<leftarrow> zd_tbl (gr_zmd grp);
             ls \<leftarrow> node_init_loop g md grp mdn (entries - mdn)
               \<lparr>ni_pro = pro, ni_tbl = tbl, ni_node_i = 0, ni_zone_num_in_node = 0,
                ni_full_count = 0, ni_sec_num = 0\<rparr>;
             Some (xz XZTL_OK, grp\<lparr>gr_pro := Some (ni_pro ls),
                     gr_zmd := (gr_zmd grp)\<lparr>zd_tbl := Some (ni_tbl ls)\<rparr>\<rparr>) })"

text \<open>The shutdown of a group adds the used and valid entries of its nodes to the node
  statistics of their levels; a level outside the table is undefined.\<close>

fun grp_exit_sum ::
    "ztl_pro_node list \<Rightarrow> nat list \<Rightarrow> nat list \<Rightarrow> (nat list \<times> nat list) option" where
  "grp_exit_sum [] used valid = Some (used, valid)"
| "grp_exit_sum (node # nodes) used valid =
     (if nd_level node \<ge> 0
      then do {
        u \<leftarrow> get_at used (nat (nd_level node));
        used' \<leftarrow> set_at used (nat (nd_level node)) (u64 (u + nd_optimal_write_sec_used node));
        v \<leftarrow> get_at valid (nat (nd_level node));
        valid' \<leftarrow> set_at valid (nat (nd_level node)) (u64 (v + nd_nr_valid node));
        grp_exit_sum nodes used' valid' }
      else grp_exit_sum nodes used valid)"

fun grp_exit_stats ::
    "nat \<Rightarrow> nat list \<Rightarrow> nat list \<Rightarrow> xztl_node_stats_data \<Rightarrow> xztl_node_stats_data option" where
  "grp_exit_stats i [] valid ns = Some ns"
| "grp_exit_stats i (u # used) valid ns = do {
     v \<leftarrow> get_at valid i;
     ns1 \<leftarrow> xztl_stats_node_inc i (sn XZTL_CMD_ENTRY_USED) u ns;
     ns2 \<leftarrow> xztl_stats_node_inc i (sn XZTL_CMD_ENTRY_VALID) v ns1;
     grp_exit_stats (i + 1) used valid ns2 }"

definition ztl_pro_grp_exit ::
    "app_group \<Rightarrow> xztl_node_stats_data \<Rightarrow> (app_group \<times> xztl_node_stats_data) option" where
  "ztl_pro_grp_exit grp ns = do {
     pro \<leftarrow> gr_pro grp;
     (used, valid) \<leftarrow> grp_exit_sum (take (pg_nnodes pro) (pg_vnodes pro))
        (replicate ZROCKS_LEVEL_NUM 0) (replicate ZROCKS_LEVEL_NUM 0);
     ns' \<leftarrow> grp_exit_stats 0 used valid ns;
     Some (grp\<lparr>gr_pro := None\<rparr>, ns') }"

text \<open>The operations of the module (\<open>ztl-pro.c\<close>).\<close>

fun pro_free_loop ::
    "ztl_metadata \<Rightarrow> app_pro_addr \<Rightarrow> nat \<Rightarrow> nat \<Rightarrow> app_group \<Rightarrow> app_group option" where
  "pro_free_loop md ctx i 0 grp = Some grp"
| "pro_free_loop md ctx i (Suc left) grp = do {
     a \<leftarrow> get_at (pa_addr ctx) i;
     n \<leftarrow> get_at (pa_nsec ctx) i;
     grp' \<leftarrow> ztl_pro_grp_free md grp (g_zone a) n;
     pro_free_loop md ctx (i + 1) left grp' }"

definition ztl_pro_free :: "ztl_metadata \<Rightarrow> app_pro_addr \<Rightarrow> app_group \<Rightarrow> app_group option" where
  "ztl_pro_free md ctx grp = do {
     grp' \<leftarrow> pro_free_loop md ctx 0 (pa_naddr ctx) grp;
     Some (app_grp_ctx_sub grp') }"

definition ztl_pro_new ::
    "nat \<Rightarrow> nat \<Rightarrow> app_pro_addr \<Rightarrow> nat \<Rightarrow> app_group \<Rightarrow> (int \<times> app_pro_addr \<times> app_group) option" where
  "ztl_pro_new num node_id ctx start grp = do {
     (ret, ctx', grp') \<leftarrow> ztl_pro_grp_get grp (ctx\<lparr>pa_naddr := 0\<rparr>) num node_id start;
     if ret \<noteq> 0 then Some (xz XZTL_ZTL_PROV_ERR, ctx', grp')
     else Some (ret, ctx'\<lparr>pa_grp := Some (gr_id grp)\<rparr>, app_grp_ctx_add grp') }"

definition ztl_pro_get_node :: "nat option \<Rightarrow> app_group \<Rightarrow> (int \<times> nat option \<times> app_group) option" where
  "ztl_pro_get_node q_node grp = do {
     pro \<leftarrow> gr_pro grp;
     (ret, q_node', pro') \<leftarrow> ztl_pro_grp_get_node q_node pro;
     Some (ret, q_node', grp\<lparr>gr_pro := Some pro'\<rparr>) }"

text \<open>Start and stop of the module. \<open>glist\<close> holds pointers to the groups of the list, which
  are their identifiers; \<open>groups_upd\<close> stores through such a pointer.\<close>

definition groups_upd :: "app_group list \<Rightarrow> nat \<Rightarrow> app_group \<Rightarrow> app_group list" where
  "groups_upd head gid grp = map (\<lambda>x. if gr_id x = gid then grp else x) head"

fun pro_exit_loop ::
    "nat option list \<Rightarrow> nat \<Rightarrow> app_group list \<Rightarrow> xztl_node_stats_data \<Rightarrow>
     (app_group list \<times> xztl_node_stats_data) option" where
  "pro_exit_loop glist 0 head ns = Some (head, ns)"
| "pro_exit_loop glist (Suc ret) head ns = do {
     p \<leftarrow> get_at glist ret; gid \<leftarrow> p;
     grp \<leftarrow> groups_get head gid;
     (grp', ns') \<leftarrow> ztl_pro_grp_exit grp ns;
     pro_exit_loop glist ret (groups_upd head gid grp') ns' }"

text \<open>The start loop returns the number of groups started.\<close>

fun pro_init_loop ::
    "(nat \<Rightarrow> bool) \<Rightarrow> xztl_mgeo \<Rightarrow> ztl_metadata \<Rightarrow> nat option list \<Rightarrow> nat \<Rightarrow> nat \<Rightarrow> app_group list \<Rightarrow>
     (bool \<times> nat \<times> app_group list) option" where
  "pro_init_loop fails g md glist grp_i 0 head = Some (True, grp_i, head)"
| "pro_init_loop fails g md glist grp_i (Suc left) head = do {
     p \<leftarrow> get_at glist grp_i; gid \<leftarrow> p;
     grp \<leftarrow> groups_get head gid;
     (ret, grp') \<leftarrow> ztl_pro_grp_node_init (fails grp_i) g md grp;
     let head' = groups_upd head gid grp';
     if ret \<noteq> 0 then Some (False, grp_i, head')
     else pro_init_loop fails g md glist (grp_i + 1) left head' }"

definition ztl_pro_init ::
    "bool \<Rightarrow> bool \<Rightarrow> bool \<Rightarrow> (nat \<Rightarrow> bool) \<Rightarrow> nat \<Rightarrow> xztl_mgeo \<Rightarrow> nat \<Rightarrow> app_group list \<Rightarrow> ztl_metadata \<Rightarrow>
     xztl_node_stats_data \<Rightarrow>
     (int \<times> nat option list \<times> app_group list \<times> ztl_metadata \<times> xztl_node_stats_data) option" where
  "ztl_pro_init calloc_fails md_calloc_fails md_mutex_fails pro_fails mdts_nbytes g app_ngrps head md ns =
     (if calloc_fails then Some (xz XZTL_ZTL_GROUP_ERR, [], head, md, ns)
      else let (glist, n) = groups_get_list head (replicate app_ngrps None) app_ngrps
      in if n \<noteq> app_ngrps then Some (xz XZTL_ZTL_GROUP_ERR, [], head, md, ns)
      else do {
        p \<leftarrow> get_at glist 0; gid \<leftarrow> p;
        grp \<leftarrow> groups_get head gid;
        (ret, md', grp') \<leftarrow> ztl_metadata_init md_calloc_fails md_mutex_fails mdts_nbytes g grp md;
        let head' = groups_upd head gid grp';
        if ret \<noteq> 0 then Some (xz XZTL_ZTL_GROUP_ERR, [], head', md', ns)
        else do {
          (ok, grp_i, head'') \<leftarrow> pro_init_loop pro_fails g md' glist 0 app_ngrps head';
          if ok then Some (xz XZTL_OK, glist, head'', md', ns)
          else do {
            (head3, ns') \<leftarrow> pro_exit_loop glist grp_i head'' ns;
            Some (xz XZTL_ZTL_GROUP_ERR, [], head3, md', ns') } } })"

definition ztl_pro_exit ::
    "nat \<Rightarrow> nat option list \<Rightarrow> app_group list \<Rightarrow> xztl_mempool \<Rightarrow> xztl_node_stats_data \<Rightarrow>
     (app_group list \<times> xztl_mempool \<times> mem_event list \<times> xztl_node_stats_data) option" where
  "ztl_pro_exit app_ngrps glist head mp ns =
     (let (glist', ret) = groups_get_list head glist app_ngrps
      in do {
        (head', ns') \<leftarrow> pro_exit_loop glist' ret head ns;
        (_, mp', evs) \<leftarrow> xztl_mempool_destroy mp (mpt XZTL_NODE_MGMT_ENTRY) 0;
        Some (head', mp', evs, ns') })"

section \<open>Slots of a node\<close>

text \<open>The number of slots below \<open>s\<close> that lie in zone \<open>z\<close> of a node.\<close>

definition slots_before :: "nat \<Rightarrow> nat \<Rightarrow> nat" where
  "slots_before s z = (s + 63 - z) div 64"

text \<open>The number of slots that zone \<open>(s + t) mod 64\<close> gets of \<open>num\<close> slots from \<open>s\<close> on.\<close>

definition zone_share :: "nat \<Rightarrow> nat \<Rightarrow> nat" where
  "zone_share num t = num div 64 + (if t < num mod 64 then 1 else 0)"

lemma div_mod_64: "x = 64 * q + r \<Longrightarrow> r < 64 \<Longrightarrow> x div 64 = q \<and> x mod 64 = r" for x q r :: nat
  by simp

lemma mod_64_cases:
  fixes s t :: nat
  assumes "t < 64"
  obtains q r where "s = 64 * q + r" "r + t < 64" "(s + t) mod 64 = r + t" "(s + t) div 64 = q"
  | q r where "s = 64 * q + r" "r < 64" "64 \<le> r + t" "(s + t) mod 64 = r + t - 64"
      "(s + t) div 64 = q + 1"
proof (cases "s mod 64 + t < 64")
  case True
  then show ?thesis
    using that(1) [of "s div 64" "s mod 64"] div_mod_64 [of "s + t" "s div 64" "s mod 64 + t"] by simp
next
  case False
  then show ?thesis
    using that(2) [of "s div 64" "s mod 64"] assms
      div_mod_64 [of "s + t" "s div 64 + 1" "s mod 64 + t - 64"] by simp
qed

lemma slots_before_at:
  assumes "t < 64" "s + 63 - z = 64 * q + (63 - t)" "z < 64"
  shows "slots_before (s + num) z = q + zone_share num t"
proof -
  define a where "a = num div 64"
  define b where "b = num mod 64"
  have n: "num div 64 = a" "num mod 64 = b" "b < 64" "num = 64 * a + b"
    by (simp_all add: a_def b_def)
  let ?r = "if t < b then b - t - 1 else b + 63 - t"
  have "s + num + 63 - z = 64 * (q + zone_share num t) + ?r"
  proof (cases "t < b")
    case True
    then have "zone_share num t = a + 1" using n(1,2) by (simp add: zone_share_def)
    with True show ?thesis using assms n(4) by simp
  next
    case False
    then have "zone_share num t = a" using n(1,2) by (simp add: zone_share_def)
    with False show ?thesis using assms n(4) by simp
  qed
  moreover have "?r < 64" using n(3) assms(1) by auto
  ultimately show ?thesis unfolding slots_before_def by (rule div_mod_64 [THEN conjunct1])
qed

lemma slots_before_round:
  assumes "t < 64"
  shows "slots_before (s + num) ((s + t) mod 64) = (s + t) div 64 + zone_share num t"
  using assms
proof (cases rule: mod_64_cases [of t s])
  case (1 q r)
  then show ?thesis using slots_before_at [OF assms, of s "r + t" q num] by simp
next
  case (2 q r)
  then show ?thesis using assms slots_before_at [OF assms, of s "r + t - 64" "q + 1" num] by simp
qed

lemma zone_share_0 [simp]: "zone_share 0 t = 0"
  by (simp add: zone_share_def)

lemma slots_before_here: "t < 64 \<Longrightarrow> slots_before s ((s + t) mod 64) = (s + t) div 64"
  using slots_before_round [of t s 0] by simp

lemma zone_in_round_inj:
  fixes s t u :: nat
  assumes "t < 64" "u < 64" "(s + t) mod 64 = (s + u) mod 64"
  shows "t = u"
proof -
  have le: "b = c" if "b \<le> c" "c < 64" "(s + c) mod 64 = (s + b) mod 64" for b c :: nat
  proof -
    have "64 dvd (s + c) - (s + b)"
      using that(1,3) mod_eq_dvd_iff_nat [of "s + b" "s + c" 64] by (simp only: add_le_cancel_left)
    then have "64 dvd c - b" by simp
    then show ?thesis using that(1,2) dvd_imp_le [of 64 "c - b"] by linarith
  qed
  show ?thesis
    using le [of t u, OF _ assms(2) assms(3) [symmetric]] le [of u t, OF _ assms(1) assms(3)]
    by linarith
qed

lemma zone_in_round: "z < 64 \<Longrightarrow> \<exists>t < 64. (s + t) mod 64 = z" for s z :: nat
proof -
  assume "z < 64"
  have "inj_on (\<lambda>t. (s + t) mod 64) {..<64}" by (rule inj_onI) (rule zone_in_round_inj, simp_all)
  then have "card ((\<lambda>t. (s + t) mod 64) ` {..<64}) = card {..<64::nat}" by (rule card_image)
  then have "(\<lambda>t. (s + t) mod 64) ` {..<64} = {..<64}"
    by (intro card_subset_eq) auto
  then have "z \<in> (\<lambda>t. (s + t) mod 64) ` {..<64}" using \<open>z < 64\<close> by (simp only: lessThan_iff)
  then show ?thesis by (simp add: image_iff Bex_def) blast
qed
lemma slots_before_add: "t < 64 \<Longrightarrow>
  slots_before (s + num) ((s + t) mod 64) = slots_before s ((s + t) mod 64) + zone_share num t"
  by (simp add: slots_before_round slots_before_here)

section \<open>Linked nodes\<close>

text \<open>The zone and the metadata entry behind the pointers of a node. A node is linked when
  all its pointers are valid and its zones have different entries.\<close>

definition nzone :: "ztl_pro_node_grp \<Rightarrow> ztl_pro_node \<Rightarrow> nat \<Rightarrow> ztl_pro_zone" where
  "nzone pro node z = the (node_zone pro node z)"

definition nent :: "ztl_pro_node_grp \<Rightarrow> ztl_pro_node \<Rightarrow> nat \<Rightarrow> nat" where
  "nent pro node z = the (zn_zmd_entry (nzone pro node z))"

definition node_linked :: "ztl_pro_node_grp \<Rightarrow> nat \<Rightarrow> ztl_pro_node \<Rightarrow> bool" where
  "node_linked pro entries node \<longleftrightarrow> inj_on (nent pro node) {..<64} \<and>
     (\<forall>z < 64. node_zone pro node z = Some (nzone pro node z) \<and>
        zn_zmd_entry (nzone pro node z) = Some (nent pro node z) \<and> nent pro node z < entries)"

text \<open>The write pointers of a linked node agree with the number of slots it has handed out.\<close>

definition node_at :: "ztl_pro_node_grp \<Rightarrow> app_zmd_entry list \<Rightarrow> ztl_pro_node \<Rightarrow> nat \<Rightarrow> bool" where
  "node_at pro tbl node used \<longleftrightarrow> (\<forall>z < 64. ze_wptr_inflight (tbl ! nent pro node z) =
     g_sect (zn_addr (nzone pro node z)) + 8 * slots_before used z)"

lemma node_linkedD:
  assumes "node_linked pro n node" "z < 64"
  shows "node_zone pro node z = Some (nzone pro node z)"
    "zn_zmd_entry (nzone pro node z) = Some (nent pro node z)" "nent pro node z < n"
  using assms by (simp_all add: node_linked_def)

lemma nent_inj: "\<lbrakk>node_linked pro n node; z < 64; y < 64; nent pro node z = nent pro node y\<rbrakk> \<Longrightarrow> z = y"
  by (auto simp: node_linked_def dest: inj_onD)

text \<open>One round of \<open>ztl_pro_grp_get\<close>: \<open>t\<close> addresses are done, the loop adds the remaining
  ones of the \<open>min num 64\<close>.\<close>

lemma share_left:
  assumes "t < min num 64"
  shows "0 < num - t * (num div 64) - min t (num mod 64)"
    "num - t * (num div 64) - min t (num mod 64) - zone_share num t =
     num - Suc t * (num div 64) - min (Suc t) (num mod 64)"
    "zone_share num t \<le> num - t * (num div 64) - min t (num mod 64)"
    "num mod 64 - t - (if num mod 64 - t = 0 then 0 else 1) = num mod 64 - Suc t"
    "num div 64 + (if num mod 64 - t = 0 then 0 else 1) = zone_share num t"
proof -
  define a where "a = num div 64"
  define b where "b = num mod 64"
  have n: "num = 64 * a + b" "b < 64" by (simp_all add: a_def b_def)
  have t: "t < 64" "t < 64 * a + b" using assms n by simp_all
  have le: "t * a + a \<le> 64 * a" using t(1) mult_le_mono1 [of "Suc t" 64 a] by simp
  have sh: "zone_share num t = a + (if t < b then 1 else 0)" by (simp add: zone_share_def a_def b_def)
  have pos: "a = 0 \<Longrightarrow> t < b" using t by simp
  show "0 < num - t * (num div 64) - min t (num mod 64)"
    unfolding a_def [symmetric] b_def [symmetric]
  proof (cases "a = 0")
    case True
    then show "0 < num - t * a - min t b" using n pos by simp
  next
    case False
    then have "t * a < 64 * a" "min t b \<le> b" using t(1) by simp_all
    then show "0 < num - t * a - min t b" using n by linarith
  qed
  have "min (Suc t) b = min t b + (if t < b then 1 else 0)" "min t b + (if t < b then 1 else 0) \<le> b"
    by auto
  then show "num - t * (num div 64) - min t (num mod 64) - zone_share num t =
     num - Suc t * (num div 64) - min (Suc t) (num mod 64)"
    "zone_share num t \<le> num - t * (num div 64) - min t (num mod 64)"
    unfolding a_def [symmetric] b_def [symmetric] sh mult_Suc using n(1) le by linarith+
  show "num mod 64 - t - (if num mod 64 - t = 0 then 0 else 1) = num mod 64 - Suc t"
    "num div 64 + (if num mod 64 - t = 0 then 0 else 1) = zone_share num t"
    unfolding a_def [symmetric] b_def [symmetric] sh by auto
qed

lemma share_done: "num - min num 64 * (num div 64) - min (min num 64) (num mod 64) = 0" for num :: nat
  by (cases "num < 64") simp_all

text \<open>The effect of one iteration, and the loop as a fold over the addresses.\<close>

definition get_step ::
    "ztl_pro_node_grp \<Rightarrow> ztl_pro_node \<Rightarrow> nat \<Rightarrow> nat \<Rightarrow> nat \<Rightarrow> app_pro_addr \<times> app_zmd_entry list \<Rightarrow>
     app_pro_addr \<times> app_zmd_entry list" where
  "get_step pro node num start i s =
     (let z = (start + i) mod 64; e = nent pro node z; w = ze_wptr_inflight (snd s ! e)
      in ((fst s)\<lparr>pa_addr := (pa_addr (fst s))[i := set_sect w (zn_addr (nzone pro node z))],
           pa_nsec := (pa_nsec (fst s))[i := 8 * zone_share num i], pa_naddr := Suc i\<rparr>,
          (snd s)[e := (snd s ! e)\<lparr>ze_wptr_inflight := w + 8 * zone_share num i\<rparr>]))"

lemma zone_share_le: "num \<le> ZTL_PRO_OPT_SEC_NUM_INNODE \<Longrightarrow> zone_share num i \<le> 3073"
  using div_le_mono [of num 196608 64] by (simp add: zone_share_def)

lemma round_ent_neq:
  "\<lbrakk>node_linked pro n node; i < 64; j < 64; i \<noteq> j\<rbrakk> \<Longrightarrow>
   nent pro node ((start + i) mod 64) \<noteq> nent pro node ((start + j) mod 64)"
  using nent_inj [of pro n node "(start + i) mod 64" "(start + j) mod 64"]
    zone_in_round_inj [of i j start] by auto

lemma pro_grp_get_loop_fold:
  assumes "node_linked pro (length tbl) node" and num: "num \<le> ZTL_PRO_OPT_SEC_NUM_INNODE"
    and "t \<le> min num 64" "pa_naddr ctx = t" "length (pa_addr ctx) = 128" "length (pa_nsec ctx) = 128"
    and "\<forall>i. t \<le> i \<and> i < min num 64 \<longrightarrow>
      ze_wptr_inflight (tbl ! nent pro node ((start + i) mod 64)) < 2 ^ 40"
  shows "pro_grp_get_loop pro node (num div 64) (num - t * (num div 64) - min t (num mod 64))
      (num mod 64 - t) ((start + t) mod 64) ctx tbl =
    Some (fold (get_step pro node num start) [t..<min num 64] (ctx, tbl))"
  using assms(1,3-)
proof (induction "min num 64 - t" arbitrary: t ctx tbl)
  case 0
  then have t: "t = min num 64" by simp
  show ?case unfolding t share_done by (subst pro_grp_get_loop.simps) simp
next
  case (Suc d)
  let ?z = "(start + t) mod 64"
  let ?e = "nent pro node ?z" and ?s = "zone_share num t"
  let ?w = "ze_wptr_inflight (tbl ! ?e)"
  obtain ctx1 tbl1 where st1: "get_step pro node num start t (ctx, tbl) = (ctx1, tbl1)" by fastforce
  have t: "t < min num 64" using Suc.hyps(2) by linarith
  then have t: "t < min num 64" "t < 64" by simp_all
  note z = node_linkedD [OF Suc.prems(1), of ?z]
  have "?w < 2 ^ 40" using Suc.prems(6) t by blast
  then have widths: "u32 (?s * 8) = 8 * ?s" "u64 (?w + 8 * ?s) = ?w + 8 * ?s" "u16 (Suc t) = Suc t"
    using zone_share_le [OF num, of t] t
    by (simp_all add: u32_small u64_small u16_small)
  define n where "n = num - t * (num div 64) - min t (num mod 64)"
  define n' where "n' = num - Suc t * (num div 64) - min (Suc t) (num mod 64)"
  have "usub 32 n ?s = n'" unfolding n_def n'_def share_left(2) [OF t(1), symmetric]
    by (rule usub_small [OF share_left(3) [OF t(1)]]) (use num in simp)
  moreover have "0 < n" using share_left(1) [OF t(1)] by (simp only: n_def)
  ultimately have "pro_grp_get_loop pro node (num div 64) n (num mod 64 - t) ?z ctx tbl =
    pro_grp_get_loop pro node (num div 64) n' (num mod 64 - Suc t) ((start + Suc t) mod 64) ctx1 tbl1"
    using t Suc.prems(3-5) z st1
    by (subst pro_grp_get_loop.simps, simp only: Let_def share_left(4,5) [OF t(1)])
      (simp add: widths mod_Suc_eq get_step_def Let_def)
  then have "pro_grp_get_loop pro node (num div 64) (num - t * (num div 64) - min t (num mod 64))
      (num mod 64 - t) ?z ctx tbl =
    pro_grp_get_loop pro node (num div 64) (num - Suc t * (num div 64) - min (Suc t) (num mod 64))
      (num mod 64 - Suc t) ((start + Suc t) mod 64) ctx1 tbl1"
    by (simp only: n_def n'_def)
  also have "\<dots> = Some (fold (get_step pro node num start) [Suc t..<min num 64] (ctx1, tbl1))"
  proof (rule Suc.hyps(1))
    show "\<forall>i. Suc t \<le> i \<and> i < min num 64 \<longrightarrow>
      ze_wptr_inflight (tbl1 ! nent pro node ((start + i) mod 64)) < 2 ^ 40"
      using Suc.prems(6) st1 t round_ent_neq [OF Suc.prems(1) t(2), of _ start]
      by (auto simp: get_step_def Let_def)
  qed (use Suc.hyps(2) Suc.prems t st1 in \<open>auto simp: get_step_def Let_def\<close>)
  also have "\<dots> = Some (fold (get_step pro node num start) [t..<min num 64] (ctx, tbl))"
    using t(1) st1 by (simp add: upt_conv_Cons)
  finally show ?case .
qed

lemma get_fold_correct:
  assumes linked: "node_linked pro (length tbl) node" and "k \<le> 64" "pa_naddr ctx = 0"
    and "length (pa_addr ctx) = 128" "length (pa_nsec ctx) = 128"
    and r: "fold (get_step pro node num start) [0..<k] (ctx, tbl) = (ctx', tbl')"
  shows "pa_naddr ctx' = k \<and> length (pa_addr ctx') = 128 \<and> length (pa_nsec ctx') = 128 \<and>
    length tbl' = length tbl \<and>
    (\<forall>i < k. pa_addr ctx' ! i =
         set_sect (ze_wptr_inflight (tbl ! nent pro node ((start + i) mod 64)))
           (zn_addr (nzone pro node ((start + i) mod 64))) \<and>
       pa_nsec ctx' ! i = 8 * zone_share num i \<and>
       tbl' ! nent pro node ((start + i) mod 64) =
         (tbl ! nent pro node ((start + i) mod 64))\<lparr>ze_wptr_inflight :=
            ze_wptr_inflight (tbl ! nent pro node ((start + i) mod 64)) + 8 * zone_share num i\<rparr>) \<and>
    (\<forall>e < length tbl. (\<forall>i < k. e \<noteq> nent pro node ((start + i) mod 64)) \<longrightarrow> tbl' ! e = tbl ! e)"
  using assms(2,6)
proof (induction k arbitrary: ctx' tbl')
  case 0
  then show ?case using assms by simp
next
  case (Suc k)
  let ?e = "\<lambda>i. nent pro node ((start + i) mod 64)"
  obtain ctx1 tbl1 where p: "fold (get_step pro node num start) [0..<k] (ctx, tbl) = (ctx1, tbl1)"
    by fastforce
  have k: "k < 64" "k \<le> 64" using Suc.prems(1) by simp_all
  note IH = Suc.IH [OF k(2) p]
  have e: "?e k < length tbl" using node_linkedD(3) [OF linked] by simp
  have ne: "\<forall>i < k. ?e i \<noteq> ?e k \<and> ?e k \<noteq> ?e i" using round_ent_neq [OF linked _ k(1)] round_ent_neq [OF linked k(1)] k by simp
  have tk: "tbl1 ! ?e k = tbl ! ?e k" using IH e ne by metis
  have "get_step pro node num start k (ctx1, tbl1) = (ctx', tbl')" using Suc.prems(2) p by simp
  then have st: "ctx' = ctx1\<lparr>pa_addr := (pa_addr ctx1)[k := set_sect (ze_wptr_inflight (tbl ! ?e k))
        (zn_addr (nzone pro node ((start + k) mod 64)))],
      pa_nsec := (pa_nsec ctx1)[k := 8 * zone_share num k], pa_naddr := Suc k\<rparr>"
    "tbl' = tbl1[?e k := (tbl ! ?e k)\<lparr>ze_wptr_inflight := ze_wptr_inflight (tbl ! ?e k) +
        8 * zone_share num k\<rparr>]"
    unfolding get_step_def Let_def fst_conv snd_conv tk by simp_all
  show ?case unfolding st All_less_Suc using IH e ne k
    by (simp add: nth_list_update)
qed

lemma sum_zone_share: "sum_list (map (zone_share num) [0..<k]) = k * (num div 64) + min k (num mod 64)"
  by (induction k) (auto simp: zone_share_def)

lemma sum_zone_share_all: "sum_list (map (zone_share num) [0..<min num 64]) = num"
  unfolding sum_zone_share by (cases "num < 64") simp_all

lemma slots_before_le: "s \<le> ZTL_PRO_OPT_SEC_NUM_INNODE \<Longrightarrow> slots_before s z \<le> 3072"
  using div_le_mono [of "s + 63 - z" "196608 + 63" 64] by (simp add: slots_before_def)

text \<open>The addresses of a node stay within the bit-field of a sector.\<close>

definition node_fits :: "ztl_pro_node_grp \<Rightarrow> ztl_pro_node \<Rightarrow> bool" where
  "node_fits pro node \<longleftrightarrow>
     (\<forall>z < 64. g_sect (zn_addr (nzone pro node z)) + ZTL_PRO_SEC_NUM_INZONE \<le> 2 ^ 36)"

lemma pro_grp_get_correct:
  assumes linked: "node_linked pro (length tbl) node" and at: "node_at pro tbl node start"
    and fits: "node_fits pro node" and room: "start + num \<le> ZTL_PRO_OPT_SEC_NUM_INNODE"
    and ctx: "pa_naddr ctx = 0" "length (pa_addr ctx) = 128" "length (pa_nsec ctx) = 128"
  shows "\<exists>ctx' tbl'.
    pro_grp_get_loop pro node (num div 64) num (num mod 64) (start mod 64) ctx tbl = Some (ctx', tbl') \<and>
    pa_naddr ctx' = min num 64 \<and> length (pa_addr ctx') = 128 \<and> length (pa_nsec ctx') = 128 \<and>
    length tbl' = length tbl \<and>
    (\<forall>i < min num 64. g_zone (pa_addr ctx' ! i) = g_zone (zn_addr (nzone pro node ((start + i) mod 64))) \<and>
       g_grp (pa_addr ctx' ! i) = g_grp (zn_addr (nzone pro node ((start + i) mod 64))) \<and>
       g_sect (pa_addr ctx' ! i) =
         g_sect (zn_addr (nzone pro node ((start + i) mod 64))) + 8 * ((start + i) div 64) \<and>
       pa_nsec ctx' ! i = 8 * zone_share num i) \<and>
    node_at pro tbl' node (start + num) \<and>
    (\<forall>e < length tbl. tbl' ! e = (tbl ! e)\<lparr>ze_wptr_inflight := ze_wptr_inflight (tbl' ! e)\<rparr> \<and>
       ((\<forall>z < 64. e \<noteq> nent pro node z) \<longrightarrow> tbl' ! e = tbl ! e))"
proof -
  let ?z = "\<lambda>i. (start + i) mod 64"
  let ?e = "\<lambda>i. nent pro node (?z i)" and ?b = "\<lambda>z. g_sect (zn_addr (nzone pro node z))"
  have num: "num \<le> ZTL_PRO_OPT_SEC_NUM_INNODE" using room by simp
  have w: "ze_wptr_inflight (tbl ! ?e i) = ?b (?z i) + 8 * ((start + i) div 64)" if "i < 64" for i
    using at that by (simp add: node_at_def slots_before_here)
  have b: "?b (?z i) + 24576 \<le> 2 ^ 36" for i using fits by (simp add: node_fits_def)
  have d: "(start + i) div 64 \<le> 3071" if "i < min num 64" for i
    using room that div_le_mono [of "start + i" 196607 64] by simp
  obtain ctx' tbl' where f: "fold (get_step pro node num start) [0..<min num 64] (ctx, tbl) = (ctx', tbl')"
    by fastforce
  have small: "\<forall>i. 0 \<le> i \<and> i < min num 64 \<longrightarrow> ze_wptr_inflight (tbl ! ?e i) < 2 ^ 40"
  proof (intro allI impI)
    fix i assume "0 \<le> i \<and> i < min num 64"
    then show "ze_wptr_inflight (tbl ! ?e i) < 2 ^ 40" using w [of i] b [of i] d [of i] by simp
  qed
  have loop: "pro_grp_get_loop pro node (num div 64) num (num mod 64) (start mod 64) ctx tbl =
      Some (ctx', tbl')"
    using pro_grp_get_loop_fold [OF linked num _ ctx small] f by simp
  note r = get_fold_correct [OF linked _ ctx f, simplified]
  have at': "node_at pro tbl' node (start + num)" unfolding node_at_def
  proof (intro allI impI)
    fix z :: nat
    assume "z < 64"
    then obtain i where i: "i < 64" "?z i = z" using zone_in_round by blast
    show "ze_wptr_inflight (tbl' ! nent pro node z) = ?b z + 8 * slots_before (start + num) z"
    proof (cases "i < min num 64")
      case True
      then show ?thesis using r w [OF i(1)] slots_before_round [OF i(1), of start num] i(2) by auto
    next
      case False
      then have "zone_share num i = 0" using i(1) by (simp add: zone_share_def)
      moreover have "tbl' ! ?e i = tbl ! ?e i"
        using r False i(1) round_ent_neq [OF linked i(1), of _ start] node_linkedD(3) [OF linked, of z] i(2)
          \<open>z < 64\<close> by auto
      ultimately show ?thesis using w [OF i(1)] slots_before_round [OF i(1), of start num] i(2) by simp
    qed
  qed
  have frame: "tbl' ! e = (tbl ! e)\<lparr>ze_wptr_inflight := ze_wptr_inflight (tbl' ! e)\<rparr> \<and>
       ((\<forall>z < 64. e \<noteq> nent pro node z) \<longrightarrow> tbl' ! e = tbl ! e)" if "e < length tbl" for e
    using r that by (cases "\<exists>i < min num 64. e = ?e i") auto
  have "g_sect (set_sect (?b (?z i) + 8 * ((start + i) div 64)) a) = ?b (?z i) + 8 * ((start + i) div 64)"
    if "i < min num 64" for i a
    using b [of i] d [OF that] by (simp add: sect_field.get_put_small)
  then show ?thesis using loop r at' frame w by auto
qed

text \<open>A group with two metadata zones and one free node, for the witnesses.\<close>

definition sample_zone :: "nat \<Rightarrow> ztl_pro_zone" where
  "sample_zone z = \<lparr>zn_addr = set_sect (ZTL_PRO_SEC_NUM_INZONE * (z + 2)) (set_zone (z + 2) 0),
     zn_zmd_entry = Some (z + 2), zn_capacity = ZTL_PRO_SEC_NUM_INZONE, zn_lock = 0,
     zn_state = Some ZND_STATE_EMPTY\<rparr>"

definition sample_node :: ztl_pro_node where
  "sample_node = zero_node\<lparr>nd_vzones := map Some [0..<64], nd_level := -1,
     nd_optimal_write_sec_left := ZTL_PRO_OPT_SEC_NUM_INNODE\<rparr>"

definition sample_pro :: ztl_pro_node_grp where
  "sample_pro = \<lparr>pg_vnodes = [sample_node], pg_vzones = map sample_zone [0..<64], pg_nfree = 1,
     pg_nzones = 66, pg_nnodes = 1, pg_free_head = [0], pg_used_head = [], pg_full_head = []\<rparr>"

definition sample_tbl :: "app_zmd_entry list" where
  "sample_tbl = map (\<lambda>e. zero_zmd_entry\<lparr>ze_wptr := ZTL_PRO_SEC_NUM_INZONE * e,
     ze_wptr_inflight := ZTL_PRO_SEC_NUM_INZONE * e\<rparr>) [0..<66]"

definition sample_grp :: app_group where
  "sample_grp = zero_group\<lparr>gr_pro := Some sample_pro,
     gr_zmd := (gr_zmd zero_group)\<lparr>zd_entries := 66, zd_tbl := Some sample_tbl\<rparr>\<rparr>"

definition sample_ctx :: app_pro_addr where
  "sample_ctx = \<lparr>pa_grp = None, pa_addr = replicate 128 0, pa_nsec = replicate 128 0, pa_naddr = 0,
     pa_thread_id = 0, pa_ptype = 0\<rparr>"

lemma sample_nzone: "z < 64 \<Longrightarrow> node_zone sample_pro sample_node z = Some (sample_zone z)"
  by (simp add: node_zone_def sample_pro_def sample_node_def del: upt_rec_numeral)

lemma sample_pro_zones: "z < 64 \<Longrightarrow> nzone sample_pro sample_node z = sample_zone z"
  "z < 64 \<Longrightarrow> nent sample_pro sample_node z = z + 2"
  by (simp_all add: nzone_def nent_def sample_nzone) (simp add: sample_zone_def)

lemma length_sample_tbl [simp]: "length sample_tbl = 66"
  by (simp add: sample_tbl_def del: upt_rec_numeral)

lemma sample_zone_sect: "z < 64 \<Longrightarrow> g_sect (zn_addr (sample_zone z)) = 24576 * (z + 2)"
  by (simp add: sample_zone_def sect_field.get_put_small)

lemma sample_linked: "node_linked sample_pro (length sample_tbl) sample_node"
  by (simp add: node_linked_def sample_nzone sample_pro_zones inj_on_def) (simp add: sample_zone_def)

lemma sample_at: "node_at sample_pro sample_tbl sample_node 0"
  by (simp add: node_at_def sample_pro_zones sample_zone_sect slots_before_def)
    (simp add: sample_tbl_def del: upt_rec_numeral)

lemma sample_fits: "node_fits sample_pro sample_node"
  by (simp add: node_fits_def sample_pro_zones sample_zone_sect)

section \<open>Properties\<close>

text \<open>C11: Provisioning stripes a piece over its node. For a node whose write pointers agree
  with the slots handed out so far, asking for \<open>num\<close> slots from slot \<open>start\<close> (within the
  capacity of the node) always succeeds; the \<open>i\<close>-th address is zone \<open>(start + i) mod 64\<close> of the
  node at depth \<open>(start + i) div 64\<close>, the sectors add up to eight per slot, the write pointers
  then agree with \<open>start + num\<close> slots, and no entry of another zone changes.\<close>

theorem pro_new_stripes:
  assumes grp: "gr_pro grp = Some pro" "get_at (pg_vnodes pro) node_id = Some node"
      "zd_tbl (gr_zmd grp) = Some tbl"
    and node: "node_linked pro (length tbl) node" "node_at pro tbl node start" "node_fits pro node"
    and room: "start + num \<le> ZTL_PRO_OPT_SEC_NUM_INNODE"
    and ctx: "length (pa_addr ctx) = APP_PRO_MAX_OFFS" "length (pa_nsec ctx) = APP_PRO_MAX_OFFS"
  shows "\<exists>ctx' tbl'. ztl_pro_new num node_id ctx start grp =
      Some (xz XZTL_OK, ctx', app_grp_ctx_add (grp\<lparr>gr_zmd := (gr_zmd grp)\<lparr>zd_tbl := Some tbl'\<rparr>\<rparr>)) \<and>
    pa_naddr ctx' = min num 64 \<and> sum_list (take (pa_naddr ctx') (pa_nsec ctx')) = 8 * num \<and>
    (\<forall>i < min num 64. let zone = nzone pro node ((start + i) mod 64) in
       g_zone (pa_addr ctx' ! i) = g_zone (zn_addr zone) \<and> g_grp (pa_addr ctx' ! i) = g_grp (zn_addr zone) \<and>
       g_sect (pa_addr ctx' ! i) = g_sect (zn_addr zone) + 8 * ((start + i) div 64)) \<and>
    node_at pro tbl' node (start + num) \<and>
    (\<forall>e < length tbl. (\<forall>z < 64. e \<noteq> nent pro node z) \<longrightarrow> tbl' ! e = tbl ! e)"
proof -
  obtain ctx' tbl' where r:
    "pro_grp_get_loop pro node (num div 64) num (num mod 64) (start mod 64) (ctx\<lparr>pa_naddr := 0\<rparr>) tbl =
       Some (ctx', tbl')"
    "pa_naddr ctx' = min num 64" "length (pa_nsec ctx') = 128"
    "\<forall>i < min num 64. g_zone (pa_addr ctx' ! i) = g_zone (zn_addr (nzone pro node ((start + i) mod 64))) \<and>
       g_grp (pa_addr ctx' ! i) = g_grp (zn_addr (nzone pro node ((start + i) mod 64))) \<and>
       g_sect (pa_addr ctx' ! i) =
         g_sect (zn_addr (nzone pro node ((start + i) mod 64))) + 8 * ((start + i) div 64) \<and>
       pa_nsec ctx' ! i = 8 * zone_share num i"
    "node_at pro tbl' node (start + num)"
    "\<forall>e < length tbl. (\<forall>z < 64. e \<noteq> nent pro node z) \<longrightarrow> tbl' ! e = tbl ! e"
    using pro_grp_get_correct [OF node room, of "ctx\<lparr>pa_naddr := 0\<rparr>"] ctx by auto
  have "take (min num 64) (pa_nsec ctx') = map (\<lambda>i. 8 * zone_share num i) [0..<min num 64]"
    using r(3,4) by (intro nth_equalityI) simp_all
  then have "sum_list (take (min num 64) (pa_nsec ctx')) = 8 * num"
    using sum_zone_share_all [of num] by (simp add: sum_list_const_mult)
  then show ?thesis using r grp
    by (intro exI [of _ "ctx'\<lparr>pa_grp := Some (gr_id grp)\<rparr>"] exI [of _ tbl'])
      (simp add: ztl_pro_new_def ztl_pro_grp_get_def Let_def)
qed

theorem pro_new_stripes_witness:
  "\<exists>ctx' grp'. ztl_pro_new 100 0 sample_ctx 0 sample_grp = Some (0, ctx', grp') \<and>
     pa_naddr ctx' = 64 \<and> g_sect (pa_addr ctx' ! 3) = 24576 * 5"
proof -
  have "get_at (pg_vnodes sample_pro) 0 = Some sample_node" by (simp add: sample_pro_def)
  moreover have "gr_pro sample_grp = Some sample_pro" "zd_tbl (gr_zmd sample_grp) = Some sample_tbl"
    "length (pa_addr sample_ctx) = 128" "length (pa_nsec sample_ctx) = 128"
    by (simp_all add: sample_grp_def sample_ctx_def)
  ultimately obtain ctx' tbl' where "ztl_pro_new 100 0 sample_ctx 0 sample_grp =
      Some (0, ctx', app_grp_ctx_add (sample_grp\<lparr>gr_zmd := (gr_zmd sample_grp)\<lparr>zd_tbl := Some tbl'\<rparr>\<rparr>))"
    "pa_naddr ctx' = 64"
    "\<forall>i < 64. let zone = nzone sample_pro sample_node ((0 + i) mod 64) in
       g_sect (pa_addr ctx' ! i) = g_sect (zn_addr zone) + 8 * ((0 + i) div 64)"
    using pro_new_stripes [of sample_grp sample_pro 0 sample_node sample_tbl 0 100 sample_ctx]
      sample_linked sample_at sample_fits by (auto simp: Let_def)
  then show ?thesis by (simp add: sample_pro_zones sample_zone_sect Let_def)
qed

end
