(* ===== verification/Ztl_Pro_Nodes.thy ===== *)
theory Ztl_Pro_Nodes
  imports Ztl_Pro
begin

text \<open>
  The life of the nodes of a group: what the start of a group makes of the zone report, and
  the invariant that the free, used and full lists separate the nodes and that no two write
  queues hold the same node. \<open>node_account\<close> is the bookkeeping at the end of a write
  (\<open>ztl-io.c\<close>). A request is one step here; \<open>Ztl_Pro_Steps\<close> splits it at its locks.
\<close>

section \<open>Accounting of a finished piece\<close>

definition node_account :: "nat \<Rightarrow> nat \<Rightarrow> ztl_pro_node_grp \<Rightarrow> ztl_pro_node_grp option" where
  "node_account n num pro = do {
     node \<leftarrow> get_at (pg_vnodes pro) n;
     let node = node\<lparr>nd_optimal_write_sec_left := usub 64 (nd_optimal_write_sec_left node) num,
                     nd_optimal_write_sec_used := u64 (nd_optimal_write_sec_used node + num),
                     nd_nr_valid := u64 (nd_nr_valid node + num)\<rparr>;
     let node = (if nd_optimal_write_sec_left node = 0
                 then node\<lparr>nd_status := XZTL_ZMD_NODE_FULL\<rparr> else node);
     vnodes \<leftarrow> set_at (pg_vnodes pro) n node;
     Some (pro\<lparr>pg_vnodes := vnodes\<rparr>) }"

section \<open>The invariant\<close>

abbreviation node_lists :: "ztl_pro_node_grp \<Rightarrow> nat list" where
  "node_lists pro \<equiv> pg_free_head pro @ pg_used_head pro @ pg_full_head pro"

definition pro_wf :: "ztl_pro_node_grp \<Rightarrow> bool" where
  "pro_wf pro \<longleftrightarrow> length (pg_vnodes pro) < 2 ^ 32 \<and> distinct (node_lists pro) \<and>
     pg_nfree pro = length (pg_free_head pro) \<and>
     (\<forall>n \<in> set (node_lists pro). n < length (pg_vnodes pro) \<and> nd_id (pg_vnodes pro ! n) = n) \<and>
     (\<forall>n \<in> set (pg_free_head pro). 0 < nd_optimal_write_sec_left (pg_vnodes pro ! n))"

definition queues_wf :: "ztl_pro_node_grp \<Rightarrow> nat option list \<Rightarrow> bool" where
  "queues_wf pro qs \<longleftrightarrow>
     (\<forall>i < length qs. \<forall>n. qs ! i = Some n \<longrightarrow> n \<in> set (pg_used_head pro)) \<and>
     (\<forall>i < length qs. \<forall>j < length qs. i \<noteq> j \<longrightarrow> qs ! i \<noteq> None \<longrightarrow> qs ! i \<noteq> qs ! j)"

text \<open>The steps of the write queues: one asks for a node, or finishes a piece in its node.\<close>

inductive pro_step ::
    "ztl_pro_node_grp \<times> nat option list \<Rightarrow> ztl_pro_node_grp \<times> nat option list \<Rightarrow> bool" where
  step_get: "\<lbrakk>i < length qs; ztl_pro_grp_get_node (qs ! i) pro = Some (ret, q', pro')\<rbrakk> \<Longrightarrow>
     pro_step (pro, qs) (pro', qs[i := q'])"
| step_account: "\<lbrakk>i < length qs; qs ! i = Some n; node_account n num pro = Some pro'\<rbrakk> \<Longrightarrow>
     pro_step (pro, qs) (pro', qs)"

inductive_cases pro_stepE: "pro_step s s'"

lemma retire_wf:
  assumes "pro_wf pro" "queues_wf pro qs" "i < length qs"
  shows "\<exists>pro1. get_node_retire (qs ! i) pro = Some pro1 \<and> pro_wf pro1 \<and>
     queues_wf pro1 (qs[i := None]) \<and> pg_free_head pro1 = pg_free_head pro"
proof (cases "qs ! i")
  case None
  then have "qs[i := None] = qs" using assms(3) by (metis list_update_id)
  then show ?thesis using assms None by (simp add: get_node_retire_def)
next
  case (Some n)
  then have n: "n \<in> set (pg_used_head pro)" using assms by (auto simp: queues_wf_def)
  then have "n < length (pg_vnodes pro)" "nd_id (pg_vnodes pro ! n) = n" "n \<notin> set (pg_full_head pro)"
    using assms(1) by (auto simp: pro_wf_def)
  moreover have "qs ! j \<noteq> Some n" if "j < length qs" "j \<noteq> i" for j
    using assms that Some unfolding queues_wf_def by (metis option.distinct(1))
  ultimately show ?thesis using assms n Some
    by (auto simp: get_node_retire_def pro_wf_def queues_wf_def nth_list_update)
qed

lemma claim_wf:
  assumes "pro_wf pro" "queues_wf pro qs" "i < length qs" "qs ! i = None"
    and "get_node_pick pro = Some n"
  shows "\<exists>pro1. get_node_claim n pro = Some pro1 \<and> pro_wf pro1 \<and> queues_wf pro1 (qs[i := Some n]) \<and>
     0 < nd_optimal_write_sec_left (pg_vnodes pro1 ! n) \<and> nd_status (pg_vnodes pro1 ! n) = XZTL_ZMD_NODE_USED"
proof -
  obtain rest where f: "pg_free_head pro = n # rest"
    using assms(5) by (cases "pg_free_head pro") (auto simp: get_node_pick_def)
  then have n: "n < length (pg_vnodes pro)" "0 < nd_optimal_write_sec_left (pg_vnodes pro ! n)"
    "pg_nfree pro = Suc (length rest)" "n \<notin> set (pg_used_head pro)"
    using assms(1) by (auto simp: pro_wf_def)
  have "length (n # rest) \<le> length (pg_vnodes pro)"
    using assms(1) f card_mono [of "{..<length (pg_vnodes pro)}" "set (n # rest)"]
      distinct_card [of "n # rest"] by (auto simp: pro_wf_def subset_iff)
  then have "usub 32 (pg_nfree pro) 1 = length rest"
    using assms(1) n(3) by (auto simp: usub_small pro_wf_def)
  with f n assms show ?thesis
    by (auto simp: get_node_claim_def pro_wf_def queues_wf_def nth_list_update)
qed

lemma get_node_wf:
  assumes "pro_wf pro" "queues_wf pro qs" "i < length qs"
  shows "\<exists>ret q' pro'. ztl_pro_grp_get_node (qs ! i) pro = Some (ret, q', pro') \<and> pro_wf pro' \<and>
     queues_wf pro' (qs[i := q']) \<and>
     (ret = xz XZTL_OK \<and> (\<exists>n. q' = Some n \<and> 0 < nd_optimal_write_sec_left (pg_vnodes pro' ! n)) \<or>
      ret = xz XZTL_ZTL_PROV_ERR \<and> q' = None \<and> pg_free_head pro = [])"
proof -
  have "\<exists>b. get_node_needed (qs ! i) pro = Some b \<and>
      (\<not> b \<longrightarrow> (\<exists>n. qs ! i = Some n \<and> 0 < nd_optimal_write_sec_left (pg_vnodes pro ! n)))"
    using assms by (auto simp: get_node_needed_def queues_wf_def pro_wf_def split: option.splits)
  then obtain b where b: "get_node_needed (qs ! i) pro = Some b"
    "\<not> b \<Longrightarrow> \<exists>n. qs ! i = Some n \<and> 0 < nd_optimal_write_sec_left (pg_vnodes pro ! n)" by blast
  show ?thesis
  proof (cases b)
    case False
    then show ?thesis using b assms by (simp add: ztl_pro_grp_get_node_def)
  next
    case True
    obtain pro1 where p1: "get_node_retire (qs ! i) pro = Some pro1" "pro_wf pro1"
      "queues_wf pro1 (qs[i := None])" "pg_free_head pro1 = pg_free_head pro"
      using retire_wf [OF assms] by blast
    show ?thesis
    proof (cases "get_node_pick pro1")
      case None
      then show ?thesis using True b p1 by (simp add: ztl_pro_grp_get_node_def get_node_pick_def)
    next
      case (Some n)
      then show ?thesis
        using True b p1 claim_wf [OF p1(2,3), of i n] assms(3) by (auto simp: ztl_pro_grp_get_node_def)
    qed
  qed
qed

lemma account_wf:
  assumes "pro_wf pro" "queues_wf pro qs" "i < length qs" "qs ! i = Some n"
    "node_account n num pro = Some pro'"
  shows "pro_wf pro' \<and> queues_wf pro' qs"
proof -
  have n: "n \<in> set (pg_used_head pro)" using assms by (auto simp: queues_wf_def)
  then have "n \<notin> set (pg_free_head pro)" using assms(1) by (auto simp: pro_wf_def)
  then show ?thesis using assms n
    by (auto simp: node_account_def pro_wf_def queues_wf_def nth_list_update Let_def bind_eq_Some_conv)
qed

lemma pro_step_wf:
  assumes "pro_step s s'" "pro_wf (fst s)" "queues_wf (fst s) (snd s)"
  shows "pro_wf (fst s') \<and> queues_wf (fst s') (snd s')"
  using assms
proof (cases rule: pro_step.cases)
  case (step_get i qs pro ret q' pro')
  then show ?thesis using get_node_wf [of pro qs i] assms by auto
next
  case (step_account i qs n num pro pro')
  then show ?thesis using account_wf [of pro qs i n num pro'] assms by auto
qed

section \<open>The start of a group\<close>

text \<open>What the loop of \<open>ztl_pro_grp_node_init\<close> computes of a report \<open>zi\<close> (the descriptor of
  each zone) and a metadata table.\<close>

definition add_secs :: "(nat \<Rightarrow> znd_descr) \<Rightarrow> app_zmd_entry list \<Rightarrow> nat \<Rightarrow> int \<Rightarrow> int" where
  "add_secs zi tbl z acc =
     (case zi_zs (zi z) of
        ZND_STATE_FULL \<Rightarrow> s32 (acc + int (zi_zcap (zi z)))
      | ZND_STATE_EMPTY \<Rightarrow> acc
      | ZND_STATE_OTHER _ \<Rightarrow> acc
      | _ \<Rightarrow> s32 (acc + (int (zi_wp (zi z)) - int (g_sect (ze_addr (tbl ! z))))))"

definition init_secs :: "(nat \<Rightarrow> znd_descr) \<Rightarrow> app_zmd_entry list \<Rightarrow> nat \<Rightarrow> nat \<Rightarrow> int" where
  "init_secs zi tbl z0 k = fold (add_secs zi tbl) [z0..<z0 + k] 0"

definition init_fulls :: "(nat \<Rightarrow> znd_descr) \<Rightarrow> nat \<Rightarrow> nat \<Rightarrow> nat" where
  "init_fulls zi z0 k = length (filter (\<lambda>z. zi_zs (zi z) = ZND_STATE_FULL) [z0..<z0 + k])"

definition init_status :: "(nat \<Rightarrow> znd_descr) \<Rightarrow> app_zmd_entry list \<Rightarrow> nat \<Rightarrow> xztl_zmd_node_status" where
  "init_status zi tbl n =
     (if init_fulls zi (64 * n + 2) 64 = 64 then XZTL_ZMD_NODE_FULL
      else if init_secs zi tbl (64 * n + 2) 64 = 0 then XZTL_ZMD_NODE_FREE
      else XZTL_ZMD_NODE_USED)"

definition init_used :: "(nat \<Rightarrow> znd_descr) \<Rightarrow> app_zmd_entry list \<Rightarrow> nat \<Rightarrow> nat" where
  "init_used zi tbl n =
     (case init_status zi tbl n of
        XZTL_ZMD_NODE_FULL \<Rightarrow> ZTL_PRO_OPT_SEC_NUM_INNODE
      | XZTL_ZMD_NODE_FREE \<Rightarrow> 0
      | _ \<Rightarrow> u64_of_int (init_secs zi tbl (64 * n + 2) 64 sdiv 8))"

definition init_left :: "(nat \<Rightarrow> znd_descr) \<Rightarrow> app_zmd_entry list \<Rightarrow> nat \<Rightarrow> nat" where
  "init_left zi tbl n =
     (case init_status zi tbl n of
        XZTL_ZMD_NODE_FULL \<Rightarrow> 0
      | XZTL_ZMD_NODE_FREE \<Rightarrow> ZTL_PRO_OPT_SEC_NUM_INNODE
      | _ \<Rightarrow> u64_of_int (s32 (196608 - init_secs zi tbl (64 * n + 2) 64 sdiv 8)))"

definition init_node :: "(nat \<Rightarrow> znd_descr) \<Rightarrow> app_zmd_entry list \<Rightarrow> nat \<Rightarrow> ztl_pro_node" where
  "init_node zi tbl n = \<lparr>nd_id = n, nd_vzones = map (\<lambda>i. Some (64 * n + i)) [0..<64],
     nd_optimal_write_sec_left = init_left zi tbl n, nd_optimal_write_sec_used = init_used zi tbl n,
     nd_nr_finish_err = 0, nd_nr_reset_err = 0, nd_nr_valid = 0,
     nd_status = init_status zi tbl n, nd_level = -1\<rparr>"

definition init_zone :: "(nat \<Rightarrow> znd_descr) \<Rightarrow> app_zmd_entry list \<Rightarrow> nat \<Rightarrow> ztl_pro_zone" where
  "init_zone zi tbl z = \<lparr>zn_addr = ze_addr (tbl ! z), zn_zmd_entry = Some z,
     zn_capacity = zi_zcap (zi z), zn_lock = 0, zn_state = Some (zi_zs (zi z))\<rparr>"

definition init_entry :: "(nat \<Rightarrow> znd_descr) \<Rightarrow> app_zmd_entry list \<Rightarrow> nat \<Rightarrow> app_zmd_entry" where
  "init_entry zi tbl z = (tbl ! z)\<lparr>ze_wptr_inflight := zi_wp (zi z), ze_wptr := zi_wp (zi z)\<rparr>"

abbreviation nodes_with ::
    "(nat \<Rightarrow> znd_descr) \<Rightarrow> app_zmd_entry list \<Rightarrow> nat \<Rightarrow> xztl_zmd_node_status \<Rightarrow> nat list" where
  "nodes_with zi tbl j s \<equiv> filter (\<lambda>n. init_status zi tbl n = s) [0..<j]"

text \<open>The state of the loop after \<open>64 * j + k\<close> zones, \<open>N\<close> being the number of nodes.\<close>

definition init_state ::
    "(nat \<Rightarrow> znd_descr) \<Rightarrow> app_zmd_entry list \<Rightarrow> nat \<Rightarrow> nat \<Rightarrow> nat \<Rightarrow> node_init_state" where
  "init_state zi tbl N j k =
     \<lparr>ni_pro = \<lparr>pg_vnodes = map (\<lambda>n. if n < j then init_node zi tbl n
            else if n = j then zero_node\<lparr>nd_vzones := map (\<lambda>i. if i < k then Some (64 * j + i) else None) [0..<64]\<rparr>
            else zero_node) [0..<N],
        pg_vzones = map (\<lambda>i. if i < 64 * j + k then init_zone zi tbl (i + 2) else zero_zone) [0..<length tbl],
        pg_nfree = length (nodes_with zi tbl j XZTL_ZMD_NODE_FREE),
        pg_nzones = length tbl, pg_nnodes = N,
        pg_free_head = nodes_with zi tbl j XZTL_ZMD_NODE_FREE,
        pg_used_head = nodes_with zi tbl j XZTL_ZMD_NODE_USED,
        pg_full_head = nodes_with zi tbl j XZTL_ZMD_NODE_FULL\<rparr>,
      ni_tbl = map (\<lambda>z. if 2 \<le> z \<and> z < 64 * j + k + 2 then init_entry zi tbl z else tbl ! z) [0..<length tbl],
      ni_node_i = j, ni_zone_num_in_node = k,
      ni_full_count = init_fulls zi (64 * j + 2) k,
      ni_sec_num = init_secs zi tbl (64 * j + 2) k\<rparr>"

text \<open>A table whose zones are all available and carry their own address.\<close>

definition tbl_ok :: "nat \<Rightarrow> app_zmd_entry list \<Rightarrow> bool" where
  "tbl_ok gid tbl \<longleftrightarrow> (\<forall>z < length tbl. g_zone (ze_addr (tbl ! z)) = z \<and> g_grp (ze_addr (tbl ! z)) = gid \<and>
     (\<forall>f. has_flag (ze_flags (tbl ! z)) f \<longleftrightarrow> f = XZTL_ZMD_AVLB))"

definition report_of :: "xztl_mgeo \<Rightarrow> app_group \<Rightarrow> (nat \<Rightarrow> znd_descr) \<Rightarrow> nat \<Rightarrow> bool" where
  "report_of g grp zi n \<longleftrightarrow> (\<exists>rep. zd_report (gr_zmd grp) = Some rep \<and>
     (\<forall>z < n. get_at rep (u32 (u32 (gr_id grp * ge_zn_grp g) + z)) = Some (zi z)))"

lemma map_upt_update: "i < n \<Longrightarrow> (map f [0..<n])[i := v] = map (f(i := v)) [0..<n]"
  by (intro nth_equalityI) (auto simp: nth_list_update)

lemma map_upt_extend:
  assumes "m < n" "v = f m"
  shows "(map (\<lambda>i. if i < m then f i else h i) [0..<n])[m := v] =
    map (\<lambda>i. if i < Suc m then f i else h i) [0..<n]"
  using assms by (intro nth_equalityI) (auto simp: nth_list_update less_Suc_eq)

lemma map_upt_extend2:
  assumes "m < n" "2 \<le> m" "v = f m"
  shows "(map (\<lambda>i. if 2 \<le> i \<and> i < m then f i else h i) [0..<n])[m := v] =
    map (\<lambda>i. if 2 \<le> i \<and> i < Suc m then f i else h i) [0..<n]"
  using assms by (intro nth_equalityI) (auto simp: nth_list_update less_Suc_eq)

lemma map_upt_cong: "(\<And>i. i < n \<Longrightarrow> f i = h i) \<Longrightarrow> map f [0..<n] = map h [0..<n]"
  by simp

lemma init_secs_Suc: "init_secs zi tbl z0 (Suc k) = add_secs zi tbl (z0 + k) (init_secs zi tbl z0 k)"
  by (simp add: init_secs_def)

lemma init_fulls_Suc: "init_fulls zi z0 (Suc k) =
  init_fulls zi z0 k + (if zi_zs (zi (z0 + k)) = ZND_STATE_FULL then 1 else 0)"
  by (simp add: init_fulls_def)

lemma init_fulls_0 [simp]: "init_fulls zi z0 0 = 0" "init_secs zi tbl z0 0 = 0"
  by (simp_all add: init_fulls_def init_secs_def)

lemma node_init_zone_step:
  assumes ok: "tbl_ok (gr_id grp) tbl" "report_of g grp zi (length tbl)" "mt_zone_num md = 2"
    and b: "k < 64" "j < N" "64 * j + k + 2 < length tbl"
  shows "node_init_zone g md grp (64 * j + k + 2) (init_state zi tbl N j k) =
    Some (init_state zi tbl N j (Suc k))"
proof -
  let ?z = "64 * j + k + 2"
  from ok(2) b(3) obtain rep where rep: "zd_report (gr_zmd grp) = Some rep"
    "u32 (u32 (gr_id grp * ge_zn_grp g) + ?z) < length rep"
    "rep ! u32 (u32 (gr_id grp * ge_zn_grp g) + ?z) = zi ?z"
    unfolding report_of_def by fastforce
  have e: "g_zone (ze_addr (tbl ! ?z)) = ?z" "g_grp (ze_addr (tbl ! ?z)) = gr_id grp"
    "\<And>f. has_flag (ze_flags (tbl ! ?z)) f \<longleftrightarrow> f = XZTL_ZMD_AVLB"
    using ok(1) b(3) by (auto simp: tbl_ok_def)
  have Nd: "(map (\<lambda>n. if n < j then A n else if n = j then c else d) [0..<N])[j := c'] =
      map (\<lambda>n. if n < j then A n else if n = j then c' else d) [0..<N]" for A c c' d
    using b(2) by (subst map_upt_update) (auto intro: map_upt_cong)
  show ?thesis
    using b e rep ok(3)
    unfolding node_init_zone_def init_state_def Let_def
    by (cases "zi_zs (zi ?z)")
      (simp_all add: Nd map_upt_extend map_upt_extend2 get_metadata_zone_num_def init_secs_Suc
        init_fulls_Suc add_secs_def init_zone_def init_entry_def del: upt_rec_numeral)
qed

lemma node_init_close_step:
  assumes "j < N" "N < 2 ^ 32"
  shows "node_init_close (init_state zi tbl N j 64) =
    Some ((init_state zi tbl N (Suc j) 0)\<lparr>ni_full_count := init_fulls zi (64 * j + 2) 64\<rparr>)"
proof -
  let ?node = "zero_node\<lparr>nd_vzones := map (\<lambda>i. Some (64 * j + i)) [0..<64], nd_id := j,
     nd_nr_valid := 0, nd_level := - 1\<rparr>"
  have vz: "map (\<lambda>i. if i < 64 then Some (64 * j + i) else None) [0..<64] = map (\<lambda>i. Some (64 * j + i)) [0..<64]"
    by (rule map_upt_cong) simp
  have none: "zero_node\<lparr>nd_vzones := map (\<lambda>i. if i < 0 then f i else None) [0..<64]\<rparr> = zero_node" for f
    by (simp add: zero_node_def map_replicate_const)
  have Nd: "(map (\<lambda>n. if n < j then init_node zi tbl n else if n = j then c else zero_node) [0..<N])[j := v] =
      map (\<lambda>n. if n < Suc j then init_node zi tbl n else if n = Suc j then zero_node else zero_node) [0..<N]"
    if "v = init_node zi tbl j" for c v
    using assms(1) that by (intro nth_equalityI) (auto simp: nth_list_update less_Suc_eq)
  have "length (nodes_with zi tbl j XZTL_ZMD_NODE_FREE) \<le> length [0..<j]" by (rule length_filter_le)
  then have small: "u32 (Suc (length (nodes_with zi tbl j XZTL_ZMD_NODE_FREE))) =
      Suc (length (nodes_with zi tbl j XZTL_ZMD_NODE_FREE))"
    using assms by (simp add: u32_small)
  note defs = node_init_close_def init_state_def Let_def none
  consider "init_fulls zi (64 * j + 2) 64 = 64"
    | "init_fulls zi (64 * j + 2) 64 \<noteq> 64" "init_secs zi tbl (64 * j + 2) 64 = 0"
    | "init_fulls zi (64 * j + 2) 64 \<noteq> 64" "init_secs zi tbl (64 * j + 2) 64 \<noteq> 0" by blast
  then show ?thesis
  proof cases
    case 1
    then have s: "init_status zi tbl j = XZTL_ZMD_NODE_FULL" by (simp add: init_status_def)
    then have "?node\<lparr>nd_status := XZTL_ZMD_NODE_FULL, nd_optimal_write_sec_left := 0,
        nd_optimal_write_sec_used := 196608\<rparr> = init_node zi tbl j"
      by (simp add: init_node_def zero_node_def init_left_def init_used_def)
    then show ?thesis using 1 assms(1) s unfolding defs
      by (simp add: vz Nd tailq_insert_tail_def del: upt_rec_numeral)
  next
    case 2
    then have s: "init_status zi tbl j = XZTL_ZMD_NODE_FREE" by (simp add: init_status_def)
    then have "?node\<lparr>nd_status := XZTL_ZMD_NODE_FREE, nd_optimal_write_sec_left := 196608,
        nd_optimal_write_sec_used := 0\<rparr> = init_node zi tbl j"
      by (simp add: init_node_def zero_node_def init_left_def init_used_def)
    then show ?thesis using 2 assms(1) s unfolding defs
      by (simp add: small vz Nd tailq_insert_tail_def del: upt_rec_numeral)
  next
    case 3
    then have s: "init_status zi tbl j = XZTL_ZMD_NODE_USED" by (simp add: init_status_def)
    then have "?node\<lparr>nd_status := XZTL_ZMD_NODE_USED,
        nd_optimal_write_sec_left := u64_of_int (s32 (196608 - init_secs zi tbl (64 * j + 2) 64 sdiv 8)),
        nd_optimal_write_sec_used := u64_of_int (init_secs zi tbl (64 * j + 2) 64 sdiv 8)\<rparr> = init_node zi tbl j"
      by (simp add: init_node_def zero_node_def init_left_def init_used_def)
    then show ?thesis using 3 assms(1) s unfolding defs
      by (simp add: vz Nd tailq_insert_tail_def del: upt_rec_numeral)
  qed
qed

text \<open>The zones of a group, the metadata zones aside, are \<open>N\<close> nodes and \<open>m\<close> more.\<close>

definition init_ready ::
    "xztl_mgeo \<Rightarrow> ztl_metadata \<Rightarrow> app_group \<Rightarrow> (nat \<Rightarrow> znd_descr) \<Rightarrow> app_zmd_entry list \<Rightarrow> nat \<Rightarrow> nat \<Rightarrow> bool" where
  "init_ready g md grp zi tbl N m \<longleftrightarrow> tbl_ok (gr_id grp) tbl \<and> report_of g grp zi (length tbl) \<and>
     mt_zone_num md = 2 \<and> zd_tbl (gr_zmd grp) = Some tbl \<and> zd_entries (gr_zmd grp) = length tbl \<and>
     length tbl = 64 * N + m + 2 \<and> length tbl < 2 ^ 31 \<and> 0 < N \<and> m < 64"

lemma loop_fill:
  assumes r: "init_ready g md grp zi tbl N m" and "j < N" "k + d \<le> 64" "64 * j + k + d + 2 \<le> length tbl"
  shows "node_init_loop g md grp (64 * j + k + 2) (d + left) (init_state zi tbl N j k) =
    node_init_loop g md grp (64 * j + k + d + 2) left (init_state zi tbl N j (k + d))"
  using assms(3,4)
proof (induction d arbitrary: k)
  case 0
  then show ?case by simp
next
  case (Suc d)
  have "node_init_zone g md grp (64 * j + k + 2) (init_state zi tbl N j k) =
      Some (init_state zi tbl N j (Suc k))"
    using r Suc.prems assms(2) by (intro node_init_zone_step) (auto simp: init_ready_def)
  moreover have "ni_zone_num_in_node (init_state zi tbl N j k) = k" by (simp add: init_state_def)
  ultimately show ?case using Suc.IH [of "Suc k"] Suc.prems by simp
qed

lemma loop_close:
  assumes r: "init_ready g md grp zi tbl N m" and j: "j < N" "64 * (j + 1) + 2 + Suc left = length tbl"
  shows "node_init_loop g md grp (64 * (j + 1) + 2) (Suc left) (init_state zi tbl N j 64) =
    (if Suc (Suc left) < 64
     then Some ((init_state zi tbl N (Suc j) 0)\<lparr>ni_full_count := init_fulls zi (64 * j + 2) 64\<rparr>)
     else node_init_loop g md grp (64 * (j + 1) + 2) (Suc left) (init_state zi tbl N (Suc j) 0))"
proof -
  have N: "N < 2 ^ 32" using r by (simp add: init_ready_def)
  have e: "zd_entries (gr_zmd grp) = length tbl" "length tbl < 2 ^ 31" using r by (simp_all add: init_ready_def)
  then have "zd_entries (gr_zmd grp) - (64 * (j + 1) + 2) + 1 = Suc (Suc left)" using j(2) by linarith
  moreover have "Suc (Suc left) < 2 ^ 32" using e(2) j(2) by simp
  ultimately have u: "u32 (zd_entries (gr_zmd grp) - (64 * (j + 1) + 2) + 1) = Suc (Suc left)"
    by (simp only: take_bit_small)
  have "(init_state zi tbl N (Suc j) 0)\<lparr>ni_full_count := 0\<rparr> = init_state zi tbl N (Suc j) 0"
    "ni_zone_num_in_node (init_state zi tbl N j 64) = 64"
    "ni_zone_num_in_node (init_state zi tbl N (Suc j) 0) = 0"
    by (simp_all add: init_state_def)
  then show ?thesis using u by (simp only: node_init_loop.simps node_init_close_step [OF j(1) N]) simp
qed

lemma loop_nodes:
  assumes r: "init_ready g md grp zi tbl N m" and "j < N"
  shows "node_init_loop g md grp 2 (length tbl - 2) (init_state zi tbl N 0 0) =
    node_init_loop g md grp (64 * (j + 1) + 2) (length tbl - (64 * (j + 1) + 2)) (init_state zi tbl N j 64)"
  using assms(2)
proof (induction j)
  case 0
  have l: "length tbl = 64 * N + m + 2" "0 < N" using r by (simp_all add: init_ready_def)
  then have "length tbl - 2 = 64 + (length tbl - 66)" by simp
  then show ?case using loop_fill [OF r "0.prems", of 0 64 "length tbl - 66"] l
    by (simp add: numeral_2_eq_2)
next
  case (Suc j)
  have l: "length tbl = 64 * N + m + 2" using r by (simp add: init_ready_def)
  obtain left where left: "length tbl - (64 * (j + 1) + 2) = Suc left" "63 \<le> left"
    using l Suc.prems by (cases "length tbl - (64 * (j + 1) + 2)") simp_all
  have more: "Suc left = 64 + (length tbl - (64 * (Suc j + 1) + 2))" using left l Suc.prems by simp
  have "node_init_loop g md grp 2 (length tbl - 2) (init_state zi tbl N 0 0) =
      node_init_loop g md grp (64 * Suc j + 0 + 2) (Suc left) (init_state zi tbl N (Suc j) 0)"
    using Suc.IH loop_close [OF r, of j left] Suc.prems left l by simp
  also have "\<dots> = node_init_loop g md grp (64 * Suc j + 0 + 64 + 2) (length tbl - (64 * (Suc j + 1) + 2))
      (init_state zi tbl N (Suc j) (0 + 64))"
    unfolding more using Suc.prems l by (intro loop_fill [OF r]) simp_all
  finally show ?case by simp
qed

lemma node_init_start:
  assumes "init_ready g md grp zi tbl N m"
  shows "ztl_pro_grp_node_init False g md grp =
    map_option (\<lambda>ls. (xz XZTL_OK, grp\<lparr>gr_pro := Some (ni_pro ls),
        gr_zmd := (gr_zmd grp)\<lparr>zd_tbl := Some (ni_tbl ls)\<rparr>\<rparr>))
      (node_init_loop g md grp (64 * N + 2) m (init_state zi tbl N (N - 1) 64))"
proof -
  have r: "mt_zone_num md = 2" "zd_tbl (gr_zmd grp) = Some tbl" "zd_entries (gr_zmd grp) = length tbl"
    "length tbl = 64 * N + m + 2" "length tbl < 2 ^ 31" "0 < N" "m < 64"
    using assms by (simp_all add: init_ready_def)
  have none: "zero_node\<lparr>nd_vzones := map (\<lambda>i. if i < 0 then f i else None) [0..<64]\<rparr> = zero_node" for f
    by (simp add: zero_node_def map_replicate_const)
  have tbl: "map (\<lambda>z. if 2 \<le> z \<and> z < Suc (Suc 0) then init_entry zi tbl z else tbl ! z) [0..<length tbl] = tbl"
    by (intro nth_equalityI) auto
  have start: "init_state zi tbl N 0 0 = \<lparr>ni_pro = \<lparr>pg_vnodes = replicate N zero_node,
      pg_vzones = replicate (length tbl) zero_zone, pg_nfree = 0, pg_nzones = length tbl, pg_nnodes = N,
      pg_free_head = [], pg_used_head = [], pg_full_head = []\<rparr>, ni_tbl = tbl, ni_node_i = 0,
      ni_zone_num_in_node = 0, ni_full_count = 0, ni_sec_num = 0\<rparr>"
    unfolding init_state_def none by (simp add: tbl map_replicate_const del: upt_rec_numeral)
  have "usub 32 (length tbl) 2 = 64 * N + m" using r by (simp add: usub_small)
  then have num: "usub 32 (length tbl) 2 div 64 = N" using r(7) by simp
  have "ztl_pro_grp_node_init False g md grp =
      map_option (\<lambda>ls. (xz XZTL_OK, grp\<lparr>gr_pro := Some (ni_pro ls),
        gr_zmd := (gr_zmd grp)\<lparr>zd_tbl := Some (ni_tbl ls)\<rparr>\<rparr>))
      (node_init_loop g md grp 2 (length tbl - 2) (init_state zi tbl N 0 0))"
    by (simp add: ztl_pro_grp_node_init_def get_metadata_zone_num_def r(1-3) num ztl_pro_grp_new_pro_def
      start map_option_case split: option.splits bind_splits)
  also have "node_init_loop g md grp 2 (length tbl - 2) (init_state zi tbl N 0 0) =
      node_init_loop g md grp (64 * N + 2) m (init_state zi tbl N (N - 1) 64)"
    using loop_nodes [OF assms, of "N - 1"] r(4,6) by simp
  finally show ?thesis .
qed

text \<open>Where the loop ends, depending on the number of zones behind the last node.\<close>

lemma node_init_end:
  assumes r: "init_ready g md grp zi tbl N m"
  shows "node_init_loop g md grp (64 * N + 2) m (init_state zi tbl N (N - 1) 64) =
    (if m = 0 then Some (init_state zi tbl N (N - 1) 64)
     else if m < 63 then
       Some ((init_state zi tbl N N 0)\<lparr>ni_full_count := init_fulls zi (64 * (N - 1) + 2) 64\<rparr>)
     else None)"
proof (cases m)
  case 0
  then show ?thesis by simp
next
  case (Suc left)
  have i: "length tbl = 64 * N + m + 2" "0 < N" "m < 64" "tbl_ok (gr_id grp) tbl"
    using r by (simp_all add: init_ready_def)
  have close: "node_init_loop g md grp (64 * N + 2) m (init_state zi tbl N (N - 1) 64) =
    (if Suc m < 64
     then Some ((init_state zi tbl N N 0)\<lparr>ni_full_count := init_fulls zi (64 * (N - 1) + 2) 64\<rparr>)
     else node_init_loop g md grp (64 * N + 2) m (init_state zi tbl N N 0))"
    using loop_close [OF r, of "N - 1" left] Suc i by (simp add: mult.commute)
  let ?z = "64 * N + 2"
  have "get_at (ni_tbl (init_state zi tbl N N 0)) ?z = Some (tbl ! ?z)"
    using i Suc by (simp add: init_state_def del: upt_Suc)
  moreover have "g_zone (ze_addr (tbl ! ?z)) = ?z" "g_grp (ze_addr (tbl ! ?z)) = gr_id grp"
    "\<And>f. has_flag (ze_flags (tbl ! ?z)) f \<longleftrightarrow> f = XZTL_ZMD_AVLB"
    using i Suc by (auto simp: tbl_ok_def)
  moreover have "get_at (pg_vnodes (ni_pro (init_state zi tbl N N 0))) (ni_node_i (init_state zi tbl N N 0)) = None"
    by (simp add: init_state_def get_at_def)
  ultimately have "node_init_zone g md grp ?z (init_state zi tbl N N 0) = None"
    by (simp add: node_init_zone_def Let_def bind_eq_None_conv)
  then have "node_init_loop g md grp (64 * N + 2) m (init_state zi tbl N N 0) = None"
    using Suc by (simp add: init_state_def)
  then show ?thesis using close Suc i(3) by simp
qed

lemma init_left_free: "init_status zi tbl n = XZTL_ZMD_NODE_FREE \<Longrightarrow> init_left zi tbl n = ZTL_PRO_OPT_SEC_NUM_INNODE"
  by (simp add: init_left_def)

text \<open>A table of \<open>64 + m + 2\<close> fresh zones whose report says they are empty, for the witnesses.\<close>

definition fresh_tbl :: "nat \<Rightarrow> app_zmd_entry list" where
  "fresh_tbl m = map (\<lambda>z. zero_zmd_entry\<lparr>ze_addr := set_zone z 0, ze_flags := zmd_flag XZTL_ZMD_AVLB\<rparr>) [0..<66 + m]"

definition fresh_zone :: znd_descr where
  "fresh_zone = \<lparr>zi_zs = ZND_STATE_EMPTY, zi_zcap = ZTL_PRO_SEC_NUM_INZONE, zi_wp = 0\<rparr>"

definition fresh_grp :: "nat \<Rightarrow> app_group" where
  "fresh_grp m = zero_group\<lparr>gr_zmd := (gr_zmd zero_group)\<lparr>zd_entries := 66 + m, zd_tbl := Some (fresh_tbl m),
     zd_report := Some (replicate (66 + m) fresh_zone)\<rparr>\<rparr>"

definition fresh_md :: ztl_metadata where
  "fresh_md = \<lparr>mt_metadata_zone = [], mt_zone_num = 2, mt_curr_zone_index = 0, mt_nlb_max = 8\<rparr>"

lemma fresh_ready: "m < 64 \<Longrightarrow> init_ready sample_geo fresh_md (fresh_grp m) (\<lambda>_. fresh_zone) (fresh_tbl m) 1 m"
proof -
  assume m: "m < 64"
  have "has_flag (zmd_flag XZTL_ZMD_AVLB) f \<longleftrightarrow> f = XZTL_ZMD_AVLB" for f
    by (cases f) (simp_all add: has_flag_def)
  moreover have "g_zone (set_zone z 0) = z \<and> g_grp (set_zone z 0) = 0" if "z < 66 + m" for z
    using that m by (simp add: zone_field.get_put_small)
  ultimately have "tbl_ok 0 (fresh_tbl m)"
    using m unfolding tbl_ok_def fresh_tbl_def by (simp del: upt_rec_numeral zmd_flag.simps)
  moreover have "report_of sample_geo (fresh_grp m) (\<lambda>_. fresh_zone) (66 + m)"
    using m by (auto simp: report_of_def fresh_grp_def zero_group_def u32_small)
  moreover have "length (fresh_tbl m) = 66 + m" by (simp add: fresh_tbl_def del: upt_rec_numeral)
  ultimately show ?thesis using m
    by (simp add: init_ready_def fresh_grp_def fresh_md_def zero_group_def)
qed

lemma fresh_free: "init_status (\<lambda>_. fresh_zone) tbl n = XZTL_ZMD_NODE_FREE"
proof -
  have "fold (add_secs (\<lambda>_. fresh_zone) tbl) zs 0 = 0" for zs
    by (induction zs) (simp_all add: add_secs_def fresh_zone_def)
  then show ?thesis by (simp add: init_status_def init_fulls_def init_secs_def) (simp add: fresh_zone_def)
qed

section \<open>Properties\<close>

text \<open>C16: The start of a group. When its zones behind the metadata zones are \<open>N\<close> nodes
  and between 1 and 62 more, every node gets its 64 consecutive zones, the state and the used
  and free space that the device report implies, and is linked into the list of its state;
  the free count is the length of the free list, and the lists satisfy the invariant of the
  nodes.\<close>

theorem node_init_correct:
  assumes "init_ready g md grp zi tbl N m" "1 \<le> m" "m \<le> 62"
  shows "\<exists>grp' pro. ztl_pro_grp_node_init False g md grp = Some (xz XZTL_OK, grp') \<and>
     gr_pro grp' = Some pro \<and> pro_wf pro \<and> pg_vnodes pro = map (init_node zi tbl) [0..<N] \<and>
     (\<forall>i < 64 * N. pg_vzones pro ! i = init_zone zi tbl (i + 2)) \<and>
     pg_free_head pro = filter (\<lambda>n. init_status zi tbl n = XZTL_ZMD_NODE_FREE) [0..<N] \<and>
     pg_used_head pro = filter (\<lambda>n. init_status zi tbl n = XZTL_ZMD_NODE_USED) [0..<N] \<and>
     pg_full_head pro = filter (\<lambda>n. init_status zi tbl n = XZTL_ZMD_NODE_FULL) [0..<N]"
proof -
  let ?pro = "ni_pro (init_state zi tbl N N 0)"
  have r: "length tbl = 64 * N + m + 2" "length tbl < 2 ^ 31" using assms(1) by (simp_all add: init_ready_def)
  have nodes: "pg_vnodes ?pro = map (init_node zi tbl) [0..<N]"
    by (simp add: init_state_def)
  have wf: "pro_wf ?pro"
    using r unfolding pro_wf_def nodes
    by (auto simp: init_state_def init_node_def init_left_free distinct_filter del: upt_Suc)
  have "ztl_pro_grp_node_init False g md grp =
    Some (xz XZTL_OK, grp\<lparr>gr_pro := Some ?pro,
        gr_zmd := (gr_zmd grp)\<lparr>zd_tbl := Some (ni_tbl (init_state zi tbl N N 0))\<rparr>\<rparr>)"
    using node_init_start [OF assms(1)] node_init_end [OF assms(1)] assms(2,3) by simp
  moreover have "\<forall>i < 64 * N. pg_vzones ?pro ! i = init_zone zi tbl (i + 2)"
    using r by (simp add: init_state_def del: upt_Suc)
  ultimately show ?thesis using nodes wf
    by (intro exI [of _ "grp\<lparr>gr_pro := Some ?pro,
        gr_zmd := (gr_zmd grp)\<lparr>zd_tbl := Some (ni_tbl (init_state zi tbl N N 0))\<rparr>\<rparr>"] exI [of _ ?pro])
      (simp add: init_state_def)
qed

theorem node_init_correct_witness:
  "\<exists>grp' pro. ztl_pro_grp_node_init False sample_geo fresh_md (fresh_grp 10) = Some (0, grp') \<and>
     gr_pro grp' = Some pro \<and> pg_free_head pro = [0] \<and> pg_used_head pro = []"
  using node_init_correct [OF fresh_ready [of 10]] by (auto simp: fresh_free)

text \<open>C37: When the zones behind the metadata zones are exactly \<open>N\<close> nodes, the last node is
  never linked: the loop leaves before the check that closes it, so the node is in no list, its
  record has no free space, and it can never be used.\<close>

theorem node_init_last_lost:
  assumes "init_ready g md grp zi tbl N 0"
  shows "\<exists>grp' pro. ztl_pro_grp_node_init False g md grp = Some (xz XZTL_OK, grp') \<and>
     gr_pro grp' = Some pro \<and> N - 1 < length (pg_vnodes pro) \<and> N - 1 \<notin> set (node_lists pro) \<and>
     nd_optimal_write_sec_left (pg_vnodes pro ! (N - 1)) = 0"
proof -
  let ?ls = "init_state zi tbl N (N - 1) 64"
  have "0 < N" using assms by (simp add: init_ready_def)
  then have "N - 1 < length (pg_vnodes (ni_pro ?ls)) \<and> N - 1 \<notin> set (node_lists (ni_pro ?ls)) \<and>
     nd_optimal_write_sec_left (pg_vnodes (ni_pro ?ls) ! (N - 1)) = 0"
    by (simp add: init_state_def zero_node_def del: upt_rec_numeral)
  then show ?thesis using node_init_start [OF assms] node_init_end [OF assms] by simp
qed

theorem node_init_last_lost_witness:
  "\<exists>grp' pro. ztl_pro_grp_node_init False sample_geo fresh_md (fresh_grp 0) = Some (0, grp') \<and>
     gr_pro grp' = Some pro \<and> 0 \<notin> set (node_lists pro)"
  using node_init_last_lost [OF fresh_ready [of 0]] by auto

text \<open>C38: With 63 zones behind the last node the loop starts another node and writes
  behind the end of the node array (the model is undefined there).\<close>

theorem node_init_overflow:
  assumes "init_ready g md grp zi tbl N 63"
  shows "ztl_pro_grp_node_init False g md grp = None"
  using node_init_start [OF assms] node_init_end [OF assms] by simp

theorem node_init_overflow_witness: "ztl_pro_grp_node_init False sample_geo fresh_md (fresh_grp 63) = None"
  using node_init_overflow [OF fresh_ready [of 63]] by simp

text \<open>C15: Over any sequence of requests for a node and finished pieces by the write
  queues, started in a well-formed state, a node belongs to at most one queue, is linked in
  the used list, and the three lists stay separate with the free count right.\<close>

theorem queues_exclusive:
  assumes "pro_step\<^sup>*\<^sup>* (pro, qs) (pro', qs')" "pro_wf pro" "queues_wf pro qs"
  shows "pro_wf pro' \<and> (\<forall>i < length qs'. \<forall>j < length qs'. \<forall>n.
      qs' ! i = Some n \<longrightarrow> n \<in> set (pg_used_head pro') \<and> n \<notin> set (pg_free_head pro') \<and>
        (i \<noteq> j \<longrightarrow> qs' ! j \<noteq> Some n))"
proof -
  have "pro_wf (fst s') \<and> queues_wf (fst s') (snd s')"
    if "pro_step\<^sup>*\<^sup>* s s'" "pro_wf (fst s)" "queues_wf (fst s) (snd s)" for s s'
    using that by (induction rule: rtranclp_induct) (auto dest: pro_step_wf)
  from this [OF assms(1)] assms(2,3) have wf: "pro_wf pro'" "queues_wf pro' qs'" by auto
  then have "n \<notin> set (pg_free_head pro')" if "n \<in> set (pg_used_head pro')" for n
    using that by (auto simp: pro_wf_def)
  then show ?thesis using wf unfolding queues_wf_def by (metis option.distinct(1))
qed

definition sample_two :: ztl_pro_node_grp where
  "sample_two = sample_pro\<lparr>pg_vnodes := [sample_node, sample_node\<lparr>nd_id := 1\<rparr>], pg_nfree := 2,
     pg_free_head := [0, 1]\<rparr>"

lemma sample_two_wf: "pro_wf sample_two \<and> queues_wf sample_two [None, None]"
  by (auto simp: pro_wf_def queues_wf_def sample_two_def sample_pro_def sample_node_def zero_node_def
    nth_Cons' split: if_splits)

theorem queues_exclusive_witness:
  "\<exists>pro' n1 n2. pro_step\<^sup>*\<^sup>* (sample_two, [None, None]) (pro', [Some n1, Some n2]) \<and> n1 \<noteq> n2 \<and> pro_wf pro'"
proof -
  let ?used = "\<lambda>n. n\<lparr>nd_status := XZTL_ZMD_NODE_USED\<rparr>"
  let ?p1 = "sample_two\<lparr>pg_free_head := [1], pg_used_head := [0], pg_nfree := 1,
    pg_vnodes := [?used sample_node, sample_node\<lparr>nd_id := 1\<rparr>]\<rparr>"
  let ?p2 = "?p1\<lparr>pg_free_head := [], pg_used_head := [0, 1], pg_nfree := 0,
    pg_vnodes := [?used sample_node, ?used (sample_node\<lparr>nd_id := 1\<rparr>)]\<rparr>"
  note eval = ztl_pro_grp_get_node_def get_node_needed_def get_node_retire_def get_node_pick_def
    get_node_claim_def sample_two_def sample_pro_def tailq_insert_tail_def usub_small
  have "ztl_pro_grp_get_node None sample_two = Some (xz XZTL_OK, Some 0, ?p1)" by (simp add: eval)
  then have "pro_step (sample_two, [None, None]) (?p1, [Some 0, None])"
    using step_get [of 0 "[None, None]" sample_two] by simp
  moreover have "ztl_pro_grp_get_node None ?p1 = Some (xz XZTL_OK, Some 1, ?p2)" by (simp add: eval)
  then have "pro_step (?p1, [Some 0, None]) (?p2, [Some 0, Some 1])"
    using step_get [of 1 "[Some 0, None]" ?p1] by simp
  ultimately have steps: "pro_step\<^sup>*\<^sup>* (sample_two, [None, None]) (?p2, [Some 0, Some 1])" by auto
  moreover have "pro_wf ?p2" using queues_exclusive [OF steps] sample_two_wf by blast
  ultimately show ?thesis using zero_neq_one by blast
qed

text \<open>C17: A write queue that asks for a node gets one with free space whenever it has
  one or the free list is not empty; otherwise the request fails with
  \<open>XZTL_ZTL_PROV_ERR\<close> and the queue has no node. A node that is kept is not touched, a node
  that is left is moved from the used to the full list.\<close>

theorem get_node_outcome:
  assumes "pro_wf pro" "queues_wf pro qs" "i < length qs"
  shows "\<exists>ret q' pro'. ztl_pro_grp_get_node (qs ! i) pro = Some (ret, q', pro') \<and>
     (if \<exists>n. qs ! i = Some n \<and> 0 < nd_optimal_write_sec_left (pg_vnodes pro ! n)
      then ret = xz XZTL_OK \<and> q' = qs ! i \<and> pro' = pro
      else (\<forall>n. qs ! i = Some n \<longrightarrow> n \<in> set (pg_full_head pro')) \<and>
        (case pg_free_head pro of
           [] \<Rightarrow> ret = xz XZTL_ZTL_PROV_ERR \<and> q' = None
         | n # rest \<Rightarrow> ret = xz XZTL_OK \<and> q' = Some n \<and> pg_free_head pro' = rest \<and>
             0 < nd_optimal_write_sec_left (pg_vnodes pro' ! n)))"
proof -
  obtain ret q' pro' where g: "ztl_pro_grp_get_node (qs ! i) pro = Some (ret, q', pro')"
    "ret = xz XZTL_OK \<and> (\<exists>n. q' = Some n \<and> 0 < nd_optimal_write_sec_left (pg_vnodes pro' ! n)) \<or>
     ret = xz XZTL_ZTL_PROV_ERR \<and> q' = None \<and> pg_free_head pro = []"
    using get_node_wf [OF assms] by blast
  have n: "n < length (pg_vnodes pro) \<and> nd_id (pg_vnodes pro ! n) = n" if "qs ! i = Some n" for n
    using assms that by (auto simp: queues_wf_def pro_wf_def)
  show ?thesis
  proof (cases "\<exists>n. qs ! i = Some n \<and> 0 < nd_optimal_write_sec_left (pg_vnodes pro ! n)")
    case True
    then show ?thesis using n by (auto simp: ztl_pro_grp_get_node_def get_node_needed_def)
  next
    case False
    then have "get_node_needed (qs ! i) pro = Some True"
      using n by (auto simp: get_node_needed_def split: option.splits)
    then show ?thesis using False g n
      by (auto simp: ztl_pro_grp_get_node_def get_node_retire_def get_node_pick_def get_node_claim_def
        tailq_first_def tailq_remove_def bind_eq_Some_conv tailq_insert_tail_def
        split: option.splits list.splits if_splits)
  qed
qed

theorem get_node_outcome_witness:
  "\<exists>pro'. ztl_pro_grp_get_node None sample_two = Some (0, Some 0, pro')"
  using get_node_outcome [of sample_two "[None, None]" 0] sample_two_wf
  by (auto simp: sample_two_def)

end
