(* ===== verification/Ztl_Pro_Steps.thy ===== *)
theory Ztl_Pro_Steps
  imports Ztl_Pro_Nodes
begin

text \<open>
  The request for a node (\<open>ztl_pro_grp_get_node\<close> in \<open>ztl-pro-grp.c\<close>) as the write threads run it: one step per section
  under a spin lock, on the lists of the group that all queues share. A schedule is the list of the queues
  that take the next step. Alone, the steps of a queue are the request of \<open>Ztl_Pro\<close>; between the steps of two queues the free
  list can change, since its lock is released after the look and taken again for the removal.
\<close>

section \<open>Model\<close>

text \<open>The points of the code between the sections, and the result once it has returned.\<close>

datatype get_pc = Enter | Retire_used | Retire_full nat | Look | Remove | Insert | Count | Returned int

definition get_node_step :: "get_pc \<Rightarrow> nat option \<Rightarrow> ztl_pro_node_grp \<Rightarrow> (get_pc \<times> nat option \<times> ztl_pro_node_grp) option" where
  "get_node_step pc q_node pro = (case pc of
     Enter \<Rightarrow> do {
       needed \<leftarrow> get_node_needed q_node pro;
       Some (if \<not> needed then Returned (xz XZTL_OK) else if q_node = None then Look else Retire_used, q_node, pro) }
   | Retire_used \<Rightarrow> do {
       n \<leftarrow> q_node;
       node \<leftarrow> get_at (pg_vnodes pro) n;
       used \<leftarrow> tailq_remove (pg_used_head pro) (nd_id node);
       Some (Retire_full (nd_id node), q_node, pro\<lparr>pg_used_head := used\<rparr>) }
   | Retire_full n \<Rightarrow> Some (Look, q_node, pro\<lparr>pg_full_head := tailq_insert_tail (pg_full_head pro) n\<rparr>)
   | Look \<Rightarrow> (case tailq_first (pg_free_head pro) of
       None \<Rightarrow> Some (Returned (xz XZTL_ZTL_PROV_ERR), None, pro)
     | Some n \<Rightarrow> Some (Remove, Some n, pro))
   | Remove \<Rightarrow> do {
       n \<leftarrow> q_node;
       free \<leftarrow> tailq_remove (pg_free_head pro) n;
       Some (Insert, q_node, pro\<lparr>pg_free_head := free\<rparr>) }
   | Insert \<Rightarrow> do {
       n \<leftarrow> q_node;
       node \<leftarrow> get_at (pg_vnodes pro) n;
       vnodes \<leftarrow> set_at (pg_vnodes pro) n (node\<lparr>nd_status := XZTL_ZMD_NODE_USED\<rparr>);
       Some (Count, q_node, pro\<lparr>pg_used_head := tailq_insert_tail (pg_used_head pro) n, pg_vnodes := vnodes\<rparr>) }
   | Count \<Rightarrow> Some (Returned (xz XZTL_OK), q_node, pro\<lparr>pg_nfree := usub 32 (pg_nfree pro) 1\<rparr>)
   | Returned ret \<Rightarrow> Some (Returned ret, q_node, pro))"

fun run_queues ::
    "nat list \<Rightarrow> (get_pc \<times> nat option) list \<Rightarrow> ztl_pro_node_grp \<Rightarrow> ((get_pc \<times> nat option) list \<times> ztl_pro_node_grp) option" where
  "run_queues [] qs pro = Some (qs, pro)"
| "run_queues (i # sched) qs pro = do {
     (pc, q_node) \<leftarrow> get_at qs i;
     (pc, q_node, pro) \<leftarrow> get_node_step pc q_node pro;
     run_queues sched (qs[i := (pc, q_node)]) pro }"

section \<open>Lemmas\<close>

lemma run_queues_append: "run_queues (a @ b) qs pro = do { (qs, pro) \<leftarrow> run_queues a qs pro; run_queues b qs pro }"
  by (induction a qs pro rule: run_queues.induct) (auto split: bind_splits)

lemma run_returned: "i < length qs \<Longrightarrow> qs ! i = (Returned ret, q) \<Longrightarrow> run_queues (replicate k i) qs pro = Some (qs, pro)"
proof (induction k)
  case (Suc k)
  moreover have "qs[i := (Returned ret, q)] = qs" using Suc.prems(2) list_update_id [of qs i] by simp
  ultimately show ?case by (simp add: get_node_step_def)
qed simp

text \<open>The steps from the look on.\<close>

lemma run_look:
  assumes "i < length qs"
  shows "run_queues (replicate 4 i) (qs[i := (Look, q)]) pro = (case get_node_pick pro of
      None \<Rightarrow> Some (qs[i := (Returned (xz XZTL_ZTL_PROV_ERR), None)], pro)
    | Some n \<Rightarrow> do { pro \<leftarrow> get_node_claim n pro; Some (qs[i := (Returned (xz XZTL_OK), Some n)], pro) })"
proof (cases "pg_free_head pro")
  case Nil
  then show ?thesis using assms by (simp add: get_node_step_def get_node_pick_def numeral_eq_Suc)
next
  case (Cons n rest)
  then show ?thesis using assms
    by (simp add: get_node_step_def get_node_pick_def get_node_claim_def numeral_eq_Suc tailq_remove_def tailq_insert_tail_def split: bind_splits)
qed

lemma run_alone:
  assumes "i < length qs"
  shows "run_queues (replicate 7 i) (qs[i := (Enter, q)]) pro = (case ztl_pro_grp_get_node q pro of None \<Rightarrow> None
    | Some (ret, q', pro') \<Rightarrow> Some (qs[i := (Returned ret, q')], pro'))"
proof -
  have stay: "run_queues (replicate k i) (qs[i := (Returned ret, q')]) p = Some (qs[i := (Returned ret, q')], p)" for k ret q' p
    using assms by (intro run_returned) simp_all
  have split: "run_queues (replicate (j + k) i) qs' p = do { (qs', p) \<leftarrow> run_queues (replicate j i) qs' p; run_queues (replicate k i) qs' p }" for j k qs' p
    by (simp only: replicate_add run_queues_append)
  have look: "run_queues (replicate (4 + k) i) (qs[i := (Look, q)]) p = (case get_node_pick p of
      None \<Rightarrow> Some (qs[i := (Returned (xz XZTL_ZTL_PROV_ERR), None)], p)
    | Some n \<Rightarrow> do { p \<leftarrow> get_node_claim n p; Some (qs[i := (Returned (xz XZTL_OK), Some n)], p) })" for k p
    unfolding split run_look [OF assms] by (auto simp: stay split: option.splits bind_splits)
  show ?thesis
  proof (cases "get_node_needed q pro")
    case None
    then show ?thesis using assms by (simp add: ztl_pro_grp_get_node_def numeral_eq_Suc get_node_step_def)
  next
    case (Some needed)
    have enter: "run_queues (replicate (1 + k) i) (qs[i := (Enter, q)]) pro =
        run_queues (replicate k i) (qs[i := (if \<not> needed then Returned (xz XZTL_OK) else if q = None then Look else Retire_used, q)]) pro" for k
      using assms Some by (simp add: get_node_step_def)
    consider "\<not> needed" | "needed" "q = None" | n where "needed" "q = Some n" by (cases q) auto
    then show ?thesis
    proof cases
      case 1
      then show ?thesis using enter [of 6] stay [of 6] Some by (simp add: ztl_pro_grp_get_node_def)
    next
      case 2
      then show ?thesis using enter [of 6] look [of 2 pro] Some
        by (simp add: ztl_pro_grp_get_node_def get_node_retire_def split: option.splits bind_splits)
    next
      case (3 n)
      have retire: "run_queues (replicate (2 + 4) i) (qs[i := (Retire_used, q)]) pro =
          (case get_node_retire q pro of None \<Rightarrow> None | Some p \<Rightarrow> run_queues (replicate 4 i) (qs[i := (Look, q)]) p)"
        unfolding split [of 2 4] using assms 3(2)
        by (auto simp: numeral_2_eq_2 get_node_step_def get_node_retire_def split: bind_splits)
      show ?thesis using enter [of 6] retire look [of 0] 3 Some
        by (simp add: ztl_pro_grp_get_node_def split: option.splits bind_splits)
    qed
  qed
qed

lemma run_claim_two:
  assumes "pro_wf pro" "pg_free_head pro = n # n' # rest"
  shows "\<exists>pro1. ztl_pro_grp_get_node None pro = Some (xz XZTL_OK, Some n, pro1) \<and> pg_free_head pro1 = n' # rest \<and> length (pg_vnodes pro1) = length (pg_vnodes pro)"
proof -
  have "n < length (pg_vnodes pro)" using assms by (simp add: pro_wf_def)
  then show ?thesis using assms(2)
    by (simp add: ztl_pro_grp_get_node_def get_node_needed_def get_node_retire_def get_node_pick_def get_node_claim_def tailq_remove_def)
qed

section \<open>Properties\<close>



text \<open>C40: Two queues that ask for a node at the same time can get the same one. With two free nodes and one queue after the
  other each gets its own node. But when the second queue looks at the free list between the look and the
  removal of the first, which the release of the lock allows, both hold the first node, and the removal by the second
  queue, which finds the node gone from the list, is undefined.\<close>

theorem get_node_race:
  assumes "pro_wf pro" "pg_free_head pro = n # n' # rest" "i < length qs" "j < length qs" "i \<noteq> j" "qs ! i = (Enter, None)" "qs ! j = (Enter, None)"
  shows "(\<exists>pro'. run_queues (replicate 7 i @ replicate 7 j) qs pro =
      Some (qs[i := (Returned (xz XZTL_OK), Some n), j := (Returned (xz XZTL_OK), Some n')], pro')) \<and>
    run_queues [i, i, j, j] qs pro = Some (qs[i := (Remove, Some n), j := (Remove, Some n)], pro) \<and>
    run_queues [i, i, j, j, i, j] qs pro = None"
proof -
  have nn: "n \<noteq> n'" "n \<notin> set rest" "n' < length (pg_vnodes pro)" using assms(1,2) by (auto simp: pro_wf_def)
  obtain pro1 where p1: "ztl_pro_grp_get_node None pro = Some (xz XZTL_OK, Some n, pro1)" "pg_free_head pro1 = n' # rest"
    "length (pg_vnodes pro1) = length (pg_vnodes pro)" using run_claim_two [OF assms(1,2)] by blast
  obtain pro2 where p2: "ztl_pro_grp_get_node None pro1 = Some (xz XZTL_OK, Some n', pro2)"
    using p1(2,3) nn(3)
    by (simp add: ztl_pro_grp_get_node_def get_node_needed_def get_node_retire_def get_node_pick_def get_node_claim_def tailq_remove_def)
  have "run_queues (replicate 7 i) qs pro = Some (qs[i := (Returned (xz XZTL_OK), Some n)], pro1)"
    using run_alone [OF assms(3), of None pro] assms(6) list_update_id [of qs i] p1(1) by simp
  moreover have "run_queues (replicate 7 j) (qs[i := (Returned (xz XZTL_OK), Some n)]) pro1 =
      Some (qs[i := (Returned (xz XZTL_OK), Some n), j := (Returned (xz XZTL_OK), Some n')], pro2)"
    using run_alone [of j "qs[i := (Returned (xz XZTL_OK), Some n)]" None pro1] assms(4,5,7) list_update_id [of "qs[i := (Returned (xz XZTL_OK), Some n)]" j] p2
    by simp
  ultimately have "run_queues (replicate 7 i @ replicate 7 j) qs pro =
      Some (qs[i := (Returned (xz XZTL_OK), Some n), j := (Returned (xz XZTL_OK), Some n')], pro2)" by (simp add: run_queues_append)
  moreover have look: "run_queues [i, i, j, j] qs pro = Some (qs[i := (Remove, Some n), j := (Remove, Some n)], pro)"
    using assms(2-7) by (simp add: get_node_step_def get_node_needed_def list_update_swap)
  moreover have "run_queues [i, j] (qs[i := (Remove, Some n), j := (Remove, Some n)]) pro = None"
    using assms(2-5) nn by (simp add: get_node_step_def tailq_remove_def)
  ultimately show ?thesis using run_queues_append [of "[i, i, j, j]" "[i, j]" qs pro] by simp
qed

theorem get_node_race_witness:
  "run_queues [0, 0, 1, 1] [(Enter, None), (Enter, None)] sample_two = Some ([(Remove, Some 0), (Remove, Some 0)], sample_two) \<and>
   run_queues [0, 0, 1, 1, 0, 1] [(Enter, None), (Enter, None)] sample_two = None"
  using get_node_race [of sample_two 0 1 "[]" 0 "[(Enter, None), (Enter, None)]" 1] sample_two_wf by (simp add: sample_two_def)

end
