(* ===== verification/Ztl_Media.thy ===== *)
theory Ztl_Media
  imports Ztl_Metadata
begin

text \<open>
  The media layer for zoned namespaces (\<open>ztl-media.c\<close>) and the thread contexts
  (\<open>xztl-ctx.c\<close>): submission of reads, writes and appends, the completion callback, zone
  management, the queue commands, the parsing of device names and the registration.

  xNVMe is third-party code: the record \<open>xnvme\<close> holds the functions the layer calls, over a
  state \<open>'x\<close> of the library and the device. Pointers it hands out (devices, queues, command
  contexts) are numbers, 0 for \<open>NULL\<close>. The state of the layer is the record \<open>media_state\<close>:
  the statistics counters, the thread contexts with their queues (a context that is not
  allocated is unmapped), the completions that a poke of a queue has delivered and whose
  callbacks run next, and the state of xNVMe. Latency stamps and messages are left out.
\<close>

section \<open>Model\<close>

subsection \<open>Interface of xNVMe\<close>

record xnvme_geo =
  xg_npugrp :: nat
  xg_npunit :: nat
  xg_nzone :: nat
  xg_nsect :: nat
  xg_nbytes :: nat
  xg_nbytes_oob :: nat

record xnvme_opts =
  xo_be :: string
  xo_async :: string
  xo_nsid :: int
  xo_direct :: nat
  xo_rdwr :: nat
  xo_rdonly :: nat
  xo_wronly :: nat

datatype xnvme_mgmt_send = MGMT_SEND_CLOSE | MGMT_SEND_FINISH | MGMT_SEND_OPEN | MGMT_SEND_RESET

text \<open>The first argument of a read or write is the command context with the argument of its
  callback, \<open>None\<close> for the context on the stack of a synchronous call; then the device, first
  sector, number of sectors less one, and the buffer. Zone management returns a code and the
  status of the completion. A completion is the argument of the callback, the status and the
  first result word; \<open>xn_poke\<close> delivers up to the given number of them, and \<open>xn_drain\<close> the next
  one of a drain, \<open>None\<close> when no command is outstanding.\<close>

type_synonym completion = "nat \<times> nat \<times> nat"

record 'x xnvme =
  xn_read :: "(nat \<times> nat) option \<Rightarrow> nat \<Rightarrow> nat \<Rightarrow> nat \<Rightarrow> nat \<Rightarrow> 'x \<Rightarrow> int \<times> 'x"
  xn_write :: "(nat \<times> nat) option \<Rightarrow> nat \<Rightarrow> nat \<Rightarrow> nat \<Rightarrow> nat \<Rightarrow> 'x \<Rightarrow> int \<times> 'x"
  xn_append :: "(nat \<times> nat) option \<Rightarrow> nat \<Rightarrow> nat \<Rightarrow> nat \<Rightarrow> nat \<Rightarrow> 'x \<Rightarrow> int \<times> 'x"
  xn_mgmt :: "nat \<Rightarrow> nat \<Rightarrow> bool \<Rightarrow> xnvme_mgmt_send \<Rightarrow> 'x \<Rightarrow> int \<times> nat \<times> 'x"
  xn_report :: "nat \<Rightarrow> 'x \<Rightarrow> znd_descr list option \<times> 'x"
  xn_get_ctx :: "nat \<Rightarrow> 'x \<Rightarrow> nat \<times> 'x"
  xn_put_ctx :: "nat \<Rightarrow> nat \<Rightarrow> 'x \<Rightarrow> 'x"
  xn_poke :: "nat \<Rightarrow> nat \<Rightarrow> 'x \<Rightarrow> int \<times> completion list \<times> 'x"
  xn_drain :: "nat \<Rightarrow> 'x \<Rightarrow> completion option \<times> 'x"
  xn_outstanding :: "nat \<Rightarrow> 'x \<Rightarrow> int \<times> 'x"
  xn_queue_init :: "nat \<Rightarrow> nat \<Rightarrow> 'x \<Rightarrow> int \<times> nat \<times> 'x"
  xn_queue_term :: "nat \<Rightarrow> 'x \<Rightarrow> int \<times> 'x"
  xn_buf_alloc :: "nat \<Rightarrow> nat \<Rightarrow> 'x \<Rightarrow> nat \<times> 'x"
  xn_buf_free :: "nat \<Rightarrow> nat \<Rightarrow> 'x \<Rightarrow> 'x"
  xn_dev_open :: "string \<Rightarrow> xnvme_opts \<Rightarrow> 'x \<Rightarrow> nat \<times> 'x"
  xn_dev_geo :: "nat \<Rightarrow> 'x \<Rightarrow> xnvme_geo option"
  xn_dev_close :: "nat \<Rightarrow> 'x \<Rightarrow> 'x"

subsection \<open>State\<close>

record znd_media =
  zv_dev :: nat
  zv_dev_read :: nat
  zv_devgeo :: xnvme_geo
  zv_geo :: xztl_mgeo
  zv_read_ctx_num :: nat
  zv_io_depth :: nat

record 'x media_state =
  ms_io :: xztl_stats_data
  ms_tctx :: "nat \<rightharpoonup> nat"
  ms_done :: "completion list"
  ms_x :: 'x

subsection \<open>Submission and completion\<close>

definition read_dev :: "znd_media \<Rightarrow> nat" where
  "read_dev zv = (if zv_dev_read zv \<noteq> 0 then zv_dev_read zv else zv_dev zv)"

text \<open>The number of sectors less one as xNVMe takes it: computed from the low 16 bits, and
  passed in 16 bits.\<close>

definition nlb_arg :: "nat \<Rightarrow> nat" where
  "nlb_arg nsec = usub 16 (u16 nsec) 1"

text \<open>The completion callback before and after it calls the callback of the command: it notes
  the status and the address, and gives the command context back to its queue, reading the
  command again.\<close>

definition async_cb_status :: "nat \<Rightarrow> nat \<Rightarrow> xztl_io_mcmd \<Rightarrow> xztl_io_mcmd" where
  "async_cb_status status cdw0 cmd =
     (let cmd = cmd\<lparr>mc_status := status\<rparr>;
          cmd = (if status = 0 \<and> mc_opcode cmd = op XZTL_ZONE_APPEND then cmd\<lparr>mc_paddr := cdw0\<rparr> else cmd)
      in if mc_opcode cmd = op XZTL_CMD_WRITE then cmd\<lparr>mc_paddr := g_sect (mc_addr cmd)\<rparr> else cmd)"

definition async_cb_put :: "'x xnvme \<Rightarrow> xztl_io_mcmd \<Rightarrow> 'x media_state \<Rightarrow> 'x media_state option" where
  "async_cb_put xn cmd s = do {
     queue \<leftarrow> ms_tctx s (mc_async_ctx cmd);
     Some (s\<lparr>ms_x := xn_put_ctx xn queue (mc_media_ctx cmd) (ms_x s)\<rparr>) }"

definition znd_media_submit_read_synch ::
    "'x xnvme \<Rightarrow> znd_media \<Rightarrow> xztl_io_mcmd \<Rightarrow> 'x media_state \<Rightarrow>
     (int \<times> xztl_io_mcmd \<times> 'x media_state) option" where
  "znd_media_submit_read_synch xn zv cmd s =
     (let (ret, x) = xn_read xn None (read_dev zv) (g_sect (mc_addr cmd)) (nlb_arg (mc_nsec cmd))
        (mc_prp cmd) (ms_x s)
      in Some (ret, cmd, s\<lparr>ms_x := x\<rparr>))"

definition znd_media_submit_read_asynch ::
    "'x xnvme \<Rightarrow> znd_media \<Rightarrow> xztl_io_mcmd \<Rightarrow> 'x media_state \<Rightarrow>
     (int \<times> xztl_io_mcmd \<times> 'x media_state) option" where
  "znd_media_submit_read_asynch xn zv cmd s = do {
     queue \<leftarrow> ms_tctx s (mc_async_ctx cmd);
     let (ctx, x) = xn_get_ctx xn queue (ms_x s);
     if ctx = 0 then None
     else do {
       let cmd = cmd\<lparr>mc_media_ctx := ctx\<rparr>;
       let (ret, x) = xn_read xn (Some (ctx, mc_ptr cmd)) (read_dev zv) (g_sect (mc_addr cmd)) (nlb_arg (mc_nsec cmd))
          (mc_prp cmd) x;
       let x = (if ret \<noteq> 0 then xn_put_ctx xn queue ctx x else x);
       Some (ret, cmd, s\<lparr>ms_x := x\<rparr>) } }"

definition znd_media_submit_write_synch ::
    "xztl_io_mcmd \<Rightarrow> 'x media_state \<Rightarrow> (int \<times> xztl_io_mcmd \<times> 'x media_state) option" where
  "znd_media_submit_write_synch cmd s = Some (zerr ZND_INVALID_OPCODE, cmd, s)"

definition znd_media_submit_write_asynch ::
    "'x xnvme \<Rightarrow> znd_media \<Rightarrow> xztl_io_mcmd \<Rightarrow> 'x media_state \<Rightarrow>
     (int \<times> xztl_io_mcmd \<times> 'x media_state) option" where
  "znd_media_submit_write_asynch xn zv cmd s = do {
     queue \<leftarrow> ms_tctx s (mc_async_ctx cmd);
     let (ctx, x) = xn_get_ctx xn queue (ms_x s);
     if ctx = 0 then None
     else do {
       let cmd = cmd\<lparr>mc_media_ctx := ctx\<rparr>;
       let (ret, x) = xn_write xn (Some (ctx, mc_ptr cmd)) (zv_dev zv) (g_sect (mc_addr cmd)) (nlb_arg (mc_nsec cmd))
          (mc_prp cmd) x;
       let x = (if ret \<noteq> 0 then xn_put_ctx xn queue ctx x else x);
       Some (ret, cmd, s\<lparr>ms_x := x\<rparr>) } }"

definition znd_media_submit_append_synch ::
    "xztl_io_mcmd \<Rightarrow> 'x media_state \<Rightarrow> (int \<times> xztl_io_mcmd \<times> 'x media_state) option" where
  "znd_media_submit_append_synch cmd s = Some (zerr ZND_INVALID_OPCODE, cmd, s)"

abbreviation (input) XZTL_WRITE_APPEND :: bool where "XZTL_WRITE_APPEND \<equiv> False"

text \<open>The first sector of the zone is formed in 32 bits. A failed append keeps its context.\<close>

definition znd_media_submit_append_asynch ::
    "'x xnvme \<Rightarrow> znd_media \<Rightarrow> xztl_io_mcmd \<Rightarrow> 'x media_state \<Rightarrow>
     (int \<times> xztl_io_mcmd \<times> 'x media_state) option" where
  "znd_media_submit_append_asynch xn zv cmd s = do {
     queue \<leftarrow> ms_tctx s (mc_async_ctx cmd);
     let (ctx, x) = xn_get_ctx xn queue (ms_x s);
     if ctx = 0 then None
     else do {
       let zlba = u32 (u32 (ge_zn_grp (zv_geo zv) * g_grp (mc_addr cmd) + g_zone (mc_addr cmd)) *
          xg_nsect (zv_devgeo zv));
       let cmd = cmd\<lparr>mc_media_ctx := ctx\<rparr>;
       let (ret, x) =
         (if \<not> XZTL_WRITE_APPEND
          then xn_append xn (Some (ctx, mc_ptr cmd)) (zv_dev zv) zlba (nlb_arg (mc_nsec cmd)) (mc_prp cmd) x
          else (-1, x));
       Some (ret, cmd, s\<lparr>ms_x := x\<rparr>) } }"

definition znd_media_submit_io ::
    "'x xnvme \<Rightarrow> znd_media \<Rightarrow> xztl_io_mcmd \<Rightarrow> 'x media_state \<Rightarrow>
     (int \<times> xztl_io_mcmd \<times> 'x media_state) option" where
  "znd_media_submit_io xn zv cmd s =
     (if mc_opcode cmd = op XZTL_ZONE_APPEND
      then if mc_synch cmd \<noteq> 0 then znd_media_submit_append_synch cmd s
           else znd_media_submit_append_asynch xn zv cmd s
      else if mc_opcode cmd = op XZTL_CMD_READ
      then if mc_synch cmd \<noteq> 0 then znd_media_submit_read_synch xn zv cmd s
           else znd_media_submit_read_asynch xn zv cmd s
      else if mc_opcode cmd = op XZTL_CMD_WRITE
      then if mc_synch cmd \<noteq> 0 then znd_media_submit_write_synch cmd s
           else znd_media_submit_write_asynch xn zv cmd s
      else Some (zerr ZND_INVALID_OPCODE, cmd, s))"

subsection \<open>Zone management\<close>

text \<open>The status of a zone command is a byte; the sector is formed in 32 bits.\<close>

definition znd_media_zone_manage ::
    "'x xnvme \<Rightarrow> znd_media \<Rightarrow> xztl_zn_mcmd \<Rightarrow> xnvme_mgmt_send \<Rightarrow> 'x media_state \<Rightarrow>
     (int \<times> xztl_zn_mcmd \<times> 'x media_state) option" where
  "znd_media_zone_manage xn zv cmd oper s =
     (let lba = u32 (u32 (xg_nzone (zv_devgeo zv) * g_grp (zc_addr cmd) + g_zone (zc_addr cmd)) *
            xg_nsect (zv_devgeo zv));
          select_all = (zc_nzones cmd > 1);
          (ret, status, x) = xn_mgmt xn (zv_dev zv) lba select_all oper (ms_x s)
      in Some (ret, cmd\<lparr>zc_status := (if ret \<noteq> 0 then u8 status else 0)\<rparr>, s\<lparr>ms_x := x\<rparr>))"

definition znd_media_zone_report ::
    "'x xnvme \<Rightarrow> znd_media \<Rightarrow> xztl_zn_mcmd \<Rightarrow> 'x media_state \<Rightarrow>
     (int \<times> xztl_zn_mcmd \<times> 'x media_state) option" where
  "znd_media_zone_report xn zv cmd s =
     (case xn_report xn (read_dev zv) (ms_x s) of
        (None, x) \<Rightarrow> Some (zerr ZND_MEDIA_REPORT_ERR, cmd, s\<lparr>ms_x := x\<rparr>)
      | (Some rep, x) \<Rightarrow> Some (xz XZTL_OK, cmd\<lparr>zc_opaque := Some rep\<rparr>, s\<lparr>ms_x := x\<rparr>))"

definition znd_media_zone_mgmt ::
    "'x xnvme \<Rightarrow> znd_media \<Rightarrow> xztl_zn_mcmd \<Rightarrow> 'x media_state \<Rightarrow>
     (int \<times> xztl_zn_mcmd \<times> 'x media_state) option" where
  "znd_media_zone_mgmt xn zv cmd s =
     (if zc_opcode cmd = op XZTL_ZONE_MGMT_CLOSE then znd_media_zone_manage xn zv cmd MGMT_SEND_CLOSE s
      else if zc_opcode cmd = op XZTL_ZONE_MGMT_FINISH then znd_media_zone_manage xn zv cmd MGMT_SEND_FINISH s
      else if zc_opcode cmd = op XZTL_ZONE_MGMT_OPEN then znd_media_zone_manage xn zv cmd MGMT_SEND_OPEN s
      else if zc_opcode cmd = op XZTL_ZONE_MGMT_RESET
      then do {
        io \<leftarrow> xztl_stats_inc (st XZTL_STATS_RESET_MCMD) 1 (ms_io s);
        znd_media_zone_manage xn zv cmd MGMT_SEND_RESET (s\<lparr>ms_io := io\<rparr>) }
      else if zc_opcode cmd = op XZTL_ZONE_MGMT_REPORT then znd_media_zone_report xn zv cmd s
      else Some (zerr ZND_INVALID_OPCODE, cmd, s))"

subsection \<open>Buffers and queues\<close>

definition znd_media_dma_alloc :: "'x xnvme \<Rightarrow> znd_media \<Rightarrow> nat \<Rightarrow> 'x media_state \<Rightarrow> nat \<times> 'x media_state" where
  "znd_media_dma_alloc xn zv bytes s =
     (let (p, x) = xn_buf_alloc xn (zv_dev zv) bytes (ms_x s) in (p, s\<lparr>ms_x := x\<rparr>))"

definition znd_media_dma_free :: "'x xnvme \<Rightarrow> znd_media \<Rightarrow> nat \<Rightarrow> 'x media_state \<Rightarrow> 'x media_state" where
  "znd_media_dma_free xn zv ptr s = s\<lparr>ms_x := xn_buf_free xn (zv_dev zv) ptr (ms_x s)\<rparr>"

definition znd_media_async_poke ::
    "'x xnvme \<Rightarrow> nat \<Rightarrow> xztl_misc_cmd \<Rightarrow> 'x media_state \<Rightarrow> int \<times> xztl_misc_cmd \<times> 'x media_state" where
  "znd_media_async_poke xn queue cmd s =
     (let (ret, done, x) = xn_poke xn queue (u16 (mi_limit cmd)) (ms_x s);
          s = s\<lparr>ms_x := x, ms_done := ms_done s @ done\<rparr>
      in if ret < 0 then (zerr ZND_MEDIA_POKE_ERR, cmd, s)
         else (xz XZTL_OK, cmd\<lparr>mi_count := nat ret\<rparr>, s))"

definition znd_media_async_outs ::
    "'x xnvme \<Rightarrow> nat \<Rightarrow> xztl_misc_cmd \<Rightarrow> 'x media_state \<Rightarrow> int \<times> xztl_misc_cmd \<times> 'x media_state" where
  "znd_media_async_outs xn queue cmd s =
     (let (ret, x) = xn_outstanding xn queue (ms_x s)
      in if ret < 0 then (zerr ZND_MEDIA_OUTS_ERR, cmd, s\<lparr>ms_x := x\<rparr>)
         else (xz XZTL_OK, cmd\<lparr>mi_count := nat ret\<rparr>, s\<lparr>ms_x := x\<rparr>))"

definition znd_media_async_wait ::
    "'x xnvme \<Rightarrow> nat \<Rightarrow> xztl_misc_cmd \<Rightarrow> 'x media_state \<Rightarrow> int \<times> xztl_misc_cmd \<times> 'x media_state" where
  "znd_media_async_wait xn queue cmd s =
     (let (ret, x) = xn_outstanding xn queue (ms_x s)
      in if ret \<noteq> 0 then (zerr ZND_MEDIA_WAIT_ERR, cmd, s\<lparr>ms_x := x\<rparr>)
         else (xz XZTL_OK, cmd\<lparr>mi_count := nat ret\<rparr>, s\<lparr>ms_x := x\<rparr>))"

text \<open>The new queue is stored through the pointer of the command.\<close>

definition znd_media_asynch_init ::
    "'x xnvme \<Rightarrow> znd_media \<Rightarrow> xztl_misc_cmd \<Rightarrow> 'x media_state \<Rightarrow>
     (int \<times> xztl_misc_cmd \<times> 'x media_state) option" where
  "znd_media_asynch_init xn zv cmd s = do {
     _ \<leftarrow> ms_tctx s (mi_ctx cmd);
     let (ret, queue, x) = xn_queue_init xn (zv_dev zv) (u16 (mi_depth cmd)) (ms_x s);
     if ret \<noteq> 0 then Some (zerr ZND_MEDIA_ASYNCH_ERR, cmd, s\<lparr>ms_x := x\<rparr>)
     else Some (xz XZTL_OK, cmd, s\<lparr>ms_x := x, ms_tctx := (ms_tctx s)(mi_ctx cmd \<mapsto> queue)\<rparr>) }"

definition znd_media_asynch_term ::
    "'x xnvme \<Rightarrow> xztl_misc_cmd \<Rightarrow> 'x media_state \<Rightarrow> (int \<times> xztl_misc_cmd \<times> 'x media_state) option" where
  "znd_media_asynch_term xn cmd s = do {
     queue \<leftarrow> ms_tctx s (mi_ctx cmd);
     let (ret, x) = xn_queue_term xn queue (ms_x s);
     if ret \<noteq> 0 then Some (zerr ZND_MEDIA_ASYNCH_ERR, cmd, s\<lparr>ms_x := x\<rparr>)
     else Some (xz XZTL_OK, cmd, s\<lparr>ms_x := x\<rparr>) }"

definition znd_media_cmd_exec ::
    "'x xnvme \<Rightarrow> znd_media \<Rightarrow> xztl_misc_cmd \<Rightarrow> 'x media_state \<Rightarrow>
     (int \<times> xztl_misc_cmd \<times> 'x media_state) option" where
  "znd_media_cmd_exec xn zv cmd s =
     (if mi_opcode cmd = op XZTL_MISC_ASYNCH_INIT then znd_media_asynch_init xn zv cmd s
      else if mi_opcode cmd = op XZTL_MISC_ASYNCH_TERM then znd_media_asynch_term xn cmd s
      else if mi_opcode cmd = op XZTL_MISC_ASYNCH_POKE
      then do { queue \<leftarrow> ms_tctx s (mi_ctx cmd); Some (znd_media_async_poke xn queue cmd s) }
      else if mi_opcode cmd = op XZTL_MISC_ASYNCH_OUTS
      then do { queue \<leftarrow> ms_tctx s (mi_ctx cmd); Some (znd_media_async_outs xn queue cmd s) }
      else if mi_opcode cmd = op XZTL_MISC_ASYNCH_WAIT
      then do { queue \<leftarrow> ms_tctx s (mi_ctx cmd); Some (znd_media_async_wait xn queue cmd s) }
      else Some (zerr ZND_INVALID_OPCODE, cmd, s))"

definition znd_media_init :: "'x media_state \<Rightarrow> int \<times> 'x media_state" where
  "znd_media_init s = (xz XZTL_OK, s)"

definition znd_media_exit :: "'x xnvme \<Rightarrow> znd_media \<Rightarrow> 'x media_state \<Rightarrow> int \<times> 'x media_state" where
  "znd_media_exit xn zv s =
     (let x = (if zv_dev zv \<noteq> 0 then xn_dev_close xn (zv_dev zv) (ms_x s) else ms_x s);
          x = (if zv_dev_read zv \<noteq> 0 then xn_dev_close xn (zv_dev_read zv) x else x)
      in (xz XZTL_OK, s\<lparr>ms_x := x\<rparr>))"

subsection \<open>Device names\<close>

abbreviation (input) MIN_OPT_PARAM_LEN :: nat where "MIN_OPT_PARAM_LEN \<equiv> 10"
abbreviation (input) MAX_STR_LEN :: nat where "MAX_STR_LEN \<equiv> 64"
abbreviation (input) OPT_DEV_BLK :: nat where "OPT_DEV_BLK \<equiv> 1"
abbreviation (input) OPT_DEV_CHAR :: nat where "OPT_DEV_CHAR \<equiv> 2"
abbreviation (input) OPT_DEV_SPDK :: nat where "OPT_DEV_SPDK \<equiv> 3"
abbreviation (input) OPT_BE_THRPOOL :: nat where "OPT_BE_THRPOOL \<equiv> 1"
abbreviation (input) OPT_BE_LIBAIO :: nat where "OPT_BE_LIBAIO \<equiv> 2"
abbreviation (input) OPT_BE_IOURING :: nat where "OPT_BE_IOURING \<equiv> 3"
abbreviation (input) OPT_BE_IOURING_CMD :: nat where "OPT_BE_IOURING_CMD \<equiv> 4"
abbreviation (input) OPT_BE_SPDK :: nat where "OPT_BE_SPDK \<equiv> 5"
abbreviation (input) XZTL_CTX_NVME_DEPTH :: nat where "XZTL_CTX_NVME_DEPTH \<equiv> 1024"
abbreviation (input) XZTL_CTX_NVME_LIBAIO_DEPTH :: nat where "XZTL_CTX_NVME_LIBAIO_DEPTH \<equiv> 512"

record znd_opt_info =
  oi_dev_type :: nat
  oi_dev_name :: string
  oi_async :: nat
  oi_nsid :: int

definition zero_opt_info :: znd_opt_info where
  "zero_opt_info = \<lparr>oi_dev_type = 0, oi_dev_name = [], oi_async = 0, oi_nsid = 0\<rparr>"

definition be_str :: "string list" where
  "be_str = [[], ''thrpool'', ''libaio'', ''io_uring'', ''io_uring_cmd'', ''nvme'']"

definition is_blk_thrpool :: "znd_opt_info \<Rightarrow> bool" where
  "is_blk_thrpool oi \<longleftrightarrow> oi_dev_type oi = OPT_DEV_BLK \<and> oi_async oi = OPT_BE_THRPOOL"

text \<open>The conversions of \<open>sscanf\<close> that the parser uses, on strings without the final zero
  byte. A conversion that does not match leaves its target as it was, here empty.\<close>

definition is_space :: "char \<Rightarrow> bool" where
  "is_space c \<longleftrightarrow> c \<in> {CHR 0x20, CHR 0x09, CHR 0x0A, CHR 0x0B, CHR 0x0C, CHR 0x0D}"

definition is_digit :: "char \<Rightarrow> bool" where
  "is_digit c \<longleftrightarrow> 48 \<le> (of_char c :: nat) \<and> (of_char c :: nat) \<le> 57"

definition scan_not_question :: "string \<Rightarrow> string" where
  "scan_not_question str = take 64 (takeWhile (\<lambda>c. c \<noteq> CHR ''?'') str)"

definition scan_word :: "string \<Rightarrow> string" where
  "scan_word str = take 64 (takeWhile (\<lambda>c. \<not> is_space c) (dropWhile is_space str))"

text \<open>The rest of the string behind a literal, empty when the literal does not match.\<close>

definition scan_after :: "string \<Rightarrow> string \<Rightarrow> string" where
  "scan_after lit str = (if take (length lit) str = lit then drop (length lit) str else [])"

text \<open>A decimal number: the outer \<open>None\<close> is a value that does not fit an \<open>int\<close> (undefined),
  the inner one a failed conversion.\<close>

definition digits_value :: "string \<Rightarrow> int" where
  "digits_value ds = foldl (\<lambda>v d. 10 * v + (of_char d - 48)) 0 ds"

definition scan_int :: "string \<Rightarrow> int option option" where
  "scan_int str =
     (let str = dropWhile is_space str;
          neg = (str \<noteq> [] \<and> hd str = CHR ''-'');
          str = (if str \<noteq> [] \<and> hd str \<in> {CHR ''-'', CHR ''+''} then tl str else str);
          ds = takeWhile is_digit str;
          v = (if neg then - digits_value ds else digits_value ds)
      in if ds = [] then Some None
         else if - (2 ^ 31) \<le> v \<and> v < 2 ^ 31 then Some (Some v) else None)"

text \<open>The first conversion has to match for the second to be tried.\<close>

definition scan_dev :: "string \<Rightarrow> string \<times> string" where
  "scan_dev name =
     (let dev_info = scan_not_question name
      in if dev_info = [] then ([], []) else (dev_info, scan_word (drop (length dev_info) name)))"

fun be_search :: "string \<Rightarrow> nat \<Rightarrow> nat \<Rightarrow> nat option" where
  "be_search name i 0 = None"
| "be_search name i (Suc left) = (if be_str ! i = name then Some i else be_search name (i + 1) left)"

definition znd_opt_parse :: "string \<Rightarrow> znd_opt_info \<Rightarrow> (int \<times> znd_opt_info) option" where
  "znd_opt_parse dev_name oi =
     (if length dev_name < MIN_OPT_PARAM_LEN \<or> MAX_STR_LEN < length dev_name
      then Some (zerr ZND_MEDIA_NODEVICE, oi)
      else let (dev_info, be_info) = scan_dev dev_name
      in if dev_name ! 0 = CHR ''/''
         then let oi = oi\<lparr>oi_dev_name := dev_info\<rparr>
              in if dev_name ! 6 \<noteq> CHR ''g'' \<and> dev_name ! 6 \<noteq> CHR ''v''
                 then Some (zerr ZND_MEDIA_NODEVICE, oi)
                 else let oi = oi\<lparr>oi_dev_type := (if dev_name ! 6 = CHR ''g'' then OPT_DEV_CHAR else OPT_DEV_BLK)\<rparr>
                 in if be_info = [] then Some (xz XZTL_OK, oi\<lparr>oi_async := OPT_BE_THRPOOL\<rparr>)
                    else (case be_search (scan_word (scan_after ''?be:'' be_info)) OPT_BE_THRPOOL 4 of
                            None \<Rightarrow> Some (zerr ZND_MEDIA_NODEVICE, oi)
                          | Some i \<Rightarrow> Some (xz XZTL_OK, oi\<lparr>oi_async := i\<rparr>))
         else if dev_name ! 0 = CHR ''p''
         then let oi = oi\<lparr>oi_dev_type := OPT_DEV_SPDK, oi_async := OPT_BE_SPDK\<rparr>;
                  addr = scan_word (scan_after ''pci:'' dev_info);
                  oi = (if addr = [] then oi else oi\<lparr>oi_dev_name := addr\<rparr>)
              in (case scan_int (scan_after ''?nsid:'' be_info) of
                    None \<Rightarrow> None
                  | Some None \<Rightarrow> Some (xz XZTL_OK, oi)
                  | Some (Some v) \<Rightarrow> Some (xz XZTL_OK, oi\<lparr>oi_nsid := v\<rparr>))
         else Some (zerr ZND_MEDIA_NODEVICE, oi))"

definition znd_opt_assign :: "xnvme_opts \<Rightarrow> xnvme_opts \<Rightarrow> znd_opt_info \<Rightarrow> (xnvme_opts \<times> xnvme_opts) option" where
  "znd_opt_assign opts opts_read oi = do {
     name \<leftarrow> get_at be_str (oi_async oi);
     let opts = opts\<lparr>xo_async := name, xo_direct := 1\<rparr>;
     if oi_async oi = OPT_BE_SPDK
     then Some (opts\<lparr>xo_be := ''spdk'', xo_nsid := oi_nsid oi\<rparr>, opts_read)
     else if is_blk_thrpool oi
     then Some (opts\<lparr>xo_rdwr := 0, xo_wronly := 1\<rparr>,
                opts_read\<lparr>xo_async := name, xo_direct := 0, xo_rdwr := 0, xo_rdonly := 1\<rparr>)
     else Some (opts, opts_read) }"

text \<open>The number of processors is unsigned, and so is the difference that is compared with 0.\<close>

definition znd_media_set_ctx_iodepth :: "nat \<Rightarrow> znd_opt_info \<Rightarrow> znd_media \<Rightarrow> znd_media" where
  "znd_media_set_ctx_iodepth cpu_num oi zv =
     (let zv = zv\<lparr>zv_read_ctx_num := XZTL_READ_RS_NUM, zv_io_depth := XZTL_CTX_NVME_DEPTH\<rparr>
      in if oi_async oi = OPT_BE_SPDK \<or> oi_async oi = OPT_BE_LIBAIO
         then let zv = zv\<lparr>zv_read_ctx_num := (if usub 32 cpu_num 2 > 0 then usub 32 cpu_num 2 else 1)\<rparr>
              in if oi_async oi = OPT_BE_LIBAIO then zv\<lparr>zv_io_depth := XZTL_CTX_NVME_LIBAIO_DEPTH\<rparr> else zv
         else zv)"

subsection \<open>Registration\<close>

text \<open>The functions of the layer read the global \<open>zndmedia\<close>; when they run its geometry has
  been filled in by the check of the layer. \<open>opts0\<close> is \<open>xnvme_opts_default\<close>.\<close>

definition znd_media_fns :: "'x xnvme \<Rightarrow> znd_media \<Rightarrow> 'x media_state xztl_media" where
  "znd_media_fns xn zv =
     (let run = zv\<lparr>zv_geo := geo_fill (zv_geo zv)\<rparr>
      in \<lparr>mm_geo = zv_geo zv, mm_init_fn = Some znd_media_init, mm_exit_fn = Some (znd_media_exit xn run),
          mm_submit_io = Some (znd_media_submit_io xn run), mm_zone_fn = Some (znd_media_zone_mgmt xn run),
          mm_dma_alloc = Some (znd_media_dma_alloc xn run), mm_dma_free = Some (znd_media_dma_free xn run),
          mm_cmd_exec = Some (znd_media_cmd_exec xn run)\<rparr>)"

definition znd_media_register ::
    "'x xnvme \<Rightarrow> xnvme_opts \<Rightarrow> nat \<Rightarrow> bool \<Rightarrow> string \<Rightarrow> znd_media \<Rightarrow> 'x media_state xztl_core \<Rightarrow> 'x \<Rightarrow>
     (int \<times> znd_media \<times> 'x media_state xztl_core \<times> 'x) option" where
  "znd_media_register xn opts0 cpu_num malloc_fails dev_name zv core x = do {
     (ret, oi) \<leftarrow> znd_opt_parse dev_name zero_opt_info;
     if ret \<noteq> 0 then Some (ret, zv, core, x)
     else do {
       (opts, opts_read) \<leftarrow> znd_opt_assign opts0 opts0 oi;
       let (dev, x) = xn_dev_open xn (oi_dev_name oi) opts x;
       if dev = 0 then Some (zerr ZND_MEDIA_NODEVICE, zv, core, x)
       else do {
         let (dev_read, x) =
           (if is_blk_thrpool oi then xn_dev_open xn (oi_dev_name oi) opts_read x else (0, x));
         if is_blk_thrpool oi \<and> dev_read = 0 then Some (zerr ZND_MEDIA_NODEVICE, zv, core, x)
         else (case xn_dev_geo xn dev x of
             None \<Rightarrow> Some (zerr ZND_MEDIA_NOGEO, zv, core, xn_dev_close xn dev x)
           | Some dg \<Rightarrow>
               let zv = (znd_media_set_ctx_iodepth cpu_num oi zv)\<lparr>zv_dev := dev, zv_dev_read := dev_read,
                     zv_devgeo := dg\<rparr>;
                   zv = zv\<lparr>zv_geo := (zv_geo zv)\<lparr>ge_ngrps := u32 (xg_npugrp dg), ge_pu_grp := u32 (xg_npunit dg),
                     ge_zn_pu := u32 (xg_nzone dg), ge_sec_zn := u32 (xg_nsect dg), ge_nbytes := u32 (xg_nbytes dg),
                     ge_nbytes_oob := u32 (xg_nbytes_oob dg)\<rparr>\<rparr>;
                   (ret, core) = xztl_media_set malloc_fails (znd_media_fns xn zv) core
               in Some (ret, zv, core, x)) } } }"

subsection \<open>Thread contexts\<close>

text \<open>\<open>ptr\<close> is the address \<open>malloc\<close> returns, \<open>junk\<close> the uninitialised queue pointer there.\<close>

definition xztl_ctx_media_init ::
    "nat \<Rightarrow> nat \<Rightarrow> bool \<Rightarrow> 'x media_state xztl_core \<Rightarrow> xztl_misc_cmd \<Rightarrow> nat \<Rightarrow> 'x media_state \<Rightarrow>
     (nat \<times> 'x media_state) option" where
  "xztl_ctx_media_init ptr junk spin_fails core cmd0 depth s =
     (if ptr = 0 \<or> spin_fails then Some (0, s)
      else do {
        (ret, cmd, s) \<leftarrow> xztl_media_submit_misc core
           (cmd0\<lparr>mi_opcode := op XZTL_MISC_ASYNCH_INIT, mi_depth := depth, mi_ctx := ptr\<rparr>)
           (s\<lparr>ms_tctx := (ms_tctx s)(ptr \<mapsto> junk)\<rparr>);
        if ret \<noteq> 0 \<or> ms_tctx s ptr = Some 0
        then Some (0, s\<lparr>ms_tctx := (ms_tctx s)(ptr := None)\<rparr>)
        else Some (ptr, s) })"

definition xztl_ctx_media_exit ::
    "'x media_state xztl_core \<Rightarrow> xztl_misc_cmd \<Rightarrow> nat \<Rightarrow> 'x media_state \<Rightarrow> (int \<times> 'x media_state) option" where
  "xztl_ctx_media_exit core cmd0 tctx s =
     (if tctx = 0 then Some (xz XZTL_OK, s)
      else do {
        (ret, cmd, s) \<leftarrow> xztl_media_submit_misc core
           (cmd0\<lparr>mi_opcode := op XZTL_MISC_ASYNCH_TERM, mi_ctx := tctx\<rparr>) s;
        if ret \<noteq> 0 then Some (mps XZTL_MP_ASYNCH_ERR, s)
        else Some (xz XZTL_OK, s\<lparr>ms_tctx := (ms_tctx s)(tctx := None)\<rparr>) })"

section \<open>The contract of zone commands\<close>

lemma zone_manage_status: "znd_media_zone_manage xn zv cmd oper s = Some (0, cmd', s') \<Longrightarrow> zc_status cmd' = 0"
  by (auto simp: znd_media_zone_manage_def Let_def split: prod.splits)

text \<open>What the users of zone management rely on: in a state that satisfies \<open>ok\<close> a command
  returns, and a reset or finish that returns 0 has cleared the status of the command.\<close>

locale zone_device =
  fixes zone_fn :: "xztl_zn_mcmd \<Rightarrow> 's \<Rightarrow> (int \<times> xztl_zn_mcmd \<times> 's) option"
    and ok :: "'s \<Rightarrow> bool"
  assumes zone_total: "ok s \<Longrightarrow> \<exists>ret cmd' s'. zone_fn cmd s = Some (ret, cmd', s') \<and> ok s'"
    and zone_status: "\<lbrakk>zone_fn cmd s = Some (0, cmd', s');
       zc_opcode cmd = op XZTL_ZONE_MGMT_RESET \<or> zc_opcode cmd = op XZTL_ZONE_MGMT_FINISH\<rbrakk> \<Longrightarrow>
       zc_status cmd' = 0"

interpretation znd: zone_device "znd_media_zone_mgmt xn zv" "\<lambda>s. length (ms_io s) = XZTL_STATS_IO_TYPES"
  for xn :: "'x xnvme" and zv
proof unfold_locales
  fix s :: "'x media_state" and cmd
  assume "length (ms_io s) = XZTL_STATS_IO_TYPES"
  then show "\<exists>ret cmd' s'. znd_media_zone_mgmt xn zv cmd s = Some (ret, cmd', s') \<and>
      length (ms_io s') = XZTL_STATS_IO_TYPES"
    by (auto simp: znd_media_zone_mgmt_def znd_media_zone_manage_def znd_media_zone_report_def
      xztl_stats_inc_Some Let_def split: prod.splits option.splits)
next
  fix s s' :: "'x media_state" and cmd cmd'
  assume "znd_media_zone_mgmt xn zv cmd s = Some (0, cmd', s')"
    "zc_opcode cmd = op XZTL_ZONE_MGMT_RESET \<or> zc_opcode cmd = op XZTL_ZONE_MGMT_FINISH"
  then show "zc_status cmd' = 0"
    by (auto simp: znd_media_zone_mgmt_def bind_eq_Some_conv dest: zone_manage_status)
qed

section \<open>Lemmas\<close>

lemma scan_not_question_append:
  assumes "CHR ''?'' \<notin> set d" "length d \<le> 64"
  shows "scan_not_question (d @ CHR ''?'' # rest) = d"
proof -
  have "takeWhile (\<lambda>c. c \<noteq> CHR ''?'') (d @ CHR ''?'' # rest) = d"
    using assms(1) by (subst takeWhile_append2) auto
  then show ?thesis using assms(2) by (simp add: scan_not_question_def)
qed

lemma scan_word_plain:
  assumes "\<forall>c \<in> set w. \<not> is_space c" "length w \<le> 64"
  shows "scan_word w = w"
proof -
  have "dropWhile is_space w = w" using assms(1) by (cases w) auto
  moreover have "takeWhile (\<lambda>c. \<not> is_space c) w = w" using assms(1) by (simp add: takeWhile_eq_all_conv)
  ultimately show ?thesis using assms(2) by (simp only: scan_word_def take_all)
qed

lemma scan_dev_plain:
  assumes "CHR ''?'' \<notin> set d" "d \<noteq> []" "\<forall>c \<in> set b. \<not> is_space c" "length (d @ CHR ''?'' # b) \<le> 64"
  shows "scan_dev (d @ CHR ''?'' # b) = (d, CHR ''?'' # b)"
proof -
  have "scan_not_question (d @ CHR ''?'' # b) = d"
    using assms by (intro scan_not_question_append) auto
  moreover have "scan_word (CHR ''?'' # b) = CHR ''?'' # b"
    using assms by (intro scan_word_plain) (auto simp: is_space_def)
  ultimately show ?thesis using assms(2) by (simp add: scan_dev_def)
qed

lemma scan_after_append: "scan_after lit (lit @ str) = str"
  by (simp add: scan_after_def)

lemma be_search_hit: "1 \<le> i \<Longrightarrow> i \<le> 4 \<Longrightarrow> be_search (be_str ! i) 1 4 = Some i"
  by (subgoal_tac "i = 1 \<or> i = 2 \<or> i = 3 \<or> i = 4")
    (auto simp: be_str_def numeral_eq_Suc)

lemma be_search_empty: "be_search [] 1 4 = None"
  by (simp add: be_str_def numeral_eq_Suc)

lemma be_str_plain: "1 \<le> i \<Longrightarrow> i \<le> 4 \<Longrightarrow> (\<forall>c \<in> set (be_str ! i). \<not> is_space c) \<and> length (be_str ! i) \<le> 12"
  by (subgoal_tac "i = 1 \<or> i = 2 \<or> i = 3 \<or> i = 4")
    (auto simp: be_str_def is_space_def)

lemma scan_int_empty: "scan_int [] = Some None"
  by (simp add: scan_int_def)

text \<open>A path of a zoned device: the letter behind \<open>/dev/n\<close> tells its kind.\<close>

definition device_path :: "string \<Rightarrow> bool" where
  "device_path d \<longleftrightarrow> CHR ''?'' \<notin> set d \<and> take 6 d = ''/dev/n'' \<and> 6 < length d \<and> d ! 6 \<in> {CHR ''g'', CHR ''v''}"

lemma device_path_head:
  assumes "device_path d"
  shows "(d @ rest) ! 0 = CHR ''/''" "(d @ rest) ! 6 = d ! 6" "d \<noteq> []"
proof -
  have "d = ''/dev/n'' @ drop 6 d" using assms unfolding device_path_def by (metis append_take_drop_id)
  then have "d ! 0 = CHR ''/''" by (metis append_Cons nth_Cons_0)
  moreover have l: "6 < length d" using assms by (simp add: device_path_def)
  ultimately show "(d @ rest) ! 0 = CHR ''/''" "(d @ rest) ! 6 = d ! 6" "d \<noteq> []"
    by (auto simp: nth_append)
qed

lemma opt_parse_path:
  assumes "device_path d" "\<forall>c \<in> set b. \<not> is_space c" "10 \<le> length (d @ CHR ''?'' # b)"
    "length (d @ CHR ''?'' # b) \<le> 64"
  shows "znd_opt_parse (d @ CHR ''?'' # b) oi =
    (let oi = oi\<lparr>oi_dev_name := d, oi_dev_type := (if d ! 6 = CHR ''g'' then OPT_DEV_CHAR else OPT_DEV_BLK)\<rparr>
     in case be_search (scan_word (scan_after ''?be:'' (CHR ''?'' # b))) OPT_BE_THRPOOL 4 of
          None \<Rightarrow> Some (zerr ZND_MEDIA_NODEVICE, oi) | Some i \<Rightarrow> Some (xz XZTL_OK, oi\<lparr>oi_async := i\<rparr>))"
proof -
  have c: "CHR ''?'' \<notin> set d" "d ! 6 \<in> {CHR ''g'', CHR ''v''}" using assms(1) by (auto simp: device_path_def)
  note h = device_path_head(1,2) [OF assms(1), of "CHR ''?'' # b"] device_path_head(3) [OF assms(1)]
  show ?thesis
    using scan_dev_plain [OF c(1) h(3) assms(2,4)] h(1,2) c(2) assms(3,4)
    by (simp add: znd_opt_parse_def Let_def del: nth_append_length) auto
qed

text \<open>A small device for the witnesses: it stores blocks, remembers the last read, and has
  a list of free command contexts.\<close>

record sample_x =
  sx_dev :: "nat \<Rightarrow> nat list"
  sx_buf :: "nat list"
  sx_free :: "nat list"

definition sample_xn :: "sample_x xnvme" where
  "sample_xn = \<lparr>
     xn_read = (\<lambda>c d slba nlb buf x. (0, x\<lparr>sx_buf := concat (map (sx_dev x) [slba..<slba + (nlb + 1)])\<rparr>)),
     xn_write = (\<lambda>c d slba nlb buf x. (0, x)), xn_append = (\<lambda>c d slba nlb buf x. (0, x)),
     xn_mgmt = (\<lambda>d lba all oper x. (0, 0, x)), xn_report = (\<lambda>d x. (Some [], x)),
     xn_get_ctx = (\<lambda>q x. case sx_free x of [] \<Rightarrow> (0, x) | c # cs \<Rightarrow> (c, x\<lparr>sx_free := cs\<rparr>)),
     xn_put_ctx = (\<lambda>q c x. x\<lparr>sx_free := c # sx_free x\<rparr>),
     xn_poke = (\<lambda>q n x. (0, [], x)), xn_drain = (\<lambda>q x. (None, x)), xn_outstanding = (\<lambda>q x. (0, x)),
     xn_queue_init = (\<lambda>d n x. (0, 1, x)), xn_queue_term = (\<lambda>q x. (0, x)),
     xn_buf_alloc = (\<lambda>d n x. (1, x)), xn_buf_free = (\<lambda>d p x. x),
     xn_dev_open = (\<lambda>n opts x. (1, x)),
     xn_dev_geo = (\<lambda>d x. Some \<lparr>xg_npugrp = 1, xg_npunit = 1, xg_nzone = 904, xg_nsect = 24576,
        xg_nbytes = 4096, xg_nbytes_oob = 0\<rparr>),
     xn_dev_close = (\<lambda>d x. x)\<rparr>"

definition sample_zv :: znd_media where
  "sample_zv = \<lparr>zv_dev = 1, zv_dev_read = 0, zv_devgeo = \<lparr>xg_npugrp = 1, xg_npunit = 1, xg_nzone = 904,
     xg_nsect = 24576, xg_nbytes = 4096, xg_nbytes_oob = 0\<rparr>, zv_geo = sample_geo, zv_read_ctx_num = 256,
     zv_io_depth = 1024\<rparr>"

definition sample_opts :: xnvme_opts where
  "sample_opts = \<lparr>xo_be = [], xo_async = [], xo_nsid = 1, xo_direct = 0, xo_rdwr = 1, xo_rdonly = 0, xo_wronly = 0\<rparr>"

definition sample_misc :: xztl_misc_cmd where
  "sample_misc = \<lparr>mi_opcode = 0, mi_ctx = 0, mi_depth = 0, mi_limit = 0, mi_count = 0\<rparr>"

section \<open>Properties\<close>

text \<open>C31: A device name of a path of an NVMe character or block device, \<open>?be:\<close> and the name
  of an asynchronous backend (up to 64 characters) parses into exactly that path, the kind of
  the device and the number of the backend.\<close>

theorem opt_parse_device:
  assumes "device_path d" "1 \<le> i" "i \<le> OPT_BE_IOURING_CMD" "length d + length (be_str ! i) \<le> 60"
  shows "znd_opt_parse (d @ ''?be:'' @ be_str ! i) oi = Some (xz XZTL_OK,
     oi\<lparr>oi_dev_name := d, oi_dev_type := (if d ! 6 = CHR ''g'' then OPT_DEV_CHAR else OPT_DEV_BLK), oi_async := i\<rparr>)"
proof -
  note b = be_str_plain [OF assms(2,3)]
  have "6 < length d" using assms(1) by (simp add: device_path_def)
  then have "znd_opt_parse (d @ CHR ''?'' # (''be:'' @ be_str ! i)) oi =
    (let oi = oi\<lparr>oi_dev_name := d, oi_dev_type := (if d ! 6 = CHR ''g'' then OPT_DEV_CHAR else OPT_DEV_BLK)\<rparr>
     in case be_search (scan_word (scan_after ''?be:'' (CHR ''?'' # ''be:'' @ be_str ! i))) OPT_BE_THRPOOL 4 of
          None \<Rightarrow> Some (zerr ZND_MEDIA_NODEVICE, oi) | Some i \<Rightarrow> Some (xz XZTL_OK, oi\<lparr>oi_async := i\<rparr>))"
    using assms(1,4) b by (intro opt_parse_path) (auto simp: is_space_def)
  moreover have "scan_after ''?be:'' (CHR ''?'' # ''be:'' @ be_str ! i) = be_str ! i"
    using scan_after_append [of "''?be:''" "be_str ! i"] by simp
  moreover have "scan_word (be_str ! i) = be_str ! i" using b by (intro scan_word_plain) auto
  ultimately show ?thesis using be_search_hit [OF assms(2,3)] by (simp add: Let_def)
qed

theorem opt_parse_device_witness:
  "znd_opt_parse ''/dev/ng0n1?be:io_uring_cmd'' zero_opt_info =
     Some (0, \<lparr>oi_dev_type = 2, oi_dev_name = ''/dev/ng0n1'', oi_async = 4, oi_nsid = 0\<rparr>)"
  using opt_parse_device [of "''/dev/ng0n1''" 4 zero_opt_info]
  by (simp add: device_path_def be_str_def zero_opt_info_def)

text \<open>C36: The forms of the README, \<open>?be=\<close> and \<open>?nsid=\<close>, are not what the parser reads: a
  path with a backend written that way is rejected, and a PCI address with a namespace
  written that way is accepted with the namespace left at its default.\<close>

theorem opt_parse_readme:
  assumes "\<forall>c \<in> set b. \<not> is_space c" "device_path d" "6 \<le> length d + length b" "length d + length b \<le> 60"
    and a: "CHR ''?'' \<notin> set a" "\<forall>c \<in> set a. \<not> is_space c" "a \<noteq> []" "length a + length b \<le> 54"
  shows "(\<exists>oi'. znd_opt_parse (d @ ''?be='' @ b) oi = Some (zerr ZND_MEDIA_NODEVICE, oi')) \<and>
    znd_opt_parse (''pci:'' @ a @ ''?nsid='' @ b) oi =
      Some (xz XZTL_OK, oi\<lparr>oi_dev_type := OPT_DEV_SPDK, oi_async := OPT_BE_SPDK, oi_dev_name := a\<rparr>)"
proof
  have "scan_after ''?be:'' (CHR ''?'' # ''be='' @ b) = []" by (simp add: scan_after_def)
  moreover have "scan_word [] = []" by (simp add: scan_word_def)
  ultimately show "\<exists>oi'. znd_opt_parse (d @ ''?be='' @ b) oi = Some (zerr ZND_MEDIA_NODEVICE, oi')"
    using opt_parse_path [OF assms(2), of "''be='' @ b" oi] assms(1,3,4) be_search_empty
    by (auto simp: is_space_def Let_def)
  have "scan_dev ((''pci:'' @ a) @ CHR ''?'' # (''nsid='' @ b)) = (''pci:'' @ a, CHR ''?'' # ''nsid='' @ b)"
    using a assms(1) by (intro scan_dev_plain) (auto simp: is_space_def)
  moreover have "scan_after ''pci:'' (''pci:'' @ a) = a" by (rule scan_after_append)
  moreover have "scan_word a = a" using a by (intro scan_word_plain) auto
  moreover have "scan_after ''?nsid:'' (CHR ''?'' # ''nsid='' @ b) = []" by (simp add: scan_after_def)
  ultimately show "znd_opt_parse (''pci:'' @ a @ ''?nsid='' @ b) oi =
      Some (xz XZTL_OK, oi\<lparr>oi_dev_type := OPT_DEV_SPDK, oi_async := OPT_BE_SPDK, oi_dev_name := a\<rparr>)"
    using a by (simp add: znd_opt_parse_def Let_def scan_int_empty)
qed

theorem opt_parse_readme_witness:
  "\<exists>oi'. znd_opt_parse ''/dev/nvme2n1?be=1'' zero_opt_info = Some (1, oi') \<and>
     znd_opt_parse ''pci:0000:01:00.0?nsid=1'' zero_opt_info =
       Some (0, \<lparr>oi_dev_type = 3, oi_dev_name = ''0000:01:00.0'', oi_async = 5, oi_nsid = 0\<rparr>)"
  using opt_parse_readme [of "''1''" "''/dev/nvme2n1''" "''0000:01:00.0''" zero_opt_info]
  by (auto simp: device_path_def is_space_def zero_opt_info_def)

text \<open>C30: The read path of the layer implements the contract that the metadata zones rely
  on, when xNVMe reads what is on the device: the low 16 bits of the number of sectors less
  one is the argument for every command of 1 to 65535 sectors.\<close>

theorem media_reads:
  assumes "\<And>d slba nlb buf x. case xn_read xn None d slba nlb buf x of (ret, x') \<Rightarrow> dev x' = dev x \<and>
      (ret = 0 \<longrightarrow> peek buf ((nlb + 1) * ZNS_ALIGMENT) x' = concat (map (dev x) [slba..<slba + (nlb + 1)]))"
  shows "media_read_law (\<lambda>s. dev (ms_x s)) (\<lambda>p n s. peek p n (ms_x s)) (znd_media_fns xn zv)"
proof -
  have nlb: "nlb_arg n + 1 = n" if "0 < n" "n < 2 ^ 16" for n
    using that by (simp add: nlb_arg_def u16_small usub_small)
  show ?thesis unfolding media_read_law_def znd_media_fns_def Let_def
  proof (simp, intro allI impI)
    fix cmd :: xztl_io_mcmd and s :: "'a media_state"
    assume c: "mc_opcode cmd = 2" "mc_synch cmd = Suc 0" "0 < mc_nsec cmd" "mc_nsec cmd < 65536"
    obtain ret x' where r: "xn_read xn None d (g_sect (mc_addr cmd)) (nlb_arg (mc_nsec cmd)) (mc_prp cmd) (ms_x s) =
        (ret, x')" if "d = read_dev (zv\<lparr>zv_geo := geo_fill (zv_geo zv)\<rparr>)" for d
      by (metis prod.exhaust)
    show "\<exists>ret s'. znd_media_submit_io xn (zv\<lparr>zv_geo := geo_fill (zv_geo zv)\<rparr>) cmd s = Some (ret, cmd, s') \<and>
        dev (ms_x s') = dev (ms_x s) \<and> (ret = 0 \<longrightarrow> peek (mc_prp cmd) (mc_nsec cmd * 4096) (ms_x s') =
          concat (map (dev (ms_x s)) [g_sect (mc_addr cmd)..<g_sect (mc_addr cmd) + mc_nsec cmd]))"
      using c r [OF refl] nlb [of "mc_nsec cmd"]
        assms [where d = "read_dev (zv\<lparr>zv_geo := geo_fill (zv_geo zv)\<rparr>)" and slba = "g_sect (mc_addr cmd)"
          and nlb = "nlb_arg (mc_nsec cmd)" and buf = "mc_prp cmd" and x = "ms_x s"]
      by (simp add: znd_media_submit_io_def znd_media_submit_read_synch_def)
  qed
qed

theorem media_reads_witness:
  "media_read_law (\<lambda>s. sx_dev (ms_x s)) (\<lambda>p n s. sx_buf (ms_x s)) (znd_media_fns sample_xn sample_zv)"
  using media_reads [where xn = sample_xn and dev = sx_dev and peek = "\<lambda>p n x. sx_buf x" and zv = sample_zv] by (simp add: sample_xn_def)

text \<open>C33: The number of read contexts that the registration computes stays within the 256
  slots of the read resources exactly for the backends with a fixed number, or with 2 to 258
  processors: with one processor the unsigned difference wraps around.\<close>

theorem read_ctx_num_bound:
  assumes "cpu_num < 2 ^ 32"
  shows "zv_read_ctx_num (znd_media_set_ctx_iodepth cpu_num oi zv) \<le> XZTL_READ_RS_NUM \<longleftrightarrow>
    oi_async oi \<noteq> OPT_BE_SPDK \<and> oi_async oi \<noteq> OPT_BE_LIBAIO \<or> 2 \<le> cpu_num \<and> cpu_num \<le> 258"
proof (cases "2 \<le> cpu_num")
  case True
  then show ?thesis using assms by (auto simp: znd_media_set_ctx_iodepth_def Let_def usub_small)
next
  case False
  then have "cpu_num = 0 \<or> cpu_num = 1" by auto
  then have "usub 32 cpu_num 2 > 256" by (auto simp: usub_def u32_small)
  then show ?thesis using False by (auto simp: znd_media_set_ctx_iodepth_def Let_def)
qed

theorem read_ctx_num_bound_witness:
  "\<not> zv_read_ctx_num (znd_media_set_ctx_iodepth 1 (zero_opt_info\<lparr>oi_async := 2\<rparr>) sample_zv) \<le> 256"
  using read_ctx_num_bound [of 1 "zero_opt_info\<lparr>oi_async := 2\<rparr>" sample_zv] by simp

text \<open>C32: What a registration means. When it returns 0 the name was parsed, the device was opened under this name (a second
  time for reading exactly for a block device with the thread pool), the geometry is the one this device
  reports, cut to 32 bits per field and within the limits, and the installed layer carries it with its derived fields and the
  functions of this layer. Every other result leaves the installed layer as it was, except that a failed allocation after
  the device was opened and its geometry accepted removes it.\<close>

theorem media_register_outcome:
  assumes "znd_media_register xn opts0 cpu_num malloc_fails name zv core x = Some (ret, zv', core', x')"
  shows "(ret = 0 \<longrightarrow> (\<exists>oi opts opts_read x1 dg. znd_opt_parse name zero_opt_info = Some (xz XZTL_OK, oi) \<and>
       znd_opt_assign opts0 opts0 oi = Some (opts, opts_read) \<and>
       xn_dev_open xn (oi_dev_name oi) opts x = (zv_dev zv', x1) \<and> zv_dev zv' \<noteq> 0 \<and>
       (if is_blk_thrpool oi then xn_dev_open xn (oi_dev_name oi) opts_read x1 = (zv_dev_read zv', x') \<and> zv_dev_read zv' \<noteq> 0
        else zv_dev_read zv' = 0 \<and> x' = x1) \<and>
       xn_dev_geo xn (zv_dev zv') x' = Some dg \<and> zv_devgeo zv' = dg \<and> \<not> geo_bad (zv_geo zv') \<and>
       ge_ngrps (zv_geo zv') = u32 (xg_npugrp dg) \<and> ge_pu_grp (zv_geo zv') = u32 (xg_npunit dg) \<and> ge_zn_pu (zv_geo zv') = u32 (xg_nzone dg) \<and>
       ge_sec_zn (zv_geo zv') = u32 (xg_nsect dg) \<and> ge_nbytes (zv_geo zv') = u32 (xg_nbytes dg) \<and>
       core' = Some ((znd_media_fns xn zv')\<lparr>mm_geo := geo_fill (zv_geo zv')\<rparr>))) \<and>
    (ret \<noteq> 0 \<longrightarrow> core' = core \<or> malloc_fails \<and> ret = xz XZTL_MEM \<and> core' = None \<and> zv_dev zv' \<noteq> 0 \<and> \<not> geo_bad (zv_geo zv'))"
proof -
  obtain r oi where p: "znd_opt_parse name zero_opt_info = Some (r, oi)"
    using assms by (auto simp: znd_media_register_def bind_eq_Some_conv)
  show ?thesis
  proof (cases "r = 0")
    case False
    then show ?thesis using assms p by (auto simp: znd_media_register_def)
  next
    case True
    obtain opts opts_read where o: "znd_opt_assign opts0 opts0 oi = Some (opts, opts_read)"
      using assms p True by (auto simp: znd_media_register_def bind_eq_Some_conv)
    obtain dev x1 where d: "xn_dev_open xn (oi_dev_name oi) opts x = (dev, x1)" by force
    obtain dr x2 where dr: "(if is_blk_thrpool oi then xn_dev_open xn (oi_dev_name oi) opts_read x1 else (0, x1)) = (dr, x2)"
      by force
    consider "dev = 0" | "dev \<noteq> 0" "is_blk_thrpool oi" "dr = 0"
      | "dev \<noteq> 0" "\<not> (is_blk_thrpool oi \<and> dr = 0)" "xn_dev_geo xn dev x2 = None"
      | dg where "dev \<noteq> 0" "\<not> (is_blk_thrpool oi \<and> dr = 0)" "xn_dev_geo xn dev x2 = Some dg"
      by fastforce
    then show ?thesis
    proof cases
      case (4 dg)
      then show ?thesis using assms p o d dr True
        by (auto simp: znd_media_register_def xztl_media_set_def xztl_media_check_def znd_media_fns_def Let_def
          split: if_splits)
    qed (use assms p o d dr True in \<open>auto simp: znd_media_register_def split: if_splits\<close>)
  qed
qed

theorem media_register_outcome_witness:
  "\<exists>zv' core' x'. znd_media_register sample_xn sample_opts 8 False ''/dev/ng0n1'' sample_zv None
      \<lparr>sx_dev = \<lambda>b. [], sx_buf = [], sx_free = []\<rparr> = Some (0, zv', core', x') \<and> zv_dev_read zv' = 0 \<and>
    \<not> geo_bad (zv_geo zv')"
proof -
  let ?x = "\<lparr>sx_dev = \<lambda>b. [], sx_buf = [], sx_free = []\<rparr>"
  have p': "znd_opt_parse ''/dev/ng0n1'' zero_opt_info =
     Some (0, zero_opt_info\<lparr>oi_dev_name := ''/dev/ng0n1'', oi_dev_type := 2, oi_async := 1\<rparr>)"
    by (simp add: znd_opt_parse_def scan_dev_def scan_not_question_def scan_word_def Let_def)
  obtain zv' core' x' where r: "znd_media_register sample_xn sample_opts 8 False ''/dev/ng0n1''
      sample_zv None ?x = Some (0, zv', core', x')" "zv_dev_read zv' = 0"
    by (auto simp: znd_media_register_def p' znd_opt_assign_def be_str_def is_blk_thrpool_def sample_xn_def
      xztl_media_set_def xztl_media_check_def znd_media_fns_def geo_bad_def Let_def)
  show ?thesis using r media_register_outcome [OF r(1)] by auto
qed

text \<open>A thread context that was created and then destroyed is gone: the queue that xNVMe created for it, with the
  requested depth, is the one that is terminated, once and after its creation, nothing else is asked of
  the device, and the table of contexts is as before.\<close>

theorem ctx_init_exit:
  assumes init: "xztl_ctx_media_init ptr junk False (Some (znd_media_fns xn zv)) cmd0 depth s = Some (tctx, s1)"
    and "tctx \<noteq> 0" "ms_tctx s ptr = None" "\<And>q x. fst (xn_queue_term xn q x) = 0"
  shows "\<exists>ret q x1 x2. xn_queue_init xn (zv_dev zv) (u16 depth) (ms_x s) = (ret, q, x1) \<and> q \<noteq> 0 \<and> ms_tctx s1 tctx = Some q \<and>
    xn_queue_term xn q x1 = (0, x2) \<and>
    xztl_ctx_media_exit (Some (znd_media_fns xn zv)) cmd0 tctx s1 = Some (xz XZTL_OK, s\<lparr>ms_x := x2\<rparr>)"
proof -
  let ?run = "zv\<lparr>zv_geo := geo_fill (zv_geo zv)\<rparr>"
  have "ptr \<noteq> 0" using init assms(2) by (auto simp: xztl_ctx_media_init_def split: if_splits)
  obtain ret q x where q: "xn_queue_init xn (zv_dev zv) (u16 depth) (ms_x s) = (ret, q, x)" by (metis prod_cases3)
  then have s1: "s1 = s\<lparr>ms_x := x, ms_tctx := (ms_tctx s)(ptr \<mapsto> q)\<rparr>" "tctx = ptr" "q \<noteq> 0"
    using init \<open>ptr \<noteq> 0\<close> assms(2)
    by (auto simp: xztl_ctx_media_init_def xztl_media_submit_misc_def znd_media_fns_def znd_media_cmd_exec_def
      znd_media_asynch_init_def Let_def split: if_splits)
  obtain x2 where t: "xn_queue_term xn q x = (0, x2)" using assms(4) [of q x] by (metis prod.collapse)
  have "(ms_tctx s)(ptr := None) = ms_tctx s" using assms(3) by auto
  then have "xztl_ctx_media_exit (Some (znd_media_fns xn zv)) cmd0 tctx s1 = Some (xz XZTL_OK, s\<lparr>ms_x := x2\<rparr>)" using s1 t assms(2)
    by (simp add: xztl_ctx_media_exit_def xztl_media_submit_misc_def znd_media_fns_def znd_media_cmd_exec_def
      znd_media_asynch_term_def Let_def)
  then show ?thesis using q t s1 by simp
qed

theorem ctx_init_exit_witness:
  "\<exists>tctx s1 s2. xztl_ctx_media_init 7 0 False (Some (znd_media_fns sample_xn sample_zv)) sample_misc 1024
      \<lparr>ms_io = [], ms_tctx = Map.empty, ms_done = [], ms_x = \<lparr>sx_dev = \<lambda>b. [], sx_buf = [], sx_free = []\<rparr>\<rparr> = Some (tctx, s1) \<and>
    xztl_ctx_media_exit (Some (znd_media_fns sample_xn sample_zv)) sample_misc tctx s1 = Some (0, s2) \<and>
    ms_tctx s2 = Map.empty"
proof -
  let ?s = "\<lparr>ms_io = [], ms_tctx = Map.empty, ms_done = [], ms_x = \<lparr>sx_dev = \<lambda>b. [], sx_buf = [], sx_free = []\<rparr>\<rparr>"
  obtain s1 where r: "xztl_ctx_media_init 7 0 False (Some (znd_media_fns sample_xn sample_zv)) sample_misc 1024 ?s =
      Some (7, s1)"
    by (simp add: xztl_ctx_media_init_def xztl_media_submit_misc_def znd_media_fns_def znd_media_cmd_exec_def
      znd_media_asynch_init_def sample_xn_def Let_def)
  show ?thesis using ctx_init_exit [OF r] r by (auto simp: sample_xn_def)
qed

end
