(* ===== verification/Ztl_Io.thy ===== *)
theory Ztl_Io
  imports Ztl_Media Ztl_Pro_Nodes
begin

text \<open>
  The write path of \<open>ztl-io.c\<close>: a user command is cut into pieces, one per node it touches;
  each piece is provisioned, turned into media commands of eight sectors that go round the
  zones of the node, and submitted with at most one command in flight per zone.

  The state is the record \<open>io_world\<close>: the user command, the resources of its write queue, the
  group \<open>glist[0]\<close> and the state of the media layer. A media command is known by its slot in the
  array of the queue. Submission and the wait for completions are the steps of \<open>write_step\<close>,
  one for each turn of the innermost loop, since the loops need not end; \<open>write_run\<close> bounds the
  steps. A poke of the queue runs the callbacks of the completions it delivers.
\<close>

section \<open>Model\<close>

subsection \<open>Structures\<close>

record xztl_io_ucmd =
  uc_id :: nat
  uc_buf :: nat
  uc_size :: nat
  uc_offset :: nat
  uc_prov_type :: nat
  uc_app_md :: nat
  uc_status :: nat
  uc_mcmd :: "nat option list"
  uc_node_id :: "nat list"
  uc_start :: "nat list"
  uc_num :: "nat list"
  uc_pieces :: nat
  uc_nmcmd :: nat
  uc_moffset :: "nat list"
  uc_msec :: "nat list"
  uc_ncb :: nat
  uc_completed :: nat
  uc_minflight :: "nat list"

record ztl_queue_pool =
  qp_ucmd_head :: "nat list"
  qp_tctx :: nat
  qp_mcmd :: "xztl_io_mcmd list"
  qp_prov :: app_pro_addr
  qp_node :: "nat option"
  qp_flag_running :: nat

record 'x io_world =
  iw_ucmd :: xztl_io_ucmd
  iw_q :: ztl_queue_pool
  iw_grp :: app_group
  iw_media :: "'x media_state"

text \<open>Storing a command in its slot.\<close>

definition put_mcmd :: "nat \<Rightarrow> xztl_io_mcmd \<Rightarrow> 'x io_world \<Rightarrow> 'x io_world" where
  "put_mcmd k mcmd w = w\<lparr>iw_q := (iw_q w)\<lparr>qp_mcmd := (qp_mcmd (iw_q w))[k := mcmd]\<rparr>\<rparr>"

definition io_stats_inc :: "xztl_stats_io_types \<Rightarrow> 'x io_world \<Rightarrow> 'x io_world option" where
  "io_stats_inc type w = do {
     io \<leftarrow> xztl_stats_inc (st type) 1 (ms_io (iw_media w));
     Some (w\<lparr>iw_media := (iw_media w)\<lparr>ms_io := io\<rparr>\<rparr>) }"

definition io_submit :: "'x media_state xztl_core \<Rightarrow> nat \<Rightarrow> 'x io_world \<Rightarrow> (int \<times> 'x io_world) option" where
  "io_submit core k w = do {
     mcmd \<leftarrow> get_at (qp_mcmd (iw_q w)) k;
     (ret, mcmd, s) \<leftarrow> xztl_media_submit_io core mcmd (iw_media w);
     Some (ret, (put_mcmd k mcmd w)\<lparr>iw_media := s\<rparr>) }"

subsection \<open>Completions\<close>

text \<open>The end of the callback, for a command that is not submitted again.\<close>

definition write_callback_done :: "ztl_metadata \<Rightarrow> xztl_io_mcmd \<Rightarrow> 'x io_world \<Rightarrow> 'x io_world option" where
  "write_callback_done md mcmd w = do {
     minflight \<leftarrow> set_at (uc_minflight (iw_ucmd w)) (mc_sequence_zn mcmd) 0;
     let ucmd = (iw_ucmd w)\<lparr>uc_minflight := minflight, uc_ncb := u16 (uc_ncb (iw_ucmd w) + 1)\<rparr>;
     let w = w\<lparr>iw_ucmd := ucmd\<rparr>;
     if uc_ncb ucmd = uc_nmcmd ucmd
     then do {
       grp \<leftarrow> ztl_pro_free md (qp_prov (iw_q w)) (iw_grp w);
       Some (w\<lparr>iw_grp := grp\<rparr>) }
     else Some w }"

definition ztl_io_write_callback_mcmd ::
    "'x media_state xztl_core \<Rightarrow> ztl_metadata \<Rightarrow> nat \<Rightarrow> 'x io_world \<Rightarrow> 'x io_world option" where
  "ztl_io_write_callback_mcmd core md k w = do {
     mcmd \<leftarrow> get_at (qp_mcmd (iw_q w)) k;
     if mc_status mcmd \<noteq> 0
     then do {
       w \<leftarrow> io_stats_inc XZTL_STATS_WRITE_CALLBACK_FAIL w;
       let mcmd = mcmd\<lparr>mc_callback_err_cnt := u8 (mc_callback_err_cnt mcmd + 1)\<rparr>;
       let w = put_mcmd k mcmd w;
       if mc_callback_err_cnt mcmd < MAX_CALLBACK_ERR_CNT
       then do {
         (ret, w) \<leftarrow> io_submit core k w;
         if ret \<noteq> 0 then io_stats_inc XZTL_STATS_WRITE_SUBMIT_FAIL w else Some w }
       else write_callback_done md mcmd (w\<lparr>iw_ucmd := (iw_ucmd w)\<lparr>uc_status := u8 (mc_status mcmd)\<rparr>\<rparr>) }
     else do {
       moffset \<leftarrow> set_at (uc_moffset (iw_ucmd w)) (mc_sequence mcmd) (mc_paddr mcmd);
       write_callback_done md mcmd (w\<lparr>iw_ucmd := (iw_ucmd w)\<lparr>uc_moffset := moffset\<rparr>\<rparr>) } }"

text \<open>The callback of the media layer around the callback of a write command.\<close>

definition write_complete ::
    "'x xnvme \<Rightarrow> 'x media_state xztl_core \<Rightarrow> ztl_metadata \<Rightarrow> completion \<Rightarrow> 'x io_world \<Rightarrow> 'x io_world option" where
  "write_complete xn core md done w = do {
     let (k, status, cdw0) = done;
     mcmd \<leftarrow> get_at (qp_mcmd (iw_q w)) k;
     w \<leftarrow> ztl_io_write_callback_mcmd core md k (put_mcmd k (async_cb_status status cdw0 mcmd) w);
     mcmd \<leftarrow> get_at (qp_mcmd (iw_q w)) k;
     s \<leftarrow> async_cb_put xn mcmd (iw_media w);
     Some (w\<lparr>iw_media := s\<rparr>) }"

fun write_completes ::
    "'x xnvme \<Rightarrow> 'x media_state xztl_core \<Rightarrow> ztl_metadata \<Rightarrow> completion list \<Rightarrow> 'x io_world \<Rightarrow> 'x io_world option" where
  "write_completes xn core md [] w = Some w"
| "write_completes xn core md (d # ds) w = do {
     w \<leftarrow> write_complete xn core md d w;
     write_completes xn core md ds w }"

text \<open>The poke of a queue asks for one completion and ignores the result.\<close>

definition ztl_io_poke_ctx ::
    "'x xnvme \<Rightarrow> 'x media_state xztl_core \<Rightarrow> ztl_metadata \<Rightarrow> xztl_misc_cmd \<Rightarrow> 'x io_world \<Rightarrow> 'x io_world option" where
  "ztl_io_poke_ctx xn core md misc0 w = do {
     let misc = misc0\<lparr>mi_opcode := op XZTL_MISC_ASYNCH_POKE, mi_ctx := qp_tctx (iw_q w), mi_limit := 1, mi_count := 0\<rparr>;
     (_, _, s) \<leftarrow> xztl_media_submit_misc core misc (iw_media w);
     write_completes xn core md (ms_done s) (w\<lparr>iw_media := s\<lparr>ms_done := []\<rparr>\<rparr>) }"

subsection \<open>Media commands of a piece\<close>

text \<open>The state of the population loop: the commands, the remaining sectors of each address, the
  buffer address, and the commands of each zone in order. The table \<open>zn_cmd_id\<close> has 128 rows of
  2000 entries.\<close>

record pop_state =
  ps_cmd_i :: nat
  ps_mcmd :: "xztl_io_mcmd list"
  ps_ucmd :: xztl_io_ucmd
  ps_addr :: "maddr list"
  ps_zone_sector_num :: "int list"
  ps_boff :: nat
  ps_zn_cmd_id :: "nat list list"

definition populate_cmd :: "nat \<Rightarrow> nat \<Rightarrow> nat \<Rightarrow> pop_state \<Rightarrow> pop_state option" where
  "populate_cmd nbytes tctx zn_i ps = do {
     left \<leftarrow> get_at (ps_zone_sector_num ps) zn_i;
     if left \<le> 0 then Some ps
     else do {
       let k = ps_cmd_i ps;
       mcmd \<leftarrow> get_at (ps_mcmd ps) k;
       addr \<leftarrow> get_at (ps_addr ps) zn_i;
       let mcmd = mcmd\<lparr>mc_opcode := (if XZTL_WRITE_APPEND then op XZTL_ZONE_APPEND else op XZTL_CMD_WRITE),
          mc_synch := 0, mc_submitted := 0, mc_sequence := k, mc_sequence_zn := zn_i, mc_naddr := 1, mc_status := 0,
          mc_callback_err_cnt := 0, mc_nsec := ZTL_IO_SEC_MCMD,
          mc_addr := (let a = set_zone (g_zone addr) (set_grp (g_grp addr) 0)
                      in if XZTL_WRITE_APPEND then a else set_sect (g_sect addr) a),
          mc_prp := ps_boff ps, mc_callback := CB_WRITE, mc_async_ctx := tctx, mc_ptr := k\<rparr>;
       mcmds \<leftarrow> set_at (ps_mcmd ps) k mcmd;
       lefts \<leftarrow> set_at (ps_zone_sector_num ps) zn_i (left - int ZTL_IO_SEC_MCMD);
       addrs \<leftarrow> set_at (ps_addr ps) zn_i (set_sect (g_sect addr + ZTL_IO_SEC_MCMD) addr);
       msec \<leftarrow> set_at (uc_msec (ps_ucmd ps)) k ZTL_IO_SEC_MCMD;
       umcmd \<leftarrow> set_at (uc_mcmd (ps_ucmd ps)) k (Some k);
       row \<leftarrow> get_at (ps_zn_cmd_id ps) zn_i;
       if 2000 \<le> length row then None
       else Some (ps\<lparr>ps_cmd_i := k + 1, ps_mcmd := mcmds, ps_zone_sector_num := lefts, ps_addr := addrs,
          ps_ucmd := (ps_ucmd ps)\<lparr>uc_msec := msec, uc_mcmd := umcmd\<rparr>,
          ps_boff := u64 (ps_boff ps + nbytes * ZTL_IO_SEC_MCMD),
          ps_zn_cmd_id := (ps_zn_cmd_id ps)[zn_i := row @ [k]]\<rparr>) } }"

fun populate_round :: "nat \<Rightarrow> nat \<Rightarrow> nat \<Rightarrow> nat \<Rightarrow> pop_state \<Rightarrow> pop_state option" where
  "populate_round nbytes tctx zn_i 0 ps = Some ps"
| "populate_round nbytes tctx zn_i (Suc left) ps = do {
     ps \<leftarrow> populate_cmd nbytes tctx zn_i ps;
     populate_round nbytes tctx (zn_i + 1) left ps }"

text \<open>A round that adds no command would repeat forever; the model is undefined there.\<close>

function populate_loop :: "nat \<Rightarrow> nat \<Rightarrow> nat \<Rightarrow> nat \<Rightarrow> pop_state \<Rightarrow> pop_state option" where
  "populate_loop nbytes tctx naddr num ps =
     (if num \<le> ps_cmd_i ps then Some ps
      else case populate_round nbytes tctx 0 naddr ps of
             None \<Rightarrow> None
           | Some ps' \<Rightarrow> if ps_cmd_i ps' \<le> ps_cmd_i ps then None else populate_loop nbytes tctx naddr num ps')"
  by pat_completeness auto
termination
  by (relation "measure (\<lambda>(nbytes, tctx, naddr, num, ps). num - ps_cmd_i ps)") auto

declare populate_loop.simps [simp del]

definition populate ::
    "nat \<Rightarrow> nat \<Rightarrow> nat \<Rightarrow> app_pro_addr \<Rightarrow> xztl_io_mcmd list \<Rightarrow> xztl_io_ucmd \<Rightarrow> nat \<Rightarrow> pop_state option" where
  "populate nbytes tctx num prov mcmds ucmd boff =
     (if ZTL_PRO_ZONE_NUM_INNODE * 2 < pa_naddr prov then None
      else populate_loop nbytes tctx (pa_naddr prov) num
        \<lparr>ps_cmd_i = 0, ps_mcmd = mcmds, ps_ucmd = ucmd, ps_addr = pa_addr prov,
         ps_zone_sector_num = map int (take (pa_naddr prov) (pa_nsec prov)) @
            replicate (ZTL_PRO_ZONE_NUM_INNODE * 2 - pa_naddr prov) 0,
         ps_boff = boff, ps_zn_cmd_id = replicate (ZTL_PRO_ZONE_NUM_INNODE * 2) []\<rparr>)"

subsection \<open>Submission of a piece\<close>

record 'x write_state =
  wr_w :: "'x io_world"
  wr_zn_cmd_id :: "nat list list"
  wr_zn_cmd_id_index :: "nat list"
  wr_submitted :: nat

datatype write_ctl = Submitting nat | Draining | Written

abbreviation wr_minflight :: "'x write_state \<Rightarrow> nat list" where
  "wr_minflight ws \<equiv> uc_minflight (iw_ucmd (wr_w ws))"

text \<open>One turn of the loop over the zones. A failed submission repeats the same zone, whose
  in-flight mark is set by then. The loop over the zones is over at \<open>naddr\<close>.\<close>

definition submit_zone ::
    "'x xnvme \<Rightarrow> 'x media_state xztl_core \<Rightarrow> ztl_metadata \<Rightarrow> xztl_misc_cmd \<Rightarrow> nat \<Rightarrow> 'x write_state \<Rightarrow>
     ('x write_state \<times> write_ctl) option" where
  "submit_zone xn core md misc0 zn_i ws = do {
     index \<leftarrow> get_at (wr_zn_cmd_id_index ws) zn_i;
     row \<leftarrow> get_at (wr_zn_cmd_id ws) zn_i;
     if length row \<le> index then Some (ws, Submitting (zn_i + 1))
     else do {
       busy \<leftarrow> get_at (wr_minflight ws) zn_i;
       if busy \<noteq> 0
       then do {
         w \<leftarrow> ztl_io_poke_ctx xn core md misc0 (wr_w ws);
         Some (ws\<lparr>wr_w := w\<rparr>, Submitting (zn_i + 1)) }
       else do {
         let w = wr_w ws;
         let w = w\<lparr>iw_ucmd := (iw_ucmd w)\<lparr>uc_minflight := (uc_minflight (iw_ucmd w))[zn_i := 1]\<rparr>\<rparr>;
         slot \<leftarrow> get_at (uc_mcmd (iw_ucmd w)) (row ! index);
         k \<leftarrow> slot;
         (ret, w) \<leftarrow> io_submit core k w;
         if ret \<noteq> 0
         then do {
           w \<leftarrow> io_stats_inc XZTL_STATS_WRITE_SUBMIT_FAIL w;
           w \<leftarrow> ztl_io_poke_ctx xn core md misc0 w;
           Some (ws\<lparr>wr_w := w\<rparr>, Submitting zn_i) }
         else do {
           mcmd \<leftarrow> get_at (qp_mcmd (iw_q w)) k;
           let w = put_mcmd k (mcmd\<lparr>mc_submitted := 1\<rparr>) w;
           let ws = ws\<lparr>wr_w := w, wr_submitted := wr_submitted ws + 1,
              wr_zn_cmd_id_index := (wr_zn_cmd_id_index ws)[zn_i := index + 1]\<rparr>;
           w \<leftarrow> (if wr_submitted ws mod 8 = 0 then ztl_io_poke_ctx xn core md misc0 w else Some w);
           Some (ws\<lparr>wr_w := w\<rparr>, Submitting (zn_i + 1)) } } } }"

definition write_step ::
    "'x xnvme \<Rightarrow> 'x media_state xztl_core \<Rightarrow> ztl_metadata \<Rightarrow> xztl_misc_cmd \<Rightarrow> nat \<Rightarrow> 'x write_state \<times> write_ctl \<Rightarrow>
     ('x write_state \<times> write_ctl) option" where
  "write_step xn core md misc0 num c =
     (case c of
        (ws, Submitting zn_i) \<Rightarrow>
          if zn_i < pa_naddr (qp_prov (iw_q (wr_w ws))) then submit_zone xn core md misc0 zn_i ws
          else Some (ws, if wr_submitted ws < num then Submitting 0 else Draining)
      | (ws, Draining) \<Rightarrow>
          if uc_ncb (iw_ucmd (wr_w ws)) < uc_nmcmd (iw_ucmd (wr_w ws))
          then do { w \<leftarrow> ztl_io_poke_ctx xn core md misc0 (wr_w ws); Some (ws\<lparr>wr_w := w\<rparr>, Draining) }
          else Some (ws, Written)
      | (ws, Written) \<Rightarrow> Some (ws, Written))"

text \<open>At most \<open>fuel\<close> steps; \<open>None\<close> when they are not enough (or a step is undefined).\<close>

fun write_run ::
    "'x xnvme \<Rightarrow> 'x media_state xztl_core \<Rightarrow> ztl_metadata \<Rightarrow> xztl_misc_cmd \<Rightarrow> nat \<Rightarrow> nat \<Rightarrow>
     'x write_state \<times> write_ctl \<Rightarrow> 'x io_world option" where
  "write_run xn core md misc0 num 0 c = (if snd c = Written then Some (wr_w (fst c)) else None)"
| "write_run xn core md misc0 num (Suc fuel) c =
     (if snd c = Written then Some (wr_w (fst c))
      else do { c \<leftarrow> write_step xn core md misc0 num c; write_run xn core md misc0 num fuel c })"

definition write_start :: "nat \<Rightarrow> pop_state \<Rightarrow> 'x io_world \<Rightarrow> 'x write_state \<times> write_ctl" where
  "write_start num ps w =
     (\<lparr>wr_w = w, wr_zn_cmd_id = ps_zn_cmd_id ps,
       wr_zn_cmd_id_index = replicate (ZTL_PRO_ZONE_NUM_INNODE * 2) 0, wr_submitted = 0\<rparr>,
      if 0 < num then Submitting 0 else Draining)"

subsection \<open>A user write\<close>

definition write_failure :: "'x io_world \<Rightarrow> int \<times> 'x io_world" where
  "write_failure w = (xz XZTL_ZTL_IO_S_ERR,
     w\<lparr>iw_ucmd := (iw_ucmd w)\<lparr>uc_status := nat (xz XZTL_ZTL_IO_S_ERR), uc_completed := 1\<rparr>\<rparr>)"

text \<open>The number of commands of the next piece, and the piece recorded in the user command. The
  node takes the level of the command when it has none.\<close>

definition write_record ::
    "nat \<Rightarrow> nat \<Rightarrow> 'x io_world \<Rightarrow> (nat \<times> ztl_pro_node \<times> 'x io_world) option" where
  "write_record left n w = do {
     pro \<leftarrow> gr_pro (iw_grp w);
     node \<leftarrow> get_at (pg_vnodes pro) n;
     let num = (if nd_optimal_write_sec_left node \<le> left then nd_optimal_write_sec_left node else left);
     let ucmd = iw_ucmd w;
     let node = (if nd_level node = -1 then node\<lparr>nd_level := int (uc_prov_type ucmd)\<rparr> else node);
     node_id \<leftarrow> set_at (uc_node_id ucmd) (uc_pieces ucmd) (nd_id node);
     start \<leftarrow> set_at (uc_start ucmd) (uc_pieces ucmd) (nd_optimal_write_sec_used node);
     nums \<leftarrow> set_at (uc_num ucmd) (uc_pieces ucmd) num;
     Some (num, node,
       w\<lparr>iw_grp := (iw_grp w)\<lparr>gr_pro := Some (pro\<lparr>pg_vnodes := (pg_vnodes pro)[n := node]\<rparr>)\<rparr>,
         iw_ucmd := ucmd\<lparr>uc_node_id := node_id, uc_start := start, uc_num := nums\<rparr>\<rparr>) }"

text \<open>The piece in its commands, ready for submission.\<close>

definition write_populate ::
    "nat \<Rightarrow> nat \<Rightarrow> nat \<Rightarrow> 'x io_world \<Rightarrow> (pop_state \<times> 'x io_world) option" where
  "write_populate nbytes num boff w = do {
     ps \<leftarrow> populate nbytes (qp_tctx (iw_q w)) num (qp_prov (iw_q w)) (qp_mcmd (iw_q w)) (iw_ucmd w) boff;
     let ucmd = (ps_ucmd ps)\<lparr>uc_pieces := u16 (uc_pieces (ps_ucmd ps) + 1),
        uc_minflight := replicate (ZTL_PRO_ZONE_NUM_INNODE * 2) 0 @
           drop (ZTL_PRO_ZONE_NUM_INNODE * 2) (uc_minflight (ps_ucmd ps)),
        uc_nmcmd := u16 num, uc_ncb := 0\<rparr>;
     Some (ps, w\<lparr>iw_ucmd := ucmd,
       iw_q := (iw_q w)\<lparr>qp_mcmd := ps_mcmd ps, qp_prov := (qp_prov (iw_q w))\<lparr>pa_addr := ps_addr ps\<rparr>\<rparr>\<rparr>) }"

fun write_pieces ::
    "'x xnvme \<Rightarrow> 'x media_state xztl_core \<Rightarrow> ztl_metadata \<Rightarrow> xztl_misc_cmd \<Rightarrow> nat \<Rightarrow> nat \<Rightarrow> nat \<Rightarrow> nat \<Rightarrow>
     'x io_world \<Rightarrow> (int \<times> 'x io_world) option" where
  "write_pieces xn core md misc0 nbytes 0 left boff w = None"
| "write_pieces xn core md misc0 nbytes (Suc fuel) left boff w = do {
     (ret, node_p, grp) \<leftarrow> ztl_pro_get_node (qp_node (iw_q w)) (iw_grp w);
     let w = w\<lparr>iw_grp := grp, iw_q := (iw_q w)\<lparr>qp_node := node_p\<rparr>\<rparr>;
     if ret \<noteq> 0 then Some (write_failure w)
     else do {
       n \<leftarrow> node_p;
       (num, node, w) \<leftarrow> write_record left n w;
       (ret, prov, grp) \<leftarrow> ztl_pro_new num (nd_id node) (qp_prov (iw_q w))
          (u32 (nd_optimal_write_sec_used node)) (iw_grp w);
       let w = w\<lparr>iw_grp := grp, iw_q := (iw_q w)\<lparr>qp_prov := prov\<rparr>\<rparr>;
       if ret \<noteq> 0
       then do {
         let prov = prov\<lparr>pa_nsec := replicate (pa_naddr prov) 0 @ drop (pa_naddr prov) (pa_nsec prov)\<rparr>;
         grp \<leftarrow> ztl_pro_free md prov (iw_grp w);
         Some (write_failure (w\<lparr>iw_grp := grp, iw_q := (iw_q w)\<lparr>qp_prov := prov\<rparr>\<rparr>)) }
       else do {
         (ps, w) \<leftarrow> write_populate nbytes num boff w;
         w \<leftarrow> write_run xn core md misc0 num fuel (write_start num ps w);
         pro \<leftarrow> gr_pro (iw_grp w);
         pro \<leftarrow> node_account n num pro;
         let w = w\<lparr>iw_grp := (iw_grp w)\<lparr>gr_pro := Some pro\<rparr>\<rparr>;
         if 0 < left - num
         then write_pieces xn core md misc0 nbytes fuel (left - num) (ps_boff ps) w
         else Some (xz XZTL_OK, w\<lparr>iw_ucmd := (iw_ucmd w)\<lparr>uc_completed := 1\<rparr>\<rparr>) } } }"

definition ztl_io_write_ucmd ::
    "'x xnvme \<Rightarrow> 'x media_state xztl_core \<Rightarrow> ztl_metadata \<Rightarrow> xztl_misc_cmd \<Rightarrow> nat \<Rightarrow> 'x io_world \<Rightarrow>
     (int \<times> 'x io_world) option" where
  "ztl_io_write_ucmd xn core md misc0 fuel w = do {
     m \<leftarrow> core;
     let nbytes = ge_nbytes (mm_geo m);
     if u32 (nbytes * ZTL_IO_SEC_MCMD) = 0 then None
     else do {
       let nsec = u32 (uc_size (iw_ucmd w) div nbytes);
       if uc_size (iw_ucmd w) mod u32 (nbytes * ZTL_IO_SEC_MCMD) \<noteq> 0 then Some (write_failure w)
       else do {
         let ncmd = nsec div ZTL_IO_SEC_MCMD;
         if XZTL_IO_MAX_MCMD < ncmd then Some (write_failure w)
         else write_pieces xn core md misc0 nbytes fuel ncmd (uc_buf (iw_ucmd w))
           (w\<lparr>iw_q := (iw_q w)\<lparr>qp_prov := (qp_prov (iw_q w))\<lparr>pa_naddr := 0\<rparr>\<rparr>,
              iw_ucmd := (iw_ucmd w)\<lparr>uc_nmcmd := u16 ncmd, uc_completed := 0, uc_ncb := 0\<rparr>\<rparr>) } } }"

end
