(* ===== verification/Ztl_Io_Populate.thy ===== *)
theory Ztl_Io_Populate
  imports Ztl_Io
begin

text \<open>
  The commands of a piece. The population loop of \<open>ztl_io_write_ucmd\<close> ends, and command \<open>k\<close>
  of a piece goes to address \<open>k mod 64\<close> at depth \<open>k div 64\<close>: \<open>pop_at\<close> is the state of the loop
  after \<open>k\<close> commands.
\<close>

section \<open>Rounds over the zones\<close>

lemma slots_before_Suc:
  assumes "i < 64"
  shows "slots_before (Suc k) i = slots_before k i + (if i = k mod 64 then 1 else 0)"
proof -
  obtain t where t: "t < 64" "(k + t) mod 64 = i" using zone_in_round [OF assms] by blast
  have "t = 0 \<longleftrightarrow> i = k mod 64" using t zone_in_round_inj [OF t(1), of 0 k] by auto
  moreover have "zone_share 1 t = (if t = 0 then 1 else 0)" by (simp add: zone_share_def)
  ultimately show ?thesis using slots_before_add [OF t(1), of k 1] t(2) by simp
qed

lemma slots_before_zero [simp]: "slots_before 0 i = 0" if "i < 64" for i
  using that by (simp add: slots_before_def)

lemma slots_before_share: "i < 64 \<Longrightarrow> slots_before num i = zone_share num i"
  using slots_before_round [of i 0 num] by simp

lemma slots_before_mod: "slots_before k (k mod 64) = k div 64"
  using slots_before_here [of 0 k] by simp

lemma slots_before_mono: "k \<le> num \<Longrightarrow> slots_before k i \<le> slots_before num i"
  by (simp add: slots_before_def div_le_mono)

lemma slots_before_less:
  assumes "k < num"
  shows "slots_before k (k mod 64) < slots_before num (k mod 64)"
  using slots_before_Suc [of "k mod 64" k] slots_before_mono [of "Suc k" num "k mod 64"] assms by simp

lemma zone_cmds_Suc:
  "filter (\<lambda>j. j mod 64 = i) [0..<Suc k] = filter (\<lambda>j. j mod 64 = i) [0..<k] @ (if k mod 64 = i then [k] else [])"
  by simp

lemma zone_cmds_length: "i < 64 \<Longrightarrow> length (filter (\<lambda>j. j mod 64 = i) [0..<k]) = slots_before k i"
  by (induction k) (auto simp: slots_before_Suc)

text \<open>The \<open>p\<close>-th command of zone \<open>i\<close> is \<open>i + 64 * p\<close>.\<close>

lemma zone_cmds_nth:
  assumes "i < 64" "p < slots_before k i"
  shows "filter (\<lambda>j. j mod 64 = i) [0..<k] ! p = i + 64 * p"
  using assms(2)
proof (induction k)
  case 0
  then show ?case using assms(1) by simp
next
  case (Suc k)
  show ?case
  proof (cases "p < slots_before k i")
    case True
    then show ?thesis using Suc.IH zone_cmds_length [OF assms(1), of k] by (simp add: nth_append)
  next
    case False
    then have "i = k mod 64" "p = slots_before k i"
      using Suc.prems slots_before_Suc [OF assms(1), of k] by (auto split: if_splits)
    moreover have "i + 64 * (k div 64) = k" if "i = k mod 64" using that by simp
    ultimately show ?thesis using zone_cmds_length [OF assms(1), of k] slots_before_mod [of k]
      by (simp add: nth_append)
  qed
qed

section \<open>The state of the loop\<close>

definition write_cmd ::
    "nat \<Rightarrow> nat \<Rightarrow> maddr list \<Rightarrow> nat \<Rightarrow> xztl_io_mcmd \<Rightarrow> nat \<Rightarrow> xztl_io_mcmd" where
  "write_cmd nbytes tctx addrs boff old k = old\<lparr>mc_opcode := op XZTL_CMD_WRITE, mc_synch := 0, mc_submitted := 0,
     mc_sequence := k, mc_sequence_zn := k mod 64, mc_naddr := 1, mc_status := 0, mc_callback_err_cnt := 0,
     mc_nsec := ZTL_IO_SEC_MCMD,
     mc_addr := set_sect (g_sect (addrs ! (k mod 64)) + 8 * (k div 64))
       (set_zone (g_zone (addrs ! (k mod 64))) (set_grp (g_grp (addrs ! (k mod 64))) 0)),
     mc_prp := boff + k * (nbytes * 8), mc_callback := CB_WRITE, mc_async_ctx := tctx, mc_ptr := k\<rparr>"

definition pop_at ::
    "nat \<Rightarrow> nat \<Rightarrow> nat \<Rightarrow> app_pro_addr \<Rightarrow> xztl_io_mcmd list \<Rightarrow> xztl_io_ucmd \<Rightarrow> nat \<Rightarrow> nat \<Rightarrow> pop_state" where
  "pop_at nbytes tctx num prov mcmds ucmd boff k =
     \<lparr>ps_cmd_i = k,
      ps_mcmd = map (\<lambda>j. if j < k then write_cmd nbytes tctx (pa_addr prov) boff (mcmds ! j) j else mcmds ! j)
        [0..<length mcmds],
      ps_ucmd = ucmd\<lparr>uc_msec := map (\<lambda>j. if j < k then 8 else uc_msec ucmd ! j) [0..<length (uc_msec ucmd)],
        uc_mcmd := map (\<lambda>j. if j < k then Some j else uc_mcmd ucmd ! j) [0..<length (uc_mcmd ucmd)]\<rparr>,
      ps_addr = map (\<lambda>i. if i < min num 64 then set_sect (g_sect (pa_addr prov ! i) + 8 * slots_before k i) (pa_addr prov ! i)
        else pa_addr prov ! i) [0..<length (pa_addr prov)],
      ps_zone_sector_num = map (\<lambda>i. if i < min num 64 then 8 * int (zone_share num i) - 8 * int (slots_before k i) else 0)
        [0..<128],
      ps_boff = boff + k * (nbytes * 8),
      ps_zn_cmd_id = map (\<lambda>i. filter (\<lambda>j. j mod 64 = i) [0..<k]) [0..<128]\<rparr>"

text \<open>What the loop relies on: the addresses and shares of the provisioning, enough slots for the
  commands, and numbers within their widths.\<close>

definition piece_ok ::
    "nat \<Rightarrow> nat \<Rightarrow> app_pro_addr \<Rightarrow> xztl_io_mcmd list \<Rightarrow> xztl_io_ucmd \<Rightarrow> nat \<Rightarrow> bool" where
  "piece_ok nbytes num prov mcmds ucmd boff \<longleftrightarrow> num \<le> XZTL_WIO_MAX_MCMD \<and> num \<le> length mcmds \<and>
     num \<le> length (uc_msec ucmd) \<and> num \<le> length (uc_mcmd ucmd) \<and> boff + num * (nbytes * 8) < 2 ^ 64 \<and>
     pa_naddr prov = min num 64 \<and> length (pa_addr prov) = 128 \<and> length (pa_nsec prov) = 128 \<and>
     (\<forall>i < min num 64. pa_nsec prov ! i = 8 * zone_share num i \<and>
        g_sect (pa_addr prov ! i) + 8 * zone_share num i \<le> 2 ^ 36)"

lemma map_upt_if_update:
  assumes "k < n" "\<And>j. j < n \<Longrightarrow> g j = (if j = k then v else f j)"
  shows "(map f [0..<n])[k := v] = map g [0..<n]"
  using assms by (intro nth_equalityI) (auto simp: nth_list_update)

lemma pop_at_step:
  assumes ok: "piece_ok nbytes num prov mcmds ucmd boff" and k: "k < num"
  shows "populate_cmd nbytes tctx (k mod 64) (pop_at nbytes tctx num prov mcmds ucmd boff k) =
    Some (pop_at nbytes tctx num prov mcmds ucmd boff (Suc k))"
proof -
  let ?i = "k mod 64"
  have i: "?i < min num 64" "?i < 64" using k by (auto intro: le_less_trans [OF mod_less_eq_dividend])
  have b: "num \<le> 1024" "num \<le> length mcmds" "num \<le> length (uc_msec ucmd)" "num \<le> length (uc_mcmd ucmd)"
    "boff + num * (nbytes * 8) < 2 ^ 64" "length (pa_addr prov) = 128"
    "g_sect (pa_addr prov ! ?i) + 8 * zone_share num ?i \<le> 2 ^ 36"
    using ok i(1) by (auto simp: piece_ok_def)
  have share: "slots_before k ?i < zone_share num ?i" using slots_before_less [OF k] slots_before_share [OF i(2)] by simp
  have row: "length (filter (\<lambda>j. j mod 64 = ?i) [0..<k]) < 2000"
    using length_filter_le [of "\<lambda>j. j mod 64 = ?i" "[0..<k]"] k b(1) by simp
  have "Suc k * (nbytes * 8) \<le> num * (nbytes * 8)" using k by (intro mult_le_mono1) simp
  then have "boff + Suc k * (nbytes * 8) < 2 ^ 64" using b(5) by linarith
  moreover have "boff + k * (nbytes * 8) + nbytes * 8 = boff + Suc k * (nbytes * 8)" by simp
  ultimately have boff: "u64 (boff + k * (nbytes * 8) + nbytes * 8) = boff + Suc k * (nbytes * 8)"
    by (simp only: take_bit_small)
  let ?a = "pa_addr prov ! ?i"
  have sect: "g_sect (set_sect (g_sect ?a + 8 * slots_before k ?i) ?a) = g_sect ?a + 8 * (k div 64)"
    using share b(7) slots_before_mod [of k] by (intro trans [OF sect_field.get_put_small]) auto
  note upd = map_upt_if_update [of k] map_upt_if_update [of ?i]
  let ?S = "pop_at nbytes tctx num prov mcmds ucmd boff"
  have left: "get_at (ps_zone_sector_num (?S k)) ?i = Some (8 * int (zone_share num ?i) - 8 * int (slots_before k ?i))"
    "get_at (ps_addr (?S k)) ?i = Some (set_sect (g_sect ?a + 8 * slots_before k ?i) ?a)"
    "get_at (ps_mcmd (?S k)) k = Some (mcmds ! k)"
    "get_at (ps_zn_cmd_id (?S k)) ?i = Some (filter (\<lambda>j. j mod 64 = ?i) [0..<k])"
    using i k b by (simp_all add: pop_at_def del: upt_rec_numeral)
  have S1: "set_at (ps_mcmd (?S k)) k (write_cmd nbytes tctx (pa_addr prov) boff (mcmds ! k) k) = Some (ps_mcmd (?S (Suc k)))"
    using k b by (auto simp: pop_at_def intro!: upd)
  have S2: "set_at (ps_zone_sector_num (?S k)) ?i (8 * int (zone_share num ?i) - 8 * int (slots_before k ?i) - 8) =
      Some (ps_zone_sector_num (?S (Suc k)))"
    using i by (auto simp: pop_at_def slots_before_Suc simp del: upt_rec_numeral intro!: upd)
  have S3: "set_at (ps_addr (?S k)) ?i (set_sect (g_sect ?a + 8 * (k div 64) + 8) (set_sect (g_sect ?a + 8 * slots_before k ?i) ?a)) =
      Some (ps_addr (?S (Suc k)))"
    using i b(6) by (auto simp: pop_at_def slots_before_Suc slots_before_mod sect_field.put_put algebra_simps
      simp del: upt_rec_numeral intro!: upd)
  have S4: "set_at (uc_msec (ps_ucmd (?S k))) k 8 = Some (uc_msec (ps_ucmd (?S (Suc k))))"
    "set_at (uc_mcmd (ps_ucmd (?S k))) k (Some k) = Some (uc_mcmd (ps_ucmd (?S (Suc k))))"
    using k b by (auto simp: pop_at_def intro!: upd)
  have S5: "(ps_zn_cmd_id (?S k))[?i := filter (\<lambda>j. j mod 64 = ?i) [0..<k] @ [k]] = ps_zn_cmd_id (?S (Suc k))"
    using i by (auto simp: pop_at_def simp del: upt_rec_numeral intro!: upd)
  have rest: "ps_cmd_i (?S k) = k" "ps_boff (?S k) = boff + k * (nbytes * 8)"
    "(ps_ucmd (?S k))\<lparr>uc_msec := uc_msec (ps_ucmd (?S (Suc k))), uc_mcmd := uc_mcmd (ps_ucmd (?S (Suc k)))\<rparr> =
      ps_ucmd (?S (Suc k))"
    by (simp_all add: pop_at_def)
  show ?thesis
    using share row S1 boff
    unfolding populate_cmd_def
    by (simp add: left S2 S3 S4 S5 rest sect write_cmd_def Let_def)
      (simp add: pop_at_def)
qed

lemma pop_at_cmd_i [simp]: "ps_cmd_i (pop_at nbytes tctx num prov mcmds ucmd boff k) = k"
  by (simp add: pop_at_def)

lemma pop_at_skip:
  assumes "i < min num 64"
  shows "populate_cmd nbytes tctx i (pop_at nbytes tctx num prov mcmds ucmd boff num) =
    Some (pop_at nbytes tctx num prov mcmds ucmd boff num)"
proof -
  have "slots_before num i = zone_share num i" using assms by (simp add: slots_before_share)
  then show ?thesis using assms
    by (simp add: populate_cmd_def pop_at_def del: upt_rec_numeral)
qed

lemma pop_round:
  assumes ok: "piece_ok nbytes num prov mcmds ucmd boff" and "64 * r < num" "i \<le> min num 64"
  shows "populate_round nbytes tctx i (min num 64 - i) (pop_at nbytes tctx num prov mcmds ucmd boff (min num (64 * r + i))) =
    Some (pop_at nbytes tctx num prov mcmds ucmd boff (min num (64 * r + min num 64)))"
  using assms(3)
proof (induction "min num 64 - i" arbitrary: i)
  case 0
  then show ?case by simp
next
  case (Suc d)
  let ?S = "pop_at nbytes tctx num prov mcmds ucmd boff"
  have i: "i < min num 64" "min num 64 - i = Suc d" "d = min num 64 - Suc i" using Suc.hyps(2) by auto
  have "populate_cmd nbytes tctx i (?S (min num (64 * r + i))) = Some (?S (min num (64 * r + Suc i)))"
  proof (cases "64 * r + i < num")
    case True
    have "(64 * r + i) mod 64 = i" using i(1) by simp
    moreover have "min num (64 * r + i) = 64 * r + i" "min num (64 * r + Suc i) = Suc (64 * r + i)" using True by auto
    ultimately show ?thesis using pop_at_step [OF ok True, of tctx] by (simp only:)
  next
    case False
    then show ?thesis using pop_at_skip [OF i(1), of nbytes tctx prov mcmds ucmd boff] by (simp add: min_def)
  qed
  then show ?case using Suc.hyps(1) [of "Suc i"] i by simp
qed

lemma pop_loop:
  assumes ok: "piece_ok nbytes num prov mcmds ucmd boff" and "64 * r \<le> num"
  shows "populate_loop nbytes tctx (min num 64) num (pop_at nbytes tctx num prov mcmds ucmd boff (64 * r)) =
    Some (pop_at nbytes tctx num prov mcmds ucmd boff num)"
  using assms(2)
proof (induction "num - 64 * r" arbitrary: r rule: less_induct)
  case less
  let ?S = "pop_at nbytes tctx num prov mcmds ucmd boff"
  show ?case
  proof (cases "num \<le> 64 * r")
    case True
    then show ?thesis using less.prems by (simp add: populate_loop.simps)
  next
    case False
    define k where "k = min num (64 * r + min num 64)"
    have "populate_round nbytes tctx 0 (min num 64) (?S (64 * r)) = Some (?S k)"
      using pop_round [OF ok, of r 0 tctx] False by (simp add: min_def k_def)
    moreover have k: "64 * r < k" using False by (auto simp: k_def)
    ultimately have step: "populate_loop nbytes tctx (min num 64) num (?S (64 * r)) =
        populate_loop nbytes tctx (min num 64) num (?S k)"
      using False by (subst populate_loop.simps) simp
    show ?thesis
    proof (cases "64 * r + 64 \<le> num")
      case True
      then have "k = 64 * Suc r" by (auto simp: k_def)
      then show ?thesis using step less.hyps [of "Suc r"] True False by simp
    next
      case False
      then have "k = num" by (auto simp: k_def)
      then show ?thesis using step by (simp add: populate_loop.simps)
    qed
  qed
qed

text \<open>The population ends with all \<open>num\<close> commands.\<close>

lemma populate_correct:
  assumes ok: "piece_ok nbytes num prov mcmds ucmd boff"
  shows "populate nbytes tctx num prov mcmds ucmd boff = Some (pop_at nbytes tctx num prov mcmds ucmd boff num)"
proof -
  have p: "pa_naddr prov = min num 64" "length (pa_addr prov) = 128" "length (pa_nsec prov) = 128"
    "\<forall>i < min num 64. pa_nsec prov ! i = 8 * zone_share num i" using ok by (simp_all add: piece_ok_def)
  have z: "map int (take (min num 64) (pa_nsec prov)) @ replicate (128 - min num 64) 0 =
      map (\<lambda>i. if i < min num 64 then 8 * int (zone_share num i) - 8 * int (slots_before 0 i) else 0) [0..<128]"
    using p(3,4) by (intro nth_equalityI) (auto simp: nth_append)
  have a: "map (\<lambda>i. if i < min num 64 then set_sect (g_sect (pa_addr prov ! i) + 8 * slots_before 0 i) (pa_addr prov ! i)
      else pa_addr prov ! i) [0..<length (pa_addr prov)] = pa_addr prov"
    by (intro nth_equalityI) (auto simp: sect_field.put_get)
  have "pop_at nbytes tctx num prov mcmds ucmd boff 0 = \<lparr>ps_cmd_i = 0, ps_mcmd = mcmds, ps_ucmd = ucmd,
      ps_addr = pa_addr prov, ps_zone_sector_num = map int (take (min num 64) (pa_nsec prov)) @ replicate (128 - min num 64) 0,
      ps_boff = boff, ps_zn_cmd_id = replicate 128 []\<rparr>"
    unfolding pop_at_def z a by (simp add: map_nth map_replicate_const del: upt_rec_numeral)
  then show ?thesis using pop_loop [OF ok, of 0 tctx] p(1) by (simp add: populate_def)
qed

section \<open>Provisioning and population together\<close>

text \<open>Where slot \<open>j\<close> of a node lies: the sector of its zone at its depth.\<close>

definition slot_sector :: "ztl_pro_node_grp \<Rightarrow> ztl_pro_node \<Rightarrow> nat \<Rightarrow> nat" where
  "slot_sector pro node j = g_sect (zn_addr (nzone pro node (j mod 64))) + 8 * (j div 64)"

lemma slot_split:
  fixes start k :: nat
  shows "(start + k mod 64) mod 64 = (start + k) mod 64" "(start + k mod 64) div 64 + k div 64 = (start + k) div 64"
proof -
  show "(start + k mod 64) mod 64 = (start + k) mod 64" by (simp add: mod_simps)
  have "start + k = start + k mod 64 + k div 64 * 64" by simp
  then show "(start + k mod 64) div 64 + k div 64 = (start + k) div 64"
    by (metis div_mult_self1 add.commute zero_neq_numeral)
qed

text \<open>The resources a piece needs.\<close>

definition room_ok :: "nat \<Rightarrow> nat \<Rightarrow> app_pro_addr \<Rightarrow> xztl_io_mcmd list \<Rightarrow> xztl_io_ucmd \<Rightarrow> nat \<Rightarrow> bool" where
  "room_ok nbytes num prov mcmds ucmd boff \<longleftrightarrow> num \<le> XZTL_WIO_MAX_MCMD \<and> num \<le> length mcmds \<and>
     num \<le> length (uc_msec ucmd) \<and> num \<le> length (uc_mcmd ucmd) \<and> boff + num * (nbytes * 8) < 2 ^ 64 \<and>
     length (pa_addr prov) = APP_PRO_MAX_OFFS \<and> length (pa_nsec prov) = APP_PRO_MAX_OFFS"

lemma pro_new_piece:
  assumes grp: "gr_pro grp = Some pro" "get_at (pg_vnodes pro) node_id = Some node" "zd_tbl (gr_zmd grp) = Some tbl"
    and node: "node_linked pro (length tbl) node" "node_at pro tbl node start" "node_fits pro node"
    and room: "start + num \<le> ZTL_PRO_OPT_SEC_NUM_INNODE" "room_ok nbytes num prov mcmds ucmd boff"
  shows "\<exists>prov' tbl'. ztl_pro_new num node_id prov start grp =
      Some (xz XZTL_OK, prov', app_grp_ctx_add (grp\<lparr>gr_zmd := (gr_zmd grp)\<lparr>zd_tbl := Some tbl'\<rparr>\<rparr>)) \<and>
    piece_ok nbytes num prov' mcmds ucmd boff \<and> length tbl' = length tbl \<and> node_at pro tbl' node (start + num) \<and>
    (\<forall>i < min num 64. let zone = nzone pro node ((start + i) mod 64) in
       g_zone (pa_addr prov' ! i) = g_zone (zn_addr zone) \<and> g_grp (pa_addr prov' ! i) = g_grp (zn_addr zone) \<and>
       g_sect (pa_addr prov' ! i) = slot_sector pro node (start + i)) \<and>
    (\<forall>e < length tbl. tbl' ! e = (tbl ! e)\<lparr>ze_wptr_inflight := ze_wptr_inflight (tbl' ! e)\<rparr>)"
proof -
  from room(2) have p: "length (pa_addr prov) = 128" "length (pa_nsec prov) = 128" by (simp_all add: room_ok_def)
  obtain ctx' tbl' where r:
    "pro_grp_get_loop pro node (num div 64) num (num mod 64) (start mod 64) (prov\<lparr>pa_naddr := 0\<rparr>) tbl = Some (ctx', tbl')"
    "pa_naddr ctx' = min num 64" "length (pa_addr ctx') = 128" "length (pa_nsec ctx') = 128" "length tbl' = length tbl"
    "\<forall>i < min num 64. g_zone (pa_addr ctx' ! i) = g_zone (zn_addr (nzone pro node ((start + i) mod 64))) \<and>
       g_grp (pa_addr ctx' ! i) = g_grp (zn_addr (nzone pro node ((start + i) mod 64))) \<and>
       g_sect (pa_addr ctx' ! i) = slot_sector pro node (start + i) \<and> pa_nsec ctx' ! i = 8 * zone_share num i"
    "node_at pro tbl' node (start + num)"
    "\<forall>e < length tbl. tbl' ! e = (tbl ! e)\<lparr>ze_wptr_inflight := ze_wptr_inflight (tbl' ! e)\<rparr>"
    using pro_grp_get_correct [OF node room(1), of "prov\<lparr>pa_naddr := 0\<rparr>"] p
    unfolding slot_sector_def by (auto simp: mod_simps)
  have "slot_sector pro node (start + i) + 8 * zone_share num i \<le> 2 ^ 36" if "i < min num 64" for i
  proof -
    have i: "i < 64" using that by simp
    have "slots_before (start + num) ((start + i) mod 64) \<le> 3072"
      using room(1) div_le_mono [of "start + num + 63 - (start + i) mod 64" 196671 64] by (simp add: slots_before_def)
    then have "(start + i) div 64 + zone_share num i \<le> 3072" using slots_before_round [OF i, of start num] by simp
    moreover have "g_sect (zn_addr (nzone pro node ((start + i) mod 64))) + 24576 \<le> 2 ^ 36"
      using node(3) by (simp add: node_fits_def)
    ultimately show ?thesis unfolding slot_sector_def by linarith
  qed
  then have "piece_ok nbytes num (ctx'\<lparr>pa_grp := Some (gr_id grp)\<rparr>) mcmds ucmd boff"
    using r(2-4,6) room(2) by (simp add: piece_ok_def room_ok_def)
  then show ?thesis using r grp
    by (intro exI [of _ "ctx'\<lparr>pa_grp := Some (gr_id grp)\<rparr>"] exI [of _ tbl'])
      (simp add: ztl_pro_new_def ztl_pro_grp_get_def Let_def)
qed

lemma write_cmd_slot:
  assumes "piece_ok nbytes num prov mcmds ucmd boff" "k < num"
    "\<forall>i < min num 64. g_sect (pa_addr prov ! i) = slot_sector pro node (start + i)"
  shows "g_sect (mc_addr (write_cmd nbytes tctx (pa_addr prov) boff old k)) = slot_sector pro node (start + k)"
proof -
  have i: "k mod 64 < min num 64" using assms(2) by (auto intro: le_less_trans [OF mod_less_eq_dividend])
  have "slots_before k (k mod 64) < zone_share num (k mod 64)"
    using slots_before_less [OF assms(2)] slots_before_share [of "k mod 64" num] by simp
  then have "g_sect (pa_addr prov ! (k mod 64)) + 8 * (k div 64) < 2 ^ 36"
    using assms(1) i slots_before_mod [of k] by (auto simp: piece_ok_def)
  then have "g_sect (mc_addr (write_cmd nbytes tctx (pa_addr prov) boff old k)) =
      g_sect (pa_addr prov ! (k mod 64)) + 8 * (k div 64)"
    by (simp add: write_cmd_def sect_field.get_put_small)
  moreover have "8 * ((start + k mod 64) div 64) + 8 * (k div 64) = 8 * ((start + k) div 64)"
    using slot_split(2) [of start k] by linarith
  ultimately show ?thesis using assms(3) i slot_split(1) [of start k] by (simp add: slot_sector_def)
qed

section \<open>Release of the provisioning\<close>

text \<open>The number of a zone behind the metadata zones is its index in the group, and the write
  pointers of a node agree with the number of slots written.\<close>

definition node_numbered :: "ztl_metadata \<Rightarrow> ztl_pro_node_grp \<Rightarrow> ztl_pro_node \<Rightarrow> bool" where
  "node_numbered md pro node \<longleftrightarrow> (\<forall>z < 64. get_at (pg_vzones pro)
     (usub 32 (g_zone (zn_addr (nzone pro node z))) (get_metadata_zone_num md)) = Some (nzone pro node z))"

definition node_written :: "ztl_pro_node_grp \<Rightarrow> app_zmd_entry list \<Rightarrow> ztl_pro_node \<Rightarrow> nat \<Rightarrow> bool" where
  "node_written pro tbl node used \<longleftrightarrow> (\<forall>z < 64. ze_wptr (tbl ! nent pro node z) =
     g_sect (zn_addr (nzone pro node z)) + 8 * slots_before used z)"

abbreviation with_tbl :: "app_group \<Rightarrow> app_zmd_entry list \<Rightarrow> app_group" where
  "with_tbl grp tbl \<equiv> grp\<lparr>gr_zmd := (gr_zmd grp)\<lparr>zd_tbl := Some tbl\<rparr>\<rparr>"

lemma pro_grp_free_zone:
  assumes "gr_pro grp = Some pro" "zd_tbl (gr_zmd grp) = Some tbl" "node_linked pro (length tbl) node"
    "node_numbered md pro node" "z < 64" "zone_i = g_zone (zn_addr (nzone pro node z))"
    "ze_wptr (tbl ! nent pro node z) + nsec < 2 ^ 64"
  shows "ztl_pro_grp_free md grp zone_i nsec =
    Some (with_tbl grp (tbl[nent pro node z := (tbl ! nent pro node z)\<lparr>ze_wptr := ze_wptr (tbl ! nent pro node z) + nsec\<rparr>]))"
  using assms(1,2,4-7) node_linkedD [OF assms(3,5)]
  by (simp add: ztl_pro_grp_free_def node_numbered_def zone_wptr_def set_zone_wptr_def take_bit_small)

lemma wptr_update_chain: "a = b\<lparr>ze_wptr := x\<rparr> \<Longrightarrow> b = c\<lparr>ze_wptr := y\<rparr> \<Longrightarrow> a = c\<lparr>ze_wptr := x\<rparr>"
  by simp

lemma pro_free_loop_ok:
  assumes "gr_pro grp = Some pro" "zd_tbl (gr_zmd grp) = Some tbl" "node_linked pro (length tbl) node"
    and num: "node_numbered md pro node" "i + left \<le> min num 64" "length (pa_addr ctx) = 128" "length (pa_nsec ctx) = 128"
    and ctx: "\<forall>j < min num 64. g_zone (pa_addr ctx ! j) = g_zone (zn_addr (nzone pro node ((start + j) mod 64))) \<and>
       pa_nsec ctx ! j = 8 * zone_share num j"
    and small: "\<forall>j. i \<le> j \<and> j < i + left \<longrightarrow> ze_wptr (tbl ! nent pro node ((start + j) mod 64)) + 8 * zone_share num j < 2 ^ 64"
  shows "\<exists>tbl'. pro_free_loop md ctx i left grp = Some (with_tbl grp tbl') \<and> length tbl' = length tbl \<and>
    (\<forall>j. i \<le> j \<and> j < i + left \<longrightarrow> ze_wptr (tbl' ! nent pro node ((start + j) mod 64)) =
       ze_wptr (tbl ! nent pro node ((start + j) mod 64)) + 8 * zone_share num j) \<and>
    (\<forall>e < length tbl. tbl' ! e = (tbl ! e)\<lparr>ze_wptr := ze_wptr (tbl' ! e)\<rparr> \<and>
       ((\<forall>j. i \<le> j \<and> j < i + left \<longrightarrow> e \<noteq> nent pro node ((start + j) mod 64)) \<longrightarrow> tbl' ! e = tbl ! e))"
  using assms
proof (induction left arbitrary: i grp tbl)
  case 0
  then show ?case by (intro exI [of _ tbl]) simp
next
  case (Suc left)
  let ?e = "\<lambda>j. nent pro node ((start + j) mod 64)"
  define tbl1 where "tbl1 = tbl[?e i := (tbl ! ?e i)\<lparr>ze_wptr := ze_wptr (tbl ! ?e i) + 8 * zone_share num i\<rparr>]"
  have i: "i < 64" "i < min num 64" using Suc.prems(5) by auto
  have e: "?e i < length tbl" using node_linkedD(3) [OF Suc.prems(3)] by simp
  have neq: "?e j \<noteq> ?e i" if "i < j" "j < Suc i + left" for j
    using that Suc.prems(5) round_ent_neq [OF Suc.prems(3), of i j start] by auto
  have other: "tbl1 ! ?e j = tbl ! ?e j" if "i < j" "j < Suc i + left" for j
    using neq [OF that] by (simp add: tbl1_def)
  have l1: "length tbl1 = length tbl" by (simp add: tbl1_def)
  have small1: "\<forall>j. Suc i \<le> j \<and> j < Suc i + left \<longrightarrow> ze_wptr (tbl1 ! ?e j) + 8 * zone_share num j < 2 ^ 64"
  proof (intro allI impI)
    fix j assume j: "Suc i \<le> j \<and> j < Suc i + left"
    show "ze_wptr (tbl1 ! ?e j) + 8 * zone_share num j < 2 ^ 64"
      using spec [OF Suc.prems(9), of j] other [of j] j by auto
  qed
  have free: "ztl_pro_grp_free md grp (g_zone (pa_addr ctx ! i)) (pa_nsec ctx ! i) = Some (with_tbl grp tbl1)"
    using Suc.prems(8,9) i by (simp add: pro_grp_free_zone [OF Suc.prems(1-4), of "(start + i) mod 64"] tbl1_def)
  have "\<exists>tbl'. pro_free_loop md ctx (Suc i) left (with_tbl grp tbl1) = Some (with_tbl (with_tbl grp tbl1) tbl') \<and> length tbl' = length tbl1 \<and>
    (\<forall>j. Suc i \<le> j \<and> j < Suc i + left \<longrightarrow> ze_wptr (tbl' ! ?e j) = ze_wptr (tbl1 ! ?e j) + 8 * zone_share num j) \<and>
    (\<forall>e < length tbl1. tbl' ! e = (tbl1 ! e)\<lparr>ze_wptr := ze_wptr (tbl' ! e)\<rparr> \<and>
       ((\<forall>j. Suc i \<le> j \<and> j < Suc i + left \<longrightarrow> e \<noteq> ?e j) \<longrightarrow> tbl' ! e = tbl1 ! e))"
    by (rule Suc.IH) (use Suc.prems(1,3-8) small1 l1 in simp_all)
  then obtain tbl' where t: "pro_free_loop md ctx (Suc i) left (with_tbl grp tbl1) = Some (with_tbl grp tbl')" "length tbl' = length tbl"
    "\<forall>j. Suc i \<le> j \<and> j < Suc i + left \<longrightarrow> ze_wptr (tbl' ! ?e j) = ze_wptr (tbl1 ! ?e j) + 8 * zone_share num j"
    "\<forall>e < length tbl. tbl' ! e = (tbl1 ! e)\<lparr>ze_wptr := ze_wptr (tbl' ! e)\<rparr> \<and>
       ((\<forall>j. Suc i \<le> j \<and> j < Suc i + left \<longrightarrow> e \<noteq> ?e j) \<longrightarrow> tbl' ! e = tbl1 ! e)"
    unfolding l1 by auto
  have i': "ze_wptr (tbl' ! ?e i) = ze_wptr (tbl ! ?e i) + 8 * zone_share num i"
  proof -
    have "\<forall>j. Suc i \<le> j \<and> j < Suc i + left \<longrightarrow> ?e i \<noteq> ?e j" using neq by (metis Suc_le_eq)
    then have "tbl' ! ?e i = tbl1 ! ?e i" using t(4) e by blast
    then show ?thesis using e by (simp add: tbl1_def)
  qed
  have new: "ze_wptr (tbl' ! ?e j) = ze_wptr (tbl ! ?e j) + 8 * zone_share num j" if "i \<le> j" "j < i + Suc left" for j
    using that i' spec [OF t(3), of j] other [of j] by (cases "j = i") auto
  have frame: "tbl' ! k = (tbl ! k)\<lparr>ze_wptr := ze_wptr (tbl' ! k)\<rparr> \<and>
      ((\<forall>j. i \<le> j \<and> j < i + Suc left \<longrightarrow> k \<noteq> ?e j) \<longrightarrow> tbl' ! k = tbl ! k)" if "k < length tbl" for k
  proof -
    have "tbl' ! k = (tbl1 ! k)\<lparr>ze_wptr := ze_wptr (tbl' ! k)\<rparr>" using t(4) that by blast
    moreover have "tbl1 ! k = (tbl ! k)\<lparr>ze_wptr := ze_wptr (tbl1 ! k)\<rparr>" using e by (cases "k = ?e i") (simp_all add: tbl1_def)
    ultimately have "tbl' ! k = (tbl ! k)\<lparr>ze_wptr := ze_wptr (tbl' ! k)\<rparr>" by (rule wptr_update_chain)
    moreover have "tbl' ! k = tbl ! k" if a: "\<forall>j. i \<le> j \<and> j < i + Suc left \<longrightarrow> k \<noteq> ?e j"
    proof -
      have "k \<noteq> ?e i" using a by simp
      moreover have "tbl' ! k = tbl1 ! k" using t(4) a \<open>k < length tbl\<close> by simp
      ultimately show ?thesis by (simp add: tbl1_def)
    qed
    ultimately show ?thesis by blast
  qed
  show ?case using t(1,2) new frame free i Suc.prems(6,7) by (intro exI [of _ tbl']) simp
qed

text \<open>Releasing the provisioning of a piece moves the write pointers of its zones by their shares.\<close>

lemma pro_free_node:
  assumes grp: "gr_pro grp = Some pro" "zd_tbl (gr_zmd grp) = Some tbl"
    and node: "node_linked pro (length tbl) node" "node_fits pro node" "node_numbered md pro node" "node_written pro tbl node start"
    and ctx: "start + num \<le> ZTL_PRO_OPT_SEC_NUM_INNODE" "pa_naddr ctx = min num 64" "length (pa_addr ctx) = 128" "length (pa_nsec ctx) = 128"
      "\<forall>j < min num 64. g_zone (pa_addr ctx ! j) = g_zone (zn_addr (nzone pro node ((start + j) mod 64))) \<and>
         pa_nsec ctx ! j = 8 * zone_share num j"
  shows "\<exists>tbl'. ztl_pro_free md ctx grp = Some (app_grp_ctx_sub (with_tbl grp tbl')) \<and> length tbl' = length tbl \<and>
    node_written pro tbl' node (start + num) \<and> (\<forall>e < length tbl. tbl' ! e = (tbl ! e)\<lparr>ze_wptr := ze_wptr (tbl' ! e)\<rparr>) \<and>
    (\<forall>e < length tbl. (\<forall>z < 64. e \<noteq> nent pro node z) \<longrightarrow> tbl' ! e = tbl ! e)"
proof -
  let ?e = "\<lambda>j. nent pro node ((start + j) mod 64)"
  have w: "ze_wptr (tbl ! ?e j) = g_sect (zn_addr (nzone pro node ((start + j) mod 64))) + 8 * ((start + j) div 64)" if "j < 64" for j
    using node(4) that by (simp add: node_written_def slots_before_here)
  have "ze_wptr (tbl ! ?e j) + 8 * zone_share num j < 2 ^ 64" if "j < min num 64" for j
  proof -
    have "slots_before (start + num) ((start + j) mod 64) \<le> 3072" using slots_before_le [OF ctx(1)] .
    then have "(start + j) div 64 + zone_share num j \<le> 3072" using slots_before_round [of j start num] that by simp
    moreover have "g_sect (zn_addr (nzone pro node ((start + j) mod 64))) + 24576 \<le> 2 ^ 36" using node(2) by (simp add: node_fits_def)
    ultimately show ?thesis using w [of j] that by simp
  qed
  then obtain tbl' where t: "pro_free_loop md ctx 0 (min num 64) grp = Some (with_tbl grp tbl')" "length tbl' = length tbl"
    "\<forall>j < min num 64. ze_wptr (tbl' ! ?e j) = ze_wptr (tbl ! ?e j) + 8 * zone_share num j"
    "\<forall>k < length tbl. tbl' ! k = (tbl ! k)\<lparr>ze_wptr := ze_wptr (tbl' ! k)\<rparr> \<and> ((\<forall>j < min num 64. k \<noteq> ?e j) \<longrightarrow> tbl' ! k = tbl ! k)"
    using pro_free_loop_ok [OF grp node(1,3), of 0 "min num 64" num ctx start] ctx by auto
  have "ze_wptr (tbl' ! nent pro node z) = g_sect (zn_addr (nzone pro node z)) + 8 * slots_before (start + num) z" if z: "z < 64" for z
  proof -
    obtain j where j: "j < 64" "(start + j) mod 64 = z" using zone_in_round [OF z] by blast
    show ?thesis
    proof (cases "j < min num 64")
      case True
      then have "ze_wptr (tbl' ! ?e j) = ze_wptr (tbl ! ?e j) + 8 * zone_share num j" using t(3) by blast
      then show ?thesis using w [OF j(1)] slots_before_round [OF j(1), of start num] j(2) by simp
    next
      case False
      then have "zone_share num j = 0" using j(1) by (simp add: zone_share_def)
      moreover have "\<forall>i < min num 64. ?e j \<noteq> ?e i" using False round_ent_neq [OF node(1) j(1), of _ start] by auto
      then have "tbl' ! ?e j = tbl ! ?e j" using t(4) node_linkedD(3) [OF node(1), of "(start + j) mod 64"] by simp
      ultimately show ?thesis using w [OF j(1)] slots_before_round [OF j(1), of start num] j(2) by simp
    qed
  qed
  moreover have "\<forall>e < length tbl. (\<forall>z < 64. e \<noteq> nent pro node z) \<longrightarrow> tbl' ! e = tbl ! e" using t(4) by simp
  ultimately show ?thesis using t(1,2,4) ctx(2) by (auto simp: ztl_pro_free_def node_written_def)
qed

end
