(* ===== verification/Ztl_Io_Read.thy ===== *)
theory Ztl_Io_Read
  imports Ztl_Io_Populate
begin

text \<open>
  The read path of \<open>ztl-io.c\<close>. A user read names a node and a byte offset in it; it becomes one
  media command per piece of a slot it touches, and the data is copied from the DMA buffer of a
  command to the buffer of the user when the command completes.

  The state is the record \<open>read_world\<close>: the user command, the read resource, the state of the media
  layer, and the memory of the caller. The contents of the DMA buffers belong to the state of xNVMe;
  \<open>dma\<close> reads them. A resubmission within the loop over the commands and within a drain may go on
  forever, so both loops take fuel.
\<close>

section \<open>Model\<close>

record ztl_read_rs =
  rs_tctx :: nat
  rs_mcmd :: "xztl_io_mcmd list"
  rs_prp :: "nat list"
  rs_usedflag :: bool

record 'x read_world =
  rw_ucmd :: xztl_io_ucmd
  rw_r :: ztl_read_rs
  rw_media :: "'x media_state"
  rw_mem :: "nat \<Rightarrow> nat"

text \<open>\<open>memcpy\<close> from a DMA buffer to the memory of the caller.\<close>

definition memcpy :: "('x \<Rightarrow> nat \<Rightarrow> nat) \<Rightarrow> 'x \<Rightarrow> nat \<Rightarrow> nat \<Rightarrow> nat \<Rightarrow> (nat \<Rightarrow> nat) \<Rightarrow> nat \<Rightarrow> nat" where
  "memcpy dma x dst src n mem = (\<lambda>a. if dst \<le> a \<and> a < dst + n then dma x (src + (a - dst)) else mem a)"

definition put_rcmd :: "nat \<Rightarrow> xztl_io_mcmd \<Rightarrow> 'x read_world \<Rightarrow> 'x read_world" where
  "put_rcmd k mcmd w = w\<lparr>rw_r := (rw_r w)\<lparr>rs_mcmd := (rs_mcmd (rw_r w))[k := mcmd]\<rparr>\<rparr>"

definition read_stats_inc :: "xztl_stats_io_types \<Rightarrow> nat \<Rightarrow> 'x read_world \<Rightarrow> 'x read_world option" where
  "read_stats_inc type n w = do {
     io \<leftarrow> xztl_stats_inc (st type) n (ms_io (rw_media w));
     Some (w\<lparr>rw_media := (rw_media w)\<lparr>ms_io := io\<rparr>\<rparr>) }"

definition read_submit :: "'x media_state xztl_core \<Rightarrow> nat \<Rightarrow> 'x read_world \<Rightarrow> (int \<times> 'x read_world) option" where
  "read_submit core k w = do {
     mcmd \<leftarrow> get_at (rs_mcmd (rw_r w)) k;
     (ret, mcmd, s) \<leftarrow> xztl_media_submit_io core mcmd (rw_media w);
     Some (ret, (put_rcmd k mcmd w)\<lparr>rw_media := s\<rparr>) }"

subsection \<open>Completions\<close>

definition ztl_io_read_callback_mcmd ::
    "('x \<Rightarrow> nat \<Rightarrow> nat) \<Rightarrow> 'x media_state xztl_core \<Rightarrow> nat \<Rightarrow> 'x read_world \<Rightarrow> 'x read_world option" where
  "ztl_io_read_callback_mcmd dma core k w = do {
     mcmd \<leftarrow> get_at (rs_mcmd (rw_r w)) k;
     if mc_status mcmd \<noteq> 0
     then do {
       w \<leftarrow> read_stats_inc XZTL_STATS_READ_CALLBACK_FAIL 1 w;
       let mcmd = mcmd\<lparr>mc_callback_err_cnt := u8 (mc_callback_err_cnt mcmd + 1)\<rparr>;
       let w = put_rcmd k mcmd w;
       if mc_callback_err_cnt mcmd < MAX_CALLBACK_ERR_CNT
       then do {
         (ret, w) \<leftarrow> read_submit core k w;
         if ret \<noteq> 0 then read_stats_inc XZTL_STATS_READ_SUBMIT_FAIL 1 w else Some w }
       else Some (w\<lparr>rw_ucmd := (rw_ucmd w)\<lparr>uc_status := u8 (mc_status mcmd)\<rparr>\<rparr>) }
     else Some (w\<lparr>rw_mem := memcpy dma (ms_x (rw_media w)) (uc_buf (rw_ucmd w) + mc_buf_off mcmd)
            (mc_prp mcmd + u32 (mc_sequence mcmd)) (mc_cpsize mcmd) (rw_mem w)\<rparr>) }"

text \<open>The callback of the media layer around the callback of a read command.\<close>

definition read_complete ::
    "('x \<Rightarrow> nat \<Rightarrow> nat) \<Rightarrow> 'x xnvme \<Rightarrow> 'x media_state xztl_core \<Rightarrow> completion \<Rightarrow> 'x read_world \<Rightarrow> 'x read_world option" where
  "read_complete dma xn core done w = do {
     let (k, status, cdw0) = done;
     mcmd \<leftarrow> get_at (rs_mcmd (rw_r w)) k;
     w \<leftarrow> ztl_io_read_callback_mcmd dma core k (put_rcmd k (async_cb_status status cdw0 mcmd) w);
     mcmd \<leftarrow> get_at (rs_mcmd (rw_r w)) k;
     s \<leftarrow> async_cb_put xn mcmd (rw_media w);
     Some (w\<lparr>rw_media := s\<rparr>) }"

text \<open>The drain of a queue: completions until nothing is outstanding.\<close>

fun read_drain ::
    "('x \<Rightarrow> nat \<Rightarrow> nat) \<Rightarrow> 'x xnvme \<Rightarrow> 'x media_state xztl_core \<Rightarrow> nat \<Rightarrow> nat \<Rightarrow> 'x read_world \<Rightarrow> 'x read_world option" where
  "read_drain dma xn core queue 0 w = None"
| "read_drain dma xn core queue (Suc fuel) w =
     (case xn_drain xn queue (ms_x (rw_media w)) of
        (None, x) \<Rightarrow> Some (w\<lparr>rw_media := (rw_media w)\<lparr>ms_x := x\<rparr>\<rparr>)
      | (Some c, x) \<Rightarrow> do {
          w \<leftarrow> read_complete dma xn core c (w\<lparr>rw_media := (rw_media w)\<lparr>ms_x := x\<rparr>\<rparr>);
          read_drain dma xn core queue fuel w })"

subsection \<open>Commands of a read\<close>

text \<open>The variables of the loop that builds the commands. The product \<open>nlevel * ZTL_IO_SEC_MCMD\<close> is
  computed in \<open>int\<close>; its overflow is undefined.\<close>

record read_plan =
  rp_sec_left :: nat
  rp_zindex :: nat
  rp_zone_sec_off :: nat
  rp_read_num :: nat
  rp_nlevel :: int
  rp_misalign :: nat
  rp_bytes_off :: nat
  rp_left :: nat
  rp_total_cmd :: nat

definition level_off :: "int \<Rightarrow> nat option" where
  "level_off nlevel = (let p = nlevel * int ZTL_IO_SEC_MCMD in
     if p < - (2 ^ 31) \<or> 2 ^ 31 \<le> p then None else Some (u64_of_int p))"

definition read_cmd :: "nat \<Rightarrow> nat \<Rightarrow> nat \<Rightarrow> read_plan \<Rightarrow> xztl_io_mcmd" where
  "read_cmd tctx prp sect rp =
     (let bytes = usub 64 (u64 (rp_read_num rp * ZNS_ALIGMENT)) (rp_misalign rp);
          cpsize = (if bytes > rp_left rp then rp_left rp else bytes)
      in zero_mcmd\<lparr>mc_opcode := op XZTL_CMD_READ, mc_naddr := 1, mc_synch := 0, mc_async_ctx := tctx,
           mc_addr := set_sect (u64 (sect + rp_zone_sec_off rp)) 0, mc_nsec := rp_read_num rp, mc_callback_err_cnt := 0,
           mc_prp := prp, mc_status := 0, mc_callback := CB_READ, mc_sequence := u32 (rp_misalign rp),
           mc_buf_off := rp_bytes_off rp, mc_cpsize := cpsize, mc_submitted := 0, mc_ptr := rp_total_cmd rp\<rparr>)"

text \<open>One turn: the command, and the variables for the next one.\<close>

definition read_turn ::
    "ztl_pro_node_grp \<Rightarrow> ztl_pro_node \<Rightarrow> nat \<Rightarrow> nat list \<Rightarrow> read_plan \<Rightarrow> (xztl_io_mcmd \<times> read_plan) option" where
  "read_turn pro znode tctx prps rp = do {
     prp \<leftarrow> get_at prps (rp_total_cmd rp);
     zone \<leftarrow> node_zone pro znode (rp_zindex rp);
     let mcmd = read_cmd tctx prp (g_sect (zn_addr zone)) rp;
     let sec_left = usub 64 (rp_sec_left rp) (mc_nsec mcmd);
     let left = usub 64 (rp_left rp) (mc_cpsize mcmd);
     let zindex = (rp_zindex rp + 1) mod ZTL_PRO_ZONE_NUM_INNODE;
     let nlevel = (if zindex = 0 then rp_nlevel rp + 1 else rp_nlevel rp);
     if sec_left = 0
     then Some (mcmd, rp\<lparr>rp_sec_left := 0, rp_left := left, rp_total_cmd := rp_total_cmd rp + 1\<rparr>)
     else do {
       zone_sec_off \<leftarrow> level_off nlevel;
       Some (mcmd, \<lparr>rp_sec_left = sec_left, rp_zindex = zindex, rp_zone_sec_off = zone_sec_off,
         rp_read_num = (if sec_left > ZTL_IO_SEC_MCMD then ZTL_IO_SEC_MCMD else sec_left), rp_nlevel = nlevel,
         rp_misalign = 0, rp_bytes_off = u64 (rp_bytes_off rp + mc_cpsize mcmd), rp_left = left,
         rp_total_cmd = rp_total_cmd rp + 1\<rparr>) } }"

text \<open>The loop stores each command in its slot. The number of commands is bounded by the slots, so the
  recursion is over the slots left.\<close>

fun read_build ::
    "ztl_pro_node_grp \<Rightarrow> ztl_pro_node \<Rightarrow> nat \<Rightarrow> nat \<Rightarrow> read_plan \<Rightarrow> xztl_io_ucmd \<times> ztl_read_rs \<Rightarrow>
     (read_plan \<times> xztl_io_ucmd \<times> ztl_read_rs) option" where
  "read_build pro znode tctx slots rp (ucmd, r) =
     (if rp_sec_left rp = 0 then Some (rp, ucmd, r)
      else case slots of
        0 \<Rightarrow> None
      | Suc slots' \<Rightarrow> do {
          (mcmd, rp') \<leftarrow> read_turn pro znode tctx (rs_prp r) rp;
          mcmds \<leftarrow> set_at (rs_mcmd r) (rp_total_cmd rp) mcmd;
          umcmd \<leftarrow> set_at (uc_mcmd ucmd) (rp_total_cmd rp) (Some (rp_total_cmd rp));
          read_build pro znode tctx slots' rp' (ucmd\<lparr>uc_mcmd := umcmd\<rparr>, r\<lparr>rs_mcmd := mcmds\<rparr>) })"

declare read_build.simps [simp del]

definition read_start :: "nat \<Rightarrow> nat \<Rightarrow> (nat \<times> read_plan) option" where
  "read_start offset sz = do {
     let misalign = offset mod ZNS_ALIGMENT;
     let bytes = u64 (sz + misalign);
     let sec_size = bytes div ZNS_ALIGMENT + (if bytes mod ZNS_ALIGMENT \<noteq> 0 then 1 else 0);
     let sec_start = offset div ZNS_ALIGMENT;
     let level_secs = ZTL_PRO_ZONE_NUM_INNODE * ZTL_IO_SEC_MCMD;
     let nlevel = s32 (int (sec_start div level_secs));
     lv \<leftarrow> level_off nlevel;
     let zindex = (sec_start mod level_secs) div ZTL_IO_SEC_MCMD;
     let in_slot = (sec_start mod level_secs) mod ZTL_IO_SEC_MCMD;
     let read_num = ZTL_IO_SEC_MCMD - in_slot;
     let read_num = (if sec_size > read_num then read_num else sec_size);
     Some (sec_size, \<lparr>rp_sec_left = sec_size, rp_zindex = zindex, rp_zone_sec_off = u64 (lv + in_slot), rp_read_num = read_num,
       rp_nlevel = nlevel, rp_misalign = misalign, rp_bytes_off = 0, rp_left = sz, rp_total_cmd = 0\<rparr>) }"

subsection \<open>A user read\<close>

text \<open>One pass over the commands that are not submitted yet.\<close>

fun read_pass ::
    "'x media_state xztl_core \<Rightarrow> nat \<Rightarrow> nat \<Rightarrow> int \<Rightarrow> nat \<Rightarrow> 'x read_world \<Rightarrow> (int \<times> nat \<times> 'x read_world) option" where
  "read_pass core cmd_i 0 ret submitted w = Some (ret, submitted, w)"
| "read_pass core cmd_i (Suc left) ret submitted w = do {
     slot \<leftarrow> get_at (uc_mcmd (rw_ucmd w)) cmd_i;
     k \<leftarrow> slot;
     mcmd \<leftarrow> get_at (rs_mcmd (rw_r w)) k;
     if mc_submitted mcmd \<noteq> 0 then read_pass core (cmd_i + 1) left ret submitted w
     else do {
       (ret, w) \<leftarrow> read_submit core k w;
       if ret \<noteq> 0
       then do {
         w \<leftarrow> read_stats_inc XZTL_STATS_READ_SUBMIT_FAIL 1 w;
         read_pass core (cmd_i + 1) left ret submitted w }
       else do {
         mcmd \<leftarrow> get_at (rs_mcmd (rw_r w)) k;
         read_pass core (cmd_i + 1) left ret (submitted + 1) (put_rcmd k (mcmd\<lparr>mc_submitted := 1\<rparr>) w) } } }"

fun read_submit_loop ::
    "'x media_state xztl_core \<Rightarrow> nat \<Rightarrow> nat \<Rightarrow> int \<Rightarrow> nat \<Rightarrow> 'x read_world \<Rightarrow> (int \<times> 'x read_world) option" where
  "read_submit_loop core total_cmd fuel ret submitted w =
     (if total_cmd \<le> submitted then Some (ret, w)
      else case fuel of
        0 \<Rightarrow> None
      | Suc fuel' \<Rightarrow> do {
          (ret, submitted, w) \<leftarrow> read_pass core 0 total_cmd ret submitted w;
          read_submit_loop core total_cmd fuel' ret submitted w })"

declare read_submit_loop.simps [simp del]

definition read_single ::
    "('x \<Rightarrow> nat \<Rightarrow> nat) \<Rightarrow> 'x media_state xztl_core \<Rightarrow> 'x read_world \<Rightarrow> (int \<times> 'x read_world) option" where
  "read_single dma core w = do {
     slot \<leftarrow> get_at (uc_mcmd (rw_ucmd w)) 0;
     k \<leftarrow> slot;
     mcmd \<leftarrow> get_at (rs_mcmd (rw_r w)) k;
     (ret, w) \<leftarrow> read_submit core k (put_rcmd k (mcmd\<lparr>mc_synch := 1\<rparr>) w);
     mcmd \<leftarrow> get_at (rs_mcmd (rw_r w)) k;
     Some (ret, w\<lparr>rw_mem := memcpy dma (ms_x (rw_media w)) (uc_buf (rw_ucmd w)) (mc_prp mcmd + mc_sequence mcmd)
         (mc_cpsize mcmd) (rw_mem w), rw_ucmd := (rw_ucmd w)\<lparr>uc_completed := 1\<rparr>\<rparr>) }"

definition read_many ::
    "('x \<Rightarrow> nat \<Rightarrow> nat) \<Rightarrow> 'x xnvme \<Rightarrow> 'x media_state xztl_core \<Rightarrow> nat \<Rightarrow> nat \<Rightarrow> 'x read_world \<Rightarrow> (int \<times> 'x read_world) option" where
  "read_many dma xn core fuel total_cmd w = do {
     let w = w\<lparr>rw_ucmd := (rw_ucmd w)\<lparr>uc_nmcmd := u16 total_cmd\<rparr>\<rparr>;
     (ret, w) \<leftarrow> read_submit_loop core total_cmd fuel 0 0 w;
     queue \<leftarrow> ms_tctx (rw_media w) (rs_tctx (rw_r w));
     w \<leftarrow> read_drain dma xn core queue fuel w;
     Some (ret, w\<lparr>rw_ucmd := (rw_ucmd w)\<lparr>uc_completed := 1\<rparr>\<rparr>) }"

definition ztl_io_read_ucmd ::
    "('x \<Rightarrow> nat \<Rightarrow> nat) \<Rightarrow> 'x xnvme \<Rightarrow> 'x media_state xztl_core \<Rightarrow> app_group \<Rightarrow> nat \<Rightarrow> 'x read_world \<Rightarrow> (int \<times> 'x read_world) option" where
  "ztl_io_read_ucmd dma xn core grp fuel w = do {
     node_id \<leftarrow> get_at (uc_node_id (rw_ucmd w)) 0;
     pro \<leftarrow> gr_pro grp;
     znode \<leftarrow> get_at (pg_vnodes pro) (u32 node_id);
     (sec_size, rp) \<leftarrow> read_start (uc_offset (rw_ucmd w)) (uc_size (rw_ucmd w));
     (rp, ucmd, r) \<leftarrow> read_build pro znode (rs_tctx (rw_r w)) ZTL_IO_RC_NUM rp (rw_ucmd w, rw_r w);
     w \<leftarrow> read_stats_inc XZTL_STATS_READ_BYTES (u64 (sec_size * ZNS_ALIGMENT)) (w\<lparr>rw_ucmd := ucmd, rw_r := r\<rparr>);
     if rp_total_cmd rp = 1 then read_single dma core w else read_many dma xn core fuel (rp_total_cmd rp) w }"

subsection \<open>Read resources\<close>

fun get_read_rs_loop :: "nat \<Rightarrow> nat \<Rightarrow> ztl_read_rs list \<Rightarrow> (int \<times> ztl_read_rs list) option" where
  "get_read_rs_loop i 0 rs = Some (-1, rs)"
| "get_read_rs_loop i (Suc left) rs = do {
     r \<leftarrow> get_at rs i;
     if \<not> rs_usedflag r then Some (int i, rs[i := r\<lparr>rs_usedflag := True\<rparr>])
     else get_read_rs_loop (i + 1) left rs }"

definition ztl_io_get_read_rs :: "znd_media \<Rightarrow> ztl_read_rs list \<Rightarrow> (int \<times> ztl_read_rs list) option" where
  "ztl_io_get_read_rs zv rs = get_read_rs_loop 0 (zv_read_ctx_num zv) rs"

definition ztl_io_put_read_rs :: "int \<Rightarrow> ztl_read_rs list \<Rightarrow> ztl_read_rs list option" where
  "ztl_io_put_read_rs i rs = (if i < 0 then None else do {
     r \<leftarrow> get_at rs (nat i);
     set_at rs (nat i) (r\<lparr>rs_usedflag := False\<rparr>) })"

definition ztl_io_read ::
    "('x \<Rightarrow> nat \<Rightarrow> nat) \<Rightarrow> 'x xnvme \<Rightarrow> 'x media_state xztl_core \<Rightarrow> znd_media \<Rightarrow> app_group \<Rightarrow> nat \<Rightarrow> ztl_read_rs list \<Rightarrow>
     xztl_io_ucmd \<Rightarrow> 'x media_state \<Rightarrow> (nat \<Rightarrow> nat) \<Rightarrow>
     (int \<times> ztl_read_rs list \<times> xztl_io_ucmd \<times> 'x media_state \<times> (nat \<Rightarrow> nat)) option" where
  "ztl_io_read dma xn core zv grp fuel rs ucmd s mem = do {
     (i, rs) \<leftarrow> ztl_io_get_read_rs zv rs;
     if i < 0 then Some (xz XZTL_ZTL_IO_ERR, rs, ucmd, s, mem)
     else do {
       r \<leftarrow> get_at rs (nat i);
       (ret, w) \<leftarrow> ztl_io_read_ucmd dma xn core grp fuel \<lparr>rw_ucmd = ucmd, rw_r = r, rw_media = s, rw_mem = mem\<rparr>;
       rs \<leftarrow> set_at rs (nat i) (rw_r w);
       rs \<leftarrow> ztl_io_put_read_rs i rs;
       Some (ret, rs, rw_ucmd w, rw_media w, rw_mem w) } }"

section \<open>Commands in closed form\<close>

text \<open>Command \<open>j\<close> of a read of \<open>sz\<close> bytes from offset \<open>off\<close> takes the bytes of slot \<open>off div 32768 + j\<close>:
  from byte \<open>rd_from\<close> up to byte \<open>rd_to\<close>.\<close>

definition rd_slot :: "nat \<Rightarrow> nat \<Rightarrow> nat" where
  "rd_slot off j = off div 32768 + j"

definition rd_from :: "nat \<Rightarrow> nat \<Rightarrow> nat" where
  "rd_from off j = (if j = 0 then off else 32768 * rd_slot off j)"

definition rd_to :: "nat \<Rightarrow> nat \<Rightarrow> nat \<Rightarrow> nat" where
  "rd_to off sz j = min (off + sz) (32768 * (rd_slot off j + 1))"

definition rd_num :: "nat \<Rightarrow> nat \<Rightarrow> nat" where
  "rd_num off sz = (off + sz + 32767) div 32768 - off div 32768"

definition sec_up :: "nat \<Rightarrow> nat" where
  "sec_up b = (b + 4095) div 4096"

definition rd_cmd :: "ztl_pro_node_grp \<Rightarrow> ztl_pro_node \<Rightarrow> nat \<Rightarrow> nat list \<Rightarrow> nat \<Rightarrow> nat \<Rightarrow> nat \<Rightarrow> xztl_io_mcmd" where
  "rd_cmd pro node tctx prps off sz j = zero_mcmd\<lparr>mc_opcode := op XZTL_CMD_READ, mc_naddr := 1, mc_async_ctx := tctx,
     mc_addr := set_sect (slot_sector pro node (rd_slot off j) + rd_from off j div 4096 mod 8) 0,
     mc_nsec := sec_up (rd_to off sz j) - rd_from off j div 4096, mc_prp := prps ! j, mc_callback := CB_READ,
     mc_sequence := rd_from off j mod 4096, mc_buf_off := rd_from off j - off, mc_cpsize := rd_to off sz j - rd_from off j,
     mc_ptr := j\<rparr>"

definition rd_plan :: "nat \<Rightarrow> nat \<Rightarrow> nat \<Rightarrow> read_plan" where
  "rd_plan off sz j =
     \<lparr>rp_sec_left = sec_up (off + sz) - rd_from off j div 4096, rp_zindex = rd_slot off j mod 64,
      rp_zone_sec_off = 8 * (rd_slot off j div 64) + rd_from off j div 4096 mod 8,
      rp_read_num = sec_up (rd_to off sz j) - rd_from off j div 4096, rp_nlevel = int (rd_slot off j div 64),
      rp_misalign = rd_from off j mod 4096, rp_bytes_off = rd_from off j - off, rp_left = off + sz - rd_from off j,
      rp_total_cmd = j\<rparr>"

lemma sec_up_bounds: "b \<le> 4096 * sec_up b" "4096 * sec_up b < b + 4096"
  unfolding sec_up_def using div_mult_mod_eq [of "b + 4095" 4096] mod_less_divisor [of 4096 "b + 4095"] by linarith+

lemma sec_up_mult: "sec_up (4096 * n) = n"
  using sec_up_bounds [of "4096 * n"] by linarith

lemma sec_up_slot: "sec_up (32768 * n) = 8 * n"
  using sec_up_mult [of "8 * n"] by simp

lemma sec_up_mono: "a \<le> b \<Longrightarrow> sec_up a \<le> sec_up b"
  by (simp add: sec_up_def div_le_mono)

text \<open>A command is not empty, and only the last one ends before its slot.\<close>

lemma rd_range:
  assumes "j < rd_num off sz" "0 < sz"
  shows "rd_from off j < rd_to off sz j" "32768 * rd_slot off j \<le> rd_from off j" "rd_to off sz j \<le> 32768 * (rd_slot off j + 1)"
    "rd_from off j div 32768 = rd_slot off j" "off \<le> rd_from off j" "rd_to off sz j \<le> off + sz"
    "Suc j < rd_num off sz \<Longrightarrow> rd_to off sz j = 32768 * (rd_slot off j + 1) \<and> rd_to off sz j < off + sz"
    "Suc j = rd_num off sz \<Longrightarrow> rd_to off sz j = off + sz"
proof -
  define T where "T = off div 32768"
  define U where "U = (off + sz + 32767) div 32768"
  have o: "32768 * T \<le> off" "off < 32768 * T + 32768"
    unfolding T_def using div_mult_mod_eq [of off 32768] mod_less_divisor [of 32768 off] by linarith+
  have u: "off + sz \<le> 32768 * U" "32768 * U < off + sz + 32768"
    unfolding U_def using div_mult_mod_eq [of "off + sz + 32767" 32768] mod_less_divisor [of 32768 "off + sz + 32767"] by linarith+
  have j: "T + j < U" using assms(1) unfolding rd_num_def U_def T_def by linarith
  show f: "rd_from off j < rd_to off sz j" "32768 * rd_slot off j \<le> rd_from off j" "rd_to off sz j \<le> 32768 * (rd_slot off j + 1)"
    "off \<le> rd_from off j" "rd_to off sz j \<le> off + sz"
    using o u j assms(2) unfolding rd_from_def rd_to_def rd_slot_def T_def [symmetric] by (auto simp: min_def)
  show "rd_from off j div 32768 = rd_slot off j" using f by (intro div_nat_eqI) simp_all
  show "rd_to off sz j = 32768 * (rd_slot off j + 1) \<and> rd_to off sz j < off + sz" if "Suc j < rd_num off sz"
    using that u unfolding rd_num_def U_def [symmetric] T_def [symmetric] rd_to_def rd_slot_def by (auto simp: min_def)
  show "rd_to off sz j = off + sz" if "Suc j = rd_num off sz"
    using that u j unfolding rd_num_def U_def [symmetric] T_def [symmetric] rd_to_def rd_slot_def by (auto simp: min_def)
qed

lemma rd_from_Suc: "rd_from off (Suc j) = 32768 * (rd_slot off j + 1)" "rd_slot off (Suc j) = rd_slot off j + 1"
  by (simp_all add: rd_from_def rd_slot_def)

text \<open>Sectors and bytes of a command.\<close>

lemma rd_sectors:
  assumes "j < rd_num off sz" "0 < sz"
  defines "a \<equiv> rd_from off j" and "b \<equiv> rd_to off sz j"
  shows "a div 4096 < sec_up b" "sec_up b - a div 4096 \<le> 8" "4096 * (a div 4096) + a mod 4096 = a" "sec_up b \<le> sec_up (off + sz)"
    "min (off + sz - a) ((sec_up b - a div 4096) * 4096 - a mod 4096) = b - a"
    "a mod 4096 \<le> (sec_up b - a div 4096) * 4096"
proof -
  define s where "s = a div 4096"
  define m where "m = a mod 4096"
  define E where "E = sec_up b"
  note r = rd_range [OF assms(1,2), folded a_def b_def]
  have a: "a = 4096 * s + m" "m < 4096" by (simp_all add: s_def m_def)
  have e: "b \<le> 4096 * E" "4096 * E < b + 4096" using sec_up_bounds [of b] by (simp_all add: E_def)
  have s: "8 * rd_slot off j \<le> s" using r(2) by (simp add: s_def less_eq_div_iff_mult_less_eq)
  have lt: "s < E" using a e r(1) by linarith
  have E8: "E \<le> 8 * (rd_slot off j + 1)" using e r(3) by linarith
  show "a div 4096 < sec_up b" "sec_up b - a div 4096 \<le> 8" "4096 * (a div 4096) + a mod 4096 = a" "sec_up b \<le> sec_up (off + sz)"
    "a mod 4096 \<le> (sec_up b - a div 4096) * 4096"
    using lt E8 s a sec_up_mono [OF r(6)] unfolding s_def [symmetric] E_def [symmetric] m_def [symmetric] by simp_all
  have d: "(E - s) * 4096 - m = 4096 * E - a" using a by (simp add: diff_mult_distrib)
  have "off + sz = b \<or> b = 4096 * E"
  proof (cases "Suc j < rd_num off sz")
    case True
    then have "b = 32768 * (rd_slot off j + 1)" using r(7) by simp
    then have "E = 8 * (rd_slot off j + 1)" using e by linarith
    then show ?thesis using \<open>b = 32768 * (rd_slot off j + 1)\<close> by simp
  next
    case False
    then show ?thesis using r(8) assms(1) by simp
  qed
  then show "min (off + sz - a) ((sec_up b - a div 4096) * 4096 - a mod 4096) = b - a"
    using r(6) e d unfolding s_def [symmetric] E_def [symmetric] m_def [symmetric] by auto
qed

text \<open>The loop follows the closed form.\<close>

definition read_fits :: "ztl_pro_node_grp \<Rightarrow> ztl_pro_node \<Rightarrow> nat \<Rightarrow> nat \<Rightarrow> bool" where
  "read_fits pro node off sz \<longleftrightarrow> 0 < sz \<and> off + sz \<le> 32768 * ZTL_PRO_OPT_SEC_NUM_INNODE \<and>
     (\<forall>z < 64. node_zone pro node z = Some (nzone pro node z)) \<and> node_fits pro node"

lemma slot_lt:
  assumes "read_fits pro node off sz" "j < rd_num off sz"
  shows "rd_slot off j < ZTL_PRO_OPT_SEC_NUM_INNODE"
  using assms(1) rd_range(1,2,6) [OF assms(2)] by (simp add: read_fits_def)

lemma read_cmd_at:
  assumes fits: "read_fits pro node off sz" and j: "j < rd_num off sz"
  shows "read_cmd tctx (prps ! j) (g_sect (zn_addr (nzone pro node (rd_slot off j mod 64)))) (rd_plan off sz j) =
    rd_cmd pro node tctx prps off sz j"
proof -
  define a where "a = rd_from off j"
  define b where "b = rd_to off sz j"
  have sz: "0 < sz" "off + sz \<le> 6442450944" using fits by (simp_all add: read_fits_def)
  note r = rd_range [OF j sz(1), folded a_def b_def] and q = rd_sectors [OF j sz(1), folded a_def b_def]
  have nsec: "sec_up b - a div 4096 \<le> 8" using q(2) .
  have u1: "u64 ((sec_up b - a div 4096) * 4096) = (sec_up b - a div 4096) * 4096" using nsec by (intro u64_small) linarith
  have u2: "usub 64 ((sec_up b - a div 4096) * 4096) (a mod 4096) = (sec_up b - a div 4096) * 4096 - a mod 4096"
    using q(6) nsec by (intro usub_small) auto
  have u3: "u32 (a mod 4096) = a mod 4096" using mod_less_divisor [of 4096 a] by (intro u32_small) linarith
  have "rd_slot off j < 196608" using slot_lt [OF fits j] by simp
  then have d: "rd_slot off j div 64 < 3072" by (simp add: div_less_iff_less_mult)
  have "g_sect (zn_addr (nzone pro node (rd_slot off j mod 64))) + 24576 \<le> 68719476736" using fits by (simp add: read_fits_def node_fits_def)
  moreover have "a div 4096 mod 8 < 8" by simp
  ultimately have u4: "u64 (g_sect (zn_addr (nzone pro node (rd_slot off j mod 64))) + (8 * (rd_slot off j div 64) + a div 4096 mod 8)) =
      slot_sector pro node (rd_slot off j) + a div 4096 mod 8"
    using d unfolding slot_sector_def by (subst u64_small) linarith+
  show ?thesis
    unfolding read_cmd_def rd_cmd_def rd_plan_def Let_def a_def [symmetric] b_def [symmetric]
    using q(5) by (simp add: u1 u2 u3 u4 zero_mcmd_def min_def split: if_splits)
qed

lemma level_off_small: "n < 3073 \<Longrightarrow> level_off (int n) = Some (8 * n)"
  by (simp add: level_off_def u64_of_int_small nat_mult_distrib)

lemma rd_plan_next:
  assumes fits: "read_fits pro node off sz" and j: "Suc j < rd_num off sz"
  shows "sec_up (off + sz) - rd_from off j div 4096 - (sec_up (rd_to off sz j) - rd_from off j div 4096) = rp_sec_left (rd_plan off sz (Suc j))"
    "0 < rp_sec_left (rd_plan off sz (Suc j))"
    "(if rp_sec_left (rd_plan off sz (Suc j)) > 8 then 8 else rp_sec_left (rd_plan off sz (Suc j))) = rp_read_num (rd_plan off sz (Suc j))"
    "rd_from off j - off + (rd_to off sz j - rd_from off j) = rd_from off (Suc j) - off"
    "off + sz - rd_from off j - (rd_to off sz j - rd_from off j) = off + sz - rd_from off (Suc j)"
proof -
  have sz: "0 < sz" using fits by (simp add: read_fits_def)
  have j0: "j < rd_num off sz" using j by simp
  note r = rd_range [OF j0 sz] and q = rd_sectors [OF j0 sz]
  define n where "n = rd_slot off j + 1"
  have b: "rd_to off sz j = 32768 * n" "32768 * n < off + sz" using r(7) j by (simp_all add: n_def)
  have f: "rd_from off (Suc j) = 32768 * n" "rd_slot off (Suc j) = n" by (simp_all add: rd_from_Suc n_def)
  have e: "sec_up (rd_to off sz j) = 8 * n" "rd_from off (Suc j) div 4096 = 8 * n" using b(1) f sec_up_slot by simp_all
  have E: "off + sz \<le> 4096 * sec_up (off + sz)" using sec_up_bounds by simp
  have p: "rp_sec_left (rd_plan off sz (Suc j)) = sec_up (off + sz) - 8 * n"
    "rp_read_num (rd_plan off sz (Suc j)) = sec_up (rd_to off sz (Suc j)) - 8 * n" by (simp_all add: rd_plan_def e)
  show "0 < rp_sec_left (rd_plan off sz (Suc j))" unfolding p using b(2) E by simp
  show "sec_up (off + sz) - rd_from off j div 4096 - (sec_up (rd_to off sz j) - rd_from off j div 4096) = rp_sec_left (rd_plan off sz (Suc j))"
    unfolding p e using q(1) e by simp
  show "rd_from off j - off + (rd_to off sz j - rd_from off j) = rd_from off (Suc j) - off"
    "off + sz - rd_from off j - (rd_to off sz j - rd_from off j) = off + sz - rd_from off (Suc j)"
    using r(1,5) b f by simp_all
  have "sec_up (rd_to off sz (Suc j)) = min (sec_up (off + sz)) (8 * (n + 1))"
    using sec_up_slot [of "n + 1"] sec_up_mono [of "off + sz" "32768 * (n + 1)"] sec_up_mono [of "32768 * (n + 1)" "off + sz"]
    unfolding rd_to_def f(2) by (auto simp: min_def)
  then show "(if rp_sec_left (rd_plan off sz (Suc j)) > 8 then 8 else rp_sec_left (rd_plan off sz (Suc j))) = rp_read_num (rd_plan off sz (Suc j))"
    unfolding p by (auto simp: min_def)
qed

lemma read_turn_at:
  assumes fits: "read_fits pro node off sz" and j: "j < rd_num off sz" and prps: "rd_num off sz \<le> length prps"
  shows "read_turn pro node tctx prps (rd_plan off sz j) = Some (rd_cmd pro node tctx prps off sz j,
    if Suc j < rd_num off sz then rd_plan off sz (Suc j)
    else (rd_plan off sz j)\<lparr>rp_sec_left := 0, rp_left := 0, rp_total_cmd := Suc j\<rparr>)"
proof -
  define a where "a = rd_from off j"
  define b where "b = rd_to off sz j"
  have sz: "0 < sz" "off + sz \<le> 6442450944" using fits by (simp_all add: read_fits_def)
  note r = rd_range [OF j sz(1), folded a_def b_def] and q = rd_sectors [OF j sz(1), folded a_def b_def]
  have zone: "node_zone pro node (rd_slot off j mod 64) = Some (nzone pro node (rd_slot off j mod 64))" using fits by (simp add: read_fits_def)
  have prp: "get_at prps j = Some (prps ! j)" using j prps by simp
  note cmd = read_cmd_at [OF fits j, of tctx prps]
  have E: "sec_up (off + sz) < 18446744073709551616" using sec_up_bounds(2) [of "off + sz"] sz(2) by linarith
  have u: "usub 64 (sec_up (off + sz) - a div 4096) (sec_up b - a div 4096) = sec_up (off + sz) - a div 4096 - (sec_up b - a div 4096)"
    "usub 64 (off + sz - a) (b - a) = off + sz - a - (b - a)"
    using q(4) E sz r(6) by (intro usub_small; simp)+
  have f: "mc_nsec (rd_cmd pro node tctx prps off sz j) = sec_up b - a div 4096" "mc_cpsize (rd_cmd pro node tctx prps off sz j) = b - a"
    by (simp_all add: rd_cmd_def a_def b_def)
  have p: "rp_total_cmd (rd_plan off sz j) = j" "rp_zindex (rd_plan off sz j) = rd_slot off j mod 64"
    "rp_sec_left (rd_plan off sz j) = sec_up (off + sz) - a div 4096" "rp_left (rd_plan off sz j) = off + sz - a"
    "rp_nlevel (rd_plan off sz j) = int (rd_slot off j div 64)" "rp_bytes_off (rd_plan off sz j) = a - off"
    by (simp_all add: rd_plan_def a_def)
  show ?thesis
  proof (cases "Suc j < rd_num off sz")
    case False
    then have "b = off + sz" using r(8) j by simp
    then have "usub 64 (sec_up (off + sz) - a div 4096) (sec_up b - a div 4096) = 0" "usub 64 (off + sz - a) (b - a) = 0" using u by simp_all
    then show ?thesis using False unfolding read_turn_def Let_def p
      by (simp add: prp zone cmd f)
  next
    case True
    note nx = rd_plan_next [OF fits True, folded a_def b_def]
    have z: "(rd_slot off j mod 64 + 1) mod 64 = rd_slot off (Suc j) mod 64" by (simp add: rd_slot_def mod_Suc_eq)
    have lv: "(if rd_slot off (Suc j) mod 64 = 0 then int (rd_slot off j div 64) + 1 else int (rd_slot off j div 64)) =
        int (rd_slot off (Suc j) div 64)" using div_Suc [of "rd_slot off j" 64] by (simp add: rd_slot_def)
    have "rd_slot off (Suc j) < 196608" using slot_lt [OF fits True] by simp
    then have "rd_slot off (Suc j) div 64 < 3073" by (simp add: div_less_iff_less_mult)
    note lo = level_off_small [OF this]
    have m: "rd_from off (Suc j) mod 4096 = 0" "rd_from off (Suc j) div 4096 mod 8 = 0" by (simp_all add: rd_from_Suc)
    have ub: "u64 (a - off + (b - a)) = rd_from off (Suc j) - off" 
    proof -
      have "rd_from off (Suc j) = b" "b - off \<le> 6442450944" using rd_from_Suc(1) [of off j] r(6,7) True sz(2) by linarith+
      then show ?thesis unfolding nx(4) by (simp add: u64_small)
    qed
    have nz: "usub 64 (sec_up (off + sz) - a div 4096) (sec_up b - a div 4096) = rp_sec_left (rd_plan off sz (Suc j))" using u(1) nx(1) by simp
    have lf: "usub 64 (off + sz - a) (b - a) = off + sz - rd_from off (Suc j)" using u(2) nx(5) by simp
    have "rd_plan off sz (Suc j) = \<lparr>rp_sec_left = rp_sec_left (rd_plan off sz (Suc j)), rp_zindex = rd_slot off (Suc j) mod 64,
        rp_zone_sec_off = 8 * (rd_slot off (Suc j) div 64), rp_read_num = rp_read_num (rd_plan off sz (Suc j)),
        rp_nlevel = int (rd_slot off (Suc j) div 64), rp_misalign = 0, rp_bytes_off = rd_from off (Suc j) - off,
        rp_left = off + sz - rd_from off (Suc j), rp_total_cmd = Suc j\<rparr>" by (simp add: rd_plan_def m)
    then show ?thesis using True nx(2)
      unfolding read_turn_def Let_def p prp zone cmd bind.bind_lunit f z nz lf lv lo ub nx(3) by simp
  qed
qed

lemma sec_up_add: "sec_up (4096 * s + b) = s + sec_up b"
  by (simp add: sec_up_def add.assoc)

lemma sec_up_alt: "b div 4096 + (if b mod 4096 \<noteq> 0 then 1 else 0) = sec_up b"
proof -
  have "sec_up b = b div 4096 + sec_up (b mod 4096)" using sec_up_add [of "b div 4096" "b mod 4096"] by simp
  moreover have "sec_up r = (if r \<noteq> 0 then 1 else 0)" if "r < 4096" for r
    using that sec_up_bounds [of r] by auto
  ultimately show ?thesis by simp
qed

lemma sec_up_to: "sec_up (min c (32768 * n)) = min (sec_up c) (8 * n)"
  using sec_up_slot [of n] sec_up_mono [of c "32768 * n"] sec_up_mono [of "32768 * n" c] by (auto simp: min_def)

lemma read_start_at:
  assumes "read_fits pro node off sz"
  shows "read_start off sz = Some (sec_up (off + sz) - off div 4096, rd_plan off sz 0)"
proof -
  define s where "s = off div 4096"
  define T where "T = off div 32768"
  have sz: "0 < sz" "off + sz \<le> 6442450944" using assms by (simp_all add: read_fits_def)
  have T: "T = s div 8" by (simp add: T_def s_def flip: div_mult2_eq)
  have m: "off = 4096 * s + off mod 4096" by (simp add: s_def)
  have b: "u64 (sz + off mod 4096) = sz + off mod 4096" using sz mod_less_eq_dividend [of off 4096] by (intro u64_small) linarith
  have E: "sec_up (off + sz) = s + sec_up (sz + off mod 4096)" using sec_up_add [of s "sz + off mod 4096"] m by (simp add: algebra_simps)
  have lv: "s div 512 = T div 64" "s mod 512 = 8 * (T mod 64) + s mod 8" using T div_mult2_eq [of s 8 64] mod_mult2_eq [of s 8 64] by simp_all
  have "T < 196608" using sz by (simp add: T_def less_mult_imp_div_less)
  then have t: "T div 64 < 3072" by (simp add: div_less_iff_less_mult)
  then have n: "s32 (int (T div 64)) = int (T div 64)" by (intro s32_small) simp_all
  have lo: "level_off (int (T div 64)) = Some (8 * (T div 64))" using t by (intro level_off_small) simp
  have i: "s mod 8 < 8" "(s mod 512) div 8 = T mod 64" "(s mod 512) mod 8 = s mod 8" using lv(2) by simp_all
  have u: "u64 (8 * (T div 64) + s mod 8) = 8 * (T div 64) + s mod 8" using t i(1) by (intro u64_small) linarith
  have "s = 8 * T + s mod 8" unfolding T by simp
  then have "8 * (T + 1) = s + (8 - s mod 8)" using i(1) by (metis add.assoc add_diff_inverse_nat distrib_left mult.right_neutral not_less_iff_gr_or_eq)
  then have rn: "(if sec_up (sz + off mod 4096) > 8 - s mod 8 then 8 - s mod 8 else sec_up (sz + off mod 4096)) =
      sec_up (rd_to off sz 0) - s"
    unfolding rd_to_def rd_slot_def T_def [symmetric] sec_up_to using E by (auto simp: min_def)
  show ?thesis
    unfolding read_start_def Let_def s_def [symmetric]
    using rn by (simp add: b sec_up_alt [unfolded neq0_conv] lv(1) n lo i(2,3) u rd_plan_def rd_from_def rd_slot_def
      T_def [symmetric] s_def [symmetric] E) (auto split: if_splits)
qed

definition fill_from :: "nat \<Rightarrow> nat \<Rightarrow> (nat \<Rightarrow> 'a) \<Rightarrow> 'a list \<Rightarrow> 'a list" where
  "fill_from j n f xs = map (\<lambda>k. if j \<le> k \<and> k < n then f k else xs ! k) [0..<length xs]"

lemma fill_from_end [simp]: "fill_from n n f xs = xs"
  unfolding fill_from_def by (intro nth_equalityI) auto

lemma fill_from_step: "j < n \<Longrightarrow> n \<le> length xs \<Longrightarrow> fill_from (Suc j) n f (xs[j := f j]) = fill_from j n f xs"
  unfolding fill_from_def by (intro nth_equalityI) (auto simp: nth_list_update Suc_le_eq le_less)

lemma fill_from_nth: "k < n \<Longrightarrow> n \<le> length xs \<Longrightarrow> fill_from 0 n f xs ! k = f k"
  by (simp add: fill_from_def)

lemma length_fill_from [simp]: "length (fill_from j n f xs) = length xs"
  by (simp add: fill_from_def)

definition rd_done :: "nat \<Rightarrow> nat \<Rightarrow> nat \<Rightarrow> read_plan" where
  "rd_done off sz j = (if j < rd_num off sz then rd_plan off sz j
     else (rd_plan off sz (rd_num off sz - 1))\<lparr>rp_sec_left := 0, rp_left := 0, rp_total_cmd := rd_num off sz\<rparr>)"

lemma read_build_at:
  assumes fits: "read_fits pro node off sz"
  shows "j \<le> rd_num off sz \<Longrightarrow> rd_num off sz - j \<le> slots \<Longrightarrow> rd_num off sz \<le> length (rs_prp r) \<Longrightarrow>
    rd_num off sz \<le> length (rs_mcmd r) \<Longrightarrow> rd_num off sz \<le> length (uc_mcmd ucmd) \<Longrightarrow>
    read_build pro node tctx slots (rd_done off sz j) (ucmd, r) = Some (rd_done off sz (rd_num off sz),
      ucmd\<lparr>uc_mcmd := fill_from j (rd_num off sz) Some (uc_mcmd ucmd)\<rparr>,
      r\<lparr>rs_mcmd := fill_from j (rd_num off sz) (rd_cmd pro node tctx (rs_prp r) off sz) (rs_mcmd r)\<rparr>)"
proof (induction slots arbitrary: j ucmd r)
  case 0
  then have "j = rd_num off sz" by simp
  then show ?case by (subst read_build.simps) (simp add: rd_done_def)
next
  case (Suc slots)
  show ?case
  proof (cases "j < rd_num off sz")
    case False
    then have "j = rd_num off sz" using Suc.prems(1) by simp
    then show ?thesis by (subst read_build.simps) (simp add: rd_done_def)
  next
    case True
    have sz: "0 < sz" using fits by (simp add: read_fits_def)
    have left: "rp_sec_left (rd_done off sz j) \<noteq> 0" "rp_total_cmd (rd_done off sz j) = j"
      using rd_sectors(1,4) [OF True sz] True by (simp_all add: rd_done_def rd_plan_def)
    have turn: "read_turn pro node tctx (rs_prp r) (rd_done off sz j) = Some (rd_cmd pro node tctx (rs_prp r) off sz j, rd_done off sz (Suc j))"
    proof (cases "Suc j < rd_num off sz")
      case False
      then have "Suc j = rd_num off sz" using True by simp
      from this [symmetric] show ?thesis using read_turn_at [OF fits True Suc.prems(3), of tctx] by (simp add: rd_done_def)
    qed (use read_turn_at [OF fits True Suc.prems(3), of tctx] True in \<open>simp add: rd_done_def\<close>)
    let ?r = "r\<lparr>rs_mcmd := (rs_mcmd r)[j := rd_cmd pro node tctx (rs_prp r) off sz j]\<rparr>"
    let ?u = "ucmd\<lparr>uc_mcmd := (uc_mcmd ucmd)[j := Some j]\<rparr>"
    have "read_build pro node tctx (Suc slots) (rd_done off sz j) (ucmd, r) = read_build pro node tctx slots (rd_done off sz (Suc j)) (?u, ?r)"
      using left turn True Suc.prems(4,5) by (subst read_build.simps) simp
    then show ?thesis
      using Suc.IH [of "Suc j" ?r ?u] Suc.prems True
        fill_from_step [OF True Suc.prems(4), of "rd_cmd pro node tctx (rs_prp r) off sz"] fill_from_step [OF True Suc.prems(5), of Some]
      by simp
  qed
qed

lemma rd_num_pos: "0 < sz \<Longrightarrow> 0 < rd_num off sz"
proof -
  assume "0 < sz"
  then have "off div 32768 < (off + sz + 32767) div 32768" using div_le_mono [of "off + 32768" "off + sz + 32767" 32768] by simp
  then show ?thesis by (simp add: rd_num_def)
qed

text \<open>The commands of a read.\<close>

lemma read_commands:
  assumes fits: "read_fits pro node off sz" and len: "rd_num off sz \<le> length (rs_prp r)" "rd_num off sz \<le> length (rs_mcmd r)"
      "rd_num off sz \<le> length (uc_mcmd ucmd)" "rd_num off sz \<le> ZTL_IO_RC_NUM"
  shows "\<exists>rp. read_start off sz = Some (sec_up (off + sz) - off div 4096, rp) \<and>
    read_build pro node tctx ZTL_IO_RC_NUM rp (ucmd, r) = Some (rd_done off sz (rd_num off sz),
      ucmd\<lparr>uc_mcmd := fill_from 0 (rd_num off sz) Some (uc_mcmd ucmd)\<rparr>,
      r\<lparr>rs_mcmd := fill_from 0 (rd_num off sz) (rd_cmd pro node tctx (rs_prp r) off sz) (rs_mcmd r)\<rparr>)"
proof -
  have "rd_done off sz 0 = rd_plan off sz 0" using rd_num_pos [of sz off] fits by (simp add: rd_done_def read_fits_def)
  then show ?thesis using read_start_at [OF fits] read_build_at [OF fits, of 0 ZTL_IO_RC_NUM r ucmd tctx] len by simp
qed

end
