(* ===== verification/Ztl_Io_Write.thy ===== *)
theory Ztl_Io_Write
  imports Ztl_Io_Populate "HOL-Library.Multiset"
begin

text \<open>
  The submission of a piece over the media layer for zoned devices. \<open>device_law\<close> is the
  documented behaviour of xNVMe: a successful write is in flight until its completion is
  delivered, and a poke for one completion delivers at most one. Under it the steps of a piece
  keep at most one command in flight per zone, whatever fails. \<open>device_good\<close> is a device without
  errors that makes progress; on it a piece ends, with all its commands completed.
\<close>

section \<open>Devices\<close>

definition device_law :: "'x xnvme \<Rightarrow> ('x \<Rightarrow> nat multiset) \<Rightarrow> bool" where
  "device_law xn infl \<longleftrightarrow>
     (\<forall>q x. infl (snd (xn_get_ctx xn q x)) = infl x) \<and> (\<forall>q c x. infl (xn_put_ctx xn q c x) = infl x) \<and>
     (\<forall>c k d slba nlb buf x ret x'. xn_write xn (Some (c, k)) d slba nlb buf x = (ret, x') \<longrightarrow>
        infl x' = (if ret = 0 then add_mset k (infl x) else infl x)) \<and>
     (\<forall>q x ret done x'. xn_poke xn q 1 x = (ret, done, x') \<longrightarrow> done = [] \<and> infl x' = infl x \<or>
        (\<exists>k status cdw0. done = [(k, status, cdw0)] \<and> k \<in># infl x \<and> infl x' = infl x - {#k#}))"

lemma device_lawD:
  assumes "device_law xn infl"
  shows "infl (snd (xn_get_ctx xn q x)) = infl x" "infl (xn_put_ctx xn q c x) = infl x"
    "xn_write xn (Some (c, k)) d slba nlb buf x = (ret, x') \<Longrightarrow>
       infl x' = (if ret = 0 then add_mset k (infl x) else infl x)"
    "xn_poke xn q 1 x = (ret, done, x') \<Longrightarrow> done = [] \<and> infl x' = infl x \<or>
       (\<exists>k status cdw0. done = [(k, status, cdw0)] \<and> k \<in># infl x \<and> infl x' = infl x - {#k#})"
proof -
  note law = assms [unfolded device_law_def]
  show "infl (snd (xn_get_ctx xn q x)) = infl x" "infl (xn_put_ctx xn q c x) = infl x" using law by simp_all
  show "infl x' = (if ret = 0 then add_mset k (infl x) else infl x)"
    if "xn_write xn (Some (c, k)) d slba nlb buf x = (ret, x')"
    using conjunct1 [OF conjunct2 [OF conjunct2 [OF law]]] that by blast
  show "done = [] \<and> infl x' = infl x \<or>
       (\<exists>k status cdw0. done = [(k, status, cdw0)] \<and> k \<in># infl x \<and> infl x' = infl x - {#k#})"
    if "xn_poke xn q 1 x = (ret, done, x')"
    using conjunct2 [OF conjunct2 [OF conjunct2 [OF law]]] that by blast
qed

definition device_good :: "'x xnvme \<Rightarrow> ('x \<Rightarrow> nat multiset) \<Rightarrow> bool" where
  "device_good xn infl \<longleftrightarrow> device_law xn infl \<and> (\<forall>q x. fst (xn_get_ctx xn q x) \<noteq> 0) \<and>
     (\<forall>c d slba nlb buf x. fst (xn_write xn c d slba nlb buf x) = 0) \<and>
     (\<forall>q x. infl x \<noteq> {#} \<longrightarrow> (\<exists>k cdw0. fst (snd (xn_poke xn q 1 x)) = [(k, 0, cdw0)]))"

abbreviation znd_core :: "'x xnvme \<Rightarrow> znd_media \<Rightarrow> 'x media_state xztl_core" where
  "znd_core xn zv \<equiv> Some (znd_media_fns xn zv)"

section \<open>Calls into the media layer\<close>

text \<open>The fields of a command that its life in the queue changes.\<close>

definition cmd_core :: "xztl_io_mcmd \<Rightarrow> xztl_io_mcmd" where
  "cmd_core c = c\<lparr>mc_status := 0, mc_callback_err_cnt := 0, mc_paddr := 0, mc_media_ctx := 0, mc_submitted := 0\<rparr>"

lemma cmd_core_simps [simp]:
  "cmd_core (c\<lparr>mc_status := v\<rparr>) = cmd_core c" "cmd_core (c\<lparr>mc_callback_err_cnt := v\<rparr>) = cmd_core c"
  "cmd_core (c\<lparr>mc_paddr := v\<rparr>) = cmd_core c" "cmd_core (c\<lparr>mc_media_ctx := v\<rparr>) = cmd_core c"
  "cmd_core (c\<lparr>mc_submitted := v\<rparr>) = cmd_core c" "cmd_core (async_cb_status status cdw0 c) = cmd_core c"
  by (simp_all add: cmd_core_def async_cb_status_def Let_def)

lemma cmd_core_fields:
  assumes "cmd_core c = cmd_core d"
  shows "mc_opcode c = mc_opcode d" "mc_synch c = mc_synch d" "mc_sequence c = mc_sequence d"
    "mc_sequence_zn c = mc_sequence_zn d" "mc_addr c = mc_addr d" "mc_nsec c = mc_nsec d" "mc_prp c = mc_prp d"
    "mc_async_ctx c = mc_async_ctx d" "mc_ptr c = mc_ptr d"
  using arg_cong [OF assms, of mc_opcode] arg_cong [OF assms, of mc_synch] arg_cong [OF assms, of mc_sequence]
    arg_cong [OF assms, of mc_sequence_zn] arg_cong [OF assms, of mc_addr] arg_cong [OF assms, of mc_nsec]
    arg_cong [OF assms, of mc_prp] arg_cong [OF assms, of mc_async_ctx] arg_cong [OF assms, of mc_ptr]
  by (simp_all add: cmd_core_def)

text \<open>The commands of a piece, before they are submitted.\<close>

definition piece_cmd :: "nat \<Rightarrow> nat \<Rightarrow> xztl_io_mcmd \<Rightarrow> bool" where
  "piece_cmd tctx k c \<longleftrightarrow> mc_opcode c = op XZTL_CMD_WRITE \<and> mc_synch c = 0 \<and> mc_sequence c = k \<and>
     mc_sequence_zn c = k mod 64 \<and> mc_async_ctx c = tctx \<and> mc_ptr c = k"

lemma piece_cmd_core: "piece_cmd tctx k d \<Longrightarrow> cmd_core c = cmd_core d \<Longrightarrow> piece_cmd tctx k c"
  using cmd_core_fields [of c d] by (simp add: piece_cmd_def)

abbreviation iw_x :: "'x io_world \<Rightarrow> 'x" where "iw_x w \<equiv> ms_x (iw_media w)"

text \<open>The invariant of the submission: \<open>idx\<close> counts the submitted commands of each zone, and a
  command in flight is the last one submitted to its zone, whose in-flight mark is set.\<close>

definition winv ::
    "nat \<Rightarrow> xztl_io_mcmd list \<Rightarrow> nat \<Rightarrow> ('x \<Rightarrow> nat multiset) \<Rightarrow> nat list \<Rightarrow> 'x io_world \<Rightarrow> bool" where
  "winv num cmds queue infl idx w \<longleftrightarrow>
     length (qp_mcmd (iw_q w)) = length cmds \<and> num \<le> length cmds \<and>
     (\<forall>k < num. cmd_core (qp_mcmd (iw_q w) ! k) = cmd_core (cmds ! k) \<and> piece_cmd (qp_tctx (iw_q w)) k (cmds ! k)) \<and>
     num \<le> length (uc_mcmd (iw_ucmd w)) \<and> (\<forall>k < num. uc_mcmd (iw_ucmd w) ! k = Some k) \<and>
     length (uc_minflight (iw_ucmd w)) = 256 \<and> num \<le> length (uc_moffset (iw_ucmd w)) \<and>
     ms_tctx (iw_media w) (qp_tctx (iw_q w)) = Some queue \<and> ms_done (iw_media w) = [] \<and>
     length (ms_io (iw_media w)) = XZTL_STATS_IO_TYPES \<and> pa_naddr (qp_prov (iw_q w)) = min num 64 \<and>
     (\<forall>k \<in># infl (iw_x w). k < num \<and> count (infl (iw_x w)) k = 1 \<and> idx ! (k mod 64) = Suc (k div 64) \<and>
        uc_minflight (iw_ucmd w) ! (k mod 64) \<noteq> 0)"

text \<open>No command of zone \<open>i\<close> is in flight.\<close>

definition zone_idle :: "('x \<Rightarrow> nat multiset) \<Rightarrow> nat \<Rightarrow> 'x io_world \<Rightarrow> bool" where
  "zone_idle infl i w \<longleftrightarrow> (\<forall>k \<in># infl (iw_x w). k mod 64 \<noteq> i)"

lemma winv_zone_unique:
  assumes "winv num cmds queue infl idx w" "k \<in># infl (iw_x w)" "j \<in># infl (iw_x w)" "k mod 64 = j mod 64"
  shows "k = j"
proof -
  have "idx ! (k mod 64) = Suc (k div 64)" "idx ! (j mod 64) = Suc (j div 64)"
    using assms(1-3) by (auto simp: winv_def)
  then have "k div 64 = j div 64" using assms(4) by simp
  then show ?thesis using assms(4) by (metis div_mult_mod_eq)
qed

text \<open>A submission through the layer, as one call into xNVMe.\<close>

lemma io_submit_znd:
  assumes "winv num cmds queue infl idx w" "k < num"
  shows "io_submit (znd_core xn zv) k w =
    (let mcmd = qp_mcmd (iw_q w) ! k; (c, x1) = xn_get_ctx xn queue (iw_x w);
         (ret, x2) = xn_write xn (Some (c, k)) (zv_dev zv) (g_sect (mc_addr mcmd)) (nlb_arg (mc_nsec mcmd)) (mc_prp mcmd) x1
     in if c = 0 then None
        else Some (ret, (put_mcmd k (mcmd\<lparr>mc_media_ctx := c\<rparr>) w)\<lparr>iw_media := (iw_media w)\<lparr>ms_x :=
          if ret \<noteq> 0 then xn_put_ctx xn queue c x2 else x2\<rparr>\<rparr>))"
proof -
  have p: "piece_cmd (qp_tctx (iw_q w)) k (qp_mcmd (iw_q w) ! k)"
    using assms piece_cmd_core by (auto simp: winv_def)
  have "k < length (qp_mcmd (iw_q w))" "ms_tctx (iw_media w) (qp_tctx (iw_q w)) = Some queue"
    using assms by (auto simp: winv_def)
  then show ?thesis using p
    by (auto simp: io_submit_def xztl_media_submit_io_def znd_media_fns_def znd_media_submit_io_def piece_cmd_def
      znd_media_submit_write_asynch_def Let_def split: prod.splits)
qed

lemma zone_slot_lt: "i < 64 \<Longrightarrow> p < slots_before num i \<Longrightarrow> i + 64 * p < num"
  using zone_cmds_nth [of i p num] zone_cmds_length [of i num]
    nth_mem [of p "filter (\<lambda>j. j mod 64 = i) [0..<num]"] by auto

lemma submit_effect:
  assumes law: "device_law xn infl" and inv: "winv num cmds queue infl idx w" and k: "k < num"
    and sub: "io_submit (znd_core xn zv) k w = Some (ret, w')"
  shows "\<exists>c x. w' = (put_mcmd k ((qp_mcmd (iw_q w) ! k)\<lparr>mc_media_ctx := c\<rparr>) w)\<lparr>iw_media := (iw_media w)\<lparr>ms_x := x\<rparr>\<rparr> \<and>
    infl x = (if ret = 0 then add_mset k (infl (iw_x w)) else infl (iw_x w))"
proof -
  let ?m = "qp_mcmd (iw_q w) ! k"
  obtain c x1 where g: "xn_get_ctx xn queue (iw_x w) = (c, x1)" by force
  obtain r x2 where wr: "xn_write xn (Some (c, k)) (zv_dev zv) (g_sect (mc_addr ?m)) (nlb_arg (mc_nsec ?m)) (mc_prp ?m) x1 = (r, x2)"
    by force
  have "infl x1 = infl (iw_x w)" using device_lawD(1) [OF law, of queue "iw_x w"] g by simp
  moreover have "infl x2 = (if r = 0 then add_mset k (infl x1) else infl x1)" using device_lawD(3) [OF law wr] .
  moreover have "infl (xn_put_ctx xn queue c x2) = infl x2" using device_lawD(2) [OF law] .
  ultimately show ?thesis using sub io_submit_znd [OF inv k] g wr by (auto simp: Let_def split: if_splits)
qed

lemma winv_submit:
  assumes law: "device_law xn infl" and inv: "winv num cmds queue infl idx w" and k: "k < num"
    and z: "zone_idle infl (k mod 64) w" "uc_minflight (iw_ucmd w) ! (k mod 64) \<noteq> 0"
    and sub: "io_submit (znd_core xn zv) k w = Some (ret, w')"
    and idx: "ret = 0 \<Longrightarrow> idx' ! (k mod 64) = Suc (k div 64) \<and> (\<forall>i < 64. i \<noteq> k mod 64 \<longrightarrow> idx' ! i = idx ! i)"
      "ret \<noteq> 0 \<Longrightarrow> idx' = idx"
  shows "winv num cmds queue infl idx' w'"
proof -
  obtain c x where w': "w' = (put_mcmd k ((qp_mcmd (iw_q w) ! k)\<lparr>mc_media_ctx := c\<rparr>) w)\<lparr>iw_media := (iw_media w)\<lparr>ms_x := x\<rparr>\<rparr>"
    "infl x = (if ret = 0 then add_mset k (infl (iw_x w)) else infl (iw_x w))"
    using submit_effect [OF law inv k sub] by blast
  have "cmd_core (qp_mcmd (iw_q w') ! j) = cmd_core (qp_mcmd (iw_q w) ! j)" for j
    unfolding w'(1) put_mcmd_def by (simp add: nth_update_same)
  moreover have "k \<notin># infl (iw_x w)" using z(1) by (auto simp: zone_idle_def)
  moreover have "\<forall>j \<in># infl (iw_x w). j mod 64 \<noteq> k mod 64" using z(1) by (simp add: zone_idle_def)
  ultimately show ?thesis using inv k z(2) w' idx
    by (auto 0 3 simp: winv_def put_mcmd_def not_in_iff split: if_splits)
qed

lemma winv_put_mcmd:
  assumes "winv num cmds queue infl idx w" "cmd_core c = cmd_core (qp_mcmd (iw_q w) ! k)"
  shows "winv num cmds queue infl idx (put_mcmd k c w)"
proof -
  have "cmd_core (qp_mcmd (iw_q (put_mcmd k c w)) ! j) = cmd_core (qp_mcmd (iw_q w) ! j)" for j
    using assms(2) unfolding put_mcmd_def by (simp add: nth_update_same)
  then show ?thesis using assms(1) by (auto simp: winv_def put_mcmd_def)
qed

lemma winv_stats: "winv num cmds queue infl idx w \<Longrightarrow> \<exists>w'. io_stats_inc t w = Some w' \<and> winv num cmds queue infl idx w' \<and>
    iw_x w' = iw_x w \<and> iw_q w' = iw_q w \<and> iw_ucmd w' = iw_ucmd w \<and> iw_grp w' = iw_grp w"
  by (cases t) (auto simp: winv_def io_stats_inc_def xztl_stats_inc_Some)

lemma winv_idle:
  assumes "winv num cmds queue infl idx w" "uc_minflight (iw_ucmd w) ! i = 0"
  shows "zone_idle infl i w"
  using assms by (auto simp: winv_def zone_idle_def)

lemma winv_mark:
  assumes "winv num cmds queue infl idx w" "i < 64"
  shows "winv num cmds queue infl idx (w\<lparr>iw_ucmd := (iw_ucmd w)\<lparr>uc_minflight := (uc_minflight (iw_ucmd w))[i := 1]\<rparr>\<rparr>)"
  using assms by (auto simp: winv_def nth_list_update)

lemma winv_clear:
  assumes "winv num cmds queue infl idx w" "zone_idle infl i w"
  shows "winv num cmds queue infl idx (w\<lparr>iw_ucmd := (iw_ucmd w)\<lparr>uc_minflight := (uc_minflight (iw_ucmd w))[i := 0], uc_ncb := n\<rparr>\<rparr>)"
  using assms by (auto simp: winv_def zone_idle_def nth_list_update)

lemma winv_frame [simp]:
  "winv num cmds queue infl idx (w\<lparr>iw_grp := g\<rparr>) = winv num cmds queue infl idx w"
  "winv num cmds queue infl idx (w\<lparr>iw_ucmd := (iw_ucmd w)\<lparr>uc_status := v\<rparr>\<rparr>) = winv num cmds queue infl idx w"
  by (simp_all add: winv_def)

lemma winv_moffset: "winv num cmds queue infl idx w \<Longrightarrow>
    winv num cmds queue infl idx (w\<lparr>iw_ucmd := (iw_ucmd w)\<lparr>uc_moffset := (uc_moffset (iw_ucmd w))[k := v]\<rparr>\<rparr>)"
  by (simp add: winv_def)

section \<open>Completions\<close>

text \<open>The callback of command \<open>k\<close>, which is no longer in flight.\<close>

lemma winv_done:
  assumes "winv num cmds queue infl idx w" "zone_idle infl (k mod 64) w" "mc_sequence_zn m = k mod 64"
    and d: "write_callback_done md m w = Some w'"
  shows "winv num cmds queue infl idx w'"
  using d winv_clear [OF assms(1,2), of "u16 (uc_ncb (iw_ucmd w) + 1)"] assms(3)
  unfolding write_callback_done_def Let_def
  by (auto simp: bind_eq_Some_conv split: if_splits)

text \<open>It submits the command again, or it ends the command; \<open>v\<close> is the state with the error counted
  or the address noted.\<close>

lemma callback_cases:
  assumes inv: "winv num cmds queue infl idx w" and k: "k < num"
    and cb: "ztl_io_write_callback_mcmd (znd_core xn zv) md k w = Some w'"
  obtains (again) v ret v' where "winv num cmds queue infl idx v" "iw_x v = iw_x w" "iw_ucmd v = iw_ucmd w"
      "io_submit (znd_core xn zv) k v = Some (ret, v')" "iw_media w' = (iw_media v')\<lparr>ms_io := ms_io (iw_media w')\<rparr>"
      "iw_ucmd w' = iw_ucmd v'" "winv num cmds queue infl idx v' \<Longrightarrow> winv num cmds queue infl idx w'"
  | (ended) v m where "winv num cmds queue infl idx v" "iw_x v = iw_x w"
      "uc_minflight (iw_ucmd v) = uc_minflight (iw_ucmd w)" "mc_sequence_zn m = k mod 64" "write_callback_done md m v = Some w'"
proof -
  define m where "m = qp_mcmd (iw_q w) ! k"
  have "piece_cmd (qp_tctx (iw_q w)) k m" and l: "k < length (qp_mcmd (iw_q w))"
    using inv k piece_cmd_core by (auto simp: winv_def m_def)
  then have seq: "mc_sequence m = k" "mc_sequence_zn m = k mod 64" by (simp_all add: piece_cmd_def)
  note cb' = cb [unfolded ztl_io_write_callback_mcmd_def get_at_lt [OF l] bind.bind_lunit Let_def, folded m_def]
  show thesis
  proof (cases "mc_status m = 0")
    case True
    then obtain mo where "set_at (uc_moffset (iw_ucmd w)) k (mc_paddr m) = Some mo"
      "write_callback_done md m (w\<lparr>iw_ucmd := (iw_ucmd w)\<lparr>uc_moffset := mo\<rparr>\<rparr>) = Some w'"
      using cb' seq(1) by (auto simp: bind_eq_Some_conv)
    then show thesis using winv_moffset [OF inv, of k "mc_paddr m"] seq(2)
      by (intro ended [of "w\<lparr>iw_ucmd := (iw_ucmd w)\<lparr>uc_moffset := mo\<rparr>\<rparr>" m]) auto
  next
    case False
    obtain w1 where w1: "io_stats_inc XZTL_STATS_WRITE_CALLBACK_FAIL w = Some w1" "winv num cmds queue infl idx w1"
      "iw_x w1 = iw_x w" "iw_q w1 = iw_q w" "iw_ucmd w1 = iw_ucmd w" using winv_stats [OF inv] by blast
    define m1 where "m1 = m\<lparr>mc_callback_err_cnt := u8 (mc_callback_err_cnt m + 1)\<rparr>"
    define w2 where "w2 = put_mcmd k m1 w1"
    have w2: "winv num cmds queue infl idx w2" "iw_x w2 = iw_x w" "iw_ucmd w2 = iw_ucmd w"
      using winv_put_mcmd [OF w1(2), of m1 k] w1(3-5) by (simp_all add: w2_def m1_def m_def put_mcmd_def)
    have cb2: "(if mc_callback_err_cnt m1 < MAX_CALLBACK_ERR_CNT
        then do { (ret, w) \<leftarrow> io_submit (znd_core xn zv) k w2;
          if ret \<noteq> 0 then io_stats_inc XZTL_STATS_WRITE_SUBMIT_FAIL w else Some w }
        else write_callback_done md m1 (w2\<lparr>iw_ucmd := (iw_ucmd w2)\<lparr>uc_status := u8 (mc_status m1)\<rparr>\<rparr>)) = Some w'"
      using cb' False by (simp only: w1(1) bind.bind_lunit if_True not_False_eq_True m1_def w2_def)
    show thesis
    proof (cases "mc_callback_err_cnt m1 < MAX_CALLBACK_ERR_CNT")
      case True
      then obtain ret w3 where w3: "io_submit (znd_core xn zv) k w2 = Some (ret, w3)"
        "(if ret \<noteq> 0 then io_stats_inc XZTL_STATS_WRITE_SUBMIT_FAIL w3 else Some w3) = Some w'"
        using cb2 by (auto simp: bind_eq_Some_conv)
      have "iw_media w' = (iw_media w3)\<lparr>ms_io := ms_io (iw_media w')\<rparr>" "iw_ucmd w' = iw_ucmd w3"
        using w3(2) by (auto simp: io_stats_inc_def bind_eq_Some_conv split: if_splits)
      moreover have "winv num cmds queue infl idx w3 \<Longrightarrow> winv num cmds queue infl idx w'"
        using w3(2) winv_stats [of num cmds queue infl idx w3 XZTL_STATS_WRITE_SUBMIT_FAIL] by (auto split: if_splits)
      ultimately show thesis using again [OF w2 w3(1)] by blast
    next
      case err: False
      then have "write_callback_done md m1 (w2\<lparr>iw_ucmd := (iw_ucmd w2)\<lparr>uc_status := u8 (mc_status m1)\<rparr>\<rparr>) = Some w'"
        using cb2 by simp
      moreover have "winv num cmds queue infl idx (w2\<lparr>iw_ucmd := (iw_ucmd w2)\<lparr>uc_status := u8 (mc_status m1)\<rparr>\<rparr>)"
        using w2(1) by simp
      ultimately show thesis using w2(2,3) seq(2) by (elim ended [rotated 4]) (simp_all add: m1_def)
    qed
  qed
qed

lemma winv_callback:
  assumes law: "device_law xn infl" and inv: "winv num cmds queue infl idx w" and k: "k < num"
    and z: "zone_idle infl (k mod 64) w" "uc_minflight (iw_ucmd w) ! (k mod 64) \<noteq> 0" "idx ! (k mod 64) = Suc (k div 64)"
    and cb: "ztl_io_write_callback_mcmd (znd_core xn zv) md k w = Some w'"
  shows "winv num cmds queue infl idx w'"
  using inv k cb
proof (cases rule: callback_cases)
  case (again v ret v')
  then have "zone_idle infl (k mod 64) v" "uc_minflight (iw_ucmd v) ! (k mod 64) \<noteq> 0"
    using z(1,2) by (simp_all add: zone_idle_def)
  then show ?thesis using again(7) winv_submit [OF law again(1) k _ _ again(4)] z(3) by simp
next
  case (ended v m)
  then show ?thesis using winv_done [OF ended(1) _ ended(4,5)] z(1) by (simp add: zone_idle_def)
qed

text \<open>Other zones that are idle stay so, with their marks.\<close>

definition zones_kept :: "('x \<Rightarrow> nat multiset) \<Rightarrow> nat \<Rightarrow> 'x io_world \<Rightarrow> 'x io_world \<Rightarrow> bool" where
  "zones_kept infl j w w' \<longleftrightarrow> zone_idle infl j w' \<and> uc_minflight (iw_ucmd w') ! j = uc_minflight (iw_ucmd w) ! j"

lemma callback_kept:
  assumes law: "device_law xn infl" and inv: "winv num cmds queue infl idx w" and k: "k < num"
    and cb: "ztl_io_write_callback_mcmd (znd_core xn zv) md k w = Some w'"
    and j: "zone_idle infl j w" "j \<noteq> k mod 64"
  shows "zones_kept infl j w w'"
  using inv k cb
proof (cases rule: callback_cases)
  case (again v ret v')
  obtain c x where "v' = (put_mcmd k ((qp_mcmd (iw_q v) ! k)\<lparr>mc_media_ctx := c\<rparr>) v)\<lparr>iw_media := (iw_media v)\<lparr>ms_x := x\<rparr>\<rparr>"
    "infl x = (if ret = 0 then add_mset k (infl (iw_x v)) else infl (iw_x v))"
    using submit_effect [OF law again(1) k again(4)] by blast
  then have "infl (iw_x w') = (if ret = 0 then add_mset k (infl (iw_x w)) else infl (iw_x w))"
    "uc_minflight (iw_ucmd w') = uc_minflight (iw_ucmd w)"
    using again(2,3,6) arg_cong [OF again(5), of ms_x] by (simp_all add: put_mcmd_def)
  then show ?thesis using j by (auto simp: zones_kept_def zone_idle_def split: if_splits)
next
  case (ended v m)
  then have "infl (iw_x w') = infl (iw_x w)" "uc_minflight (iw_ucmd w') = (uc_minflight (iw_ucmd w))[k mod 64 := 0]"
    unfolding write_callback_done_def Let_def by (auto simp: bind_eq_Some_conv split: if_splits)
  then show ?thesis using j by (simp add: zones_kept_def zone_idle_def)
qed

lemma winv_x:
  assumes "winv num cmds queue infl idx w" "infl x = infl (iw_x w)"
  shows "winv num cmds queue infl idx (w\<lparr>iw_media := (iw_media w)\<lparr>ms_x := x\<rparr>\<rparr>)"
  using assms by (simp add: winv_def)

text \<open>Command \<open>k\<close> leaves the device: its zone is idle then.\<close>

lemma winv_deliver:
  assumes inv: "winv num cmds queue infl idx w" and k: "k \<in># infl (iw_x w)" and x: "infl x = infl (iw_x w) - {#k#}"
  shows "winv num cmds queue infl idx (w\<lparr>iw_media := (iw_media w)\<lparr>ms_x := x\<rparr>\<rparr>)"
    "zone_idle infl (k mod 64) (w\<lparr>iw_media := (iw_media w)\<lparr>ms_x := x\<rparr>\<rparr>)"
    "k < num" "idx ! (k mod 64) = Suc (k div 64)" "uc_minflight (iw_ucmd w) ! (k mod 64) \<noteq> 0"
proof -
  show kk: "k < num" "idx ! (k mod 64) = Suc (k div 64)" "uc_minflight (iw_ucmd w) ! (k mod 64) \<noteq> 0"
    using inv k by (auto simp: winv_def)
  have c: "count (infl (iw_x w)) k = 1" using inv k by (auto simp: winv_def)
  have sub: "j \<noteq> k \<and> j \<in># infl (iw_x w) \<and> count (infl x) j = count (infl (iw_x w)) j" if "j \<in># infl x" for j
  proof -
    have "count (infl x) k = 0" using c x by simp
    then have "j \<noteq> k" using that by (metis count_eq_zero_iff)
    then show ?thesis using that x by (metis count_single diff_zero count_diff in_diffD)
  qed
  show "zone_idle infl (k mod 64) (w\<lparr>iw_media := (iw_media w)\<lparr>ms_x := x\<rparr>\<rparr>)"
    unfolding zone_idle_def using sub winv_zone_unique [OF inv _ k] by simp blast
  have "\<forall>j \<in># infl x. j < num \<and> count (infl x) j = 1 \<and> idx ! (j mod 64) = Suc (j div 64) \<and>
      uc_minflight (iw_ucmd w) ! (j mod 64) \<noteq> 0"
    using inv sub unfolding winv_def by simp
  then show "winv num cmds queue infl idx (w\<lparr>iw_media := (iw_media w)\<lparr>ms_x := x\<rparr>\<rparr>)"
    using inv unfolding winv_def by simp
qed

lemma winv_complete:
  assumes law: "device_law xn infl" and inv: "winv num cmds queue infl idx w" and k: "k < num"
    and z: "zone_idle infl (k mod 64) w" "uc_minflight (iw_ucmd w) ! (k mod 64) \<noteq> 0" "idx ! (k mod 64) = Suc (k div 64)"
    and c: "write_complete xn (znd_core xn zv) md (k, status, cdw0) w = Some w'"
  shows "winv num cmds queue infl idx w'"
proof -
  define m where "m = async_cb_status status cdw0 (qp_mcmd (iw_q w) ! k)"
  have l: "k < length (qp_mcmd (iw_q w))" using inv k by (auto simp: winv_def)
  obtain w1 s where w1: "ztl_io_write_callback_mcmd (znd_core xn zv) md k (put_mcmd k m w) = Some w1"
    and s: "k < length (qp_mcmd (iw_q w1))" "async_cb_put xn (qp_mcmd (iw_q w1) ! k) (iw_media w1) = Some s"
      "w' = w1\<lparr>iw_media := s\<rparr>"
    using c l by (auto simp: write_complete_def m_def [symmetric] bind_eq_Some_conv)
  have "winv num cmds queue infl idx (put_mcmd k m w)" using winv_put_mcmd [OF inv, of m k] by (simp add: m_def)
  moreover have "zone_idle infl (k mod 64) (put_mcmd k m w)" "uc_minflight (iw_ucmd (put_mcmd k m w)) ! (k mod 64) \<noteq> 0"
    using z by (simp_all add: put_mcmd_def zone_idle_def)
  ultimately have inv1: "winv num cmds queue infl idx w1" using winv_callback [OF law _ k _ _ z(3) w1] by blast
  then obtain x where "s = (iw_media w1)\<lparr>ms_x := x\<rparr>" "infl x = infl (iw_x w1)"
    using s(2) device_lawD(2) [OF law] by (auto simp: async_cb_put_def bind_eq_Some_conv)
  then show ?thesis using winv_x [OF inv1] s(3) by simp
qed

lemma poke_znd:
  assumes "winv num cmds queue infl idx w" "xn_poke xn queue 1 (iw_x w) = (ret, done, x)"
  shows "ztl_io_poke_ctx xn (znd_core xn zv) md misc0 w =
    write_completes xn (znd_core xn zv) md done (w\<lparr>iw_media := (iw_media w)\<lparr>ms_x := x\<rparr>\<rparr>)"
proof -
  have d: "ms_done (iw_media w) = []" "ms_tctx (iw_media w) (qp_tctx (iw_q w)) = Some queue"
    using assms(1) by (auto simp: winv_def)
  then have eq: "(iw_media w)\<lparr>ms_x := x, ms_done := []\<rparr> = (iw_media w)\<lparr>ms_x := x\<rparr>" by simp
  show ?thesis using assms(2) d
    by (simp add: eq ztl_io_poke_ctx_def xztl_media_submit_misc_def znd_media_fns_def znd_media_cmd_exec_def
      znd_media_async_poke_def Let_def)
qed

lemma winv_poke:
  assumes law: "device_law xn infl" and inv: "winv num cmds queue infl idx w"
    and p: "ztl_io_poke_ctx xn (znd_core xn zv) md misc0 w = Some w'"
  shows "winv num cmds queue infl idx w'"
proof -
  obtain ret ds x where d: "xn_poke xn queue 1 (iw_x w) = (ret, ds, x)" by (cases "xn_poke xn queue 1 (iw_x w)")
  note p' = p [unfolded poke_znd [OF inv d]]
  from device_lawD(4) [OF law d] consider "ds = []" "infl x = infl (iw_x w)"
    | k status cdw0 where "ds = [(k, status, cdw0)]" "k \<in># infl (iw_x w)" "infl x = infl (iw_x w) - {#k#}" by blast
  then show ?thesis
  proof cases
    case 1
    then show ?thesis using p' winv_x [OF inv, of x] by simp
  next
    case 2
    note del = winv_deliver [OF inv 2(2,3)]
    have "write_complete xn (znd_core xn zv) md (k, status, cdw0) (w\<lparr>iw_media := (iw_media w)\<lparr>ms_x := x\<rparr>\<rparr>) = Some w'"
      using p' 2(1) by (simp add: bind_eq_Some_conv)
    then show ?thesis using del(5) by (intro winv_complete [OF law del(1,3,2) _ del(4)]) simp_all
  qed
qed

lemma poke_kept:
  assumes law: "device_law xn infl" and inv: "winv num cmds queue infl idx w" and j: "zone_idle infl j w"
    and p: "ztl_io_poke_ctx xn (znd_core xn zv) md misc0 w = Some w'"
  shows "zones_kept infl j w w'"
proof -
  obtain ret ds x where d: "xn_poke xn queue 1 (iw_x w) = (ret, ds, x)" by (cases "xn_poke xn queue 1 (iw_x w)")
  note p' = p [unfolded poke_znd [OF inv d]]
  from device_lawD(4) [OF law d] consider "ds = []" "infl x = infl (iw_x w)"
    | k status cdw0 where "ds = [(k, status, cdw0)]" "k \<in># infl (iw_x w)" "infl x = infl (iw_x w) - {#k#}" by blast
  then show ?thesis
  proof cases
    case 1
    then show ?thesis using p' j by (auto simp: zones_kept_def zone_idle_def)
  next
    case 2
    note del = winv_deliver [OF inv 2(2,3)]
    define v where "v = w\<lparr>iw_media := (iw_media w)\<lparr>ms_x := x\<rparr>\<rparr>"
    define m where "m = async_cb_status status cdw0 (qp_mcmd (iw_q v) ! k)"
    have l: "k < length (qp_mcmd (iw_q v))" using del(1,3) unfolding v_def [symmetric] by (auto simp: winv_def)
    obtain w1 s where w1: "ztl_io_write_callback_mcmd (znd_core xn zv) md k (put_mcmd k m v) = Some w1"
      and s: "async_cb_put xn (qp_mcmd (iw_q w1) ! k) (iw_media w1) = Some s" "w' = w1\<lparr>iw_media := s\<rparr>"
      using p' 2(1) l unfolding v_def [symmetric] by (auto simp: write_complete_def m_def [symmetric] bind_eq_Some_conv)
    have "winv num cmds queue infl idx (put_mcmd k m v)"
      using winv_put_mcmd [of num cmds queue infl idx v m k] del(1) by (simp add: m_def v_def)
    moreover have "zone_idle infl j (put_mcmd k m v)" "j \<noteq> k mod 64"
      using j 2(2,3) by (auto simp: zone_idle_def put_mcmd_def v_def dest: in_diffD)
    ultimately have "zones_kept infl j (put_mcmd k m v) w1" using callback_kept [OF law _ del(3) w1] by blast
    moreover have "infl (ms_x s) = infl (iw_x w1)" using s(1) device_lawD(2) [OF law]
      by (auto simp: async_cb_put_def bind_eq_Some_conv)
    ultimately show ?thesis using s(2) by (simp add: zones_kept_def zone_idle_def put_mcmd_def v_def)
  qed
qed

section \<open>Steps\<close>

definition zone_rows :: "nat \<Rightarrow> nat list list" where
  "zone_rows num = map (\<lambda>i. filter (\<lambda>j. j mod 64 = i) [0..<num]) [0..<128]"

definition sinv ::
    "nat \<Rightarrow> xztl_io_mcmd list \<Rightarrow> nat \<Rightarrow> ('x \<Rightarrow> nat multiset) \<Rightarrow> 'x write_state \<Rightarrow> bool" where
  "sinv num cmds queue infl ws \<longleftrightarrow> winv num cmds queue infl (wr_zn_cmd_id_index ws) (wr_w ws) \<and>
     wr_zn_cmd_id ws = zone_rows num \<and> length (wr_zn_cmd_id_index ws) = 128"

lemma zone_rows_nth:
  assumes "i < 64"
  shows "get_at (zone_rows num) i = Some (filter (\<lambda>j. j mod 64 = i) [0..<num])"
  using assms by (simp add: zone_rows_def del: upt_rec_numeral)

text \<open>The submission to zone \<open>i\<close>, whose next command is \<open>i + 64 * index\<close>.\<close>

definition try_submit ::
    "'x xnvme \<Rightarrow> 'x media_state xztl_core \<Rightarrow> ztl_metadata \<Rightarrow> xztl_misc_cmd \<Rightarrow> nat \<Rightarrow> 'x write_state \<Rightarrow>
     ('x write_state \<times> write_ctl) option" where
  "try_submit xn core md misc0 i ws = do {
     let w = wr_w ws;
     let w = w\<lparr>iw_ucmd := (iw_ucmd w)\<lparr>uc_minflight := (uc_minflight (iw_ucmd w))[i := 1]\<rparr>\<rparr>;
     let k = i + 64 * wr_zn_cmd_id_index ws ! i;
     (ret, w) \<leftarrow> io_submit core k w;
     if ret \<noteq> 0
     then do {
       w \<leftarrow> io_stats_inc XZTL_STATS_WRITE_SUBMIT_FAIL w;
       w \<leftarrow> ztl_io_poke_ctx xn core md misc0 w;
       Some (ws\<lparr>wr_w := w\<rparr>, Submitting i) }
     else do {
       mcmd \<leftarrow> get_at (qp_mcmd (iw_q w)) k;
       let w = put_mcmd k (mcmd\<lparr>mc_submitted := 1\<rparr>) w;
       let ws = ws\<lparr>wr_w := w, wr_submitted := wr_submitted ws + 1,
          wr_zn_cmd_id_index := (wr_zn_cmd_id_index ws)[i := wr_zn_cmd_id_index ws ! i + 1]\<rparr>;
       w \<leftarrow> (if wr_submitted ws mod 8 = 0 then ztl_io_poke_ctx xn core md misc0 w else Some w);
       Some (ws\<lparr>wr_w := w\<rparr>, Submitting (i + 1)) } }"

lemma submit_zone_cases:
  assumes inv: "sinv num cmds queue infl ws" and i: "i < min num 64"
  shows "submit_zone xn core md misc0 i ws =
    (if slots_before num i \<le> wr_zn_cmd_id_index ws ! i then Some (ws, Submitting (i + 1))
     else if wr_minflight ws ! i \<noteq> 0
     then do { w \<leftarrow> ztl_io_poke_ctx xn core md misc0 (wr_w ws); Some (ws\<lparr>wr_w := w\<rparr>, Submitting (i + 1)) }
     else try_submit xn core md misc0 i ws)"
proof -
  define index where "index = wr_zn_cmd_id_index ws ! i"
  have w: "winv num cmds queue infl (wr_zn_cmd_id_index ws) (wr_w ws)" and l: "length (wr_zn_cmd_id_index ws) = 128"
    "wr_zn_cmd_id ws = zone_rows num" using inv by (auto simp: sinv_def)
  have row: "get_at (wr_zn_cmd_id ws) i = Some (filter (\<lambda>j. j mod 64 = i) [0..<num])"
    using zone_rows_nth [of i] i l(2) by simp
  have ix: "get_at (wr_zn_cmd_id_index ws) i = Some index" using i l(1) by (simp add: index_def)
  have len: "length (filter (\<lambda>j. j mod 64 = i) [0..<num]) = slots_before num i" using zone_cmds_length [of i num] i by simp
  have busy: "get_at (wr_minflight ws) i = Some (wr_minflight ws ! i)" using w i by (auto simp: winv_def)
  have "get_at (uc_mcmd (iw_ucmd (wr_w ws))) (filter (\<lambda>j. j mod 64 = i) [0..<num] ! index) = Some (Some (i + 64 * index))"
    if "\<not> slots_before num i \<le> index"
  proof -
    have "filter (\<lambda>j. j mod 64 = i) [0..<num] ! index = i + 64 * index" "i + 64 * index < num"
      using zone_cmds_nth [of i index num] zone_slot_lt [of i index num] that i by auto
    then show ?thesis using w by (simp add: winv_def)
  qed
  then show ?thesis
    unfolding submit_zone_def try_submit_def row ix index_def [symmetric] Let_def
    by (simp add: len busy)
qed

lemma kept_trans: "zones_kept infl j w v \<Longrightarrow> zones_kept infl j v u \<Longrightarrow> zones_kept infl j w u"
  by (simp add: zones_kept_def)

lemma submit_kept:
  assumes law: "device_law xn infl" and inv: "winv num cmds queue infl idx w" and k: "k < num"
    and sub: "io_submit (znd_core xn zv) k w = Some (ret, w')" and j: "zone_idle infl j w" "ret = 0 \<Longrightarrow> j \<noteq> k mod 64"
  shows "zones_kept infl j w w'"
  using submit_effect [OF law inv k sub] j by (auto simp: zones_kept_def zone_idle_def put_mcmd_def split: if_splits)

text \<open>The outcome of a submission to an idle zone \<open>i\<close>.\<close>

lemma try_submit_outcome:
  assumes law: "device_law xn infl" and w: "winv num cmds queue infl idx (wr_w ws)" and i: "i < min num 64"
    and idx: "idx = wr_zn_cmd_id_index ws" "length idx = 128" "idx ! i < slots_before num i" "wr_minflight ws ! i = 0"
    and step: "try_submit xn (znd_core xn zv) md misc0 i ws = Some (ws', ctl)"
  obtains (failed) v where "ws' = ws\<lparr>wr_w := v\<rparr>" "ctl = Submitting i" "winv num cmds queue infl idx v"
      "zone_idle infl i v" "uc_minflight (iw_ucmd v) ! i \<noteq> 0"
      "\<And>j. zone_idle infl j (wr_w ws) \<Longrightarrow> j \<noteq> i \<Longrightarrow> zones_kept infl j (wr_w ws) v"
  | (sent) v where "ws' = ws\<lparr>wr_w := v, wr_submitted := wr_submitted ws + 1, wr_zn_cmd_id_index := idx[i := idx ! i + 1]\<rparr>"
      "ctl = Submitting (i + 1)" "winv num cmds queue infl (idx[i := idx ! i + 1]) v"
      "\<And>j. zone_idle infl j (wr_w ws) \<Longrightarrow> j \<noteq> i \<Longrightarrow> zones_kept infl j (wr_w ws) v"
proof -
  define k where "k = i + 64 * idx ! i"
  define w1 where "w1 = (wr_w ws)\<lparr>iw_ucmd := (iw_ucmd (wr_w ws))\<lparr>uc_minflight := (wr_minflight ws)[i := 1]\<rparr>\<rparr>"
  have k: "k < num" "k mod 64 = i" "k div 64 = idx ! i" using zone_slot_lt [OF _ idx(3)] i by (simp_all add: k_def)
  have w1: "winv num cmds queue infl idx w1" using winv_mark [OF w] i by (simp add: w1_def)
  have z: "zone_idle infl i w1" "uc_minflight (iw_ucmd w1) ! i \<noteq> 0"
    using winv_idle [OF w idx(4)] w i by (auto simp: w1_def zone_idle_def winv_def)
  have kept1: "zones_kept infl j (wr_w ws) w1" if "zone_idle infl j (wr_w ws)" "j \<noteq> i" for j
    using that by (simp add: zones_kept_def zone_idle_def w1_def)
  note t0 = step [unfolded try_submit_def Let_def, folded idx(1), folded k_def w1_def]
  obtain ret w2 where w2: "io_submit (znd_core xn zv) k w1 = Some (ret, w2)"
    using t0 by (cases "io_submit (znd_core xn zv) k w1") auto
  note t = t0 [unfolded w2 bind.bind_lunit prod.case]
  show thesis
  proof (cases "ret = 0")
    case False
    obtain w3 w4 where w3: "io_stats_inc XZTL_STATS_WRITE_SUBMIT_FAIL w2 = Some w3"
      "ztl_io_poke_ctx xn (znd_core xn zv) md misc0 w3 = Some w4" "ws' = ws\<lparr>wr_w := w4\<rparr>" "ctl = Submitting i"
      using t False by (auto simp: bind_eq_Some_conv)
    have "winv num cmds queue infl idx w2" using winv_submit [OF law w1 k(1) _ _ w2] z k(2) False by simp
    then have inv3: "winv num cmds queue infl idx w3" and f: "iw_x w3 = iw_x w2" "iw_ucmd w3 = iw_ucmd w2"
      using winv_stats [of num cmds queue infl idx w2 XZTL_STATS_WRITE_SUBMIT_FAIL] w3(1) by auto
    have "zones_kept infl j w1 w4" if "zone_idle infl j w1" for j
    proof -
      have "zones_kept infl j w1 w3" using submit_kept [OF law w1 k(1) w2 that] False f by (simp add: zones_kept_def zone_idle_def)
      then show ?thesis using poke_kept [OF law inv3 _ w3(2)] kept_trans by (auto simp: zones_kept_def)
    qed
    then show thesis using failed [OF w3(3,4) winv_poke [OF law inv3 w3(2)]] z kept1 kept_trans
      by (metis zones_kept_def)
  next
    case True
    define w3 where "w3 = put_mcmd k ((qp_mcmd (iw_q w2) ! k)\<lparr>mc_submitted := 1\<rparr>) w2"
    obtain w4 where w4: "(if (wr_submitted ws + 1) mod 8 = 0 then ztl_io_poke_ctx xn (znd_core xn zv) md misc0 w3 else Some w3) = Some w4"
      "ws' = ws\<lparr>wr_w := w4, wr_submitted := wr_submitted ws + 1, wr_zn_cmd_id_index := idx[i := idx ! i + 1]\<rparr>"
      "ctl = Submitting (i + 1)"
      using t True unfolding w3_def by (auto simp: bind_eq_Some_conv)
    have "winv num cmds queue infl (idx[i := idx ! i + 1]) w2"
      using winv_submit [OF law w1 k(1) _ _ w2, of "idx[i := idx ! i + 1]"] z True k idx(2) i by simp
    then have inv3: "winv num cmds queue infl (idx[i := idx ! i + 1]) w3" unfolding w3_def by (intro winv_put_mcmd) simp_all
    have "zones_kept infl j w1 w4" if "zone_idle infl j w1" "j \<noteq> i" for j
    proof -
      have "zones_kept infl j w1 w3" using submit_kept [OF law w1 k(1) w2 that(1)] that(2) k(2)
        by (simp add: zones_kept_def zone_idle_def w3_def put_mcmd_def)
      then show ?thesis using poke_kept [OF law inv3] kept_trans w4(1) by (fastforce simp: zones_kept_def split: if_splits)
    qed
    moreover have "winv num cmds queue infl (idx[i := idx ! i + 1]) w4" using w4(1) inv3 winv_poke [OF law inv3] by (auto split: if_splits)
    ultimately show thesis using sent [OF w4(2,3)] kept1 kept_trans by (metis zones_kept_def)
  qed
qed

lemma sinv_submit_zone:
  assumes law: "device_law xn infl" and inv: "sinv num cmds queue infl ws" and i: "i < min num 64"
    and step: "submit_zone xn (znd_core xn zv) md misc0 i ws = Some (ws', ctl)"
  shows "sinv num cmds queue infl ws'"
proof -
  define idx where "idx = wr_zn_cmd_id_index ws"
  have w: "winv num cmds queue infl idx (wr_w ws)" and l: "length idx = 128" "wr_zn_cmd_id ws = zone_rows num"
    using inv by (auto simp: sinv_def idx_def)
  have upd: "sinv num cmds queue infl (ws\<lparr>wr_w := v\<rparr>)" if "winv num cmds queue infl idx v" for v
    using that l by (simp add: sinv_def idx_def)
  note st = step [unfolded submit_zone_cases [OF inv i], folded idx_def]
  consider (full) "slots_before num i \<le> idx ! i" | (busy) "\<not> slots_before num i \<le> idx ! i" "wr_minflight ws ! i \<noteq> 0"
    | (idle) "idx ! i < slots_before num i" "wr_minflight ws ! i = 0" by linarith
  then show ?thesis
  proof cases
    case full
    then show ?thesis using inv st by simp
  next
    case busy
    then obtain v where "ztl_io_poke_ctx xn (znd_core xn zv) md misc0 (wr_w ws) = Some v" "ws' = ws\<lparr>wr_w := v\<rparr>"
      using st by (auto simp: bind_eq_Some_conv)
    then show ?thesis using winv_poke [OF law w] upd by blast
  next
    case idle
    then have t: "try_submit xn (znd_core xn zv) md misc0 i ws = Some (ws', ctl)" using st by simp
    show ?thesis by (rule try_submit_outcome [OF law w i idx_def l(1) idle t]) (use upd l in \<open>auto simp: sinv_def\<close>)
  qed
qed

lemma sinv_step:
  assumes law: "device_law xn infl" and inv: "sinv num cmds queue infl ws"
    and step: "write_step xn (znd_core xn zv) md misc0 num (ws, ctl) = Some (ws', ctl')"
  shows "sinv num cmds queue infl ws'"
proof -
  have w: "winv num cmds queue infl (wr_zn_cmd_id_index ws) (wr_w ws)" using inv by (simp add: sinv_def)
  then have n: "pa_naddr (qp_prov (iw_q (wr_w ws))) = min num 64" by (simp add: winv_def)
  show ?thesis
  proof (cases ctl)
    case (Submitting i)
    then show ?thesis using step inv n sinv_submit_zone [OF law inv, of i]
      by (auto simp: write_step_def split: if_splits)
  next
    case Draining
    then show ?thesis using step inv winv_poke [OF law w]
      by (auto simp: write_step_def sinv_def bind_eq_Some_conv split: if_splits)
  next
    case Written
    then show ?thesis using step inv by (simp add: write_step_def)
  qed
qed

section \<open>The start of a piece\<close>

text \<open>The state a piece starts from: the provisioned addresses and enough slots, an idle queue of the
  thread and arrays of their sizes.\<close>

definition piece_ready :: "nat \<Rightarrow> nat \<Rightarrow> nat \<Rightarrow> nat \<Rightarrow> 'x io_world \<Rightarrow> bool" where
  "piece_ready nbytes num boff queue w \<longleftrightarrow>
     piece_ok nbytes num (qp_prov (iw_q w)) (qp_mcmd (iw_q w)) (iw_ucmd w) boff \<and>
     length (uc_minflight (iw_ucmd w)) = 256 \<and> num \<le> length (uc_moffset (iw_ucmd w)) \<and>
     ms_tctx (iw_media w) (qp_tctx (iw_q w)) = Some queue \<and> ms_done (iw_media w) = [] \<and>
     length (ms_io (iw_media w)) = XZTL_STATS_IO_TYPES"

definition piece_cmds :: "nat \<Rightarrow> nat \<Rightarrow> nat \<Rightarrow> 'x io_world \<Rightarrow> xztl_io_mcmd list" where
  "piece_cmds nbytes num boff w = ps_mcmd (pop_at nbytes (qp_tctx (iw_q w)) num (qp_prov (iw_q w)) (qp_mcmd (iw_q w)) (iw_ucmd w) boff num)"

lemma write_populate_ready:
  assumes "piece_ready nbytes num boff queue w"
  defines "ps \<equiv> pop_at nbytes (qp_tctx (iw_q w)) num (qp_prov (iw_q w)) (qp_mcmd (iw_q w)) (iw_ucmd w) boff num"
  shows "write_populate nbytes num boff w = Some (ps, w\<lparr>
    iw_ucmd := (ps_ucmd ps)\<lparr>uc_pieces := u16 (uc_pieces (iw_ucmd w) + 1),
       uc_minflight := replicate 128 0 @ drop 128 (uc_minflight (iw_ucmd w)), uc_nmcmd := num, uc_ncb := 0\<rparr>,
    iw_q := (iw_q w)\<lparr>qp_mcmd := ps_mcmd ps, qp_prov := (qp_prov (iw_q w))\<lparr>pa_addr := ps_addr ps\<rparr>\<rparr>\<rparr>)"
proof -
  have ok: "piece_ok nbytes num (qp_prov (iw_q w)) (qp_mcmd (iw_q w)) (iw_ucmd w) boff"
    using assms(1) by (simp add: piece_ready_def)
  then have "u16 num = num" by (intro u16_small) (simp add: piece_ok_def)
  then show ?thesis using populate_correct [OF ok, of "qp_tctx (iw_q w)"]
    by (simp add: write_populate_def Let_def ps_def pop_at_def)
qed

lemma sinv_start:
  assumes ready: "piece_ready nbytes num boff queue w0" and pop: "write_populate nbytes num boff w0 = Some (ps, w)"
    and idle: "infl (iw_x w0) = {#}"
  shows "sinv num (piece_cmds nbytes num boff w0) queue infl (fst (write_start num ps w))"
proof -
  have w: "iw_ucmd w = (ps_ucmd ps)\<lparr>uc_pieces := u16 (uc_pieces (iw_ucmd w0) + 1),
       uc_minflight := replicate 128 0 @ drop 128 (uc_minflight (iw_ucmd w0)), uc_nmcmd := num, uc_ncb := 0\<rparr>"
    "iw_q w = (iw_q w0)\<lparr>qp_mcmd := ps_mcmd ps, qp_prov := (qp_prov (iw_q w0))\<lparr>pa_addr := ps_addr ps\<rparr>\<rparr>"
    "iw_media w = iw_media w0"
    "ps = pop_at nbytes (qp_tctx (iw_q w0)) num (qp_prov (iw_q w0)) (qp_mcmd (iw_q w0)) (iw_ucmd w0) boff num"
    using pop [unfolded write_populate_ready [OF ready]] by auto
  have r: "piece_ok nbytes num (qp_prov (iw_q w0)) (qp_mcmd (iw_q w0)) (iw_ucmd w0) boff"
    "length (uc_minflight (iw_ucmd w0)) = 256" "num \<le> length (uc_moffset (iw_ucmd w0))"
    "ms_tctx (iw_media w0) (qp_tctx (iw_q w0)) = Some queue" "ms_done (iw_media w0) = []"
    "length (ms_io (iw_media w0)) = XZTL_STATS_IO_TYPES" using ready by (auto simp: piece_ready_def)
  have b: "num \<le> length (qp_mcmd (iw_q w0))" "num \<le> length (uc_mcmd (iw_ucmd w0))" "pa_naddr (qp_prov (iw_q w0)) = min num 64"
    using r(1) by (auto simp: piece_ok_def)
  have c: "piece_cmd tctx k (write_cmd nbytes tctx addrs boff old k)" for k tctx addrs old
    by (simp add: piece_cmd_def write_cmd_def)
  have rows: "ps_zn_cmd_id ps = zone_rows num" unfolding w(4) by (simp add: pop_at_def zone_rows_def del: upt_rec_numeral)
  have "winv num (piece_cmds nbytes num boff w0) queue infl (replicate 128 0) w"
    unfolding winv_def piece_cmds_def w(1-3) w(4) using r(2-6) b c idle
    by (simp add: pop_at_def del: upt_rec_numeral)
  then show ?thesis using rows by (simp add: sinv_def write_start_def)
qed

end
