(* ===== verification/Ztl_Io_Piece.thy ===== *)
theory Ztl_Io_Piece
  imports Ztl_Io_Write
begin

text \<open>
  What becomes of a piece. Whatever the device answers, one command per zone is in flight; a
  failed submission leaves the zone marked with nothing in flight, and the loop never ends then;
  on a device without errors the loop ends within a bound on its steps, with all commands
  completed and the provisioning released.
\<close>

section \<open>Counts\<close>

definition cinv :: "nat \<Rightarrow> 'x write_state \<Rightarrow> bool" where
  "cinv num ws \<longleftrightarrow> wr_submitted ws = (\<Sum>i<64. wr_zn_cmd_id_index ws ! i) \<and>
     (\<forall>i < 64. wr_zn_cmd_id_index ws ! i \<le> slots_before num i)"

lemma sum_update:
  fixes idx :: "nat list"
  assumes "i < 64" "length idx = 128"
  shows "(\<Sum>j<64. idx[i := Suc (idx ! i)] ! j) = Suc (\<Sum>j<64. idx ! j)"
proof -
  have "(\<Sum>j<64. idx[i := Suc (idx ! i)] ! j) = (\<Sum>j<64. idx ! j + (if j = i then 1 else 0))"
    using assms by (intro sum.cong) (auto simp: nth_list_update)
  also have "\<dots> = Suc (\<Sum>j<64. idx ! j)" using assms(1) by (simp add: sum.distrib)
  finally show ?thesis .
qed

lemma sum_slots: "(\<Sum>i<64. slots_before num i) = num"
proof (induction num)
  case 0
  show ?case by (simp add: slots_before_def)
next
  case (Suc num)
  have "(\<Sum>i<64. slots_before (Suc num) i) = (\<Sum>i<64. slots_before num i + (if i = num mod 64 then 1 else 0))"
    by (intro sum.cong) (auto simp: slots_before_Suc)
  then show ?case using Suc by (simp add: sum.distrib)
qed

lemma slots_beyond: "num \<le> i \<Longrightarrow> i < 64 \<Longrightarrow> slots_before num i = 0"
  by (simp add: slots_before_def)

text \<open>Fewer than \<open>num\<close> commands are submitted exactly while a zone has commands left.\<close>

lemma cinv_left:
  assumes "cinv num ws"
  shows "wr_submitted ws < num \<longleftrightarrow> (\<exists>i < min num 64. wr_zn_cmd_id_index ws ! i < slots_before num i)"
proof -
  let ?idx = "\<lambda>i. wr_zn_cmd_id_index ws ! i"
  have le: "\<forall>i < 64. ?idx i \<le> slots_before num i" and sub: "wr_submitted ws = (\<Sum>i<64. ?idx i)"
    using assms by (auto simp: cinv_def)
  show ?thesis
  proof
    assume "wr_submitted ws < num"
    then have "(\<Sum>i<64. ?idx i) \<noteq> (\<Sum>i<64. slots_before num i)" using sum_slots [of num] sub by simp
    moreover have "(\<Sum>i<64. ?idx i) = (\<Sum>i<64. slots_before num i)" if "\<forall>i < 64. ?idx i = slots_before num i"
      using that by (intro sum.cong) auto
    ultimately have "\<not> (\<forall>i < 64. ?idx i = slots_before num i)" by blast
    then obtain i where i: "i < 64" "?idx i < slots_before num i" using le by force
    then have "i < num" using slots_beyond [of num i] by force
    then show "\<exists>i < min num 64. ?idx i < slots_before num i" using i by auto
  next
    assume "\<exists>i < min num 64. ?idx i < slots_before num i"
    then obtain i where "i < 64" "?idx i < slots_before num i" by auto
    then have "(\<Sum>i<64. ?idx i) < (\<Sum>i<64. slots_before num i)" using le by (intro sum_strict_mono_ex1) auto
    then show "wr_submitted ws < num" using sum_slots [of num] sub by simp
  qed
qed

lemma cinv_world [simp]: "cinv num (ws\<lparr>wr_w := v\<rparr>) = cinv num ws"
  by (simp add: cinv_def)

lemma cinv_sent:
  assumes "cinv num ws" "i < 64" "length (wr_zn_cmd_id_index ws) = 128" "wr_zn_cmd_id_index ws ! i < slots_before num i"
  shows "cinv num (ws\<lparr>wr_w := v, wr_submitted := wr_submitted ws + 1,
    wr_zn_cmd_id_index := (wr_zn_cmd_id_index ws)[i := wr_zn_cmd_id_index ws ! i + 1]\<rparr>)"
  using assms sum_update [OF assms(2,3)] by (auto simp: cinv_def nth_list_update)

lemma cinv_start: "cinv num (fst (write_start num ps w))"
  by (simp add: cinv_def write_start_def)

section \<open>Failed submissions\<close>

text \<open>Zone \<open>i\<close> has commands left and is marked, but nothing is in flight there.\<close>

definition stuck :: "nat \<Rightarrow> ('x \<Rightarrow> nat multiset) \<Rightarrow> nat \<Rightarrow> 'x write_state \<Rightarrow> bool" where
  "stuck num infl i ws \<longleftrightarrow> i < min num 64 \<and> wr_zn_cmd_id_index ws ! i < slots_before num i \<and>
     zone_idle infl i (wr_w ws) \<and> wr_minflight ws ! i \<noteq> 0"

lemma stuck_kept: "stuck num infl i ws \<Longrightarrow> zones_kept infl i (wr_w ws) v \<Longrightarrow> stuck num infl i (ws\<lparr>wr_w := v\<rparr>)"
  by (simp add: stuck_def zones_kept_def)

lemma stuck_zone:
  assumes law: "device_law xn infl" and inv: "sinv num cmds queue infl ws" "cinv num ws" "stuck num infl i ws" and z: "z < min num 64"
    and step: "submit_zone xn (znd_core xn zv) md misc0 z ws = Some (ws', ctl)"
  shows "cinv num ws' \<and> stuck num infl i ws' \<and> (\<exists>z'. ctl = Submitting z')"
proof -
  define idx where "idx = wr_zn_cmd_id_index ws"
  have w: "winv num cmds queue infl idx (wr_w ws)" and l: "length idx = 128" using inv(1) by (auto simp: sinv_def idx_def)
  note st = step [unfolded submit_zone_cases [OF inv(1) z], folded idx_def]
  consider (full) "slots_before num z \<le> idx ! z" | (busy) "\<not> slots_before num z \<le> idx ! z" "wr_minflight ws ! z \<noteq> 0"
    | (idle) "idx ! z < slots_before num z" "wr_minflight ws ! z = 0" by linarith
  then show ?thesis
  proof cases
    case full
    then show ?thesis using inv st by auto
  next
    case busy
    then obtain v where v: "ztl_io_poke_ctx xn (znd_core xn zv) md misc0 (wr_w ws) = Some v" "ws' = ws\<lparr>wr_w := v\<rparr>"
      "ctl = Submitting (z + 1)" using st by (auto simp: bind_eq_Some_conv)
    have "zones_kept infl i (wr_w ws) v" using poke_kept [OF law w _ v(1)] inv(3) by (simp add: stuck_def)
    then show ?thesis using v inv(2) stuck_kept [OF inv(3)] by simp
  next
    case idle
    then have t: "try_submit xn (znd_core xn zv) md misc0 z ws = Some (ws', ctl)" using st by simp
    have ne: "i \<noteq> z" and i: "zone_idle infl i (wr_w ws)" using inv(3) idle(2) by (auto simp: stuck_def)
    from law w z idx_def l(1) idle t show ?thesis
    proof (cases rule: try_submit_outcome)
      case (failed v)
      then show ?thesis using inv(2) stuck_kept [OF inv(3), of v] ne i by simp
    next
      case (sent v)
      then show ?thesis using cinv_sent [OF inv(2), of z v] z l idle(1) inv(3) ne i
        by (auto simp: stuck_def zones_kept_def idx_def)
    qed
  qed
qed

lemma stuck_run:
  assumes law: "device_law xn infl"
  shows "sinv num cmds queue infl ws \<Longrightarrow> cinv num ws \<Longrightarrow> stuck num infl i ws \<Longrightarrow>
    write_run xn (znd_core xn zv) md misc0 num fuel (ws, Submitting z) = None"
proof (induction fuel arbitrary: ws z)
  case 0
  then show ?case by simp
next
  case (Suc fuel)
  have n: "pa_naddr (qp_prov (iw_q (wr_w ws))) = min num 64" using Suc.prems(1) by (simp add: sinv_def winv_def)
  have left: "wr_submitted ws < num" using cinv_left [OF Suc.prems(2)] Suc.prems(3) by (auto simp: stuck_def)
  show ?case
  proof (cases "z < min num 64")
    case True
    show ?thesis
    proof (cases "submit_zone xn (znd_core xn zv) md misc0 z ws")
      case None
      then show ?thesis using True n by (simp add: write_step_def)
    next
      case (Some c)
      obtain ws' ctl where c: "c = (ws', ctl)" by (cases c)
      then have s: "submit_zone xn (znd_core xn zv) md misc0 z ws = Some (ws', ctl)" using Some by simp
      then have "sinv num cmds queue infl ws'" using sinv_submit_zone [OF law Suc.prems(1) True] by blast
      moreover obtain z' where "cinv num ws'" "stuck num infl i ws'" "ctl = Submitting z'"
        using stuck_zone [OF law Suc.prems True s] by blast
      ultimately show ?thesis using Suc.IH s True n by (simp add: write_step_def)
    qed
  next
    case False
    then show ?thesis using Suc.IH [OF Suc.prems] n left by (auto simp: write_step_def)
  qed
qed

section \<open>Reachable states\<close>

abbreviation write_steps ::
    "'x xnvme \<Rightarrow> znd_media \<Rightarrow> ztl_metadata \<Rightarrow> xztl_misc_cmd \<Rightarrow> nat \<Rightarrow> 'x write_state \<times> write_ctl \<Rightarrow> 'x write_state \<times> write_ctl \<Rightarrow> bool" where
  "write_steps xn zv md misc0 num \<equiv> (\<lambda>c c'. write_step xn (znd_core xn zv) md misc0 num c = Some c')\<^sup>*\<^sup>*"

lemma cinv_step:
  assumes law: "device_law xn infl" and inv: "sinv num cmds queue infl ws" "cinv num ws"
    and step: "write_step xn (znd_core xn zv) md misc0 num (ws, ctl) = Some (ws', ctl')"
  shows "cinv num ws'"
proof (cases ctl)
  case (Submitting z)
  define idx where "idx = wr_zn_cmd_id_index ws"
  have w: "winv num cmds queue infl idx (wr_w ws)" and l: "length idx = 128" using inv(1) by (auto simp: sinv_def idx_def)
  have n: "pa_naddr (qp_prov (iw_q (wr_w ws))) = min num 64" using w by (simp add: winv_def)
  show ?thesis
  proof (cases "z < min num 64 \<and> idx ! z < slots_before num z \<and> wr_minflight ws ! z = 0")
    case True
    then have z: "z < min num 64" "idx ! z < slots_before num z" "wr_minflight ws ! z = 0"
      "try_submit xn (znd_core xn zv) md misc0 z ws = Some (ws', ctl')"
      using step Submitting n submit_zone_cases [OF inv(1), of z] by (simp_all add: write_step_def idx_def)
    show ?thesis
      by (rule try_submit_outcome [OF law w z(1) idx_def l z(2-4)])
        (use inv(2) cinv_sent [OF inv(2), of z] z l in \<open>auto simp: idx_def\<close>)
  next
    case False
    then show ?thesis using step Submitting n submit_zone_cases [OF inv(1), of z] inv(2)
      by (auto simp: write_step_def idx_def bind_eq_Some_conv split: if_splits)
  qed
qed (use step inv(2) in \<open>auto simp: write_step_def bind_eq_Some_conv split: if_splits\<close>)

lemma reach_inv:
  assumes law: "device_law xn infl" and start: "sinv num cmds queue infl (fst c0)" "cinv num (fst c0)"
    and reach: "write_steps xn zv md misc0 num c0 c"
  shows "sinv num cmds queue infl (fst c) \<and> cinv num (fst c)"
  using reach
proof (induction rule: rtranclp_induct)
  case base
  then show ?case using start by simp
next
  case (step c c')
  obtain ws ctl ws' ctl' where "c = (ws, ctl)" "c' = (ws', ctl')" by (cases c; cases c')
  then show ?case using step sinv_step [OF law] cinv_step [OF law] by (metis fst_conv)
qed

section \<open>A device without errors\<close>

text \<open>The invariant of a piece there: counts agree, a mark means a command in flight, and the
  addresses of the completed commands are noted. The group is \<open>g0\<close> until the last completion
  releases the provisioning, and \<open>g1\<close> after it.\<close>

definition uc_core :: "xztl_io_ucmd \<Rightarrow> xztl_io_ucmd" where
  "uc_core u = u\<lparr>uc_moffset := [], uc_minflight := [], uc_ncb := 0\<rparr>"

definition q_core :: "ztl_queue_pool \<Rightarrow> ztl_queue_pool" where
  "q_core q = q\<lparr>qp_mcmd := []\<rparr>"

lemma core_simps [simp]:
  "uc_core (u\<lparr>uc_moffset := a\<rparr>) = uc_core u" "uc_core (u\<lparr>uc_minflight := b\<rparr>) = uc_core u"
  "uc_core (u\<lparr>uc_ncb := n\<rparr>) = uc_core u" "q_core (q\<lparr>qp_mcmd := c\<rparr>) = q_core q" "qp_prov (q_core q) = qp_prov q"
  by (simp_all add: uc_core_def q_core_def)

text \<open>The invariant: the fields of the user command and of the queue that the steps leave alone are \<open>stat\<close> and \<open>qc\<close>.\<close>

definition ginv ::
    "nat \<Rightarrow> xztl_io_mcmd list \<Rightarrow> nat \<Rightarrow> ('x \<Rightarrow> nat multiset) \<Rightarrow> app_group \<Rightarrow> app_group \<Rightarrow> ztl_queue_pool \<Rightarrow> xztl_io_ucmd \<Rightarrow>
     nat list \<Rightarrow> 'x io_world \<Rightarrow> bool" where
  "ginv num cmds queue infl g0 g1 qc stat idx w \<longleftrightarrow> winv num cmds queue infl idx w \<and>
     uc_nmcmd (iw_ucmd w) = num \<and> uc_ncb (iw_ucmd w) + size (infl (iw_x w)) = (\<Sum>i<64. idx ! i) \<and>
     iw_grp w = (if uc_ncb (iw_ucmd w) = num then g1 else g0) \<and> q_core (iw_q w) = qc \<and>
     uc_core (iw_ucmd w) = stat \<and>
     (\<forall>i < 64. uc_minflight (iw_ucmd w) ! i \<noteq> 0 \<longrightarrow> \<not> zone_idle infl i w) \<and>
     (\<forall>k < num. k div 64 < idx ! (k mod 64) \<and> k \<notin># infl (iw_x w) \<longrightarrow>
        uc_moffset (iw_ucmd w) ! k = g_sect (mc_addr (cmds ! k)))"

text \<open>The state after the completion of command \<open>k\<close>.\<close>

definition completed_state :: "'x xnvme \<Rightarrow> nat \<Rightarrow> app_group \<Rightarrow> nat \<Rightarrow> 'x \<Rightarrow> 'x io_world \<Rightarrow> 'x io_world" where
  "completed_state xn queue grp k x w =
     (let m = qp_mcmd (iw_q w) ! k; sect = g_sect (mc_addr m) in
      w\<lparr>iw_q := (iw_q w)\<lparr>qp_mcmd := (qp_mcmd (iw_q w))[k := m\<lparr>mc_status := 0, mc_paddr := sect\<rparr>]\<rparr>, iw_grp := grp,
        iw_ucmd := (iw_ucmd w)\<lparr>uc_moffset := (uc_moffset (iw_ucmd w))[k := sect],
          uc_minflight := (uc_minflight (iw_ucmd w))[k mod 64 := 0], uc_ncb := Suc (uc_ncb (iw_ucmd w))\<rparr>,
        iw_media := (iw_media w)\<lparr>ms_x := xn_put_ctx xn queue (mc_media_ctx m) x\<rparr>\<rparr>)"

lemma complete_run:
  assumes inv: "winv num cmds queue infl idx w" and k: "k < num" and nm: "uc_nmcmd (iw_ucmd w) = num" "num < 65536"
    and ncb: "uc_ncb (iw_ucmd w) < num"
    and grp: "(if Suc (uc_ncb (iw_ucmd w)) = num then ztl_pro_free md (qp_prov (iw_q w)) (iw_grp w) else Some (iw_grp w)) = Some grp"
  shows "write_complete xn (znd_core xn zv) md (k, 0, cdw0) (w\<lparr>iw_media := (iw_media w)\<lparr>ms_x := x\<rparr>\<rparr>) =
    Some (completed_state xn queue grp k x w)"
proof -
  define m where "m = qp_mcmd (iw_q w) ! k"
  have m: "mc_opcode m = op XZTL_CMD_WRITE" "mc_sequence m = k" "mc_sequence_zn m = k mod 64" "mc_async_ctx m = qp_tctx (iw_q w)"
    using inv k piece_cmd_core [of "qp_tctx (iw_q w)" k "cmds ! k" m] by (simp_all add: winv_def m_def piece_cmd_def)
  have len: "k < length (qp_mcmd (iw_q w))" "k < length (uc_moffset (iw_ucmd w))" "k mod 64 < length (uc_minflight (iw_ucmd w))"
    "ms_tctx (iw_media w) (qp_tctx (iw_q w)) = Some queue"
    using inv k by (auto simp: winv_def)
  have st: "async_cb_status 0 cdw0 m = m\<lparr>mc_status := 0, mc_paddr := g_sect (mc_addr m)\<rparr>"
    using m(1) by (simp add: async_cb_status_def Let_def)
  have u: "u16 (Suc (uc_ncb (iw_ucmd w))) = Suc (uc_ncb (iw_ucmd w))" using ncb nm(2) by (intro u16_small) simp
  show ?thesis
    using len grp
    by (auto simp: write_complete_def ztl_io_write_callback_mcmd_def write_callback_done_def async_cb_put_def put_mcmd_def
      m_def [symmetric] st m u nm completed_state_def Let_def split: if_splits)
qed

lemma ginv_complete:
  assumes law: "device_law xn infl" and g: "ginv num cmds queue infl g0 g1 qc stat idx w"
    and k: "k \<in># infl (iw_x w)" and x: "infl x = infl (iw_x w) - {#k#}"
    and bound: "(\<Sum>i<64. idx ! i) \<le> num" "num < 65536" and free: "ztl_pro_free md (qp_prov qc) g0 = Some g1"
  shows "\<exists>w'. write_complete xn (znd_core xn zv) md (k, 0, cdw0) (w\<lparr>iw_media := (iw_media w)\<lparr>ms_x := x\<rparr>\<rparr>) = Some w' \<and>
    ginv num cmds queue infl g0 g1 qc stat idx w' \<and> uc_ncb (iw_ucmd w') = Suc (uc_ncb (iw_ucmd w))"
proof -
  have inv: "winv num cmds queue infl idx w" and gs: "uc_nmcmd (iw_ucmd w) = num"
    "uc_ncb (iw_ucmd w) + size (infl (iw_x w)) = (\<Sum>i<64. idx ! i)"
    "iw_grp w = (if uc_ncb (iw_ucmd w) = num then g1 else g0)" "q_core (iw_q w) = qc" "uc_core (iw_ucmd w) = stat"
    "\<forall>i < 64. uc_minflight (iw_ucmd w) ! i \<noteq> 0 \<longrightarrow> \<not> zone_idle infl i w"
    "\<forall>k < num. k div 64 < idx ! (k mod 64) \<and> k \<notin># infl (iw_x w) \<longrightarrow> uc_moffset (iw_ucmd w) ! k = g_sect (mc_addr (cmds ! k))"
    using g by (auto simp: ginv_def)
  note del = winv_deliver [OF inv k x]
  have core: "cmd_core (qp_mcmd (iw_q w) ! k) = cmd_core (cmds ! k)" using inv del(3) by (auto simp: winv_def)
  have len: "k < length (uc_moffset (iw_ucmd w))" "k mod 64 < length (uc_minflight (iw_ucmd w))"
    using inv del(3) by (auto simp: winv_def)
  have size: "size (infl (iw_x w)) = Suc (size (infl x))" using size_Suc_Diff1 [OF k] x by metis
  then have ncb: "uc_ncb (iw_ucmd w) < num" using gs(2) bound(1) by simp
  define grp where "grp = (if Suc (uc_ncb (iw_ucmd w)) = num then g1 else g0)"
  define w' where "w' = completed_state xn queue grp k x w"
  have run: "write_complete xn (znd_core xn zv) md (k, 0, cdw0) (w\<lparr>iw_media := (iw_media w)\<lparr>ms_x := x\<rparr>\<rparr>) = Some w'"
    unfolding w'_def using gs(3) ncb free unfolding gs(4) [symmetric]
    by (intro complete_run [OF inv del(3) gs(1) bound(2) ncb]) (simp add: grp_def)
  have inv': "winv num cmds queue infl idx w'"
    using winv_complete [OF law del(1,3,2) _ del(4) run] del(5) by simp
  have x': "infl (iw_x w') = infl (iw_x w) - {#k#}" using device_lawD(2) [OF law] x by (simp add: w'_def completed_state_def Let_def)
  have marks: "\<not> zone_idle infl i w'" if "i < 64" "uc_minflight (iw_ucmd w') ! i \<noteq> 0" for i
  proof -
    have i: "i \<noteq> k mod 64" "uc_minflight (iw_ucmd w) ! i \<noteq> 0"
      using that len(2) by (auto simp: w'_def completed_state_def Let_def nth_list_update split: if_splits)
    then obtain j where j: "j \<in># infl (iw_x w)" "j mod 64 = i" using gs(6) \<open>i < 64\<close> by (auto simp: zone_idle_def)
    then have "j \<in># infl (iw_x w')" using i(1) x' by (auto simp: in_diff_count)
    then show ?thesis using j(2) by (auto simp: zone_idle_def)
  qed
  have offs: "uc_moffset (iw_ucmd w') ! j = g_sect (mc_addr (cmds ! j))"
    if "j < num" "j div 64 < idx ! (j mod 64)" "j \<notin># infl (iw_x w')" for j
  proof -
    have "j \<notin># infl (iw_x w)" if "j \<noteq> k" using that \<open>j \<notin># infl (iw_x w')\<close> x' by (auto simp: in_diff_count)
    then show ?thesis using gs(7) that(1,2) len(1) cmd_core_fields(5) [OF core]
      by (cases "j = k") (simp_all add: w'_def completed_state_def Let_def)
  qed
  have "uc_ncb (iw_ucmd w') + size (infl (iw_x w')) = (\<Sum>i<64. idx ! i)"
    using gs(2) size x x' by (simp add: w'_def completed_state_def Let_def)
  then have "ginv num cmds queue infl g0 g1 qc stat idx w'"
    unfolding ginv_def using inv' marks offs gs(1,4,5) by (simp add: w'_def completed_state_def Let_def grp_def)
  then show ?thesis using run by (auto simp: w'_def completed_state_def Let_def)
qed

lemma ginv_poke:
  assumes good: "device_good xn infl" and g: "ginv num cmds queue infl g0 g1 qc stat idx w"
    and bound: "(\<Sum>i<64. idx ! i) \<le> num" "num < 65536" and free: "ztl_pro_free md (qp_prov qc) g0 = Some g1"
  shows "\<exists>w'. ztl_io_poke_ctx xn (znd_core xn zv) md misc0 w = Some w' \<and> ginv num cmds queue infl g0 g1 qc stat idx w' \<and>
    uc_ncb (iw_ucmd w') = uc_ncb (iw_ucmd w) + (if infl (iw_x w) = {#} then 0 else 1)"
proof -
  have law: "device_law xn infl" and inv: "winv num cmds queue infl idx w" using good g by (auto simp: device_good_def ginv_def)
  obtain ret ds x where d: "xn_poke xn queue 1 (iw_x w) = (ret, ds, x)" by (cases "xn_poke xn queue 1 (iw_x w)")
  note D = device_lawD(4) [OF law d]
  show ?thesis
  proof (cases "infl (iw_x w) = {#}")
    case True
    then have "ds = []" "infl x = infl (iw_x w)" using D by auto
    then show ?thesis using True poke_znd [OF inv d] g winv_x [OF inv, of x]
      by (auto simp: ginv_def zone_idle_def)
  next
    case False
    then obtain k cdw0 where "ds = [(k, 0, cdw0)]" using good d unfolding device_good_def by (metis fst_conv snd_conv)
    then have k: "ds = [(k, 0, cdw0)]" "k \<in># infl (iw_x w)" "infl x = infl (iw_x w) - {#k#}" using D by auto
    show ?thesis using ginv_complete [OF law g k(2,3) bound free, of zv cdw0] poke_znd [OF inv d, of zv md misc0] k(1) False by auto
  qed
qed

lemma submit_good:
  assumes good: "device_good xn infl" and inv: "winv num cmds queue infl idx w" and k: "k < num"
  shows "\<exists>c x. io_submit (znd_core xn zv) k w = Some (0, (put_mcmd k ((qp_mcmd (iw_q w) ! k)\<lparr>mc_media_ctx := c\<rparr>) w)
    \<lparr>iw_media := (iw_media w)\<lparr>ms_x := x\<rparr>\<rparr>) \<and> infl x = add_mset k (infl (iw_x w))"
proof -
  let ?m = "qp_mcmd (iw_q w) ! k"
  have law: "device_law xn infl" using good by (simp add: device_good_def)
  obtain c x1 where g: "xn_get_ctx xn queue (iw_x w) = (c, x1)" by force
  obtain r x2 where wr: "xn_write xn (Some (c, k)) (zv_dev zv) (g_sect (mc_addr ?m)) (nlb_arg (mc_nsec ?m)) (mc_prp ?m) x1 = (r, x2)"
    by force
  have "c \<noteq> 0" "r = 0" using good g wr unfolding device_good_def by (metis fst_conv)+
  then have sub: "io_submit (znd_core xn zv) k w =
      Some (0, (put_mcmd k (?m\<lparr>mc_media_ctx := c\<rparr>) w)\<lparr>iw_media := (iw_media w)\<lparr>ms_x := x2\<rparr>\<rparr>)"
    using io_submit_znd [OF inv k] g wr by (simp add: Let_def)
  have "infl x1 = infl (iw_x w)" using device_lawD(1) [OF law, of queue "iw_x w"] g by simp
  moreover have "infl x2 = add_mset k (infl x1)" using device_lawD(3) [OF law wr] \<open>r = 0\<close> by simp
  ultimately show ?thesis using sub by auto
qed

text \<open>The submission to an idle zone with commands left, up to the poke that may follow it.\<close>

lemma ginv_sent:
  assumes good: "device_good xn infl" and g: "ginv num cmds queue infl g0 g1 qc stat idx w"
    and i: "i < 64" "length idx = 128" "idx ! i < slots_before num i" "uc_minflight (iw_ucmd w) ! i = 0"
  defines "k \<equiv> i + 64 * idx ! i"
    and "w1 \<equiv> w\<lparr>iw_ucmd := (iw_ucmd w)\<lparr>uc_minflight := (uc_minflight (iw_ucmd w))[i := 1]\<rparr>\<rparr>"
  shows "\<exists>w2. io_submit (znd_core xn zv) k w1 = Some (0, w2) \<and> k < length (qp_mcmd (iw_q w2)) \<and>
    ginv num cmds queue infl g0 g1 qc stat (idx[i := idx ! i + 1])
      (put_mcmd k ((qp_mcmd (iw_q w2) ! k)\<lparr>mc_submitted := 1\<rparr>) w2) \<and> uc_ncb (iw_ucmd w2) = uc_ncb (iw_ucmd w)"
proof -
  have law: "device_law xn infl" and inv: "winv num cmds queue infl idx w" and gs: "uc_nmcmd (iw_ucmd w) = num"
    "uc_ncb (iw_ucmd w) + size (infl (iw_x w)) = (\<Sum>i<64. idx ! i)"
    "iw_grp w = (if uc_ncb (iw_ucmd w) = num then g1 else g0)" "q_core (iw_q w) = qc" "uc_core (iw_ucmd w) = stat"
    "\<forall>i < 64. uc_minflight (iw_ucmd w) ! i \<noteq> 0 \<longrightarrow> \<not> zone_idle infl i w"
    "\<forall>k < num. k div 64 < idx ! (k mod 64) \<and> k \<notin># infl (iw_x w) \<longrightarrow> uc_moffset (iw_ucmd w) ! k = g_sect (mc_addr (cmds ! k))"
    using good g by (auto simp: ginv_def device_good_def)
  have k: "k < num" "k mod 64 = i" "k div 64 = idx ! i" using zone_slot_lt [OF i(1,3)] i(1) by (simp_all add: k_def)
  have w1: "winv num cmds queue infl idx w1" using winv_mark [OF inv i(1)] by (simp add: w1_def)
  have len: "i < length (uc_minflight (iw_ucmd w))" "k < length (qp_mcmd (iw_q w))" using inv i(1) k(1) by (auto simp: winv_def)
  have z: "zone_idle infl (k mod 64) w1" "uc_minflight (iw_ucmd w1) ! (k mod 64) \<noteq> 0"
    using winv_idle [OF inv i(4)] k(2) len(1) by (simp_all add: w1_def zone_idle_def)
  obtain c x where sub: "io_submit (znd_core xn zv) k w1 = Some (0, (put_mcmd k ((qp_mcmd (iw_q w1) ! k)\<lparr>mc_media_ctx := c\<rparr>) w1)
      \<lparr>iw_media := (iw_media w1)\<lparr>ms_x := x\<rparr>\<rparr>)" "infl x = add_mset k (infl (iw_x w1))"
    using submit_good [OF good w1 k(1)] by blast
  define w2 where "w2 = (put_mcmd k ((qp_mcmd (iw_q w1) ! k)\<lparr>mc_media_ctx := c\<rparr>) w1)\<lparr>iw_media := (iw_media w1)\<lparr>ms_x := x\<rparr>\<rparr>"
  define w3 where "w3 = put_mcmd k ((qp_mcmd (iw_q w2) ! k)\<lparr>mc_submitted := 1\<rparr>) w2"
  have "winv num cmds queue infl (idx[i := idx ! i + 1]) w2"
    using winv_submit [OF law w1 k(1) z sub(1), of "idx[i := idx ! i + 1]"] k i(1,2) by (simp add: w2_def)
  then have inv3: "winv num cmds queue infl (idx[i := idx ! i + 1]) w3" unfolding w3_def by (intro winv_put_mcmd) simp_all
  have x3: "infl (iw_x w3) = add_mset k (infl (iw_x w))" using sub(2) by (simp add: w3_def w2_def put_mcmd_def w1_def)
  have u3: "iw_ucmd w3 = (iw_ucmd w)\<lparr>uc_minflight := (uc_minflight (iw_ucmd w))[i := 1]\<rparr>" "iw_grp w3 = iw_grp w"
    "q_core (iw_q w3) = q_core (iw_q w)" by (simp_all add: w3_def w2_def w1_def put_mcmd_def)
  have "\<not> zone_idle infl j w3" if "j < 64" "uc_minflight (iw_ucmd w3) ! j \<noteq> 0" for j
    using that gs(6) k(2) len(1) u3(1) x3 by (cases "j = i") (auto simp: zone_idle_def)
  moreover have "uc_moffset (iw_ucmd w3) ! j = g_sect (mc_addr (cmds ! j))"
    if "j < num" "j div 64 < idx[i := idx ! i + 1] ! (j mod 64)" "j \<notin># infl (iw_x w3)" for j
  proof -
    have ne: "j \<noteq> k" "j \<notin># infl (iw_x w)" using that(3) x3 by auto
    moreover have "j mod 64 + 64 * (j div 64) = j" by simp
    ultimately have "j mod 64 \<noteq> i \<or> j div 64 \<noteq> idx ! i" unfolding k_def by metis
    then have "j div 64 < idx ! (j mod 64)" using that(2) i(2) by (cases "j mod 64 = i") auto
    then show ?thesis using gs(7) that(1) ne(2) u3(1) by simp
  qed
  moreover have "uc_ncb (iw_ucmd w3) + size (infl (iw_x w3)) = (\<Sum>j<64. idx[i := idx ! i + 1] ! j)"
    using gs(2) sum_update [OF i(1,2)] x3 u3(1) by simp
  ultimately have "ginv num cmds queue infl g0 g1 qc stat (idx[i := idx ! i + 1]) w3"
    unfolding ginv_def using inv3 gs(1,3-5) u3 by simp
  then show ?thesis using sub(1) len(2) unfolding w2_def [symmetric] w3_def
    by (auto simp: w2_def w1_def put_mcmd_def)
qed

section \<open>The number of steps\<close>

text \<open>Each step on a good device submits or completes a command, or comes closer to one: \<open>wphase\<close>
  bounds the steps until then.\<close>

definition wphase :: "nat \<Rightarrow> 'x write_state \<Rightarrow> write_ctl \<Rightarrow> nat" where
  "wphase num ws ctl =
     (case ctl of
        Submitting z \<Rightarrow>
          if \<exists>j < min num 64. z \<le> j \<and> wr_zn_cmd_id_index ws ! j < slots_before num j then min num 64 - z
          else if wr_submitted ws < num then min num 64 - z + 1 + min num 64
          else min num 64 - z + 2
      | Draining \<Rightarrow> 1
      | Written \<Rightarrow> 0)"

definition wmeasure :: "nat \<Rightarrow> 'x write_state \<Rightarrow> write_ctl \<Rightarrow> nat" where
  "wmeasure num ws ctl =
     ((num - wr_submitted ws) + (num - uc_ncb (iw_ucmd (wr_w ws)))) * (2 * min num 64 + 4) + wphase num ws ctl"

lemma wphase_less: "wphase num ws ctl < 2 * min num 64 + 4"
  by (cases ctl) (auto simp: wphase_def)

lemma wmeasure_progress:
  assumes "(num - wr_submitted ws') + (num - uc_ncb (iw_ucmd (wr_w ws'))) < (num - wr_submitted ws) + (num - uc_ncb (iw_ucmd (wr_w ws)))"
  shows "wmeasure num ws' ctl' < wmeasure num ws ctl"
proof -
  let ?M = "2 * min num 64 + 4"
  have "wmeasure num ws' ctl' < Suc ((num - wr_submitted ws') + (num - uc_ncb (iw_ucmd (wr_w ws')))) * ?M"
    using wphase_less [of num ws' ctl'] by (simp add: wmeasure_def)
  also have "\<dots> \<le> ((num - wr_submitted ws) + (num - uc_ncb (iw_ucmd (wr_w ws)))) * ?M"
    using assms by (intro mult_le_mono1) simp
  also have "\<dots> \<le> wmeasure num ws ctl" by (simp add: wmeasure_def)
  finally show ?thesis .
qed

text \<open>The states of a piece on a good device.\<close>

definition gstate ::
    "nat \<Rightarrow> xztl_io_mcmd list \<Rightarrow> nat \<Rightarrow> ('x \<Rightarrow> nat multiset) \<Rightarrow> app_group \<Rightarrow> app_group \<Rightarrow> ztl_queue_pool \<Rightarrow> xztl_io_ucmd \<Rightarrow>
     'x write_state \<Rightarrow> write_ctl \<Rightarrow> bool" where
  "gstate num cmds queue infl g0 g1 qc stat ws ctl \<longleftrightarrow> sinv num cmds queue infl ws \<and> cinv num ws \<and>
     ginv num cmds queue infl g0 g1 qc stat (wr_zn_cmd_id_index ws) (wr_w ws) \<and>
     (case ctl of Submitting z \<Rightarrow> z \<le> min num 64 | Draining \<Rightarrow> wr_submitted ws = num
      | Written \<Rightarrow> wr_submitted ws = num \<and> uc_ncb (iw_ucmd (wr_w ws)) = num)"

lemma cinv_bound: "cinv num ws \<Longrightarrow> (\<Sum>i<64. wr_zn_cmd_id_index ws ! i) \<le> num \<and> wr_submitted ws \<le> num"
  using sum_mono [of "{..<64}" "\<lambda>i. wr_zn_cmd_id_index ws ! i" "slots_before num"] sum_slots [of num]
  by (auto simp: cinv_def)

text \<open>What a poke does in such a state.\<close>

lemma gstate_poke:
  assumes good: "device_good xn infl" and g: "gstate num cmds queue infl g0 g1 qc stat ws ctl"
    and num: "num < 65536" and free: "ztl_pro_free md (qp_prov qc) g0 = Some g1" and fl: "infl (iw_x (wr_w ws)) \<noteq> {#}"
  shows "\<exists>v. ztl_io_poke_ctx xn (znd_core xn zv) md misc0 (wr_w ws) = Some v \<and> sinv num cmds queue infl (ws\<lparr>wr_w := v\<rparr>) \<and>
    ginv num cmds queue infl g0 g1 qc stat (wr_zn_cmd_id_index ws) v \<and>
    wmeasure num (ws\<lparr>wr_w := v\<rparr>) ctl' < wmeasure num ws ctl"
proof -
  have gs: "sinv num cmds queue infl ws" "cinv num ws" "ginv num cmds queue infl g0 g1 qc stat (wr_zn_cmd_id_index ws) (wr_w ws)"
    using g by (auto simp: gstate_def)
  obtain v where v: "ztl_io_poke_ctx xn (znd_core xn zv) md misc0 (wr_w ws) = Some v"
    "ginv num cmds queue infl g0 g1 qc stat (wr_zn_cmd_id_index ws) v"
    "uc_ncb (iw_ucmd v) = Suc (uc_ncb (iw_ucmd (wr_w ws)))"
    using ginv_poke [OF good gs(3) _ num free] cinv_bound [OF gs(2)] fl by auto
  have "uc_ncb (iw_ucmd v) \<le> num" using v(2) cinv_bound [OF gs(2)] by (auto simp: ginv_def)
  then have "wmeasure num (ws\<lparr>wr_w := v\<rparr>) ctl' < wmeasure num ws ctl" using v(3) by (intro wmeasure_progress) simp
  moreover have "sinv num cmds queue infl (ws\<lparr>wr_w := v\<rparr>)" using gs(1) v(2) by (simp add: sinv_def ginv_def)
  ultimately show ?thesis using v by blast
qed

lemma gstate_try:
  assumes good: "device_good xn infl" and g: "gstate num cmds queue infl g0 g1 qc stat ws ctl"
    and num: "num < 65536" and free: "ztl_pro_free md (qp_prov qc) g0 = Some g1"
    and z: "z < min num 64" "wr_zn_cmd_id_index ws ! z < slots_before num z" "wr_minflight ws ! z = 0"
  shows "\<exists>ws'. try_submit xn (znd_core xn zv) md misc0 z ws = Some (ws', Submitting (z + 1)) \<and>
    gstate num cmds queue infl g0 g1 qc stat ws' (Submitting (z + 1)) \<and>
    wmeasure num ws' (Submitting (z + 1)) < wmeasure num ws ctl"
proof -
  define idx where "idx = wr_zn_cmd_id_index ws"
  have gs: "sinv num cmds queue infl ws" "cinv num ws" "ginv num cmds queue infl g0 g1 qc stat idx (wr_w ws)"
    and l: "length idx = 128" "wr_zn_cmd_id ws = zone_rows num" using g by (auto simp: gstate_def idx_def sinv_def)
  define k where "k = z + 64 * idx ! z"
  define w1 where "w1 = (wr_w ws)\<lparr>iw_ucmd := (iw_ucmd (wr_w ws))\<lparr>uc_minflight := (wr_minflight ws)[z := 1]\<rparr>\<rparr>"
  obtain w2 where w2: "io_submit (znd_core xn zv) k w1 = Some (0, w2)" "k < length (qp_mcmd (iw_q w2))"
    "ginv num cmds queue infl g0 g1 qc stat (idx[z := idx ! z + 1]) (put_mcmd k ((qp_mcmd (iw_q w2) ! k)\<lparr>mc_submitted := 1\<rparr>) w2)"
    "uc_ncb (iw_ucmd w2) = uc_ncb (iw_ucmd (wr_w ws))"
    using ginv_sent [OF good gs(3) _ l(1), of z zv] z by (auto simp: idx_def k_def w1_def)
  define w3 where "w3 = put_mcmd k ((qp_mcmd (iw_q w2) ! k)\<lparr>mc_submitted := 1\<rparr>) w2"
  define ws1 where "ws1 v = ws\<lparr>wr_w := v, wr_submitted := wr_submitted ws + 1, wr_zn_cmd_id_index := idx[z := idx ! z + 1]\<rparr>" for v
  have c: "cinv num (ws1 v)" for v using cinv_sent [OF gs(2), of z v] z l by (simp add: ws1_def idx_def)
  have b: "(\<Sum>i<64. idx[z := idx ! z + 1] ! i) \<le> num" "wr_submitted ws + 1 \<le> num"
    using cinv_bound [OF c [of w3]] by (auto simp: ws1_def)
  have "\<exists>v. (if (wr_submitted ws + 1) mod 8 = 0 then ztl_io_poke_ctx xn (znd_core xn zv) md misc0 w3 else Some w3) = Some v \<and>
      ginv num cmds queue infl g0 g1 qc stat (idx[z := idx ! z + 1]) v \<and> uc_ncb (iw_ucmd (wr_w ws)) \<le> uc_ncb (iw_ucmd v)"
    using ginv_poke [OF good w2(3) b(1) num free, of zv misc0, folded w3_def] w2(3,4) by (auto simp: w3_def put_mcmd_def)
  then obtain v where v: "(if (wr_submitted ws + 1) mod 8 = 0 then ztl_io_poke_ctx xn (znd_core xn zv) md misc0 w3 else Some w3) = Some v"
    "ginv num cmds queue infl g0 g1 qc stat (idx[z := idx ! z + 1]) v" "uc_ncb (iw_ucmd (wr_w ws)) \<le> uc_ncb (iw_ucmd v)" by blast
  have "try_submit xn (znd_core xn zv) md misc0 z ws = Some (ws1 v, Submitting (z + 1))"
    using v(1) w2(1,2) unfolding try_submit_def Let_def idx_def [symmetric] k_def [symmetric] w1_def [symmetric] ws1_def w3_def
    by simp
  moreover have "gstate num cmds queue infl g0 g1 qc stat (ws1 v) (Submitting (z + 1))"
    using c v(2) z(1) l unfolding gstate_def sinv_def by (simp add: ws1_def ginv_def)
  moreover have "wmeasure num (ws1 v) (Submitting (z + 1)) < wmeasure num ws ctl"
    using b(2) v(3) by (intro wmeasure_progress) (auto simp: ws1_def)
  ultimately show ?thesis by blast
qed

lemma gstate_zone:
  assumes good: "device_good xn infl" and g: "gstate num cmds queue infl g0 g1 qc stat ws (Submitting z)"
    and num: "num < 65536" and free: "ztl_pro_free md (qp_prov qc) g0 = Some g1" and z: "z < min num 64"
  shows "\<exists>ws' ctl'. submit_zone xn (znd_core xn zv) md misc0 z ws = Some (ws', ctl') \<and>
    gstate num cmds queue infl g0 g1 qc stat ws' ctl' \<and> wmeasure num ws' ctl' < wmeasure num ws (Submitting z)"
proof -
  have gs: "sinv num cmds queue infl ws" "cinv num ws" "ginv num cmds queue infl g0 g1 qc stat (wr_zn_cmd_id_index ws) (wr_w ws)"
    using g by (auto simp: gstate_def)
  note st = submit_zone_cases [OF gs(1) z, of xn "znd_core xn zv" md misc0]
  consider (full) "slots_before num z \<le> wr_zn_cmd_id_index ws ! z"
    | (busy) "\<not> slots_before num z \<le> wr_zn_cmd_id_index ws ! z" "wr_minflight ws ! z \<noteq> 0"
    | (idle) "wr_zn_cmd_id_index ws ! z < slots_before num z" "wr_minflight ws ! z = 0" by linarith
  then show ?thesis
  proof cases
    case full
    have "(\<exists>j < min num 64. Suc z \<le> j \<and> wr_zn_cmd_id_index ws ! j < slots_before num j) \<longleftrightarrow>
        (\<exists>j < min num 64. z \<le> j \<and> wr_zn_cmd_id_index ws ! j < slots_before num j)"
      using full by (metis Suc_le_eq le_neq_implies_less less_imp_le not_le)
    then have "wmeasure num ws (Submitting (z + 1)) < wmeasure num ws (Submitting z)"
      using diff_less_mono2 [OF lessI z] unfolding wmeasure_def wphase_def by (simp only: write_ctl.case Suc_eq_plus1 [symmetric]) simp
    then show ?thesis using full g z st by (auto simp: gstate_def)
  next
    case busy
    then have "infl (iw_x (wr_w ws)) \<noteq> {#}" using gs(3) z by (auto simp: ginv_def zone_idle_def)
    then obtain v where v: "ztl_io_poke_ctx xn (znd_core xn zv) md misc0 (wr_w ws) = Some v" "sinv num cmds queue infl (ws\<lparr>wr_w := v\<rparr>)"
      "ginv num cmds queue infl g0 g1 qc stat (wr_zn_cmd_id_index ws) v"
      "wmeasure num (ws\<lparr>wr_w := v\<rparr>) (Submitting (z + 1)) < wmeasure num ws (Submitting z)"
      using gstate_poke [OF good g num free, of zv misc0 "Submitting (z + 1)"] by blast
    then show ?thesis using busy st z gs(2) by (auto simp: gstate_def)
  next
    case idle
    then show ?thesis using gstate_try [OF good g num free z, of zv misc0] st by auto
  qed
qed

lemma gstate_step:
  assumes good: "device_good xn infl" and g: "gstate num cmds queue infl g0 g1 qc stat ws ctl"
    and num: "num < 65536" and free: "ztl_pro_free md (qp_prov qc) g0 = Some g1" and run: "ctl \<noteq> Written"
  shows "\<exists>ws' ctl'. write_step xn (znd_core xn zv) md misc0 num (ws, ctl) = Some (ws', ctl') \<and>
    gstate num cmds queue infl g0 g1 qc stat ws' ctl' \<and> wmeasure num ws' ctl' < wmeasure num ws ctl"
proof -
  have gs: "sinv num cmds queue infl ws" "cinv num ws" "ginv num cmds queue infl g0 g1 qc stat (wr_zn_cmd_id_index ws) (wr_w ws)"
    using g by (auto simp: gstate_def)
  have n: "pa_naddr (qp_prov (iw_q (wr_w ws))) = min num 64" using gs(1) by (simp add: sinv_def winv_def)
  have sub: "wr_submitted ws \<le> num" using cinv_bound [OF gs(2)] by simp
  have cnt: "uc_ncb (iw_ucmd (wr_w ws)) + size (infl (iw_x (wr_w ws))) = wr_submitted ws" "uc_nmcmd (iw_ucmd (wr_w ws)) = num"
    using gs(2,3) by (auto simp: ginv_def cinv_def)
  show ?thesis
  proof (cases ctl)
    case (Submitting z)
    show ?thesis
    proof (cases "z < min num 64")
      case True
      then show ?thesis using gstate_zone [OF good g [unfolded Submitting] num free True] Submitting n by (simp add: write_step_def)
    next
      case False
      then have z: "z = min num 64" using g Submitting by (auto simp: gstate_def min_def split: if_splits)
      have "\<exists>j < min num 64. 0 \<le> j \<and> wr_zn_cmd_id_index ws ! j < slots_before num j" if "wr_submitted ws < num"
        using cinv_left [OF gs(2)] that by auto
      moreover have "write_step xn (znd_core xn zv) md misc0 num (ws, ctl) =
          Some (ws, if wr_submitted ws < num then Submitting 0 else Draining)"
        using False n Submitting by (simp only: write_step_def prod.case write_ctl.case if_False)
      ultimately show ?thesis using gs sub z Submitting
        by (auto simp: gstate_def wmeasure_def wphase_def simp del: min_less_iff_conj)
    qed
  next
    case Draining
    then have all: "wr_submitted ws = num" using g by (simp add: gstate_def)
    show ?thesis
    proof (cases "uc_ncb (iw_ucmd (wr_w ws)) < num")
      case True
      then have "infl (iw_x (wr_w ws)) \<noteq> {#}" using cnt(1) all by auto
      then show ?thesis using gstate_poke [OF good g num free, of zv misc0 Draining] True Draining cnt(2) all gs(2)
        by (fastforce simp: write_step_def gstate_def)
    next
      case False
      then show ?thesis using Draining cnt all gs by (auto simp: write_step_def gstate_def wmeasure_def wphase_def)
    qed
  next
    case Written
    then show ?thesis using run by simp
  qed
qed

lemma gstate_run:
  assumes good: "device_good xn infl" and num: "num < 65536" and free: "ztl_pro_free md (qp_prov qc) g0 = Some g1"
  shows "gstate num cmds queue infl g0 g1 qc stat ws ctl \<Longrightarrow> wmeasure num ws ctl \<le> fuel \<Longrightarrow>
    \<exists>ws'. write_run xn (znd_core xn zv) md misc0 num fuel (ws, ctl) = Some (wr_w ws') \<and>
      gstate num cmds queue infl g0 g1 qc stat ws' Written"
proof (induction fuel arbitrary: ws ctl)
  case 0
  then have "ctl = Written" using gstate_step [OF good 0(1) num free] by (metis less_nat_zero_code le_zero_eq)
  then show ?case using 0 by auto
next
  case (Suc fuel)
  show ?case
  proof (cases "ctl = Written")
    case True
    then show ?thesis using Suc.prems by auto
  next
    case False
    then obtain ws' ctl' where s: "write_step xn (znd_core xn zv) md misc0 num (ws, ctl) = Some (ws', ctl')"
      "gstate num cmds queue infl g0 g1 qc stat ws' ctl'" "wmeasure num ws' ctl' < wmeasure num ws ctl"
      using gstate_step [OF good Suc.prems(1) num free] by blast
    then show ?thesis using Suc.IH [OF s(2)] Suc.prems(2) False by simp
  qed
qed

lemma gstate_start:
  assumes ready: "piece_ready nbytes num boff queue w0" and pop: "write_populate nbytes num boff w0 = Some (ps, w)"
    and idle: "infl (iw_x w0) = {#}" and num: "0 < num"
  shows "gstate num (piece_cmds nbytes num boff w0) queue infl (iw_grp w) g1 (q_core (iw_q w)) (uc_core (iw_ucmd w))
    (fst (write_start num ps w)) (snd (write_start num ps w))"
proof -
  let ?ws = "fst (write_start num ps w)"
  have s: "sinv num (piece_cmds nbytes num boff w0) queue infl ?ws" using sinv_start [where infl = infl, OF ready pop idle] .
  have w: "iw_ucmd w = (ps_ucmd ps)\<lparr>uc_pieces := u16 (uc_pieces (iw_ucmd w0) + 1),
       uc_minflight := replicate 128 0 @ drop 128 (uc_minflight (iw_ucmd w0)), uc_nmcmd := num, uc_ncb := 0\<rparr>"
    "iw_media w = iw_media w0" using pop [unfolded write_populate_ready [OF ready]] by auto
  have "ginv num (piece_cmds nbytes num boff w0) queue infl (iw_grp w) g1 (q_core (iw_q w)) (uc_core (iw_ucmd w)) (replicate 128 0) w"
    using s w idle num unfolding ginv_def sinv_def by (simp add: write_start_def nth_append)
  then show ?thesis using s cinv_start [of num ps w] num by (simp add: gstate_def write_start_def)
qed

lemma populate_prov:
  assumes ready: "piece_ready nbytes num boff queue w0" and pop: "write_populate nbytes num boff w0 = Some (ps, w)"
  shows "pa_naddr (qp_prov (iw_q w)) = pa_naddr (qp_prov (iw_q w0))" "pa_nsec (qp_prov (iw_q w)) = pa_nsec (qp_prov (iw_q w0))"
    "length (pa_addr (qp_prov (iw_q w))) = 128" "i < 128 \<Longrightarrow> g_zone (pa_addr (qp_prov (iw_q w)) ! i) = g_zone (pa_addr (qp_prov (iw_q w0)) ! i)"
    "iw_grp w = iw_grp w0" "length (pa_nsec (qp_prov (iw_q w))) = 128"
proof -
  have l: "length (pa_addr (qp_prov (iw_q w0))) = 128" "length (pa_nsec (qp_prov (iw_q w0))) = 128"
    using ready by (simp_all add: piece_ready_def piece_ok_def)
  then show "pa_naddr (qp_prov (iw_q w)) = pa_naddr (qp_prov (iw_q w0))" "pa_nsec (qp_prov (iw_q w)) = pa_nsec (qp_prov (iw_q w0))"
    "length (pa_addr (qp_prov (iw_q w))) = 128" "iw_grp w = iw_grp w0" "length (pa_nsec (qp_prov (iw_q w))) = 128"
    "i < 128 \<Longrightarrow> g_zone (pa_addr (qp_prov (iw_q w)) ! i) = g_zone (pa_addr (qp_prov (iw_q w0)) ! i)"
    using pop [unfolded write_populate_ready [OF ready]] by (auto simp: pop_at_def zone_sect.get_put' simp del: upt_rec_numeral)
qed

lemma wmeasure_start: "wmeasure num (fst (write_start num ps w)) (snd (write_start num ps w)) \<le> (2 * num + 1) * (2 * min num 64 + 4)"
  using wphase_less [of num "fst (write_start num ps w)" "snd (write_start num ps w)"]
  by (simp add: wmeasure_def write_start_def algebra_simps) 

text \<open>A piece that is ready runs to its end; nothing but the progress of its commands changes.\<close>

lemma piece_run_ends:
  assumes "device_good xn infl" "piece_ready nbytes num boff queue w0" "infl (iw_x w0) = {#}" "0 < num"
    "write_populate nbytes num boff w0 = Some (ps, w)" "ztl_pro_free md (qp_prov (iw_q w)) (iw_grp w) = Some grp'"
    "(2 * num + 1) * (2 * min num 64 + 4) \<le> fuel"
  shows "\<exists>w'. write_run xn (znd_core xn zv) md misc0 num fuel (write_start num ps w) = Some w' \<and>
    uc_ncb (iw_ucmd w') = num \<and> infl (iw_x w') = {#} \<and> iw_grp w' = grp' \<and> uc_core (iw_ucmd w') = uc_core (iw_ucmd w) \<and> q_core (iw_q w') = q_core (iw_q w) \<and>
    (\<forall>k < num. uc_moffset (iw_ucmd w') ! k = g_sect (mc_addr (ps_mcmd ps ! k)))"
proof -
  have ps: "ps_mcmd ps = piece_cmds nbytes num boff w0"
    using assms(5) [unfolded write_populate_ready [OF assms(2)]] by (auto simp: piece_cmds_def)
  have n: "num < 65536" using assms(2) by (simp add: piece_ready_def piece_ok_def)
  obtain ws' where r: "write_run xn (znd_core xn zv) md misc0 num fuel (write_start num ps w) = Some (wr_w ws')"
    and g: "gstate num (piece_cmds nbytes num boff w0) queue infl (iw_grp w) grp' (q_core (iw_q w)) (uc_core (iw_ucmd w)) ws' Written"
    using gstate_run [OF assms(1) n _ gstate_start [where infl = infl, OF assms(2,5) assms(3,4)], of md _ fuel zv misc0] wmeasure_start [of num ps w] assms(6,7)
    by auto
  have c: "wr_submitted ws' = num" "uc_ncb (iw_ucmd (wr_w ws')) = num" "cinv num ws'"
    "ginv num (piece_cmds nbytes num boff w0) queue infl (iw_grp w) grp' (q_core (iw_q w)) (uc_core (iw_ucmd w)) (wr_zn_cmd_id_index ws') (wr_w ws')"
    using g by (auto simp: gstate_def)
  have "infl (iw_x (wr_w ws')) = {#}" using c by (auto simp: ginv_def cinv_def)
  moreover have "k div 64 < wr_zn_cmd_id_index ws' ! (k mod 64)" if "k < num" for k
  proof -
    have "slots_before num (k mod 64) \<le> wr_zn_cmd_id_index ws' ! (k mod 64)"
      using cinv_left [OF c(3)] c(1) that le_less_trans [OF mod_less_eq_dividend that] by (meson min_less_iff_conj mod_less_divisor not_le zero_less_numeral less_irrefl)
    then show ?thesis using slots_before_less [OF that] slots_before_mod [of k] by simp
  qed
  ultimately show ?thesis using r c(2,4) ps by (auto simp: ginv_def)
qed

section \<open>Samples\<close>

text \<open>A device that accepts all writes and completes them in order, one that refuses all writes, and a
  piece of two commands.\<close>

definition queue_dev :: "int \<Rightarrow> nat list xnvme" where
  "queue_dev r = \<lparr>
     xn_read = (\<lambda>c d slba nlb buf x. (0, x)),
     xn_write = (\<lambda>c d slba nlb buf x. (r, if r = 0 then case c of None \<Rightarrow> x | Some (ctx, k) \<Rightarrow> x @ [k] else x)),
     xn_append = (\<lambda>c d slba nlb buf x. (0, x)),
     xn_mgmt = (\<lambda>d lba all oper x. (0, 0, x)), xn_report = (\<lambda>d x. (None, x)),
     xn_get_ctx = (\<lambda>q x. (1, x)), xn_put_ctx = (\<lambda>q c x. x),
     xn_poke = (\<lambda>q n x. case x of [] \<Rightarrow> (0, [], []) | k # ks \<Rightarrow> if n = 0 then (0, [], x) else (1, [(k, 0, 0)], ks)),
     xn_drain = (\<lambda>q x. case x of [] \<Rightarrow> (None, []) | k # ks \<Rightarrow> (Some (k, 0, 0), ks)),
     xn_outstanding = (\<lambda>q x. (int (length x), x)),
     xn_queue_init = (\<lambda>d n x. (0, 1, x)), xn_queue_term = (\<lambda>q x. (0, x)),
     xn_buf_alloc = (\<lambda>d n x. (1, x)), xn_buf_free = (\<lambda>d p x. x),
     xn_dev_open = (\<lambda>n opts x. (1, x)), xn_dev_geo = (\<lambda>d x. None), xn_dev_close = (\<lambda>d x. x)\<rparr>"

lemma queue_dev_law: "device_law (queue_dev r) mset"
  by (auto simp: device_law_def queue_dev_def split: list.splits)

lemma queue_dev_good: "device_good (queue_dev 0) mset"
  unfolding device_good_def using queue_dev_law [of 0] by (auto simp: queue_dev_def split: list.splits)

definition sample_ucmd :: "nat \<Rightarrow> xztl_io_ucmd" where
  "sample_ucmd n = \<lparr>uc_id = 0, uc_buf = 65536, uc_size = n * 32768, uc_offset = 0, uc_prov_type = 0, uc_app_md = 0,
     uc_status = 0, uc_mcmd = replicate XZTL_WIO_MAX_MCMD None, uc_node_id = [0, 0], uc_start = [0, 0], uc_num = [0, 0],
     uc_pieces = 0, uc_nmcmd = 0, uc_moffset = replicate XZTL_WIO_MAX_MCMD 0, uc_msec = replicate XZTL_WIO_MAX_MCMD 0,
     uc_ncb = 0, uc_completed = 0, uc_minflight = replicate 256 0\<rparr>"

definition sample_q :: "app_pro_addr \<Rightarrow> ztl_queue_pool" where
  "sample_q prov = \<lparr>qp_ucmd_head = [], qp_tctx = 1, qp_mcmd = replicate XZTL_WIO_MAX_MCMD zero_mcmd, qp_prov = prov,
     qp_node = Some 0, qp_flag_running = 1\<rparr>"

definition sample_prov2 :: app_pro_addr where
  "sample_prov2 = sample_ctx\<lparr>pa_addr := [zn_addr (sample_zone 0), zn_addr (sample_zone 1)] @ replicate 126 0,
     pa_nsec := [8, 8] @ replicate 126 0, pa_naddr := 2\<rparr>"

definition sample_iw :: "app_pro_addr \<Rightarrow> nat \<Rightarrow> nat list io_world" where
  "sample_iw prov n = \<lparr>iw_ucmd = sample_ucmd n, iw_q = sample_q prov, iw_grp = sample_grp,
     iw_media = \<lparr>ms_io = replicate XZTL_STATS_IO_TYPES 0, ms_tctx = [1 \<mapsto> 7], ms_done = [], ms_x = []\<rparr>\<rparr>"

lemma sample_piece_ready: "piece_ready 4096 2 65536 7 (sample_iw sample_prov2 2)"
proof -
  have "zone_share 2 0 = 1" "zone_share 2 1 = 1" by (simp_all add: zone_share_def)
  then have "\<forall>i < 2. pa_nsec sample_prov2 ! i = 8 * zone_share 2 i \<and>
      g_sect (pa_addr sample_prov2 ! i) + 8 * zone_share 2 i \<le> 2 ^ 36"
    by (auto simp: less_2_cases_iff sample_prov2_def sample_zone_sect)
  then show ?thesis
    by (simp add: piece_ready_def piece_ok_def sample_iw_def sample_q_def sample_ucmd_def)
      (simp add: sample_prov2_def sample_ctx_def)
qed

definition sample_ps :: pop_state where
  "sample_ps = pop_at 4096 1 2 sample_prov2 (replicate XZTL_WIO_MAX_MCMD zero_mcmd) (sample_ucmd 2) 65536 2"

definition sample_w2 :: "nat list io_world" where
  "sample_w2 = (sample_iw sample_prov2 2)\<lparr>
    iw_ucmd := (ps_ucmd sample_ps)\<lparr>uc_pieces := 1, uc_minflight := replicate 256 0, uc_nmcmd := 2, uc_ncb := 0\<rparr>,
    iw_q := (sample_q sample_prov2)\<lparr>qp_mcmd := ps_mcmd sample_ps, qp_prov := sample_prov2\<lparr>pa_addr := ps_addr sample_ps\<rparr>\<rparr>\<rparr>"

lemma sample_populate: "write_populate 4096 2 65536 (sample_iw sample_prov2 2) = Some (sample_ps, sample_w2)"
proof -
  have "replicate 128 0 @ drop 128 (replicate 256 0) = replicate 256 (0 :: nat)" by (simp flip: replicate_add)
  then show ?thesis using write_populate_ready [OF sample_piece_ready]
    by (simp add: sample_w2_def sample_ps_def sample_iw_def sample_q_def sample_ucmd_def)
qed

lemma sample_idle: "mset (iw_x (sample_iw sample_prov2 2)) = {#}"
  by (simp add: sample_iw_def)

lemma sample_sinv: "sinv 2 (piece_cmds 4096 2 65536 (sample_iw sample_prov2 2)) 7 mset (fst (write_start 2 sample_ps sample_w2))"
  by (rule sinv_start [where infl = mset, OF sample_piece_ready sample_populate sample_idle])

text \<open>The first step on the device that refuses all writes.\<close>

lemma sample_refused:
  "\<exists>ws. write_step (queue_dev (-1)) (znd_core (queue_dev (-1)) sample_zv) fresh_md sample_misc 2
     (fst (write_start 2 sample_ps sample_w2), Submitting 0) = Some (ws, Submitting 0)"
proof -
  let ?xn = "queue_dev (-1)" and ?ws = "fst (write_start 2 sample_ps sample_w2)"
  let ?inv = "winv 2 (piece_cmds 4096 2 65536 (sample_iw sample_prov2 2)) 7 mset (replicate 128 0)"
  define w1 where "w1 = sample_w2\<lparr>iw_ucmd := (iw_ucmd sample_w2)\<lparr>uc_minflight := (uc_minflight (iw_ucmd sample_w2))[0 := 1]\<rparr>\<rparr>"
  have ws: "wr_w ?ws = sample_w2" "wr_zn_cmd_id_index ?ws = replicate 128 0" by (simp_all add: write_start_def)
  have inv: "?inv sample_w2" using sample_sinv by (simp add: sinv_def ws)
  then have inv1: "?inv w1" using winv_mark [of 2 _ 7 mset "replicate 128 0" sample_w2 0] by (simp add: w1_def)
  have x: "iw_x w1 = []" "uc_minflight (iw_ucmd w1) ! 0 \<noteq> 0" "uc_minflight (iw_ucmd sample_w2) ! 0 = 0"
    by (simp_all add: w1_def sample_w2_def sample_iw_def)
  have n: "pa_naddr (qp_prov (iw_q sample_w2)) = 2" using inv by (simp add: winv_def)
  have sl: "slots_before 2 0 = 1" by (simp add: slots_before_def)
  obtain w2 where w2: "io_submit (znd_core ?xn sample_zv) 0 w1 = Some (-1, w2)" "iw_x w2 = []"
    using io_submit_znd [OF inv1, of 0 ?xn sample_zv] x(1) by (simp add: queue_dev_def Let_def put_mcmd_def)
  have "?inv w2"
    by (rule winv_submit [OF queue_dev_law inv1 _ _ _ w2(1)]) (use x in \<open>simp_all add: zone_idle_def\<close>)
  then obtain w3 where w3: "io_stats_inc XZTL_STATS_WRITE_SUBMIT_FAIL w2 = Some w3" "?inv w3" "iw_x w3 = iw_x w2"
    using winv_stats by blast
  have "xn_poke ?xn 7 1 (iw_x w3) = (0, [], [])" using w3(3) w2(2) by (simp add: queue_dev_def)
  from poke_znd [OF w3(2) this] obtain w4 where "ztl_io_poke_ctx ?xn (znd_core ?xn sample_zv) fresh_md sample_misc w3 = Some w4" by simp
  then have "try_submit ?xn (znd_core ?xn sample_zv) fresh_md sample_misc 0 ?ws = Some (?ws\<lparr>wr_w := w4\<rparr>, Submitting 0)"
    using w2(1) w3(1) unfolding try_submit_def Let_def ws w1_def [symmetric] by simp
  then show ?thesis using submit_zone_cases [OF sample_sinv, of 0] n sl x(3) by (simp add: write_step_def ws)
qed

lemma sample_numbered: "node_numbered fresh_md sample_pro sample_node"
proof -
  have "usub 32 (g_zone (zn_addr (sample_zone z))) (get_metadata_zone_num fresh_md) = z" if "z < 64" for z
    using that by (simp add: sample_zone_def zone_sect.get_put' zone_field.get_put_small get_metadata_zone_num_def fresh_md_def usub_small)
  then show ?thesis by (simp add: node_numbered_def sample_pro_zones) (simp add: sample_pro_def del: upt_rec_numeral)
qed

lemma sample_written: "node_written sample_pro sample_tbl sample_node 0"
  by (simp add: node_written_def sample_pro_zones sample_zone_sect)
    (simp add: sample_tbl_def del: upt_rec_numeral)

lemma sample_free: "\<exists>grp. ztl_pro_free fresh_md (qp_prov (iw_q sample_w2)) (iw_grp sample_w2) = Some grp"
proof -
  have w: "iw_grp sample_w2 = sample_grp" "gr_pro sample_grp = Some sample_pro" "zd_tbl (gr_zmd sample_grp) = Some sample_tbl"
    by (simp_all add: sample_w2_def sample_iw_def sample_grp_def)
  note p = populate_prov [OF sample_piece_ready sample_populate]
  have q: "qp_prov (iw_q (sample_iw sample_prov2 2)) = sample_prov2" by (simp add: sample_iw_def sample_q_def)
  have "zone_share 2 0 = 1" "zone_share 2 1 = 1" by (simp_all add: zone_share_def)
  then have "\<forall>j < min 2 64. g_zone (pa_addr (qp_prov (iw_q sample_w2)) ! j) = g_zone (zn_addr (nzone sample_pro sample_node ((0 + j) mod 64))) \<and>
      pa_nsec (qp_prov (iw_q sample_w2)) ! j = 8 * zone_share 2 j"
    using p(2,4) q by (auto simp: less_2_cases_iff sample_prov2_def sample_pro_zones)
  moreover have "pa_naddr (qp_prov (iw_q sample_w2)) = min 2 64" using p(1) q by (simp add: sample_prov2_def)
  ultimately show ?thesis
    using pro_free_node [OF w(2,3) sample_linked sample_fits sample_numbered sample_written _ _ p(3,6), of 2] w(1) by auto
qed

section \<open>Properties\<close>

text \<open>C6: Whatever the device answers to writes and pokes, in every state of the submission of a piece the
  commands in flight are distinct, no two of them go to the same zone, and the one of a zone is the
  last command submitted to it: the writes of a zone reach the device one at a time and in order.\<close>

theorem one_write_per_zone:
  assumes "device_law xn infl" "piece_ready nbytes num boff queue w0" "infl (iw_x w0) = {#}"
    "write_populate nbytes num boff w0 = Some (ps, w)"
    "write_steps xn zv md misc0 num (write_start num ps w) (ws, ctl)"
  shows "\<forall>k \<in># infl (iw_x (wr_w ws)). k < num \<and> count (infl (iw_x (wr_w ws))) k = 1 \<and>
    wr_zn_cmd_id_index ws ! (k mod 64) = Suc (k div 64) \<and>
    (\<forall>j \<in># infl (iw_x (wr_w ws)). j mod 64 = k mod 64 \<longrightarrow> j = k)"
proof -
  have "sinv num (piece_cmds nbytes num boff w0) queue infl ws"
    using reach_inv [OF assms(1) sinv_start [where infl = infl, OF assms(2,4,3)] cinv_start assms(5)] by simp
  then have inv: "winv num (piece_cmds nbytes num boff w0) queue infl (wr_zn_cmd_id_index ws) (wr_w ws)" by (simp add: sinv_def)
  then show ?thesis using winv_zone_unique [OF inv] by (auto simp: winv_def)
qed

theorem one_write_per_zone_witness:
  "\<exists>ws ctl. write_step (queue_dev 0) (znd_core (queue_dev 0) sample_zv) fresh_md sample_misc 2 (write_start 2 sample_ps sample_w2) = Some (ws, ctl) \<and>
     (\<forall>k \<in># mset (iw_x (wr_w ws)). k < 2 \<and> wr_zn_cmd_id_index ws ! (k mod 64) = Suc (k div 64))"
proof -
  obtain ws0 ctl0 where s: "write_start 2 sample_ps sample_w2 = (ws0, ctl0)" "ctl0 \<noteq> Written" by (simp add: write_start_def)
  obtain g where "ztl_pro_free fresh_md (qp_prov (iw_q sample_w2)) (iw_grp sample_w2) = Some g" using sample_free by blast
  then obtain ws ctl where st: "write_step (queue_dev 0) (znd_core (queue_dev 0) sample_zv) fresh_md sample_misc 2 (ws0, ctl0) = Some (ws, ctl)"
    using gstate_step [OF queue_dev_good gstate_start [where infl = mset, OF sample_piece_ready sample_populate sample_idle]] s
    by fastforce
  then have "write_steps (queue_dev 0) sample_zv fresh_md sample_misc 2 (write_start 2 sample_ps sample_w2) (ws, ctl)" using s(1) by auto
  from one_write_per_zone [where infl = mset, OF queue_dev_law sample_piece_ready sample_idle sample_populate this]
  show ?thesis using st s(1) by auto
qed

text \<open>C9: When the submission of the next command of a zone fails, the zone stays marked although nothing is
  in flight there, and the submission of the piece never ends, whatever the device does later.\<close>

theorem failed_submit_never_ends:
  assumes "device_law xn infl" "piece_ready nbytes num boff queue w0" "infl (iw_x w0) = {#}"
    "write_populate nbytes num boff w0 = Some (ps, w)"
    "write_steps xn zv md misc0 num (write_start num ps w) (ws, Submitting z)"
    "write_step xn (znd_core xn zv) md misc0 num (ws, Submitting z) = Some (ws', Submitting z)" "z < min num 64"
  shows "write_run xn (znd_core xn zv) md misc0 num fuel (ws', Submitting z) = None"
proof -
  let ?cmds = "piece_cmds nbytes num boff w0"
  have inv: "sinv num ?cmds queue infl ws" "cinv num ws"
    using reach_inv [OF assms(1) sinv_start [where infl = infl, OF assms(2,4,3)] cinv_start assms(5)] by simp_all
  define idx where "idx = wr_zn_cmd_id_index ws"
  have w: "winv num ?cmds queue infl idx (wr_w ws)" and l: "length idx = 128" using inv(1) by (auto simp: sinv_def idx_def)
  have "pa_naddr (qp_prov (iw_q (wr_w ws))) = min num 64" using w by (simp add: winv_def)
  then have "submit_zone xn (znd_core xn zv) md misc0 z ws = Some (ws', Submitting z)" using assms(6,7) by (simp add: write_step_def)
  then have t: "idx ! z < slots_before num z" "wr_minflight ws ! z = 0"
    "try_submit xn (znd_core xn zv) md misc0 z ws = Some (ws', Submitting z)"
    using submit_zone_cases [OF inv(1) assms(7)] by (auto simp: idx_def bind_eq_Some_conv split: if_splits)
  have inv': "sinv num ?cmds queue infl ws'" "cinv num ws'"
    using sinv_step [OF assms(1) inv(1) assms(6)] cinv_step [OF assms(1) inv assms(6)] by simp_all
  have "stuck num infl z ws'"
    by (rule try_submit_outcome [OF assms(1) w assms(7) idx_def l t]) (use assms(7) t(1) in \<open>auto simp: stuck_def idx_def\<close>)
  then show ?thesis using stuck_run [OF assms(1) inv'] by blast
qed

theorem failed_submit_never_ends_witness:
  "\<exists>ws. write_step (queue_dev (-1)) (znd_core (queue_dev (-1)) sample_zv) fresh_md sample_misc 2
     (fst (write_start 2 sample_ps sample_w2), Submitting 0) = Some (ws, Submitting 0) \<and>
     (\<forall>fuel. write_run (queue_dev (-1)) (znd_core (queue_dev (-1)) sample_zv) fresh_md sample_misc 2 fuel (ws, Submitting 0) = None)"
proof -
  obtain ws where st: "write_step (queue_dev (-1)) (znd_core (queue_dev (-1)) sample_zv) fresh_md sample_misc 2
     (fst (write_start 2 sample_ps sample_w2), Submitting 0) = Some (ws, Submitting 0)" using sample_refused by blast
  have "write_steps (queue_dev (-1)) sample_zv fresh_md sample_misc 2 (write_start 2 sample_ps sample_w2)
      (fst (write_start 2 sample_ps sample_w2), Submitting 0)" by (simp add: write_start_def)
  from failed_submit_never_ends [where infl = mset, OF queue_dev_law sample_piece_ready sample_idle sample_populate this st]
  show ?thesis using st by auto
qed

text \<open>C7: On a device that accepts every write and delivers a completion whenever one is outstanding, the
  submission of a piece ends: within \<open>(2 num + 1) (2 min num 64 + 4)\<close> steps all commands have
  completed, nothing is in flight, the address of every command is noted for the user command,
  its status is unchanged, and the provisioning is released exactly once.\<close>

theorem write_piece_completes:
  assumes "device_good xn infl" "piece_ready nbytes num boff queue w0" "infl (iw_x w0) = {#}" "0 < num"
    "write_populate nbytes num boff w0 = Some (ps, w)" "ztl_pro_free md (qp_prov (iw_q w)) (iw_grp w) = Some grp'"
    "(2 * num + 1) * (2 * min num 64 + 4) \<le> fuel"
  shows "\<exists>w'. write_run xn (znd_core xn zv) md misc0 num fuel (write_start num ps w) = Some w' \<and>
    uc_ncb (iw_ucmd w') = num \<and> infl (iw_x w') = {#} \<and> iw_grp w' = grp' \<and> uc_status (iw_ucmd w') = uc_status (iw_ucmd w) \<and>
    (\<forall>k < num. uc_moffset (iw_ucmd w') ! k = g_sect (mc_addr (ps_mcmd ps ! k)))"
proof -
  obtain w' where r: "write_run xn (znd_core xn zv) md misc0 num fuel (write_start num ps w) = Some w'"
    "uc_ncb (iw_ucmd w') = num" "infl (iw_x w') = {#}" "iw_grp w' = grp'" "uc_core (iw_ucmd w') = uc_core (iw_ucmd w)"
    "\<forall>k < num. uc_moffset (iw_ucmd w') ! k = g_sect (mc_addr (ps_mcmd ps ! k))"
    using piece_run_ends [where infl = infl, OF assms, of zv misc0] by blast
  have "uc_status (iw_ucmd w') = uc_status (iw_ucmd w)" using arg_cong [OF r(5), of uc_status] by (simp add: uc_core_def)
  then show ?thesis using r by blast
qed

theorem write_piece_completes_witness:
  "\<exists>w'. write_run (queue_dev 0) (znd_core (queue_dev 0) sample_zv) fresh_md sample_misc 2 40 (write_start 2 sample_ps sample_w2) = Some w' \<and>
     uc_ncb (iw_ucmd w') = 2 \<and> iw_x w' = []"
proof -
  obtain g where "ztl_pro_free fresh_md (qp_prov (iw_q sample_w2)) (iw_grp sample_w2) = Some g" using sample_free by blast
  from write_piece_completes [where infl = mset, OF queue_dev_good sample_piece_ready sample_idle _ sample_populate this, of 40 sample_zv sample_misc]
  show ?thesis by auto
qed

end
