(* ===== verification/Ztl_Io_Store.thy ===== *)
theory Ztl_Io_Store
  imports Ztl_Io_Piece
begin

text \<open>
  What the submission of a piece leaves on the device. On a device that stores what it is given (\<open>storing\<close>,
  the documented behaviour of a write) a piece that ends has put the buffer of every command at its place
  and changed nothing else, however often commands were submitted again.
\<close>

section \<open>Devices that store\<close>

text \<open>\<open>fst (dma x)\<close> is the memory for transfers and \<open>disk x\<close> the contents of the device once the commands in flight have
  completed, both by bytes; \<open>snd (dma x)\<close> is whatever else of the device the queues of writes leave alone, such as
  the reads outstanding on other queues. A write that is accepted puts its buffer at its sectors.\<close>

definition stored :: "nat \<Rightarrow> nat \<Rightarrow> nat \<Rightarrow> (nat \<Rightarrow> nat) \<Rightarrow> (nat \<Rightarrow> nat) \<Rightarrow> nat \<Rightarrow> nat" where
  "stored slba nlb buf m d = (\<lambda>a. if 4096 * slba \<le> a \<and> a < 4096 * (slba + nlb + 1) then m (buf + (a - 4096 * slba)) else d a)"

definition storing :: "'x xnvme \<Rightarrow> ('x \<Rightarrow> (nat \<Rightarrow> nat) \<times> 'k) \<Rightarrow> ('x \<Rightarrow> nat \<Rightarrow> nat) \<Rightarrow> bool" where
  "storing xn dma disk \<longleftrightarrow>
     (\<forall>q x. disk (snd (xn_get_ctx xn q x)) = disk x \<and> dma (snd (xn_get_ctx xn q x)) = dma x) \<and>
     (\<forall>q c x. disk (xn_put_ctx xn q c x) = disk x \<and> dma (xn_put_ctx xn q c x) = dma x) \<and>
     (\<forall>q n x. disk (snd (snd (xn_poke xn q n x))) = disk x \<and> dma (snd (snd (xn_poke xn q n x))) = dma x) \<and>
     (\<forall>c d slba nlb buf x ret x'. xn_write xn c d slba nlb buf x = (ret, x') \<longrightarrow>
        disk x' = (if ret = 0 then stored slba nlb buf (fst (dma x)) (disk x) else disk x) \<and> dma x' = dma x)"

lemma storingD:
  assumes "storing xn dma disk"
  shows "xn_get_ctx xn q x = (c, x') \<Longrightarrow> disk x' = disk x \<and> dma x' = dma x"
    "disk (xn_put_ctx xn q c x) = disk x \<and> dma (xn_put_ctx xn q c x) = dma x"
    "xn_poke xn q n x = (ret, ds, x') \<Longrightarrow> disk x' = disk x \<and> dma x' = dma x"
    "xn_write xn cb d slba nlb buf x = (ret, x') \<Longrightarrow>
       disk x' = (if ret = 0 then stored slba nlb buf (fst (dma x)) (disk x) else disk x) \<and> dma x' = dma x"
proof -
  note law = assms [unfolded storing_def]
  show "disk x' = disk x \<and> dma x' = dma x" if "xn_get_ctx xn q x = (c, x')" using law that by (metis snd_conv)
  show "disk (xn_put_ctx xn q c x) = disk x \<and> dma (xn_put_ctx xn q c x) = dma x" using law by simp
  show "disk x' = disk x \<and> dma x' = dma x" if "xn_poke xn q n x = (ret, ds, x')" using law that by (metis snd_conv)
  show "disk x' = (if ret = 0 then stored slba nlb buf (fst (dma x)) (disk x) else disk x) \<and> dma x' = dma x"
    if "xn_write xn cb d slba nlb buf x = (ret, x')" using law that by blast
qed

section \<open>Commands and their places\<close>

definition in_place :: "xztl_io_mcmd \<Rightarrow> nat \<Rightarrow> bool" where
  "in_place c a \<longleftrightarrow> 4096 * g_sect (mc_addr c) \<le> a \<and> a < 4096 * g_sect (mc_addr c) + 32768"

definition holds :: "(nat \<Rightarrow> nat) \<Rightarrow> (nat \<Rightarrow> nat) \<Rightarrow> xztl_io_mcmd \<Rightarrow> bool" where
  "holds m d c \<longleftrightarrow> (\<forall>a. in_place c a \<longrightarrow> d a = m (mc_prp c + (a - 4096 * g_sect (mc_addr c))))"

definition places_apart :: "nat \<Rightarrow> xztl_io_mcmd list \<Rightarrow> bool" where
  "places_apart num cmds \<longleftrightarrow> (\<forall>k < num. mc_nsec (cmds ! k) = 8) \<and>
     (\<forall>j < num. \<forall>k < num. j \<noteq> k \<longrightarrow> (\<forall>a. \<not> (in_place (cmds ! j) a \<and> in_place (cmds ! k) a)))"

definition put_data :: "(nat \<Rightarrow> nat) \<Rightarrow> xztl_io_mcmd \<Rightarrow> (nat \<Rightarrow> nat) \<Rightarrow> nat \<Rightarrow> nat" where
  "put_data m c d = (\<lambda>a. if in_place c a then m (mc_prp c + (a - 4096 * g_sect (mc_addr c))) else d a)"

lemma stored_cmd: "mc_nsec c = 8 \<Longrightarrow> stored (g_sect (mc_addr c)) (nlb_arg (mc_nsec c)) (mc_prp c) m d = put_data m c d"
  by (auto simp: stored_def put_data_def in_place_def nlb_arg_def u16_small usub_small fun_eq_iff)

lemma holds_put: "holds m (put_data m c d) c"
  by (simp add: holds_def put_data_def)

lemma holds_put_other:
  assumes "places_apart num cmds" "j < num" "k < num" "holds m d (cmds ! j)"
  shows "holds m (put_data m (cmds ! k) d) (cmds ! j)"
proof (cases "j = k")
  case True
  then show ?thesis using holds_put by simp
next
  case False
  then have "\<not> in_place (cmds ! k) a" if "in_place (cmds ! j) a" for a using assms(1-3) that by (auto simp: places_apart_def)
  then show ?thesis using assms(4) by (simp add: holds_def put_data_def)
qed

text \<open>The data of the submitted commands is on the device, and the rest is as it was.\<close>

definition dinv :: "nat \<Rightarrow> xztl_io_mcmd list \<Rightarrow> ('x \<Rightarrow> (nat \<Rightarrow> nat) \<times> 'k) \<Rightarrow> ('x \<Rightarrow> nat \<Rightarrow> nat) \<Rightarrow> (nat \<Rightarrow> nat) \<times> 'k \<Rightarrow>
    (nat \<Rightarrow> nat) \<Rightarrow> nat list \<Rightarrow> 'x \<Rightarrow> bool" where
  "dinv num cmds dma disk m d0 idx x \<longleftrightarrow> dma x = m \<and> (\<forall>k < num. k div 64 < idx ! (k mod 64) \<longrightarrow> holds (fst m) (disk x) (cmds ! k)) \<and>
     (\<forall>a. (\<forall>k < num. \<not> in_place (cmds ! k) a) \<longrightarrow> disk x a = d0 a)"

lemma dinv_same: "dinv num cmds dma disk m d0 idx x \<Longrightarrow> disk x' = disk x \<Longrightarrow> dma x' = dma x \<Longrightarrow> dinv num cmds dma disk m d0 idx x'"
  by (simp add: dinv_def)

lemma dinv_put:
  assumes "dinv num cmds dma disk m d0 idx x" "places_apart num cmds" "k < num" "dma x' = dma x"
    "disk x' = put_data (fst (dma x)) (cmds ! k) (disk x)"
    "\<forall>j < num. j div 64 < idx' ! (j mod 64) \<longrightarrow> j = k \<or> j div 64 < idx ! (j mod 64)"
  shows "dinv num cmds dma disk m d0 idx' x'"
proof -
  have m: "dma x = m" using assms(1) by (simp add: dinv_def)
  have "holds (fst m) (disk x') (cmds ! j)" if "j < num" "j div 64 < idx' ! (j mod 64)" for j
    using holds_put [of "fst m" "cmds ! k" "disk x"] holds_put_other [OF assms(2) that(1) assms(3), where m = "fst m" and d = "disk x"] assms(1,5,6) that m
    by (auto simp: dinv_def)
  moreover have "disk x' a = d0 a" if "\<forall>k < num. \<not> in_place (cmds ! k) a" for a
    using that assms(1,3,5) by (simp add: dinv_def put_data_def)
  ultimately show ?thesis using m assms(4) by (simp add: dinv_def)
qed

section \<open>Steps\<close>

lemma dinv_submit:
  assumes dev: "storing xn dma disk" and inv: "winv num cmds queue infl idx0 w" and k: "k < num" and ap: "places_apart num cmds"
    and sub: "io_submit (znd_core xn zv) k w = Some (ret, w')" and d: "dinv num cmds dma disk m d0 idx (iw_x w)"
    and idx: "\<forall>j < num. j div 64 < idx' ! (j mod 64) \<longrightarrow> ret = 0 \<and> j = k \<or> j div 64 < idx ! (j mod 64)"
  shows "dinv num cmds dma disk m d0 idx' (iw_x w')"
proof -
  let ?m = "qp_mcmd (iw_q w) ! k"
  obtain c x1 where g: "xn_get_ctx xn queue (iw_x w) = (c, x1)" by force
  obtain r x2 where wr: "xn_write xn (Some (c, k)) (zv_dev zv) (g_sect (mc_addr ?m)) (nlb_arg (mc_nsec ?m)) (mc_prp ?m) x1 = (r, x2)"
    by force
  have core: "cmd_core ?m = cmd_core (cmds ! k)" using inv k by (simp add: winv_def)
  note f = cmd_core_fields [OF core]
  have n: "mc_nsec ?m = 8" using ap k f(6) by (simp add: places_apart_def)
  have st: "stored (g_sect (mc_addr ?m)) (nlb_arg (mc_nsec ?m)) (mc_prp ?m) a b = put_data a (cmds ! k) b" for a b
    using stored_cmd [of "cmds ! k"] n by (simp only: f)
  have w': "ret = r" "iw_x w' = (if r \<noteq> 0 then xn_put_ctx xn queue c x2 else x2)"
    using sub io_submit_znd [OF inv k] g wr by (auto simp: Let_def put_mcmd_def split: if_splits)
  have x1: "disk x1 = disk (iw_x w)" "dma x1 = dma (iw_x w)" using storingD(1) [OF dev g] by simp_all
  have x2: "disk x2 = (if r = 0 then put_data (fst (dma (iw_x w))) (cmds ! k) (disk (iw_x w)) else disk (iw_x w))" "dma x2 = dma (iw_x w)"
    using storingD(4) [OF dev wr] x1 by (simp_all add: st)
  show ?thesis
  proof (cases "r = 0")
    case True
    then show ?thesis using dinv_put [OF d ap k] x2 w' idx by simp
  next
    case False
    then have "disk (iw_x w') = disk (iw_x w)" "dma (iw_x w') = dma (iw_x w)"
      using storingD(2) [OF dev, of queue c x2] x2 w' by simp_all
    moreover have "dinv num cmds dma disk m d0 idx' (iw_x w)" using d idx False w'(1) by (auto simp: dinv_def)
    ultimately show ?thesis by (simp add: dinv_same)
  qed
qed

lemma dinv_callback:
  assumes dev: "storing xn dma disk" and ap: "places_apart num cmds" and inv: "winv num cmds queue infl idx w" and k: "k < num"
    and cb: "ztl_io_write_callback_mcmd (znd_core xn zv) md k w = Some w'" and d: "dinv num cmds dma disk m d0 idx (iw_x w)"
    and sub: "k div 64 < idx ! (k mod 64)"
  shows "dinv num cmds dma disk m d0 idx (iw_x w')"
  using inv k cb
proof (cases rule: callback_cases)
  case (again v ret v')
  have "dinv num cmds dma disk m d0 idx (iw_x v')"
    using again(2) d by (intro dinv_submit [OF dev again(1) k ap again(4), where idx = idx]) auto
  moreover have "iw_x w' = iw_x v'" using arg_cong [OF again(5), of ms_x] by simp
  ultimately show ?thesis by simp
next
  case (ended v mc)
  have "iw_x w' = iw_x v" using ended(5) unfolding write_callback_done_def Let_def by (auto simp: bind_eq_Some_conv split: if_splits)
  then show ?thesis using ended(2) d by simp
qed

lemma dinv_poke:
  assumes dev: "storing xn dma disk" "device_law xn infl" and ap: "places_apart num cmds" and inv: "winv num cmds queue infl idx w"
    and p: "ztl_io_poke_ctx xn (znd_core xn zv) md misc0 w = Some w'" and d: "dinv num cmds dma disk m d0 idx (iw_x w)"
  shows "dinv num cmds dma disk m d0 idx (iw_x w')"
proof -
  obtain ret ds x where e: "xn_poke xn queue 1 (iw_x w) = (ret, ds, x)" by (cases "xn_poke xn queue 1 (iw_x w)")
  note p' = p [unfolded poke_znd [OF inv e]]
  have dx: "dinv num cmds dma disk m d0 idx x" using storingD(3) [OF dev(1) e] by (intro dinv_same [OF d]) simp_all
  from device_lawD(4) [OF dev(2) e] consider "ds = []" | k status cdw0 where "ds = [(k, status, cdw0)]" "k \<in># infl (iw_x w)"
      "infl x = infl (iw_x w) - {#k#}" by blast
  then show ?thesis
  proof cases
    case 1
    then show ?thesis using p' dx by auto
  next
    case 2
    note del = winv_deliver [OF inv 2(2,3)]
    define v where "v = w\<lparr>iw_media := (iw_media w)\<lparr>ms_x := x\<rparr>\<rparr>"
    define c where "c = async_cb_status status cdw0 (qp_mcmd (iw_q v) ! k)"
    have l: "k < length (qp_mcmd (iw_q v))" using del(1,3) unfolding v_def [symmetric] by (auto simp: winv_def)
    obtain w1 s where w1: "ztl_io_write_callback_mcmd (znd_core xn zv) md k (put_mcmd k c v) = Some w1"
      and s: "async_cb_put xn (qp_mcmd (iw_q w1) ! k) (iw_media w1) = Some s" "w' = w1\<lparr>iw_media := s\<rparr>"
      using p' 2(1) l unfolding v_def [symmetric] by (auto simp: write_complete_def c_def [symmetric] bind_eq_Some_conv)
    have i: "winv num cmds queue infl idx (put_mcmd k c v)"
      using winv_put_mcmd [of num cmds queue infl idx v c k] del(1) by (simp add: c_def v_def)
    have d1: "dinv num cmds dma disk m d0 idx (iw_x w1)"
      by (rule dinv_callback [OF dev(1) ap i del(3) w1]) (use dx del(4) in \<open>simp_all add: put_mcmd_def v_def\<close>)
    have "disk (ms_x s) = disk (iw_x w1) \<and> dma (ms_x s) = dma (iw_x w1)" using s(1) storingD(2) [OF dev(1)]
      by (auto simp: async_cb_put_def bind_eq_Some_conv)
    then show ?thesis using s(2) by (intro dinv_same [OF d1]) simp_all
  qed
qed

lemma dinv_try:
  assumes dev: "storing xn dma disk" "device_law xn infl" and ap: "places_apart num cmds" and w: "winv num cmds queue infl idx (wr_w ws)"
    and i: "i < min num 64" and idx: "idx = wr_zn_cmd_id_index ws" "length idx = 128" "idx ! i < slots_before num i" "wr_minflight ws ! i = 0"
    and step: "try_submit xn (znd_core xn zv) md misc0 i ws = Some (ws', ctl)" and d: "dinv num cmds dma disk m d0 idx (iw_x (wr_w ws))"
  shows "dinv num cmds dma disk m d0 (wr_zn_cmd_id_index ws') (iw_x (wr_w ws'))"
proof -
  define k where "k = i + 64 * idx ! i"
  define w1 where "w1 = (wr_w ws)\<lparr>iw_ucmd := (iw_ucmd (wr_w ws))\<lparr>uc_minflight := (wr_minflight ws)[i := 1]\<rparr>\<rparr>"
  have k: "k < num" "k mod 64 = i" "k div 64 = idx ! i" using zone_slot_lt [OF _ idx(3)] i by (simp_all add: k_def)
  have w1: "winv num cmds queue infl idx w1" using winv_mark [OF w] i by (simp add: w1_def)
  have z: "zone_idle infl (k mod 64) w1" "uc_minflight (iw_ucmd w1) ! (k mod 64) \<noteq> 0"
    using winv_idle [OF w idx(4)] w i k(2) by (auto simp: w1_def zone_idle_def winv_def)
  have d1: "dinv num cmds dma disk m d0 idx (iw_x w1)" using d by (simp add: w1_def)
  note t0 = step [unfolded try_submit_def Let_def, folded idx(1), folded k_def w1_def]
  obtain ret w2 where w2: "io_submit (znd_core xn zv) k w1 = Some (ret, w2)"
    using t0 by (cases "io_submit (znd_core xn zv) k w1") auto
  note t = t0 [unfolded w2 bind.bind_lunit prod.case]
  show ?thesis
  proof (cases "ret = 0")
    case False
    obtain w3 w4 where w3: "io_stats_inc XZTL_STATS_WRITE_SUBMIT_FAIL w2 = Some w3"
      "ztl_io_poke_ctx xn (znd_core xn zv) md misc0 w3 = Some w4" "ws' = ws\<lparr>wr_w := w4\<rparr>"
      using t False by (auto simp: bind_eq_Some_conv)
    have "winv num cmds queue infl idx w2" using winv_submit [OF dev(2) w1 k(1) z w2] False by simp
    then have inv3: "winv num cmds queue infl idx w3" and f: "iw_x w3 = iw_x w2"
      using winv_stats [of num cmds queue infl idx w2 XZTL_STATS_WRITE_SUBMIT_FAIL] w3(1) by auto
    have "dinv num cmds dma disk m d0 idx (iw_x w3)" unfolding f by (rule dinv_submit [OF dev(1) w1 k(1) ap w2 d1]) simp
    from dinv_poke [OF dev ap inv3 w3(2) this] show ?thesis using w3(3) idx(1) by simp
  next
    case True
    define w3 where "w3 = put_mcmd k ((qp_mcmd (iw_q w2) ! k)\<lparr>mc_submitted := 1\<rparr>) w2"
    define idx' where "idx' = idx[i := idx ! i + 1]"
    obtain w4 where w4: "(if (wr_submitted ws + 1) mod 8 = 0 then ztl_io_poke_ctx xn (znd_core xn zv) md misc0 w3 else Some w3) = Some w4"
      "ws' = ws\<lparr>wr_w := w4, wr_submitted := wr_submitted ws + 1, wr_zn_cmd_id_index := idx'\<rparr>"
      using t True unfolding w3_def idx'_def by (auto simp: bind_eq_Some_conv)
    have "winv num cmds queue infl idx' w2"
      using winv_submit [OF dev(2) w1 k(1) z w2, of idx'] True k idx(2) i by (simp add: idx'_def)
    then have inv3: "winv num cmds queue infl idx' w3" unfolding w3_def by (intro winv_put_mcmd) simp_all
    have "j = k \<or> j div 64 < idx ! (j mod 64)" if "j div 64 < idx' ! (j mod 64)" for j
    proof (cases "j mod 64 = i")
      case True
      then have "j div 64 \<le> idx ! i" using that idx(2) i by (simp add: idx'_def)
      moreover have "j = k" if "j div 64 = idx ! i" using True that mod_mult_div_eq [of j 64] by (simp add: k_def)
      ultimately show ?thesis using True by fastforce
    qed (use that in \<open>simp add: idx'_def\<close>)
    then have "dinv num cmds dma disk m d0 idx' (iw_x w2)" using True by (intro dinv_submit [OF dev(1) w1 k(1) ap w2 d1]) blast
    then have d3: "dinv num cmds dma disk m d0 idx' (iw_x w3)" by (simp add: w3_def put_mcmd_def)
    have "dinv num cmds dma disk m d0 idx' (iw_x w4)" using w4(1) dinv_poke [OF dev ap inv3 _ d3] d3 by (auto split: if_splits)
    then show ?thesis using w4(2) by simp
  qed
qed

lemma dinv_step:
  assumes dev: "storing xn dma disk" "device_law xn infl" and ap: "places_apart num cmds" and inv: "sinv num cmds queue infl ws"
    and step: "write_step xn (znd_core xn zv) md misc0 num (ws, ctl) = Some (ws', ctl')"
    and d: "dinv num cmds dma disk m d0 (wr_zn_cmd_id_index ws) (iw_x (wr_w ws))"
  shows "dinv num cmds dma disk m d0 (wr_zn_cmd_id_index ws') (iw_x (wr_w ws'))"
proof -
  define idx where "idx = wr_zn_cmd_id_index ws"
  have w: "winv num cmds queue infl idx (wr_w ws)" and l: "length idx = 128" using inv by (auto simp: sinv_def idx_def)
  then have n: "pa_naddr (qp_prov (iw_q (wr_w ws))) = min num 64" by (simp add: winv_def)
  note d = d [folded idx_def]
  show ?thesis
  proof (cases ctl)
    case (Submitting z)
    show ?thesis
    proof (cases "z < min num 64 \<and> idx ! z < slots_before num z \<and> wr_minflight ws ! z = 0")
      case True
      then have z: "z < min num 64" "idx ! z < slots_before num z" "wr_minflight ws ! z = 0"
        "try_submit xn (znd_core xn zv) md misc0 z ws = Some (ws', ctl')"
        using step Submitting n submit_zone_cases [OF inv, of z] by (simp_all add: write_step_def idx_def)
      show ?thesis by (rule dinv_try [OF dev ap w z(1) idx_def l z(2,3,4) d])
    next
      case False
      then show ?thesis using step Submitting n submit_zone_cases [OF inv, of z] d dinv_poke [OF dev ap w _ d]
        by (auto simp: write_step_def idx_def bind_eq_Some_conv split: if_splits)
    qed
  qed (use step d dinv_poke [OF dev ap w _ d] in \<open>auto simp: write_step_def idx_def bind_eq_Some_conv split: if_splits\<close>)
qed

text \<open>A run that ends has submitted all commands.\<close>

definition sent_all :: "nat \<Rightarrow> 'x write_state \<Rightarrow> write_ctl \<Rightarrow> bool" where
  "sent_all num ws ctl \<longleftrightarrow> (case ctl of Submitting z \<Rightarrow> True | _ \<Rightarrow> num \<le> wr_submitted ws)"

lemma sent_all_step:
  assumes "write_step xn core md misc0 num (ws, ctl) = Some (ws', ctl')" "sent_all num ws ctl"
  shows "sent_all num ws' ctl'"
  using assms
  by (auto simp: write_step_def sent_all_def submit_zone_def Let_def bind_eq_Some_conv split: if_splits write_ctl.splits)

lemma all_sent:
  assumes "cinv num ws" "num \<le> wr_submitted ws" "k < num"
  shows "k div 64 < wr_zn_cmd_id_index ws ! (k mod 64)"
proof -
  have "slots_before num (k mod 64) \<le> wr_zn_cmd_id_index ws ! (k mod 64)"
    using cinv_left [OF assms(1)] assms(2) le_less_trans [OF mod_less_eq_dividend assms(3)]
    by (meson min_less_iff_conj mod_less_divisor not_le zero_less_numeral)
  then show ?thesis using slots_before_less [OF assms(3)] slots_before_mod [of k] by simp
qed

lemma dinv_run:
  assumes dev: "storing xn dma disk" "device_law xn infl" and ap: "places_apart num cmds"
  shows "write_run xn (znd_core xn zv) md misc0 num fuel (ws, ctl) = Some w' \<Longrightarrow> sinv num cmds queue infl ws \<Longrightarrow> cinv num ws \<Longrightarrow>
    sent_all num ws ctl \<Longrightarrow> dinv num cmds dma disk m d0 (wr_zn_cmd_id_index ws) (iw_x (wr_w ws)) \<Longrightarrow>
    \<exists>idx. dinv num cmds dma disk m d0 idx (iw_x w') \<and> (\<forall>k < num. k div 64 < idx ! (k mod 64))"
proof (induction fuel arbitrary: ws ctl)
  case 0
  then show ?case using all_sent [OF 0(3)] by (auto simp: sent_all_def split: if_splits)
next
  case (Suc fuel)
  show ?case
  proof (cases "ctl = Written")
    case True
    then show ?thesis using Suc.prems all_sent [OF Suc.prems(3)] by (auto simp: sent_all_def)
  next
    case False
    then obtain ws' ctl' where s: "write_step xn (znd_core xn zv) md misc0 num (ws, ctl) = Some (ws', ctl')"
      "write_run xn (znd_core xn zv) md misc0 num fuel (ws', ctl') = Some w'"
      using Suc.prems(1) by (auto simp: bind_eq_Some_conv)
    show ?thesis
      by (rule Suc.IH [OF s(2) sinv_step [OF dev(2) Suc.prems(2) s(1)] cinv_step [OF dev(2) Suc.prems(2,3) s(1)]
          sent_all_step [OF s(1) Suc.prems(4)] dinv_step [OF dev ap Suc.prems(2) s(1) Suc.prems(5)]])
  qed
qed

text \<open>The piece as a whole.\<close>

lemma piece_run_stores:
  assumes dev: "storing xn dma disk" "device_law xn infl" and ready: "piece_ready nbytes num boff queue w0"
    and pop: "write_populate nbytes num boff w0 = Some (ps, w)" and idle: "infl (iw_x w0) = {#}" and num: "0 < num"
    and ap: "places_apart num (ps_mcmd ps)"
    and run: "write_run xn (znd_core xn zv) md misc0 num fuel (write_start num ps w) = Some w'"
  shows "dma (iw_x w') = dma (iw_x w0)" "k < num \<Longrightarrow> holds (fst (dma (iw_x w0))) (disk (iw_x w')) (ps_mcmd ps ! k)"
    "(\<forall>k < num. \<not> in_place (ps_mcmd ps ! k) a) \<Longrightarrow> disk (iw_x w') a = disk (iw_x w0) a"
proof -
  let ?ws = "fst (write_start num ps w)" and ?ctl = "snd (write_start num ps w)"
  have ps: "ps_mcmd ps = piece_cmds nbytes num boff w0" and x: "iw_x w = iw_x w0"
    using pop [unfolded write_populate_ready [OF ready]] by (auto simp: piece_cmds_def)
  have i: "wr_zn_cmd_id_index ?ws = replicate 128 0" "iw_x (wr_w ?ws) = iw_x w0" "sent_all num ?ws ?ctl"
    using x num by (simp_all add: write_start_def sent_all_def)
  have "dinv num (ps_mcmd ps) dma disk (dma (iw_x w0)) (disk (iw_x w0)) (wr_zn_cmd_id_index ?ws) (iw_x (wr_w ?ws))"
    unfolding i(1,2) by (simp add: dinv_def)
  from dinv_run [OF dev ap _ sinv_start [where infl = infl, OF ready pop idle, folded ps] cinv_start i(3) this]
  obtain idx where "dinv num (ps_mcmd ps) dma disk (dma (iw_x w0)) (disk (iw_x w0)) idx (iw_x w')" "\<forall>k < num. k div 64 < idx ! (k mod 64)"
    using run by (metis prod.collapse)
  then show "dma (iw_x w') = dma (iw_x w0)" "k < num \<Longrightarrow> holds (fst (dma (iw_x w0))) (disk (iw_x w')) (ps_mcmd ps ! k)"
    "(\<forall>k < num. \<not> in_place (ps_mcmd ps ! k) a) \<Longrightarrow> disk (iw_x w') a = disk (iw_x w0) a" by (auto simp: dinv_def)
qed

section \<open>Places in a node\<close>

definition byte_home :: "ztl_pro_node_grp \<Rightarrow> ztl_pro_node \<Rightarrow> nat \<Rightarrow> nat" where
  "byte_home pro node b = 4096 * slot_sector pro node (b div 32768) + b mod 32768"

lemma byte_home_in_slot: "j * 32768 \<le> b \<Longrightarrow> b < (j + 1) * 32768 \<Longrightarrow>
    byte_home pro node b = 4096 * slot_sector pro node j + (b - j * 32768)"
proof -
  assume b: "j * 32768 \<le> b" "b < (j + 1) * 32768"
  then have "b div 32768 = j" by (intro div_nat_eqI) (simp_all add: mult.commute)
  moreover have "b mod 32768 = b - j * 32768" using minus_div_mult_eq_mod [of b 32768] \<open>b div 32768 = j\<close> by simp
  ultimately show ?thesis by (simp add: byte_home_def)
qed

text \<open>The zones of a node do not overlap.\<close>

definition zones_apart :: "ztl_pro_node_grp \<Rightarrow> ztl_pro_node \<Rightarrow> ztl_pro_node \<Rightarrow> bool" where
  "zones_apart pro node node' \<longleftrightarrow> (\<forall>y < 64. \<forall>z < 64. node = node' \<and> y = z \<or>
     g_sect (zn_addr (nzone pro node y)) + ZTL_PRO_SEC_NUM_INZONE \<le> g_sect (zn_addr (nzone pro node' z)) \<or>
     g_sect (zn_addr (nzone pro node' z)) + ZTL_PRO_SEC_NUM_INZONE \<le> g_sect (zn_addr (nzone pro node y)))"

lemma slots_apart:
  assumes "zones_apart pro node node'" "i < ZTL_PRO_OPT_SEC_NUM_INNODE" "j < ZTL_PRO_OPT_SEC_NUM_INNODE" "node \<noteq> node' \<or> i \<noteq> j"
  shows "slot_sector pro node i + 8 \<le> slot_sector pro node' j \<or> slot_sector pro node' j + 8 \<le> slot_sector pro node i"
proof -
  let ?s = "\<lambda>nd z. g_sect (zn_addr (nzone pro nd z))"
  have d: "i div 64 < 3072" "j div 64 < 3072" using assms(2,3) by (simp_all add: div_less_iff_less_mult)
  show ?thesis
  proof (cases "node = node' \<and> i mod 64 = j mod 64")
    case True
    then have "i div 64 \<noteq> j div 64" using assms(4) by (metis div_mult_mod_eq)
    then show ?thesis using True by (cases "i div 64 < j div 64") (auto simp: slot_sector_def)
  next
    case False
    then have "?s node (i mod 64) + 24576 \<le> ?s node' (j mod 64) \<or> ?s node' (j mod 64) + 24576 \<le> ?s node (i mod 64)"
      using assms(1) [unfolded zones_apart_def, rule_format, of "i mod 64" "j mod 64"] by auto
    then show ?thesis using d unfolding slot_sector_def by linarith
  qed
qed

text \<open>\<open>num\<close> slots from slot \<open>start\<close> hold the bytes of the buffer, the rest of the device is as before.\<close>

definition node_bytes :: "ztl_pro_node_grp \<Rightarrow> ztl_pro_node \<Rightarrow> nat \<Rightarrow> nat \<Rightarrow> nat set" where
  "node_bytes pro node start num = byte_home pro node ` {32768 * start..<32768 * (start + num)}"

definition written_at :: "ztl_pro_node_grp \<Rightarrow> ztl_pro_node \<Rightarrow> nat \<Rightarrow> nat \<Rightarrow> nat \<Rightarrow> (nat \<Rightarrow> nat) \<Rightarrow> (nat \<Rightarrow> nat) \<Rightarrow> (nat \<Rightarrow> nat) \<Rightarrow> bool" where
  "written_at pro node start num buf m d d' \<longleftrightarrow>
     (\<forall>b < 32768 * num. d' (byte_home pro node (32768 * start + b)) = m (buf + b)) \<and> (\<forall>a. a \<notin> node_bytes pro node start num \<longrightarrow> d' a = d a)"

lemma slot_bytes:
  assumes "4096 * slot_sector pro node (start + k) \<le> a" "a < 4096 * slot_sector pro node (start + k) + 32768" "k < num"
  shows "a \<in> node_bytes pro node start num"
proof -
  define r where "r = a - 4096 * slot_sector pro node (start + k)"
  have "byte_home pro node ((start + k) * 32768 + r) = 4096 * slot_sector pro node (start + k) + r"
    using assms(1,2) byte_home_in_slot [of "start + k" "(start + k) * 32768 + r" pro node] by (simp add: r_def)
  moreover have "(start + k) * 32768 + r \<in> {32768 * start..<32768 * (start + num)}" using assms by (auto simp: r_def)
  ultimately show ?thesis using assms(1) unfolding node_bytes_def r_def by (metis image_eqI le_add_diff_inverse)
qed

lemma piece_places:
  assumes "zones_apart pro node node" "start + num \<le> ZTL_PRO_OPT_SEC_NUM_INNODE"
    "\<forall>k < num. g_sect (mc_addr (cmds ! k)) = slot_sector pro node (start + k) \<and> mc_nsec (cmds ! k) = 8"
  shows "places_apart num cmds"
proof -
  have False if jk: "j < num" "k < num" "j \<noteq> k" and a: "in_place (cmds ! j) a" "in_place (cmds ! k) a" for j k a
  proof -
    have "slot_sector pro node (start + j) + 8 \<le> slot_sector pro node (start + k) \<or> slot_sector pro node (start + k) + 8 \<le> slot_sector pro node (start + j)"
      using jk assms(2) by (intro slots_apart [OF assms(1)]) auto
    then show False using a assms(3) jk unfolding in_place_def by auto
  qed
  then show ?thesis using assms(3) unfolding places_apart_def by blast
qed

lemma piece_written:
  assumes cmds: "\<forall>k < num. g_sect (mc_addr (cmds ! k)) = slot_sector pro node (start + k) \<and> mc_prp (cmds ! k) = buf + k * 32768"
    and d: "\<And>k. k < num \<Longrightarrow> holds m d' (cmds ! k)" "\<And>a. (\<forall>k < num. \<not> in_place (cmds ! k) a) \<Longrightarrow> d' a = d a"
  shows "written_at pro node start num buf m d d'"
proof -
  have "d' (byte_home pro node (32768 * start + b)) = m (buf + b)" if "b < 32768 * num" for b
  proof -
    define k where "k = b div 32768"
    have k: "k < num" using that by (simp add: k_def div_less_iff_less_mult mult.commute)
    have b: "b = k * 32768 + b mod 32768" by (simp add: k_def)
    have "byte_home pro node (32768 * start + b) = 4096 * slot_sector pro node (start + k) + b mod 32768"
      by (simp add: byte_home_def k_def)
    then show ?thesis using d(1) [OF k] cmds k b by (simp add: holds_def in_place_def)
  qed
  moreover have "d' a = d a" if "a \<notin> node_bytes pro node start num" for a
    using that cmds slot_bytes [of pro node start _ a num] by (intro d(2)) (auto simp: in_place_def)
  ultimately show ?thesis by (simp add: written_at_def)
qed

section \<open>What writing leaves alone\<close>

text \<open>The thread contexts and the sizes of the arrays; the completions of a poke are worked off within it.\<close>

definition iw_frame :: "'x io_world \<Rightarrow> (nat \<rightharpoonup> nat) \<times> completion list \<times> nat \<times> nat" where
  "iw_frame w = (ms_tctx (iw_media w), ms_done (iw_media w), length (ms_io (iw_media w)), length (qp_mcmd (iw_q w)))"

lemma submit_frame: "io_submit (znd_core xn zv) k w = Some (ret, w') \<Longrightarrow> iw_frame w' = iw_frame w"
  by (auto simp: iw_frame_def io_submit_def xztl_media_submit_io_def znd_media_fns_def znd_media_submit_io_def Let_def put_mcmd_def
    znd_media_submit_read_synch_def znd_media_submit_read_asynch_def znd_media_submit_write_synch_def znd_media_submit_write_asynch_def
    znd_media_submit_append_synch_def znd_media_submit_append_asynch_def bind_eq_Some_conv split_beta split: if_splits)

lemma stats_frame: "io_stats_inc t w = Some w' \<Longrightarrow> iw_frame w' = iw_frame w"
  by (auto simp: iw_frame_def io_stats_inc_def xztl_stats_inc_def bind_eq_Some_conv)

lemma iw_frame_simps [simp]:
  "iw_frame (put_mcmd k c w) = iw_frame w" "iw_frame (w\<lparr>iw_ucmd := u\<rparr>) = iw_frame w" "iw_frame (w\<lparr>iw_grp := g\<rparr>) = iw_frame w"
  "iw_frame (w\<lparr>iw_media := (iw_media w)\<lparr>ms_x := x\<rparr>\<rparr>) = iw_frame w"
  "iw_frame (w\<lparr>iw_ucmd := u, iw_grp := g\<rparr>) = iw_frame w" "iw_media (put_mcmd k c w) = iw_media w"
  by (simp_all add: iw_frame_def put_mcmd_def)

lemma done_frame: "write_callback_done md c w = Some w' \<Longrightarrow> iw_frame w' = iw_frame w"
  by (auto simp: write_callback_done_def Let_def bind_eq_Some_conv iw_frame_def split: if_splits)

lemma callback_frame: "ztl_io_write_callback_mcmd (znd_core xn zv) md k w = Some w' \<Longrightarrow> iw_frame w' = iw_frame w"
  by (auto simp: ztl_io_write_callback_mcmd_def Let_def bind_eq_Some_conv dest!: submit_frame stats_frame done_frame split: if_splits)

lemma complete_frame: "write_complete xn (znd_core xn zv) md c w = Some w' \<Longrightarrow> iw_frame w' = iw_frame w"
  by (cases c) (auto simp: write_complete_def async_cb_put_def bind_eq_Some_conv dest!: callback_frame)

lemma completes_frame: "write_completes xn (znd_core xn zv) md cs w = Some w' \<Longrightarrow> iw_frame w' = iw_frame w"
  by (induction cs arbitrary: w) (auto simp: bind_eq_Some_conv dest!: complete_frame)

lemma misc_poke: "xztl_media_submit_misc (znd_core xn zv) misc s = Some (ret, misc', s') \<Longrightarrow> mi_opcode misc = op XZTL_MISC_ASYNCH_POKE \<Longrightarrow>
    ms_tctx s' = ms_tctx s \<and> ms_io s' = ms_io s"
  by (auto simp: xztl_media_submit_misc_def znd_media_fns_def znd_media_cmd_exec_def znd_media_async_poke_def Let_def
    bind_eq_Some_conv split_beta split: if_splits)

lemma poke_frame: "ztl_io_poke_ctx xn (znd_core xn zv) md misc0 w = Some w' \<Longrightarrow> ms_done (iw_media w) = [] \<Longrightarrow> iw_frame w' = iw_frame w"
  unfolding ztl_io_poke_ctx_def Let_def by (auto simp: bind_eq_Some_conv iw_frame_def dest!: misc_poke completes_frame)

lemma step_frame:
  assumes "write_step xn (znd_core xn zv) md misc0 num (ws, ctl) = Some (ws', ctl')" "ms_done (iw_media (wr_w ws)) = []"
  shows "iw_frame (wr_w ws') = iw_frame (wr_w ws)"
proof -
  have "ms_done (iw_media v) = []" if "iw_frame v = iw_frame (wr_w ws)" for v using that assms(2) by (simp add: iw_frame_def)
  then show ?thesis using assms
    by (cases ctl) (auto simp: write_step_def submit_zone_def Let_def bind_eq_Some_conv
      dest!: submit_frame stats_frame poke_frame split: if_splits)
qed

lemma run_frame: "write_run xn (znd_core xn zv) md misc0 num fuel (ws, ctl) = Some w' \<Longrightarrow> ms_done (iw_media (wr_w ws)) = [] \<Longrightarrow>
    iw_frame w' = iw_frame (wr_w ws)"
proof (induction fuel arbitrary: ws ctl)
  case (Suc fuel)
  show ?case
  proof (cases "ctl = Written")
    case False
    then obtain ws' ctl' where s: "write_step xn (znd_core xn zv) md misc0 num (ws, ctl) = Some (ws', ctl')"
      "write_run xn (znd_core xn zv) md misc0 num fuel (ws', ctl') = Some w'" using Suc.prems(1) by (auto simp: bind_eq_Some_conv)
    have "iw_frame (wr_w ws') = iw_frame (wr_w ws)" using step_frame [OF s(1) Suc.prems(2)] .
    then show ?thesis using Suc.IH [OF s(2)] Suc.prems(2) by (simp add: iw_frame_def)
  qed (use Suc.prems in auto)
qed (auto split: if_splits)

end
