(* ===== verification/Ztl_Io_User.thy ===== *)
theory Ztl_Io_User
  imports Ztl_Io_Store
begin

text \<open>
  A user write from end to end: provisioning, population, submission and accounting together.
  \<open>write_commands_striped\<close> says which commands a piece consists of, \<open>user_write\<close> what a write that fits
  the node of its queue achieves on a device that stores without errors.
\<close>

section \<open>Changes outside the zones\<close>

text \<open>The zones of a node do not depend on the other fields of the node or of its group.\<close>

lemma nzone_frame:
  assumes "nd_vzones node' = nd_vzones node" "pg_vzones pro' = pg_vzones pro"
  shows "nzone pro' node' z = nzone pro node z" "nent pro' node' z = nent pro node z"
  using assms by (simp_all add: nzone_def nent_def node_zone_def)

lemma node_frame:
  assumes "nd_vzones node' = nd_vzones node" "pg_vzones pro' = pg_vzones pro"
  shows "node_linked pro' m node' = node_linked pro m node" "node_at pro' tbl node' used = node_at pro tbl node used"
    "node_fits pro' node' = node_fits pro node" "node_written pro' tbl node' used = node_written pro tbl node used"
    "node_numbered md pro' node' = node_numbered md pro node" "slot_sector pro' node' j = slot_sector pro node j"
proof -
  have "node_zone pro' node' = node_zone pro node" using assms by (simp add: node_zone_def fun_eq_iff)
  then show "node_linked pro' m node' = node_linked pro m node" "node_at pro' tbl node' used = node_at pro tbl node used"
    "node_fits pro' node' = node_fits pro node" "node_written pro' tbl node' used = node_written pro tbl node used"
    "node_numbered md pro' node' = node_numbered md pro node" "slot_sector pro' node' j = slot_sector pro node j"
    using nzone_frame [OF assms] assms(2)
    by (simp_all add: node_linked_def node_at_def node_fits_def node_written_def node_numbered_def slot_sector_def inj_on_def)
qed

section \<open>A write into the node of its queue\<close>

text \<open>The node \<open>n\<close> of the queue, with \<open>start\<close> slots written, and the resources of the write.\<close>

definition write_node ::
    "ztl_metadata \<Rightarrow> 'x io_world \<Rightarrow> nat \<Rightarrow> ztl_pro_node_grp \<Rightarrow> ztl_pro_node \<Rightarrow> app_zmd_entry list \<Rightarrow> bool" where
  "write_node md w n pro node tbl \<longleftrightarrow> qp_node (iw_q w) = Some n \<and> gr_pro (iw_grp w) = Some pro \<and>
     get_at (pg_vnodes pro) n = Some node \<and> nd_id node = n \<and> zd_tbl (gr_zmd (iw_grp w)) = Some tbl \<and>
     node_linked pro (length tbl) node \<and> node_fits pro node \<and> node_numbered md pro node \<and>
     node_at pro tbl node (nd_optimal_write_sec_used node) \<and> node_written pro tbl node (nd_optimal_write_sec_used node) \<and>
     nd_optimal_write_sec_used node + nd_optimal_write_sec_left node \<le> ZTL_PRO_OPT_SEC_NUM_INNODE \<and>
     nd_nr_valid node \<le> nd_optimal_write_sec_used node \<and> zones_apart pro node node"

definition write_room :: "nat \<Rightarrow> nat \<Rightarrow> nat \<Rightarrow> 'x io_world \<Rightarrow> bool" where
  "write_room nbytes num queue w \<longleftrightarrow>
     room_ok nbytes num (qp_prov (iw_q w)) (qp_mcmd (iw_q w)) (iw_ucmd w) (uc_buf (iw_ucmd w)) \<and>
     length (uc_minflight (iw_ucmd w)) = 256 \<and> num \<le> length (uc_moffset (iw_ucmd w)) \<and>
     ms_tctx (iw_media w) (qp_tctx (iw_q w)) = Some queue \<and> ms_done (iw_media w) = [] \<and>
     length (ms_io (iw_media w)) = XZTL_STATS_IO_TYPES \<and> uc_pieces (iw_ucmd w) < 2 \<and>
     length (uc_node_id (iw_ucmd w)) = 2 \<and> length (uc_start (iw_ucmd w)) = 2 \<and> length (uc_num (iw_ucmd w)) = 2"

text \<open>The piece as the user command records it.\<close>

definition recorded :: "nat \<Rightarrow> nat \<Rightarrow> nat \<Rightarrow> xztl_io_ucmd \<Rightarrow> xztl_io_ucmd" where
  "recorded n start num u = u\<lparr>uc_node_id := (uc_node_id u)[uc_pieces u := n], uc_start := (uc_start u)[uc_pieces u := start],
     uc_num := (uc_num u)[uc_pieces u := num]\<rparr>"

lemma write_record_eq:
  assumes "gr_pro (iw_grp w) = Some pro" "get_at (pg_vnodes pro) n = Some node" "nd_id node = n" "num \<le> nd_optimal_write_sec_left node"
    "uc_pieces (iw_ucmd w) < 2" "length (uc_node_id (iw_ucmd w)) = 2" "length (uc_start (iw_ucmd w)) = 2" "length (uc_num (iw_ucmd w)) = 2"
  defines "node1 \<equiv> (if nd_level node = -1 then node\<lparr>nd_level := int (uc_prov_type (iw_ucmd w))\<rparr> else node)"
  shows "write_record num n w = Some (num, node1,
    w\<lparr>iw_grp := (iw_grp w)\<lparr>gr_pro := Some (pro\<lparr>pg_vnodes := (pg_vnodes pro)[n := node1]\<rparr>)\<rparr>,
      iw_ucmd := recorded n (nd_optimal_write_sec_used node) num (iw_ucmd w)\<rparr>)"
  using assms by (auto simp: write_record_def recorded_def Let_def node1_def)

lemma ctx_count_frame [simp]:
  "gr_pro (app_grp_ctx_add g) = gr_pro g" "gr_zmd (app_grp_ctx_add g) = gr_zmd g"
  "gr_pro (app_grp_ctx_sub g) = gr_pro g" "gr_zmd (app_grp_ctx_sub g) = gr_zmd g"
  by (simp_all add: app_grp_ctx_add_def app_grp_ctx_sub_def)

lemma node_written_frame:
  assumes "node_linked pro (length tbl) node" "\<forall>e < length tbl. tbl' ! e = (tbl ! e)\<lparr>ze_wptr_inflight := ze_wptr_inflight (tbl' ! e)\<rparr>"
  shows "node_written pro tbl' node used = node_written pro tbl node used"
proof -
  have "ze_wptr (tbl' ! nent pro node z) = ze_wptr (tbl ! nent pro node z)" if "z < 64" for z
    using arg_cong [OF assms(2) [rule_format, OF node_linkedD(3) [OF assms(1) that]], of ze_wptr] by simp
  then show ?thesis by (simp add: node_written_def)
qed

lemma node_at_frame:
  assumes "node_linked pro (length tbl) node" "\<forall>e < length tbl. tbl' ! e = (tbl ! e)\<lparr>ze_wptr := ze_wptr (tbl' ! e)\<rparr>"
  shows "node_at pro tbl' node used = node_at pro tbl node used"
proof -
  have "ze_wptr_inflight (tbl' ! nent pro node z) = ze_wptr_inflight (tbl ! nent pro node z)" if "z < 64" for z
    using arg_cong [OF assms(2) [rule_format, OF node_linkedD(3) [OF assms(1) that]], of ze_wptr_inflight] by simp
  then show ?thesis by (simp add: node_at_def)
qed

text \<open>The write pointers of the zones that do not belong to the node.\<close>

definition other_wptrs :: "ztl_pro_node_grp \<Rightarrow> ztl_pro_node \<Rightarrow> app_zmd_entry list \<Rightarrow> app_zmd_entry list \<Rightarrow> bool" where
  "other_wptrs pro node tbl tbl' \<longleftrightarrow> length tbl' = length tbl \<and>
     (\<forall>e < length tbl. (\<forall>z < 64. e \<noteq> nent pro node z) \<longrightarrow> ze_wptr (tbl' ! e) = ze_wptr (tbl ! e))"

lemma other_wptrs_of:
  assumes "length tbl1 = length tbl" "\<forall>e < length tbl. tbl1 ! e = (tbl ! e)\<lparr>ze_wptr_inflight := ze_wptr_inflight (tbl1 ! e)\<rparr>"
    "length tbl' = length tbl1" "\<forall>e < length tbl1. (\<forall>z < 64. e \<noteq> nent pro node z) \<longrightarrow> tbl' ! e = tbl1 ! e"
  shows "other_wptrs pro node tbl tbl'"
proof -
  have "ze_wptr (tbl1 ! e) = ze_wptr (tbl ! e)" if "e < length tbl" for e using arg_cong [OF assms(2) [rule_format, OF that], of ze_wptr] by simp
  then show ?thesis using assms(1,3,4) by (simp add: other_wptrs_def)
qed

text \<open>Provisioning of the piece and its commands: the state before submission, the group after the release.\<close>

lemma piece_prepared:
  assumes node: "gr_pro grp = Some pro" "get_at (pg_vnodes pro) n = Some node" "zd_tbl (gr_zmd grp) = Some tbl"
      "node_linked pro (length tbl) node" "node_fits pro node" "node_numbered md pro node"
      "node_at pro tbl node start" "node_written pro tbl node start" "start + num \<le> ZTL_PRO_OPT_SEC_NUM_INNODE"
    and w: "iw_grp w = grp" "write_room nbytes num queue w" "boff = uc_buf (iw_ucmd w)"
  shows "\<exists>prov' grp' ps w' grp''. ztl_pro_new num n (qp_prov (iw_q w)) start grp = Some (xz XZTL_OK, prov', grp') \<and>
    piece_ready nbytes num boff queue (w\<lparr>iw_grp := grp', iw_q := (iw_q w)\<lparr>qp_prov := prov'\<rparr>\<rparr>) \<and>
    write_populate nbytes num boff (w\<lparr>iw_grp := grp', iw_q := (iw_q w)\<lparr>qp_prov := prov'\<rparr>\<rparr>) = Some (ps, w') \<and>
    ztl_pro_free md (qp_prov (iw_q w')) (iw_grp w') = Some grp'' \<and> gr_pro grp'' = Some pro \<and>
    (\<exists>tbl'. zd_tbl (gr_zmd grp'') = Some tbl' \<and> other_wptrs pro node tbl tbl' \<and>
       node_at pro tbl' node (start + num) \<and> node_written pro tbl' node (start + num)) \<and>
    (\<forall>k < num. g_sect (mc_addr (ps_mcmd ps ! k)) = slot_sector pro node (start + k) \<and> mc_nsec (ps_mcmd ps ! k) = 8 \<and>
       mc_prp (ps_mcmd ps ! k) = boff + k * (nbytes * 8))"
proof -
  have room: "room_ok nbytes num (qp_prov (iw_q w)) (qp_mcmd (iw_q w)) (iw_ucmd w) boff" using w by (simp add: write_room_def)
  obtain prov' tbl1 where p: "ztl_pro_new num n (qp_prov (iw_q w)) start grp = Some (xz XZTL_OK, prov', app_grp_ctx_add (with_tbl grp tbl1))"
    "piece_ok nbytes num prov' (qp_mcmd (iw_q w)) (iw_ucmd w) boff" "length tbl1 = length tbl" "node_at pro tbl1 node (start + num)"
    "\<forall>i < min num 64. let zone = nzone pro node ((start + i) mod 64) in g_zone (pa_addr prov' ! i) = g_zone (zn_addr zone) \<and>
       g_grp (pa_addr prov' ! i) = g_grp (zn_addr zone) \<and> g_sect (pa_addr prov' ! i) = slot_sector pro node (start + i)"
    "\<forall>e < length tbl. tbl1 ! e = (tbl ! e)\<lparr>ze_wptr_inflight := ze_wptr_inflight (tbl1 ! e)\<rparr>"
    using pro_new_piece [OF node(1-4,7,5,9) room] by blast
  define w2 where "w2 = w\<lparr>iw_grp := app_grp_ctx_add (with_tbl grp tbl1), iw_q := (iw_q w)\<lparr>qp_prov := prov'\<rparr>\<rparr>"
  have ready: "piece_ready nbytes num boff queue w2" using p(2) w by (simp add: piece_ready_def w2_def write_room_def)
  obtain ps w3 where pop: "write_populate nbytes num boff w2 = Some (ps, w3)"
    and ps: "ps = pop_at nbytes (qp_tctx (iw_q w)) num prov' (qp_mcmd (iw_q w)) (iw_ucmd w) boff num"
    using write_populate_ready [OF ready] by (simp add: w2_def)
  note pr = populate_prov [OF ready pop]
  have g3: "gr_pro (iw_grp w3) = Some pro" "zd_tbl (gr_zmd (iw_grp w3)) = Some tbl1" using pr(5) node(1) by (simp_all add: w2_def)
  have zones: "\<forall>j < min num 64. g_zone (pa_addr (qp_prov (iw_q w3)) ! j) = g_zone (zn_addr (nzone pro node ((start + j) mod 64))) \<and>
      pa_nsec (qp_prov (iw_q w3)) ! j = 8 * zone_share num j"
    using pr(2,4) p(2,5) by (auto simp: w2_def piece_ok_def Let_def)
  have linked1: "node_linked pro (length tbl1) node" "node_written pro tbl1 node start"
    using node(4,8) p(3) node_written_frame [OF node(4) p(6)] by simp_all
  have "pa_naddr (qp_prov (iw_q w3)) = min num 64" using pr(1) p(2) by (simp add: w2_def piece_ok_def)
  from pro_free_node [OF g3 linked1(1) node(5,6) linked1(2) node(9) this pr(3,6) zones]
  obtain tbl' where f: "ztl_pro_free md (qp_prov (iw_q w3)) (iw_grp w3) = Some (app_grp_ctx_sub (with_tbl (iw_grp w3) tbl'))"
    "length tbl' = length tbl1" "node_written pro tbl' node (start + num)"
    "\<forall>e < length tbl1. tbl' ! e = (tbl1 ! e)\<lparr>ze_wptr := ze_wptr (tbl' ! e)\<rparr>"
    "\<forall>e < length tbl1. (\<forall>z < 64. e \<noteq> nent pro node z) \<longrightarrow> tbl' ! e = tbl1 ! e" by blast
  have at: "node_at pro tbl' node (start + num)" using node_at_frame [OF linked1(1) f(4)] p(4) by simp
  have "g_sect (mc_addr (ps_mcmd ps ! k)) = slot_sector pro node (start + k) \<and> mc_nsec (ps_mcmd ps ! k) = 8 \<and>
      mc_prp (ps_mcmd ps ! k) = boff + k * (nbytes * 8)" if "k < num" for k
    using write_cmd_slot [OF p(2) that, of pro node start "qp_tctx (iw_q w)" "qp_mcmd (iw_q w) ! k"] p(2,5) that
    by (simp add: ps pop_at_def Let_def piece_ok_def) (simp add: write_cmd_def)
  then show ?thesis using p(1) ready pop f(1,3) at g3(1) other_wptrs_of [OF p(3,6) f(2,5)] unfolding w2_def by (intro exI conjI) (auto simp: g3(1))
qed

text \<open>The node after a piece of \<open>num\<close> slots.\<close>

definition node_after :: "nat \<Rightarrow> ztl_pro_node \<Rightarrow> ztl_pro_node" where
  "node_after num node = node\<lparr>nd_optimal_write_sec_left := nd_optimal_write_sec_left node - num,
     nd_optimal_write_sec_used := nd_optimal_write_sec_used node + num, nd_nr_valid := nd_nr_valid node + num,
     nd_status := if nd_optimal_write_sec_left node = num then XZTL_ZMD_NODE_FULL else nd_status node\<rparr>"

lemma node_account_eq:
  assumes "get_at (pg_vnodes pro) n = Some node" "num \<le> nd_optimal_write_sec_left node"
    "nd_optimal_write_sec_used node + nd_optimal_write_sec_left node \<le> ZTL_PRO_OPT_SEC_NUM_INNODE"
    "nd_nr_valid node \<le> ZTL_PRO_OPT_SEC_NUM_INNODE"
  shows "node_account n num pro = Some (pro\<lparr>pg_vnodes := (pg_vnodes pro)[n := node_after num node]\<rparr>)"
proof -
  have u: "usub 64 (nd_optimal_write_sec_left node) num = nd_optimal_write_sec_left node - num"
    "u64 (nd_optimal_write_sec_used node + num) = nd_optimal_write_sec_used node + num" "u64 (nd_nr_valid node + num) = nd_nr_valid node + num"
    using assms(2-4) by (simp_all add: usub_small u64_small)
  have "usub 64 num num = 0" using assms(2,3) by (simp add: usub_small)
  moreover have "usub 64 (nd_optimal_write_sec_left node) num = 0 \<longleftrightarrow> nd_optimal_write_sec_left node = num" using u(1) assms(2) by auto
  ultimately show ?thesis using assms(1) u unfolding node_account_def Let_def node_after_def by simp
qed

lemma populate_ucmd:
  assumes ready: "piece_ready nbytes num boff queue w0" and pop: "write_populate nbytes num boff w0 = Some (ps, w)"
  shows "uc_node_id (iw_ucmd w) = uc_node_id (iw_ucmd w0)" "uc_start (iw_ucmd w) = uc_start (iw_ucmd w0)"
    "uc_num (iw_ucmd w) = uc_num (iw_ucmd w0)" "uc_status (iw_ucmd w) = uc_status (iw_ucmd w0)"
    "uc_pieces (iw_ucmd w) = u16 (uc_pieces (iw_ucmd w0) + 1)"
  using pop [unfolded write_populate_ready [OF ready]] by (auto simp: pop_at_def)

text \<open>The outcome of a write of \<open>num\<close> slots into node \<open>n\<close>: the command and the piece it records, the node and the
  write pointers of its zones, the contents of the device, and what stays as it was.\<close>

definition level_node :: "'x io_world \<Rightarrow> ztl_pro_node \<Rightarrow> ztl_pro_node" where
  "level_node w node = (if nd_level node = -1 then node\<lparr>nd_level := int (uc_prov_type (iw_ucmd w))\<rparr> else node)"

definition piece_done ::
    "('x \<Rightarrow> (nat \<Rightarrow> nat) \<times> 'k) \<Rightarrow> ('x \<Rightarrow> nat \<Rightarrow> nat) \<Rightarrow> ('x \<Rightarrow> nat multiset) \<Rightarrow> nat \<Rightarrow> nat \<Rightarrow> ztl_pro_node_grp \<Rightarrow> ztl_pro_node \<Rightarrow> app_zmd_entry list \<Rightarrow>
     'x io_world \<Rightarrow> 'x io_world \<Rightarrow> bool" where
  "piece_done dma disk infl num n pro node tbl w w' \<longleftrightarrow>
     uc_completed (iw_ucmd w') = 1 \<and> uc_status (iw_ucmd w') = uc_status (iw_ucmd w) \<and> uc_pieces (iw_ucmd w') = uc_pieces (iw_ucmd w) + 1 \<and>
     uc_node_id (iw_ucmd w') ! uc_pieces (iw_ucmd w) = n \<and> uc_start (iw_ucmd w') ! uc_pieces (iw_ucmd w) = nd_optimal_write_sec_used node \<and>
     uc_num (iw_ucmd w') ! uc_pieces (iw_ucmd w) = num \<and>
     length (uc_node_id (iw_ucmd w')) = 2 \<and> length (uc_start (iw_ucmd w')) = 2 \<and> length (uc_num (iw_ucmd w')) = 2 \<and>
     (\<forall>k < num. uc_moffset (iw_ucmd w') ! k = slot_sector pro node (nd_optimal_write_sec_used node + k)) \<and>
     gr_pro (iw_grp w') = Some (pro\<lparr>pg_vnodes := (pg_vnodes pro)[n := node_after num (level_node w node)]\<rparr>) \<and>
     (\<exists>tbl'. zd_tbl (gr_zmd (iw_grp w')) = Some tbl' \<and> other_wptrs pro node tbl tbl' \<and>
        node_at pro tbl' node (nd_optimal_write_sec_used node + num) \<and> node_written pro tbl' node (nd_optimal_write_sec_used node + num)) \<and>
     written_at pro node (nd_optimal_write_sec_used node) num (uc_buf (iw_ucmd w)) (fst (dma (iw_x w))) (disk (iw_x w)) (disk (iw_x w')) \<and>
     dma (iw_x w') = dma (iw_x w) \<and> infl (iw_x w') = {#} \<and> iw_frame w' = iw_frame w \<and>
     q_core (iw_q w') = (q_core (iw_q w))\<lparr>qp_prov := qp_prov (iw_q w')\<rparr> \<and> length (pa_addr (qp_prov (iw_q w'))) = 128 \<and>
     length (pa_nsec (qp_prov (iw_q w'))) = 128"

text \<open>The slots of one piece, from their provisioning to the end of its run.\<close>

definition piece_put ::
    "('x \<Rightarrow> (nat \<Rightarrow> nat) \<times> 'k) \<Rightarrow> ('x \<Rightarrow> nat \<Rightarrow> nat) \<Rightarrow> ('x \<Rightarrow> nat multiset) \<Rightarrow> nat \<Rightarrow> ztl_pro_node_grp \<Rightarrow> ztl_pro_node \<Rightarrow> nat \<Rightarrow> app_zmd_entry list \<Rightarrow>
     'x io_world \<Rightarrow> 'x io_world \<Rightarrow> bool" where
  "piece_put dma disk infl num pro node start tbl w w' \<longleftrightarrow>
     uc_status (iw_ucmd w') = uc_status (iw_ucmd w) \<and> uc_pieces (iw_ucmd w') = u16 (uc_pieces (iw_ucmd w) + 1) \<and>
     uc_node_id (iw_ucmd w') = uc_node_id (iw_ucmd w) \<and> uc_start (iw_ucmd w') = uc_start (iw_ucmd w) \<and> uc_num (iw_ucmd w') = uc_num (iw_ucmd w) \<and>
     (\<forall>k < num. uc_moffset (iw_ucmd w') ! k = slot_sector pro node (start + k)) \<and> gr_pro (iw_grp w') = Some pro \<and>
     (\<exists>tbl'. zd_tbl (gr_zmd (iw_grp w')) = Some tbl' \<and> other_wptrs pro node tbl tbl' \<and>
        node_at pro tbl' node (start + num) \<and> node_written pro tbl' node (start + num)) \<and>
     written_at pro node start num (uc_buf (iw_ucmd w)) (fst (dma (iw_x w))) (disk (iw_x w)) (disk (iw_x w')) \<and>
     dma (iw_x w') = dma (iw_x w) \<and> infl (iw_x w') = {#} \<and> iw_frame w' = iw_frame w \<and>
     q_core (iw_q w') = (q_core (iw_q w))\<lparr>qp_prov := qp_prov (iw_q w')\<rparr> \<and> length (pa_addr (qp_prov (iw_q w'))) = 128 \<and>
     length (pa_nsec (qp_prov (iw_q w'))) = 128"

lemma populate_frame:
  assumes "piece_ready nbytes num boff queue w0" "write_populate nbytes num boff w0 = Some (ps, w)"
  shows "iw_frame w = iw_frame w0" "iw_q w = (iw_q w0)\<lparr>qp_mcmd := qp_mcmd (iw_q w), qp_prov := qp_prov (iw_q w)\<rparr>" "ms_done (iw_media w) = ms_done (iw_media w0)"
  using assms(2) [unfolded write_populate_ready [OF assms(1)]] by (auto simp: iw_frame_def pop_at_def)

lemma piece_stored:
  assumes good: "device_good xn infl" "storing xn dma disk"
    and node: "gr_pro (iw_grp w) = Some pro" "get_at (pg_vnodes pro) n = Some node" "zd_tbl (gr_zmd (iw_grp w)) = Some tbl"
      "node_linked pro (length tbl) node" "node_fits pro node" "node_numbered md pro node" "node_at pro tbl node start"
      "node_written pro tbl node start" "start + num \<le> ZTL_PRO_OPT_SEC_NUM_INNODE" "zones_apart pro node node"
    and room: "write_room 4096 num queue w" and idle: "infl (iw_x w) = {#}" and num: "0 < num"
    and fuel: "(2 * num + 1) * (2 * min num 64 + 4) \<le> fuel"
  shows "\<exists>prov' grp' ps w3 w'. ztl_pro_new num n (qp_prov (iw_q w)) start (iw_grp w) = Some (xz XZTL_OK, prov', grp') \<and>
    write_populate 4096 num (uc_buf (iw_ucmd w)) (w\<lparr>iw_grp := grp', iw_q := (iw_q w)\<lparr>qp_prov := prov'\<rparr>\<rparr>) = Some (ps, w3) \<and>
    write_run xn (znd_core xn zv) md misc0 num fuel (write_start num ps w3) = Some w' \<and>
    piece_put dma disk infl num pro node start tbl w w'"
proof -
  obtain prov' grp' ps w3 grp'' tbl' where p:
    "ztl_pro_new num n (qp_prov (iw_q w)) start (iw_grp w) = Some (xz XZTL_OK, prov', grp')"
    "piece_ready 4096 num (uc_buf (iw_ucmd w)) queue (w\<lparr>iw_grp := grp', iw_q := (iw_q w)\<lparr>qp_prov := prov'\<rparr>\<rparr>)"
    "write_populate 4096 num (uc_buf (iw_ucmd w)) (w\<lparr>iw_grp := grp', iw_q := (iw_q w)\<lparr>qp_prov := prov'\<rparr>\<rparr>) = Some (ps, w3)"
    "ztl_pro_free md (qp_prov (iw_q w3)) (iw_grp w3) = Some grp''" "gr_pro grp'' = Some pro" "zd_tbl (gr_zmd grp'') = Some tbl'"
    "other_wptrs pro node tbl tbl'" "node_at pro tbl' node (start + num)" "node_written pro tbl' node (start + num)"
    "\<forall>k < num. g_sect (mc_addr (ps_mcmd ps ! k)) = slot_sector pro node (start + k) \<and> mc_nsec (ps_mcmd ps ! k) = 8 \<and>
       mc_prp (ps_mcmd ps ! k) = uc_buf (iw_ucmd w) + k * (4096 * 8)"
    using piece_prepared [OF node(1-9) refl room refl] by blast
  define w2 where "w2 = w\<lparr>iw_grp := grp', iw_q := (iw_q w)\<lparr>qp_prov := prov'\<rparr>\<rparr>"
  note p23 = p(2,3) [folded w2_def]
  have i: "infl (iw_x w2) = {#}" "iw_x w2 = iw_x w" using idle by (simp_all add: w2_def)
  obtain w4 where r4: "write_run xn (znd_core xn zv) md misc0 num fuel (write_start num ps w3) = Some w4" "iw_grp w4 = grp''"
    "uc_core (iw_ucmd w4) = uc_core (iw_ucmd w3)" "\<forall>k < num. uc_moffset (iw_ucmd w4) ! k = g_sect (mc_addr (ps_mcmd ps ! k))"
    "infl (iw_x w4) = {#}" "q_core (iw_q w4) = q_core (iw_q w3)"
    using piece_run_ends [where infl = infl, OF good(1) p23(1) i(1) num p23(2) p(4) fuel, of zv misc0] by blast
  have cmds: "\<forall>k < num. g_sect (mc_addr (ps_mcmd ps ! k)) = slot_sector pro node (start + k) \<and> mc_nsec (ps_mcmd ps ! k) = 8"
    "\<forall>k < num. g_sect (mc_addr (ps_mcmd ps ! k)) = slot_sector pro node (start + k) \<and> mc_prp (ps_mcmd ps ! k) = uc_buf (iw_ucmd w) + k * 32768"
    using p(10) by simp_all
  have law: "device_law xn infl" using good(1) by (simp add: device_good_def)
  note st = piece_run_stores [where infl = infl, OF good(2) law p23 i(1) num piece_places [OF node(10,9) cmds(1)] r4(1), unfolded i(2)]
  have wr: "written_at pro node start num (uc_buf (iw_ucmd w)) (fst (dma (iw_x w))) (disk (iw_x w)) (disk (iw_x w4))"
    using piece_written [OF cmds(2)] st(2,3) by blast
  have f3: "iw_frame w3 = iw_frame w" "ms_done (iw_media w3) = []"
    using populate_frame [OF p23] room by (simp_all add: w2_def iw_frame_def write_room_def)
  have f4: "iw_frame w4 = iw_frame w" using run_frame [of xn zv md misc0 num fuel "fst (write_start num ps w3)" "snd (write_start num ps w3)" w4] r4(1) f3
    by (simp add: write_start_def)
  have q4: "qp_prov (iw_q w4) = qp_prov (iw_q w3)" using arg_cong [OF r4(6), of qp_prov] by simp
  have q5: "q_core (iw_q w4) = (q_core (iw_q w))\<lparr>qp_prov := qp_prov (iw_q w4)\<rparr>"
    unfolding q4 r4(6) by (subst populate_frame(2) [OF p23]) (simp add: q_core_def w2_def)
  have c: "uc_node_id (iw_ucmd w4) = uc_node_id (iw_ucmd w)" "uc_start (iw_ucmd w4) = uc_start (iw_ucmd w)"
    "uc_num (iw_ucmd w4) = uc_num (iw_ucmd w)" "uc_status (iw_ucmd w4) = uc_status (iw_ucmd w)"
    "uc_pieces (iw_ucmd w4) = u16 (uc_pieces (iw_ucmd w) + 1)"
    using arg_cong [OF r4(3), of uc_node_id] arg_cong [OF r4(3), of uc_start] arg_cong [OF r4(3), of uc_num]
      arg_cong [OF r4(3), of uc_status] arg_cong [OF r4(3), of uc_pieces] populate_ucmd [OF p23] by (simp_all add: uc_core_def w2_def)
  have "piece_put dma disk infl num pro node start tbl w w4"
    unfolding piece_put_def using c p(5-9) r4(2,4,5) cmds(1) wr st(1) f4 q5 populate_prov(3,6) [OF p23, folded q4] by simp
  then show ?thesis using p(1,3) r4(1) by blast
qed

lemma written_frame:
  assumes "nd_vzones node' = nd_vzones node" "pg_vzones pro' = pg_vzones pro"
  shows "written_at pro' node' = written_at pro node" "zones_apart pro' node' node' = zones_apart pro node node"
    "other_wptrs pro' node' = other_wptrs pro node"
proof -
  have "byte_home pro' node' = byte_home pro node" using node_frame(6) [OF assms] by (simp add: byte_home_def fun_eq_iff)
  then show "written_at pro' node' = written_at pro node" by (simp add: written_at_def node_bytes_def fun_eq_iff)
  show "zones_apart pro' node' node' = zones_apart pro node node" using nzone_frame [OF assms] by (simp add: zones_apart_def)
  show "other_wptrs pro' node' = other_wptrs pro node" using nzone_frame [OF assms] by (simp add: other_wptrs_def fun_eq_iff)
qed

text \<open>One piece that takes all that is left.\<close>

lemma last_piece:
  assumes good: "device_good xn infl" "storing xn dma disk" and node: "write_node md w n pro node tbl"
    and num: "0 < num" "num \<le> nd_optimal_write_sec_left node"
    and room: "write_room 4096 num queue w" and idle: "infl (iw_x w) = {#}"
    and fuel: "(2 * num + 1) * (2 * min num 64 + 4) \<le> fuel"
  shows "\<exists>w'. write_pieces xn (znd_core xn zv) md misc0 4096 (Suc fuel) num (uc_buf (iw_ucmd w)) w = Some (xz XZTL_OK, w') \<and>
    piece_done dma disk infl num n pro node tbl w w'"
proof -
  define start where "start = nd_optimal_write_sec_used node"
  define node1 where "node1 = level_node w node"
  define pro1 where "pro1 = pro\<lparr>pg_vnodes := (pg_vnodes pro)[n := node1]\<rparr>"
  note nd = node [unfolded write_node_def, folded start_def]
  have n1: "nd_vzones node1 = nd_vzones node" "nd_id node1 = n" "nd_optimal_write_sec_used node1 = start"
    "nd_optimal_write_sec_left node1 = nd_optimal_write_sec_left node" "nd_nr_valid node1 = nd_nr_valid node" "pg_vzones pro1 = pg_vzones pro"
    using nd by (simp_all add: node1_def level_node_def start_def pro1_def)
  note fr = node_frame [OF n1(1,6)] written_frame [OF n1(1,6)]
  define w1 where "w1 = w\<lparr>iw_grp := (iw_grp w)\<lparr>gr_pro := Some pro1\<rparr>, iw_ucmd := recorded n start num (iw_ucmd w)\<rparr>"
  have q: "qp_node (iw_q w) = Some n" "get_at (pg_vnodes pro) n = Some node" "gr_pro (iw_grp w) = Some pro" using nd by simp_all
  have pieces: "uc_pieces (iw_ucmd w) < 2" "length (uc_node_id (iw_ucmd w)) = 2" "length (uc_start (iw_ucmd w)) = 2"
    "length (uc_num (iw_ucmd w)) = 2" using room by (simp_all add: write_room_def)
  have rec: "write_record num n w = Some (num, node1, w1)"
    using write_record_eq [OF q(3,2) _ num(2) pieces] nd by (simp add: w1_def pro1_def node1_def level_node_def start_def)
  have get: "ztl_pro_get_node (qp_node (iw_q w)) (iw_grp w) = Some (0, Some n, iw_grp w)"
    using q num by (simp add: ztl_pro_get_node_def ztl_pro_grp_get_node_def get_node_needed_def)
  have same: "w\<lparr>iw_q := (iw_q w)\<lparr>qp_node := Some n\<rparr>\<rparr> = w" and u: "u32 start = start" using q(1) nd by (simp_all add: u32_small)
  have g1: "gr_pro (iw_grp w1) = Some pro1" "get_at (pg_vnodes pro1) n = Some node1" "zd_tbl (gr_zmd (iw_grp w1)) = Some tbl"
    "start + num \<le> ZTL_PRO_OPT_SEC_NUM_INNODE" "infl (iw_x w1) = {#}"
    using nd num(2) idle by (auto simp: w1_def pro1_def)
  have za: "zones_apart pro1 node1 node1" unfolding fr(8) using nd by blast
  have r1: "write_room 4096 num queue w1" "uc_buf (iw_ucmd w) = uc_buf (iw_ucmd w1)"
    using room by (simp_all add: write_room_def room_ok_def w1_def recorded_def)
  have lk: "node_linked pro1 (length tbl) node1" "node_fits pro1 node1" "node_numbered md pro1 node1" "node_at pro1 tbl node1 start"
    "node_written pro1 tbl node1 start" using nd fr by simp_all
  obtain prov' grp' ps w3 w4 where p: "ztl_pro_new num n (qp_prov (iw_q w1)) start (iw_grp w1) = Some (xz XZTL_OK, prov', grp')"
    "write_populate 4096 num (uc_buf (iw_ucmd w1)) (w1\<lparr>iw_grp := grp', iw_q := (iw_q w1)\<lparr>qp_prov := prov'\<rparr>\<rparr>) = Some (ps, w3)"
    "write_run xn (znd_core xn zv) md misc0 num fuel (write_start num ps w3) = Some w4" "piece_put dma disk infl num pro1 node1 start tbl w1 w4"
    using piece_stored [OF good g1(1-3) lk g1(4) za r1(1) g1(5) num(1) fuel, of zv misc0] by blast
  note pp = p(4) [unfolded piece_put_def fr]
  have g4: "gr_pro (iw_grp w4) = Some pro1" using pp by blast
  have acc: "node_account n num pro1 = Some (pro1\<lparr>pg_vnodes := (pg_vnodes pro1)[n := node_after num node1]\<rparr>)"
    using node_account_eq [OF g1(2), of num] num(2) nd n1 by simp
  define w' where "w' = w4\<lparr>iw_grp := (iw_grp w4)\<lparr>gr_pro := Some (pro1\<lparr>pg_vnodes := (pg_vnodes pro1)[n := node_after num node1]\<rparr>)\<rparr>,
    iw_ucmd := (iw_ucmd w4)\<lparr>uc_completed := 1\<rparr>\<rparr>"
  have run: "write_pieces xn (znd_core xn zv) md misc0 4096 (Suc fuel) num (uc_buf (iw_ucmd w)) w = Some (xz XZTL_OK, w')"
    using get rec p(1,2,3) g4 acc n1(2,3) u r1(2) by (simp add: same w'_def Let_def)
  have "u16 (uc_pieces (iw_ucmd w) + 1) = uc_pieces (iw_ucmd w) + 1" using pieces(1) by (intro u16_small) simp
  then have "piece_done dma disk infl num n pro node tbl w w'" unfolding piece_done_def
    using pp pieces by (simp add: w'_def w1_def recorded_def pro1_def node1_def [symmetric] start_def [symmetric] iw_frame_def)
  then show ?thesis using run by blast
qed

text \<open>A user write that fits the node of its queue succeeds.\<close>

lemma user_write:
  assumes "device_good xn infl" "storing xn dma disk" "write_node md w n pro node tbl" "write_room 4096 num queue w" "infl (iw_x w) = {#}"
    "ge_nbytes (zv_geo zv) = 4096" "uc_size (iw_ucmd w) = num * 32768"
    "0 < num" "num \<le> nd_optimal_write_sec_left node" "(2 * num + 1) * (2 * min num 64 + 4) < fuel"
  shows "\<exists>w'. ztl_io_write_ucmd xn (znd_core xn zv) md misc0 fuel w = Some (xz XZTL_OK, w') \<and>
    piece_done dma disk infl num n pro node tbl w w'"
proof -
  obtain f where f: "fuel = Suc f" "(2 * num + 1) * (2 * min num 64 + 4) \<le> f" using assms(10) by (cases fuel) auto
  define w1 where "w1 = w\<lparr>iw_q := (iw_q w)\<lparr>qp_prov := (qp_prov (iw_q w))\<lparr>pa_naddr := 0\<rparr>\<rparr>,
    iw_ucmd := (iw_ucmd w)\<lparr>uc_nmcmd := u16 num, uc_completed := 0, uc_ncb := 0\<rparr>\<rparr>"
  have num: "num \<le> 1024" using assms(4) by (simp add: write_room_def room_ok_def)
  have u: "u32 (8 * num) = 8 * num" "u32 32768 = 32768" using num by (simp_all add: u32_small)
  have "ztl_io_write_ucmd xn (znd_core xn zv) md misc0 fuel w =
      write_pieces xn (znd_core xn zv) md misc0 4096 fuel num (uc_buf (iw_ucmd w)) w1"
    using assms(6,7) u num by (simp add: ztl_io_write_ucmd_def znd_media_fns_def Let_def w1_def)
  moreover have w1: "write_node md w1 n pro node tbl" "write_room 4096 num queue w1" "infl (iw_x w1) = {#}"
    using assms(3-5) by (simp_all add: write_node_def write_room_def room_ok_def w1_def)
  obtain w' where "write_pieces xn (znd_core xn zv) md misc0 4096 (Suc f) num (uc_buf (iw_ucmd w1)) w1 = Some (xz XZTL_OK, w')"
    "piece_done dma disk infl num n pro node tbl w1 w'"
    using last_piece [OF assms(1,2) w1(1) assms(8,9) w1(2,3) f(2), of zv misc0] by blast
  moreover have "uc_buf (iw_ucmd w1) = uc_buf (iw_ucmd w)" by (simp add: w1_def)
  moreover have "piece_done dma disk infl num n pro node tbl w w'" if "piece_done dma disk infl num n pro node tbl w1 w'"
    using that unfolding piece_done_def by (simp add: w1_def level_node_def iw_frame_def q_core_def)
  ultimately show ?thesis unfolding f(1) by auto
qed

section \<open>Commands of a piece\<close>

text \<open>Provisioning and population together: command \<open>k\<close> writes slot \<open>start + k\<close>.\<close>

lemma piece_striped:
  assumes "gr_pro grp = Some pro" "get_at (pg_vnodes pro) node_id = Some node" "zd_tbl (gr_zmd grp) = Some tbl"
    "node_linked pro (length tbl) node" "node_at pro tbl node start" "node_fits pro node"
    "start + num \<le> ZTL_PRO_OPT_SEC_NUM_INNODE" "room_ok nbytes num prov mcmds ucmd boff"
  shows "\<exists>prov' grp' ps. ztl_pro_new num node_id prov start grp = Some (xz XZTL_OK, prov', grp') \<and>
    populate nbytes tctx num prov' mcmds ucmd boff = Some ps \<and> ps_cmd_i ps = num \<and>
    (\<forall>k < num. let c = ps_mcmd ps ! k in mc_opcode c = op XZTL_CMD_WRITE \<and> mc_sequence c = k \<and> mc_nsec c = 8 \<and>
       g_zone (mc_addr c) = g_zone (zn_addr (nzone pro node ((start + k) mod 64))) \<and>
       g_sect (mc_addr c) = slot_sector pro node (start + k) \<and> mc_prp c = boff + k * (nbytes * 8)) \<and>
    (\<forall>i < 64. ps_zn_cmd_id ps ! i = filter (\<lambda>j. j mod 64 = i) [0..<num])"
proof -
  obtain prov' tbl1 where p: "ztl_pro_new num node_id prov start grp = Some (xz XZTL_OK, prov', app_grp_ctx_add (with_tbl grp tbl1))"
    "piece_ok nbytes num prov' mcmds ucmd boff"
    "\<forall>i < min num 64. let zone = nzone pro node ((start + i) mod 64) in g_zone (pa_addr prov' ! i) = g_zone (zn_addr zone) \<and>
       g_grp (pa_addr prov' ! i) = g_grp (zn_addr zone) \<and> g_sect (pa_addr prov' ! i) = slot_sector pro node (start + i)"
    using pro_new_piece [OF assms] by blast
  have c: "ps_mcmd (pop_at nbytes tctx num prov' mcmds ucmd boff num) ! k = write_cmd nbytes tctx (pa_addr prov') boff (mcmds ! k) k"
    if "k < num" for k using that p(2) by (simp add: pop_at_def piece_ok_def)
  have s: "g_sect (mc_addr (write_cmd nbytes tctx (pa_addr prov') boff (mcmds ! k) k)) = slot_sector pro node (start + k)" if "k < num" for k
    using write_cmd_slot [OF p(2) that] p(3) by (simp add: Let_def)
  have "g_zone (mc_addr (write_cmd nbytes tctx (pa_addr prov') boff (mcmds ! k) k)) = g_zone (zn_addr (nzone pro node ((start + k) mod 64)))"
    if "k < num" for k
  proof -
    have "k mod 64 < min num 64" using that by (auto intro: le_less_trans [OF mod_less_eq_dividend])
    then have "g_zone (pa_addr prov' ! (k mod 64)) = g_zone (zn_addr (nzone pro node ((start + k) mod 64)))"
      using p(3) slot_split(1) [of start k] by (simp add: Let_def)
    then show ?thesis using zone_field.get_bound by (simp add: write_cmd_def zone_sect.get_put' zone_field.get_put_small)
  qed
  then show ?thesis using p(1) populate_correct [OF p(2), of tctx] c s
    by (auto simp: Let_def write_cmd_def pop_at_def simp del: upt_rec_numeral)
qed

section \<open>Properties\<close>

text \<open>C8: Provisioning and population together. For a node with \<open>start\<close> slots handed out, a piece of \<open>num\<close>
  slots becomes \<open>num\<close> write commands of eight sectors: command \<open>k\<close> writes slot \<open>start + k\<close> of the
  node, that is zone \<open>(start + k) mod 64\<close> at depth \<open>(start + k) div 64\<close>, from the \<open>k\<close>-th unit of the
  buffer, and the queue of address \<open>i\<close> holds the commands \<open>i, i + 64, ...\<close> in order.\<close>

theorem write_commands_striped:
  assumes "gr_pro grp = Some pro" "get_at (pg_vnodes pro) node_id = Some node" "zd_tbl (gr_zmd grp) = Some tbl"
    "node_linked pro (length tbl) node" "node_at pro tbl node start" "node_fits pro node"
    "start + num \<le> ZTL_PRO_OPT_SEC_NUM_INNODE" "room_ok nbytes num prov mcmds ucmd boff"
  shows "\<exists>prov' grp' ps. ztl_pro_new num node_id prov start grp = Some (xz XZTL_OK, prov', grp') \<and>
    populate nbytes tctx num prov' mcmds ucmd boff = Some ps \<and> ps_cmd_i ps = num \<and>
    (\<forall>k < num. let c = ps_mcmd ps ! k in mc_opcode c = op XZTL_CMD_WRITE \<and> mc_sequence c = k \<and> mc_nsec c = 8 \<and>
       g_zone (mc_addr c) = g_zone (zn_addr (nzone pro node ((start + k) mod 64))) \<and>
       g_sect (mc_addr c) = slot_sector pro node (start + k) \<and> mc_prp c = boff + k * (nbytes * 8)) \<and>
    (\<forall>i < 64. ps_zn_cmd_id ps ! i = filter (\<lambda>j. j mod 64 = i) [0..<num])"
  using piece_striped [OF assms] .

theorem write_commands_striped_witness:
  "\<exists>prov' grp' ps. ztl_pro_new 100 0 sample_ctx 0 sample_grp = Some (xz XZTL_OK, prov', grp') \<and>
     populate 4096 1 100 prov' (replicate 1024 zero_mcmd) (sample_ucmd 100) 65536 = Some ps \<and>
     g_sect (mc_addr (ps_mcmd ps ! 66)) = 24576 * 4 + 8"
proof -
  have "get_at (pg_vnodes sample_pro) 0 = Some sample_node" by (simp add: sample_pro_def)
  moreover have "gr_pro sample_grp = Some sample_pro" "zd_tbl (gr_zmd sample_grp) = Some sample_tbl" by (simp_all add: sample_grp_def)
  moreover have "room_ok 4096 100 sample_ctx (replicate 1024 zero_mcmd) (sample_ucmd 100) 65536"
    by (simp add: room_ok_def sample_ucmd_def sample_ctx_def)
  ultimately obtain prov' grp' ps where r: "ztl_pro_new 100 0 sample_ctx 0 sample_grp = Some (xz XZTL_OK, prov', grp')"
    "populate 4096 1 100 prov' (replicate 1024 zero_mcmd) (sample_ucmd 100) 65536 = Some ps"
    "\<forall>k < 100. g_sect (mc_addr (ps_mcmd ps ! k)) = slot_sector sample_pro sample_node k"
    using write_commands_striped [of sample_grp sample_pro 0 sample_node sample_tbl 0 100 4096 sample_ctx "replicate 1024 zero_mcmd"
        "sample_ucmd 100" 65536 1] sample_linked sample_at sample_fits by (auto simp: Let_def)
  then show ?thesis by (simp add: slot_sector_def sample_pro_zones sample_zone_sect)
qed

end
