(* ===== verification/Ztl_Io_Fetch.thy ===== *)
theory Ztl_Io_Fetch
  imports Ztl_Io_Read Ztl_Io_User
begin

text \<open>
  What a user read delivers. \<open>byte_home\<close> is the place of a byte of a node on the device; the commands
  of a read cover the bytes asked for, each from its place, and on a device that reads without errors
  (\<open>reader\<close>, the documented behaviour of xNVMe) the buffer of the caller holds exactly these bytes. The
  commands of a write put each byte at the same place, so a read finds what a write stored.
\<close>

section \<open>Places of bytes\<close>

lemma slot_sector_room:
  assumes "node_fits pro node" "j < ZTL_PRO_OPT_SEC_NUM_INNODE"
  shows "slot_sector pro node j + 8 \<le> 2 ^ 36"
proof -
  have "j div 64 < 3072" using assms(2) by (simp add: div_less_iff_less_mult)
  moreover have "g_sect (zn_addr (nzone pro node (j mod 64))) + 24576 \<le> 2 ^ 36" using assms(1) by (simp add: node_fits_def)
  ultimately show ?thesis unfolding slot_sector_def by linarith
qed

lemma split_bytes: "(a :: nat) div 4096 mod 8 * 4096 + a mod 4096 = a mod 32768"
  using mod_mult2_eq [of a 4096 8] by simp

lemma byte_shift:
  fixes b f m n s t :: nat
  assumes "m * 4096 + n = f - t * 32768" "32768 * t \<le> f" "f \<le> b"
  shows "4096 * (s + m) + n + (b - f) = 4096 * s + (b - t * 32768)"
proof -
  obtain d e where "f = 32768 * t + d" "b = f + e" using assms(2,3) le_Suc_ex by blast
  then show ?thesis using assms(1) by simp
qed

text \<open>Where a command takes the byte for the address \<open>a\<close> of the caller from.\<close>

definition covers :: "xztl_io_mcmd \<Rightarrow> nat \<Rightarrow> nat \<Rightarrow> bool" where
  "covers c buf a \<longleftrightarrow> buf + mc_buf_off c \<le> a \<and> a < buf + mc_buf_off c + mc_cpsize c"

definition fetched_from :: "xztl_io_mcmd \<Rightarrow> nat \<Rightarrow> nat \<Rightarrow> nat" where
  "fetched_from c buf a = 4096 * g_sect (mc_addr c) + mc_sequence c + (a - (buf + mc_buf_off c))"

lemma rd_cmd_fields:
  fixes tctx :: nat and prps :: "nat list"
  assumes fits: "read_fits pro node off sz" and j: "j < rd_num off sz"
  defines "c \<equiv> rd_cmd pro node tctx prps off sz j"
  shows "g_sect (mc_addr c) = slot_sector pro node (rd_slot off j) + rd_from off j div 4096 mod 8"
    "0 < mc_nsec c" "mc_nsec c \<le> 8" "mc_sequence c + mc_cpsize c \<le> mc_nsec c * 4096" "mc_sequence c < 4096"
proof -
  define a where "a = rd_from off j"
  define b where "b = rd_to off sz j"
  have sz: "0 < sz" using fits by (simp add: read_fits_def)
  note r = rd_range [OF j sz, folded a_def b_def] and q = rd_sectors [OF j sz, folded a_def b_def]
  have "slot_sector pro node (rd_slot off j) + 8 \<le> 2 ^ 36"
    using fits slot_lt [OF fits j] by (intro slot_sector_room) (simp_all add: read_fits_def)
  moreover have "a div 4096 mod 8 < 8" by simp
  ultimately have "slot_sector pro node (rd_slot off j) + a div 4096 mod 8 < 2 ^ 36" by linarith
  then show "g_sect (mc_addr c) = slot_sector pro node (rd_slot off j) + rd_from off j div 4096 mod 8"
    by (simp add: c_def rd_cmd_def a_def sect_field.get_put_small)
  have "b - a \<le> (sec_up b - a div 4096) * 4096 - a mod 4096" using q(5) by linarith
  then have "a mod 4096 + (b - a) \<le> (sec_up b - a div 4096) * 4096" using q(6) by linarith
  then show "0 < mc_nsec c" "mc_nsec c \<le> 8" "mc_sequence c + mc_cpsize c \<le> mc_nsec c * 4096" "mc_sequence c < 4096"
    using q(1,2) by (simp_all add: c_def rd_cmd_def a_def [symmetric] b_def [symmetric])
qed

lemma rd_cmd_home:
  assumes fits: "read_fits pro node off sz" and j: "j < rd_num off sz"
    and cov: "covers (rd_cmd pro node tctx prps off sz j) buf a"
  shows "fetched_from (rd_cmd pro node tctx prps off sz j) buf a = byte_home pro node (off + (a - buf))"
proof -
  have sz: "0 < sz" using fits by (simp add: read_fits_def)
  note r = rd_range [OF j sz]
  let ?f = "rd_from off j" and ?b = "off + (a - buf)"
  have b: "?f \<le> ?b" "?b < rd_to off sz j" "a - (buf + (?f - off)) = ?b - ?f"
    using cov r(5) by (auto simp: covers_def rd_cmd_def)
  have "byte_home pro node ?b = 4096 * slot_sector pro node (rd_slot off j) + (?b - rd_slot off j * 32768)"
    using b r(2,3) by (intro byte_home_in_slot) simp_all
  moreover have "fetched_from (rd_cmd pro node tctx prps off sz j) buf a =
      4096 * (slot_sector pro node (rd_slot off j) + ?f div 4096 mod 8) + ?f mod 4096 + (?b - ?f)"
    unfolding fetched_from_def rd_cmd_fields(1) [OF fits j] using b(3) by (simp add: rd_cmd_def)
  moreover have "?f div 4096 mod 8 * 4096 + ?f mod 4096 = ?f - rd_slot off j * 32768"
    unfolding split_bytes using minus_div_mult_eq_mod [of ?f 32768] r(4) by simp
  ultimately show ?thesis using byte_shift [OF _ r(2) b(1)] by simp
qed

text \<open>The commands together cover the bytes asked for.\<close>

lemma rd_cmds_cover:
  assumes "read_fits pro node off sz"
  shows "(\<exists>j < rd_num off sz. covers (rd_cmd pro node tctx prps off sz j) buf a) \<longleftrightarrow> buf \<le> a \<and> a < buf + sz"
proof
  have sz: "0 < sz" using assms by (simp add: read_fits_def)
  assume "\<exists>j < rd_num off sz. covers (rd_cmd pro node tctx prps off sz j) buf a"
  then obtain j where j: "j < rd_num off sz" "covers (rd_cmd pro node tctx prps off sz j) buf a" by blast
  then show "buf \<le> a \<and> a < buf + sz" using rd_range(1,5,6) [OF j(1) sz] by (auto simp: covers_def rd_cmd_def)
next
  have sz: "0 < sz" using assms by (simp add: read_fits_def)
  assume a: "buf \<le> a \<and> a < buf + sz"
  let ?b = "off + (a - buf)"
  define j where "j = ?b div 32768 - off div 32768"
  have le: "off div 32768 \<le> ?b div 32768" by (intro div_le_mono) simp
  have "?b + 32768 \<le> off + sz + 32767" using a by linarith
  from div_le_mono [OF this, of 32768] have "?b div 32768 < (off + sz + 32767) div 32768" by (simp add: div_add1_eq [of ?b 32768])
  then have j: "j < rd_num off sz" unfolding j_def rd_num_def using le by (rule diff_less_mono)
  have s: "rd_slot off j = ?b div 32768" using le by (simp add: rd_slot_def j_def)
  then have "32768 * rd_slot off j \<le> ?b" "?b < 32768 * (rd_slot off j + 1)"
    using div_times_less_eq_dividend [of ?b 32768] dividend_less_div_times [of 32768 ?b] by (simp_all add: mult.commute)
  then have "rd_from off j \<le> ?b" "?b < rd_to off sz j" using a by (auto simp: rd_from_def rd_to_def)
  then have "covers (rd_cmd pro node tctx prps off sz j) buf a" using a rd_range(5) [OF j sz] by (auto simp: covers_def rd_cmd_def)
  then show "\<exists>j < rd_num off sz. covers (rd_cmd pro node tctx prps off sz j) buf a" using j by blast
qed

section \<open>A device that reads\<close>

text \<open>A request is the command, the first sector, the number of sectors less one and the buffer. The buffers
  of outstanding requests do not overlap.\<close>

type_synonym request = "nat \<times> nat \<times> nat \<times> nat"

definition apart :: "request set \<Rightarrow> bool" where
  "apart R \<longleftrightarrow> (\<forall>(k, s, n, b) \<in> R. \<forall>(l, t, m, c) \<in> R. k \<noteq> l \<longrightarrow> b + (n + 1) * 4096 \<le> c \<or> c + (m + 1) * 4096 \<le> b)"

definition filled :: "('x \<Rightarrow> nat \<Rightarrow> nat) \<Rightarrow> (nat \<Rightarrow> nat) \<Rightarrow> nat \<Rightarrow> nat \<Rightarrow> nat \<Rightarrow> 'x \<Rightarrow> bool" where
  "filled dma disk slba nlb buf x \<longleftrightarrow> (\<forall>i < (nlb + 1) * 4096. dma x (buf + i) = disk (4096 * slba + i))"

text \<open>The documented behaviour of a queue of capacity \<open>depth\<close> over a device that reports no errors, in the states \<open>ok\<close>
  in which it holds \<open>disk\<close>: a context is available while the queue is not full, an accepted read is outstanding
  until its completion is delivered, and then its buffer holds the sectors.\<close>

definition reader :: "'x xnvme \<Rightarrow> ('x \<Rightarrow> nat \<Rightarrow> nat) \<Rightarrow> ('x \<Rightarrow> bool) \<Rightarrow> ('x \<Rightarrow> request set) \<Rightarrow> (nat \<Rightarrow> nat) \<Rightarrow> nat \<Rightarrow> bool" where
  "reader xn dma ok pend disk depth \<longleftrightarrow>
     (\<forall>q x. ok x \<longrightarrow> (card (pend x) < depth \<longrightarrow> fst (xn_get_ctx xn q x) \<noteq> 0) \<and> pend (snd (xn_get_ctx xn q x)) = pend x \<and>
        ok (snd (xn_get_ctx xn q x))) \<and>
     (\<forall>q c x. ok x \<longrightarrow> pend (xn_put_ctx xn q c x) = pend x \<and> ok (xn_put_ctx xn q c x)) \<and>
     (\<forall>c k d slba nlb buf x. ok x \<longrightarrow> k \<notin> fst ` pend x \<longrightarrow> fst (xn_read xn (Some (c, k)) d slba nlb buf x) = 0 \<and>
        pend (snd (xn_read xn (Some (c, k)) d slba nlb buf x)) = insert (k, slba, nlb, buf) (pend x) \<and>
        ok (snd (xn_read xn (Some (c, k)) d slba nlb buf x))) \<and>
     (\<forall>d slba nlb buf x. ok x \<longrightarrow> fst (xn_read xn None d slba nlb buf x) = 0 \<and>
        filled dma disk slba nlb buf (snd (xn_read xn None d slba nlb buf x)) \<and> pend (snd (xn_read xn None d slba nlb buf x)) = pend x \<and>
        ok (snd (xn_read xn None d slba nlb buf x))) \<and>
     (\<forall>q x. ok x \<longrightarrow> pend x = {} \<longrightarrow> fst (xn_drain xn q x) = None \<and> pend (snd (xn_drain xn q x)) = {} \<and> ok (snd (xn_drain xn q x))) \<and>
     (\<forall>q x. ok x \<longrightarrow> pend x \<noteq> {} \<longrightarrow> apart (pend x) \<longrightarrow> (\<exists>k slba nlb buf cdw0. (k, slba, nlb, buf) \<in> pend x \<and>
        fst (xn_drain xn q x) = Some (k, 0, cdw0) \<and> pend (snd (xn_drain xn q x)) = pend x - {(k, slba, nlb, buf)} \<and>
        filled dma disk slba nlb buf (snd (xn_drain xn q x)) \<and> ok (snd (xn_drain xn q x))))"

lemma readerD:
  assumes "reader xn dma ok pend disk depth" "ok x"
  shows "card (pend x) < depth \<Longrightarrow> fst (xn_get_ctx xn q x) \<noteq> 0" "pend (snd (xn_get_ctx xn q x)) = pend x \<and> ok (snd (xn_get_ctx xn q x))"
    "pend (xn_put_ctx xn q c x) = pend x \<and> ok (xn_put_ctx xn q c x)"
    "k \<notin> fst ` pend x \<Longrightarrow> fst (xn_read xn (Some (c, k)) d slba nlb buf x) = 0 \<and>
        pend (snd (xn_read xn (Some (c, k)) d slba nlb buf x)) = insert (k, slba, nlb, buf) (pend x) \<and>
        ok (snd (xn_read xn (Some (c, k)) d slba nlb buf x))"
    "fst (xn_read xn None d slba nlb buf x) = 0 \<and> filled dma disk slba nlb buf (snd (xn_read xn None d slba nlb buf x)) \<and>
        pend (snd (xn_read xn None d slba nlb buf x)) = pend x \<and> ok (snd (xn_read xn None d slba nlb buf x))"
    "pend x = {} \<Longrightarrow> fst (xn_drain xn q x) = None \<and> pend (snd (xn_drain xn q x)) = {} \<and> ok (snd (xn_drain xn q x))"
    "pend x \<noteq> {} \<Longrightarrow> apart (pend x) \<Longrightarrow> \<exists>k slba nlb buf cdw0. (k, slba, nlb, buf) \<in> pend x \<and>
        fst (xn_drain xn q x) = Some (k, 0, cdw0) \<and> pend (snd (xn_drain xn q x)) = pend x - {(k, slba, nlb, buf)} \<and>
        filled dma disk slba nlb buf (snd (xn_drain xn q x)) \<and> ok (snd (xn_drain xn q x))"
  using assms unfolding reader_def by simp_all

section \<open>The commands of a read in flight\<close>

definition request_of :: "xztl_io_mcmd \<Rightarrow> nat \<Rightarrow> request" where
  "request_of c k = (k, g_sect (mc_addr c), nlb_arg (mc_nsec c), mc_prp c)"

definition read_cmds :: "nat \<Rightarrow> xztl_io_mcmd list \<Rightarrow> bool" where
  "read_cmds tctx cmds \<longleftrightarrow> (\<forall>k < length cmds. mc_opcode (cmds ! k) = op XZTL_CMD_READ \<and> mc_synch (cmds ! k) = 0 \<and>
     mc_async_ctx (cmds ! k) = tctx \<and> mc_ptr (cmds ! k) = k \<and> 0 < mc_nsec (cmds ! k) \<and> mc_nsec (cmds ! k) \<le> 8 \<and>
     mc_sequence (cmds ! k) + mc_cpsize (cmds ! k) \<le> mc_nsec (cmds ! k) * 4096 \<and> mc_sequence (cmds ! k) < 4096)"

text \<open>What the submission and completion of commands leave alone.\<close>

definition read_frame :: "'x read_world \<Rightarrow> nat \<times> nat list \<times> bool \<times> nat \<times> xztl_stats_data \<times> (nat \<rightharpoonup> nat) \<times> completion list" where
  "read_frame w = (rs_tctx (rw_r w), rs_prp (rw_r w), rs_usedflag (rw_r w), length (rs_mcmd (rw_r w)), ms_io (rw_media w), ms_tctx (rw_media w), ms_done (rw_media w))"

lemma read_frame_simps [simp]:
  "read_frame (put_rcmd k c w) = read_frame w" "read_frame (w\<lparr>rw_media := (rw_media w)\<lparr>ms_x := x\<rparr>\<rparr>) = read_frame w"
  "read_frame (w\<lparr>rw_mem := m\<rparr>) = read_frame w" "read_frame (w\<lparr>rw_ucmd := u\<rparr>) = read_frame w"
  "read_frame (w\<lparr>rw_r := (rw_r w)\<lparr>rs_mcmd := (rs_mcmd (rw_r w))[k := c]\<rparr>\<rparr>) = read_frame w"
  "read_frame (w\<lparr>rw_r := (rw_r w)\<lparr>rs_mcmd := (rs_mcmd (rw_r w))[k := c]\<rparr>, rw_media := (rw_media w)\<lparr>ms_x := x\<rparr>\<rparr>) = read_frame w"
  by (simp_all add: read_frame_def put_rcmd_def)

definition fetching :: "nat \<times> nat list \<times> bool \<times> nat \<times> xztl_stats_data \<times> (nat \<rightharpoonup> nat) \<times> completion list \<Rightarrow> xztl_io_mcmd list \<Rightarrow> nat \<Rightarrow> ('x \<Rightarrow> bool) \<Rightarrow> ('x \<Rightarrow> request set) \<Rightarrow> nat set \<Rightarrow> 'x read_world \<Rightarrow> bool" where
  "fetching fr cmds queue ok pend S w \<longleftrightarrow> read_frame w = fr \<and> length cmds \<le> length (rs_mcmd (rw_r w)) \<and>
     (\<forall>k < length cmds. cmd_core (rs_mcmd (rw_r w) ! k) = cmd_core (cmds ! k)) \<and>
     read_cmds (rs_tctx (rw_r w)) cmds \<and> ms_tctx (rw_media w) (rs_tctx (rw_r w)) = Some queue \<and>
     S \<subseteq> {..<length cmds} \<and> ok (ms_x (rw_media w)) \<and> pend (ms_x (rw_media w)) = (\<lambda>k. request_of (cmds ! k) k) ` S"

lemma cmd_core_copy:
  assumes "cmd_core c = cmd_core d"
  shows "mc_buf_off c = mc_buf_off d" "mc_cpsize c = mc_cpsize d"
  using arg_cong [OF assms, of mc_buf_off] arg_cong [OF assms, of mc_cpsize] by (simp_all add: cmd_core_def)

lemma fetching_cmd:
  assumes "fetching fr cmds queue ok pend S w" "k < length cmds"
  defines "c \<equiv> rs_mcmd (rw_r w) ! k"
  shows "get_at (rs_mcmd (rw_r w)) k = Some c" "mc_opcode c = op XZTL_CMD_READ" "mc_synch c = 0" "mc_async_ctx c = rs_tctx (rw_r w)" "mc_ptr c = k"
    "mc_addr c = mc_addr (cmds ! k)" "mc_nsec c = mc_nsec (cmds ! k)" "mc_prp c = mc_prp (cmds ! k)"
    "mc_sequence c = mc_sequence (cmds ! k)" "mc_buf_off c = mc_buf_off (cmds ! k)" "mc_cpsize c = mc_cpsize (cmds ! k)"
proof -
  have c: "cmd_core c = cmd_core (cmds ! k)" using assms by (simp add: fetching_def)
  note f = cmd_core_fields [OF c] and g = cmd_core_copy [OF c]
  show "get_at (rs_mcmd (rw_r w)) k = Some c" "mc_opcode c = op XZTL_CMD_READ" "mc_synch c = 0" "mc_async_ctx c = rs_tctx (rw_r w)" "mc_ptr c = k"
    "mc_addr c = mc_addr (cmds ! k)" "mc_nsec c = mc_nsec (cmds ! k)" "mc_prp c = mc_prp (cmds ! k)"
    "mc_sequence c = mc_sequence (cmds ! k)" "mc_buf_off c = mc_buf_off (cmds ! k)" "mc_cpsize c = mc_cpsize (cmds ! k)"
    using f g assms by (simp_all add: fetching_def read_cmds_def c_def)
qed

lemma fetching_put:
  assumes "fetching fr cmds queue ok pend S w" "cmd_core c = cmd_core (rs_mcmd (rw_r w) ! k)"
  shows "fetching fr cmds queue ok pend S (put_rcmd k c w)"
  using assms unfolding fetching_def put_rcmd_def by (simp add: nth_update_same)

lemma request_keys: "fst ` (\<lambda>k. request_of (cmds ! k) k) ` S = S"
  by (force simp: request_of_def)

lemma request_card: "card ((\<lambda>k. request_of (cmds ! k) k) ` S) = card S"
  by (rule card_image) (auto simp: inj_on_def request_of_def)

lemma read_dev_geo: "read_dev (zv\<lparr>zv_geo := g\<rparr>) = read_dev zv"
  by (simp add: read_dev_def)

lemma fetch_submit:
  assumes dev: "reader xn dma ok pend disk depth" and inv: "fetching fr cmds queue ok pend S w" and k: "k < length cmds" "k \<notin> S"
    and room: "card S < depth"
  shows "\<exists>c x. read_submit (znd_core xn zv) k w = Some (0, (put_rcmd k ((rs_mcmd (rw_r w) ! k)\<lparr>mc_media_ctx := c\<rparr>) w)
      \<lparr>rw_media := (rw_media w)\<lparr>ms_x := x\<rparr>\<rparr>) \<and> pend x = insert (request_of (cmds ! k) k) (pend (ms_x (rw_media w))) \<and> ok x"
proof -
  let ?x = "ms_x (rw_media w)" and ?c = "cmds ! k"
  have p: "pend ?x = (\<lambda>k. request_of (cmds ! k) k) ` S" and q: "ms_tctx (rw_media w) (rs_tctx (rw_r w)) = Some queue" and ok: "ok ?x"
    using inv by (simp_all add: fetching_def)
  obtain c x1 where g: "xn_get_ctx xn queue ?x = (c, x1)" by force
  have g': "c \<noteq> 0" "pend x1 = pend ?x" "ok x1"
    using readerD(1) [OF dev ok, of queue] readerD(2) [OF dev ok, of queue] g room by (simp_all add: p request_card)
  obtain r x2 where rd: "xn_read xn (Some (c, k)) (read_dev zv) (g_sect (mc_addr ?c)) (nlb_arg (mc_nsec ?c)) (mc_prp ?c) x1 = (r, x2)" by force
  have r: "r = 0" "pend x2 = insert (request_of ?c k) (pend ?x)" "ok x2"
    using readerD(4) [OF dev g'(3), of k c "read_dev zv" "g_sect (mc_addr ?c)" "nlb_arg (mc_nsec ?c)" "mc_prp ?c"] rd k(2)
    by (simp_all add: g'(2) p request_keys) (simp add: request_of_def)
  note f = fetching_cmd [OF inv k(1)]
  have "read_submit (znd_core xn zv) k w = Some (0, (put_rcmd k ((rs_mcmd (rw_r w) ! k)\<lparr>mc_media_ctx := c\<rparr>) w)
      \<lparr>rw_media := (rw_media w)\<lparr>ms_x := x2\<rparr>\<rparr>)"
    using f g g'(1) rd r(1) q
    by (simp add: read_submit_def xztl_media_submit_io_def znd_media_fns_def znd_media_submit_io_def znd_media_submit_read_asynch_def
      Let_def read_dev_geo)
  then show ?thesis using r(2,3) by blast
qed

lemma fetching_submitted:
  assumes "fetching fr cmds queue ok pend S w" "k < length cmds" "pend x = insert (request_of (cmds ! k) k) (pend (ms_x (rw_media w)))" "ok x"
  shows "fetching fr cmds queue ok pend (insert k S) ((put_rcmd k ((rs_mcmd (rw_r w) ! k)\<lparr>mc_media_ctx := c\<rparr>) w)\<lparr>rw_media := (rw_media w)\<lparr>ms_x := x\<rparr>\<rparr>)"
  using assms unfolding fetching_def put_rcmd_def by (auto simp: nth_list_update)

text \<open>One pass submits all commands.\<close>

lemma fetch_pass:
  assumes dev: "reader xn dma ok pend disk depth" and room: "length cmds \<le> depth"
  shows "cmd_i + left = length cmds \<Longrightarrow> fetching fr cmds queue ok pend {..<cmd_i} w \<Longrightarrow>
    \<forall>k < length cmds. uc_mcmd (rw_ucmd w) ! k = Some k \<and> (cmd_i \<le> k \<longrightarrow> mc_submitted (rs_mcmd (rw_r w) ! k) = 0) \<Longrightarrow>
    length cmds \<le> length (uc_mcmd (rw_ucmd w)) \<Longrightarrow>
    \<exists>w'. read_pass (znd_core xn zv) cmd_i left 0 submitted w = Some (0, submitted + left, w') \<and>
      fetching fr cmds queue ok pend {..<length cmds} w' \<and> rw_ucmd w' = rw_ucmd w \<and> rw_mem w' = rw_mem w"
proof (induction left arbitrary: cmd_i submitted w)
  case 0
  then show ?case by (intro exI [of _ w]) auto
next
  case (Suc left)
  let ?m = "rs_mcmd (rw_r w) ! cmd_i"
  have i: "cmd_i < length cmds" "cmd_i \<notin> {..<cmd_i}" "card {..<cmd_i} < depth" using Suc.prems(1) room by simp_all
  obtain c x where s: "read_submit (znd_core xn zv) cmd_i w =
      Some (0, (put_rcmd cmd_i (?m\<lparr>mc_media_ctx := c\<rparr>) w)\<lparr>rw_media := (rw_media w)\<lparr>ms_x := x\<rparr>\<rparr>)"
    "pend x = insert (request_of (cmds ! cmd_i) cmd_i) (pend (ms_x (rw_media w)))" "ok x"
    using fetch_submit [OF dev Suc.prems(2) i, of zv] by blast
  define w1 where "w1 = (put_rcmd cmd_i (?m\<lparr>mc_media_ctx := c\<rparr>) w)\<lparr>rw_media := (rw_media w)\<lparr>ms_x := x\<rparr>\<rparr>"
  define w2 where "w2 = put_rcmd cmd_i ((rs_mcmd (rw_r w1) ! cmd_i)\<lparr>mc_submitted := 1\<rparr>) w1"
  have f1: "fetching fr cmds queue ok pend {..<Suc cmd_i} w1"
    using fetching_submitted [OF Suc.prems(2) i(1) s(2,3), of c] by (simp add: w1_def lessThan_Suc)
  have f2: "fetching fr cmds queue ok pend {..<Suc cmd_i} w2" unfolding w2_def by (rule fetching_put [OF f1]) simp
  have u: "rw_ucmd w2 = rw_ucmd w" "rw_mem w2 = rw_mem w" by (simp_all add: w2_def w1_def put_rcmd_def)
  have "rs_mcmd (rw_r w2) ! k = rs_mcmd (rw_r w) ! k" if "k \<noteq> cmd_i" for k using that by (simp add: w2_def w1_def put_rcmd_def)
  then have sub: "\<forall>k < length cmds. uc_mcmd (rw_ucmd w2) ! k = Some k \<and> (Suc cmd_i \<le> k \<longrightarrow> mc_submitted (rs_mcmd (rw_r w2) ! k) = 0)"
    using Suc.prems(3) u(1) by auto
  have "read_pass (znd_core xn zv) cmd_i (Suc left) 0 submitted w = read_pass (znd_core xn zv) (Suc cmd_i) left 0 (Suc submitted) w2"
    using Suc.prems(3,4) i(1) s(1) fetching_cmd(1) [OF Suc.prems(2) i(1)] fetching_cmd(1) [OF f1 i(1)]
    by (simp add: w1_def [symmetric] w2_def)
  then show ?case using Suc.IH [OF _ f2 sub, of "Suc submitted"] Suc.prems(1,4) u by simp
qed

text \<open>The drain completes all of them.\<close>

definition copied :: "xztl_io_mcmd list \<Rightarrow> nat set \<Rightarrow> nat \<Rightarrow> (nat \<Rightarrow> nat) \<Rightarrow> (nat \<Rightarrow> nat) \<Rightarrow> nat \<Rightarrow> nat" where
  "copied cmds S buf src mem = (\<lambda>a. if \<exists>k \<in> S. covers (cmds ! k) buf a then src a else mem a)"

lemma copied_step: "k \<in> S \<Longrightarrow> copied cmds (S - {k}) buf src (copied cmds {k} buf src mem) = copied cmds S buf src mem"
  by (auto simp: copied_def fun_eq_iff)

lemma fetch_complete:
  assumes dev: "reader xn dma ok pend disk depth" and inv: "fetching fr cmds queue ok pend S w" and k: "k < length cmds"
    and x: "ok x" "pend x = (\<lambda>k. request_of (cmds ! k) k) ` (S - {k})"
      "filled dma disk (g_sect (mc_addr (cmds ! k))) (nlb_arg (mc_nsec (cmds ! k))) (mc_prp (cmds ! k)) x"
    and home: "\<And>a. covers (cmds ! k) (uc_buf (rw_ucmd w)) a \<Longrightarrow> fetched_from (cmds ! k) (uc_buf (rw_ucmd w)) a = home a"
  shows "\<exists>w'. read_complete dma xn (znd_core xn zv) (k, 0, cdw0) (w\<lparr>rw_media := (rw_media w)\<lparr>ms_x := x\<rparr>\<rparr>) = Some w' \<and>
    fetching fr cmds queue ok pend (S - {k}) w' \<and> rw_ucmd w' = rw_ucmd w \<and>
    rw_mem w' = copied cmds {k} (uc_buf (rw_ucmd w)) (\<lambda>a. disk (home a)) (rw_mem w)"
proof -
  let ?m = "rs_mcmd (rw_r w) ! k" and ?c = "cmds ! k" and ?buf = "uc_buf (rw_ucmd w)"
  note f = fetching_cmd [OF inv k]
  define w1 where "w1 = put_rcmd k (async_cb_status 0 cdw0 ?m) (w\<lparr>rw_media := (rw_media w)\<lparr>ms_x := x\<rparr>\<rparr>)"
  define w2 where "w2 = w1\<lparr>rw_mem := memcpy dma x (?buf + mc_buf_off ?c) (mc_prp ?c + mc_sequence ?c) (mc_cpsize ?c) (rw_mem w)\<rparr>"
  have r: "0 < mc_nsec ?c" "mc_nsec ?c \<le> 8" "mc_sequence ?c + mc_cpsize ?c \<le> mc_nsec ?c * 4096" "mc_sequence ?c < 4096"
    using inv k by (simp_all add: fetching_def read_cmds_def)
  have nlb: "nlb_arg (mc_nsec ?c) + 1 = mc_nsec ?c" using r(1,2) by (simp add: nlb_arg_def u16_small usub_small)
  have "dma x (mc_prp ?c + mc_sequence ?c + (a - (?buf + mc_buf_off ?c))) = disk (home a)" if "covers ?c ?buf a" for a
  proof -
    have "mc_sequence ?c + (a - (?buf + mc_buf_off ?c)) < (nlb_arg (mc_nsec ?c) + 1) * 4096"
      using that r(3) unfolding nlb covers_def by linarith
    then show ?thesis using x(3) home [OF that] by (simp add: filled_def fetched_from_def add.assoc)
  qed
  then have mem: "rw_mem w2 = copied cmds {k} ?buf (\<lambda>a. disk (home a)) (rw_mem w)"
    by (auto simp: w2_def copied_def memcpy_def covers_def fun_eq_iff)
  have inv1: "fetching fr cmds queue ok pend (S - {k}) (w\<lparr>rw_media := (rw_media w)\<lparr>ms_x := x\<rparr>\<rparr>)" using inv x(1,2) by (auto simp: fetching_def)
  then have inv2: "fetching fr cmds queue ok pend (S - {k}) w2"
    using fetching_put [OF inv1, of "async_cb_status 0 cdw0 ?m" k] by (simp add: w2_def w1_def fetching_def)
  have at: "rs_mcmd (rw_r w2) ! k = async_cb_status 0 cdw0 ?m" "ms_x (rw_media w2) = x" "rw_ucmd w2 = rw_ucmd w"
    using f(1) by (simp_all add: w2_def w1_def put_rcmd_def)
  have st: "mc_status (async_cb_status 0 cdw0 ?m) = 0" by (simp add: async_cb_status_def Let_def)
  have "u32 (mc_sequence ?c) = mc_sequence ?c" using r(4) by (intro u32_small) simp
  then have "ztl_io_read_callback_mcmd dma (znd_core xn zv) k w1 = Some w2"
    using f fetching_cmd [OF inv2 k] at st by (simp add: ztl_io_read_callback_mcmd_def w2_def) (simp add: w1_def put_rcmd_def)
  moreover have "async_cb_put xn (rs_mcmd (rw_r w2) ! k) (rw_media w2) =
      Some ((rw_media w2)\<lparr>ms_x := xn_put_ctx xn queue (mc_media_ctx (rs_mcmd (rw_r w2) ! k)) x\<rparr>)"
    using inv2 fetching_cmd(4) [OF inv2 k] at(2) by (simp add: async_cb_put_def fetching_def)
  ultimately have "read_complete dma xn (znd_core xn zv) (k, 0, cdw0) (w\<lparr>rw_media := (rw_media w)\<lparr>ms_x := x\<rparr>\<rparr>) =
      Some (w2\<lparr>rw_media := (rw_media w2)\<lparr>ms_x := xn_put_ctx xn queue (mc_media_ctx (rs_mcmd (rw_r w2) ! k)) x\<rparr>\<rparr>)"
    using f(1) fetching_cmd(1) [OF inv2 k] by (simp add: read_complete_def w1_def [symmetric])
  moreover have "fetching fr cmds queue ok pend (S - {k}) (w2\<lparr>rw_media := (rw_media w2)\<lparr>ms_x := xn_put_ctx xn queue (mc_media_ctx (rs_mcmd (rw_r w2) ! k)) x\<rparr>\<rparr>)"
    using inv2 readerD(3) [OF dev x(1)] at(2) by (simp add: fetching_def)
  ultimately show ?thesis using mem at(3) by simp
qed

lemma apart_mono:
  assumes "apart B" "A \<subseteq> B"
  shows "apart A"
  unfolding apart_def
proof (intro ballI)
  fix r t assume "r \<in> A" "t \<in> A"
  then have "r \<in> B" "t \<in> B" using assms(2) by auto
  then show "case r of (k, s, n, b) \<Rightarrow> \<forall>(l, t, m, c) \<in> A. k \<noteq> l \<longrightarrow> b + (n + 1) * 4096 \<le> c \<or> c + (m + 1) * 4096 \<le> b"
    using assms unfolding apart_def by fastforce
qed

lemma fetch_drain:
  assumes dev: "reader xn dma ok pend disk depth"
    and home: "\<And>k a. k < length cmds \<Longrightarrow> covers (cmds ! k) buf a \<Longrightarrow> fetched_from (cmds ! k) buf a = home a"
    and ap: "apart ((\<lambda>k. request_of (cmds ! k) k) ` {..<length cmds})"
  shows "fetching fr cmds queue ok pend S w \<Longrightarrow> card S < fuel \<Longrightarrow> uc_buf (rw_ucmd w) = buf \<Longrightarrow>
    \<exists>w'. read_drain dma xn (znd_core xn zv) queue fuel w = Some w' \<and> fetching fr cmds queue ok pend {} w' \<and> rw_ucmd w' = rw_ucmd w \<and>
      rw_mem w' = copied cmds S buf (\<lambda>a. disk (home a)) (rw_mem w)"
proof (induction fuel arbitrary: S w)
  case 0
  then show ?case by simp
next
  case (Suc fuel)
  let ?x = "ms_x (rw_media w)"
  have S: "S \<subseteq> {..<length cmds}" and p: "pend ?x = (\<lambda>k. request_of (cmds ! k) k) ` S" and ok: "ok ?x" using Suc.prems(1) by (simp_all add: fetching_def)
  show ?case
  proof (cases "S = {}")
    case True
    then have "fst (xn_drain xn queue ?x) = None" "pend (snd (xn_drain xn queue ?x)) = {}" "ok (snd (xn_drain xn queue ?x))"
      using readerD(6) [OF dev ok, of queue] p by simp_all
    then show ?thesis using True Suc.prems(1) by (auto simp: copied_def fetching_def split: prod.splits)
  next
    case False
    have apx: "apart (pend ?x)" unfolding p by (rule apart_mono [OF ap image_mono [OF S]])
    have ne: "pend ?x \<noteq> {}" using False p by simp
    from readerD(7) [OF dev ok ne apx, of queue] obtain k slba nlb b cdw0 where d: "(k, slba, nlb, b) \<in> pend ?x" "fst (xn_drain xn queue ?x) = Some (k, 0, cdw0)"
      "pend (snd (xn_drain xn queue ?x)) = pend ?x - {(k, slba, nlb, b)}" "filled dma disk slba nlb b (snd (xn_drain xn queue ?x))" "ok (snd (xn_drain xn queue ?x))" by blast
    obtain x where x: "xn_drain xn queue ?x = (Some (k, 0, cdw0), x)" using d(2) by (cases "xn_drain xn queue ?x") simp
    have k: "k \<in> S" "slba = g_sect (mc_addr (cmds ! k))" "nlb = nlb_arg (mc_nsec (cmds ! k))" "b = mc_prp (cmds ! k)"
      using d(1) p by (auto simp: request_of_def)
    have px: "pend x = (\<lambda>k. request_of (cmds ! k) k) ` (S - {k})" using d(3) x p k by (auto simp: request_of_def)
    have fl: "filled dma disk (g_sect (mc_addr (cmds ! k))) (nlb_arg (mc_nsec (cmds ! k))) (mc_prp (cmds ! k)) x"
      using d(4) x k by simp
    have okx: "ok x" using d(5) x by simp
    have kl: "k < length cmds" using k(1) S by auto
    have h: "fetched_from (cmds ! k) (uc_buf (rw_ucmd w)) a = home a" if "covers (cmds ! k) (uc_buf (rw_ucmd w)) a" for a
      using that home [OF kl] Suc.prems(3) by simp
    obtain w1 where w1: "read_complete dma xn (znd_core xn zv) (k, 0, cdw0) (w\<lparr>rw_media := (rw_media w)\<lparr>ms_x := x\<rparr>\<rparr>) = Some w1"
      "fetching fr cmds queue ok pend (S - {k}) w1" "rw_ucmd w1 = rw_ucmd w" "rw_mem w1 = copied cmds {k} buf (\<lambda>a. disk (home a)) (rw_mem w)"
      using fetch_complete [OF dev Suc.prems(1) kl okx px fl h, of zv cdw0] Suc.prems(3) by auto
    have "finite S" using S finite_subset by blast
    then have "card (S - {k}) < fuel" using card_Diff1_less [OF _ k(1)] Suc.prems(2) by linarith
    from Suc.IH [OF w1(2) this] w1(3,4) Suc.prems(3) x w1(1) show ?thesis by (simp add: copied_step [OF k(1)])
  qed
qed

section \<open>A user read\<close>

text \<open>The user command asks for \<open>sz\<close> bytes from offset \<open>off\<close> of node \<open>n\<close>, and the read resource has an idle
  queue and buffers of 32 KB that do not overlap.\<close>

definition read_ready :: "nat \<Rightarrow> nat \<Rightarrow> nat \<Rightarrow> nat \<Rightarrow> ('x \<Rightarrow> bool) \<Rightarrow> ('x \<Rightarrow> request set) \<Rightarrow> 'x read_world \<Rightarrow> bool" where
  "read_ready n off sz queue ok pend w \<longleftrightarrow> uc_node_id (rw_ucmd w) \<noteq> [] \<and> hd (uc_node_id (rw_ucmd w)) = n \<and> n < 2 ^ 32 \<and>
     uc_offset (rw_ucmd w) = off \<and> uc_size (rw_ucmd w) = sz \<and> ZTL_IO_RC_NUM \<le> length (uc_mcmd (rw_ucmd w)) \<and>
     ZTL_IO_RC_NUM \<le> length (rs_mcmd (rw_r w)) \<and> ZTL_IO_RC_NUM \<le> length (rs_prp (rw_r w)) \<and>
     (\<forall>i < ZTL_IO_RC_NUM. \<forall>j < ZTL_IO_RC_NUM. i \<noteq> j \<longrightarrow>
        rs_prp (rw_r w) ! i + 32768 \<le> rs_prp (rw_r w) ! j \<or> rs_prp (rw_r w) ! j + 32768 \<le> rs_prp (rw_r w) ! i) \<and>
     ms_tctx (rw_media w) (rs_tctx (rw_r w)) = Some queue \<and> ok (ms_x (rw_media w)) \<and> pend (ms_x (rw_media w)) = {} \<and>
     XZTL_STATS_IO_TYPES \<le> length (ms_io (rw_media w))"

lemma rd_cmds_ok:
  assumes fits: "read_fits pro node off sz"
  shows "read_cmds tctx (map (rd_cmd pro node tctx prps off sz) [0..<rd_num off sz])"
  using rd_cmd_fields(2-5) [OF fits, of _ tctx prps] by (simp add: read_cmds_def) (simp add: rd_cmd_def zero_mcmd_def)

lemma apart_image: "apart ((\<lambda>k. (k, s k, n k, b k)) ` S) \<longleftrightarrow>
    (\<forall>k \<in> S. \<forall>l \<in> S. k \<noteq> l \<longrightarrow> b k + (n k + 1) * 4096 \<le> b l \<or> b l + (n l + 1) * 4096 \<le> b k)"
  by (auto simp: apart_def)

lemma rd_cmds_apart:
  assumes fits: "read_fits pro node off sz" and n: "rd_num off sz \<le> m"
    and prps: "\<forall>i < m. \<forall>j < m. i \<noteq> j \<longrightarrow> prps ! i + 32768 \<le> prps ! j \<or> prps ! j + 32768 \<le> prps ! i"
  shows "apart ((\<lambda>k. request_of (map (rd_cmd pro node tctx prps off sz) [0..<rd_num off sz] ! k) k) ` {..<rd_num off sz})"
proof -
  let ?c = "rd_cmd pro node tctx prps off sz"
  have p: "mc_prp (?c k) = prps ! k" for k by (simp add: rd_cmd_def)
  have n8: "(nlb_arg (mc_nsec (?c k)) + 1) * 4096 \<le> 32768" if "k < rd_num off sz" for k
    using rd_cmd_fields(2,3) [OF fits that, of tctx prps] by (simp add: nlb_arg_def u16_small usub_small)
  have "\<forall>k \<in> {..<rd_num off sz}. \<forall>l \<in> {..<rd_num off sz}. k \<noteq> l \<longrightarrow>
      mc_prp (?c k) + (nlb_arg (mc_nsec (?c k)) + 1) * 4096 \<le> mc_prp (?c l) \<or>
      mc_prp (?c l) + (nlb_arg (mc_nsec (?c l)) + 1) * 4096 \<le> mc_prp (?c k)"
  proof (intro ballI impI)
    fix k l assume kl: "k \<in> {..<rd_num off sz}" "l \<in> {..<rd_num off sz}" "k \<noteq> l"
    then have "prps ! k + 32768 \<le> prps ! l \<or> prps ! l + 32768 \<le> prps ! k" using prps n by simp
    then show "mc_prp (?c k) + (nlb_arg (mc_nsec (?c k)) + 1) * 4096 \<le> mc_prp (?c l) \<or>
        mc_prp (?c l) + (nlb_arg (mc_nsec (?c l)) + 1) * 4096 \<le> mc_prp (?c k)"
      using n8 [of k] n8 [of l] kl unfolding p lessThan_iff by linarith
  qed
  then have "apart ((\<lambda>k. (k, g_sect (mc_addr (?c k)), nlb_arg (mc_nsec (?c k)), mc_prp (?c k))) ` {..<rd_num off sz})"
    unfolding apart_image .
  then show ?thesis by (simp add: request_of_def cong: image_cong_simp)
qed

text \<open>The state behind the loop that builds the commands. Only a counter changes of what the rest leaves alone.\<close>

definition frame_of :: "'x read_world \<Rightarrow> nat \<times> nat list \<times> bool \<times> nat \<times> xztl_stats_data \<times> (nat \<rightharpoonup> nat) \<times> completion list \<Rightarrow> bool" where
  "frame_of w fr \<longleftrightarrow> (case fr of (tctx, prps, used, n, io, tctxs, dn) \<Rightarrow> tctx = rs_tctx (rw_r w) \<and> prps = rs_prp (rw_r w) \<and>
     used = rs_usedflag (rw_r w) \<and> n = length (rs_mcmd (rw_r w)) \<and> length io = length (ms_io (rw_media w)) \<and> tctxs = ms_tctx (rw_media w) \<and> dn = ms_done (rw_media w))"

lemma read_built:
  assumes ready: "read_ready n off sz queue ok pend w" and fits: "read_fits pro node off sz"
    and node: "gr_pro grp = Some pro" "get_at (pg_vnodes pro) n = Some node" and num: "rd_num off sz \<le> ZTL_IO_RC_NUM"
  defines "cmds \<equiv> map (rd_cmd pro node (rs_tctx (rw_r w)) (rs_prp (rw_r w)) off sz) [0..<rd_num off sz]"
  shows "\<exists>w1. ztl_io_read_ucmd dma xn core grp fuel w =
      (if rd_num off sz = 1 then read_single dma core w1 else read_many dma xn core fuel (rd_num off sz) w1) \<and>
    (\<exists>fr. fetching fr cmds queue ok pend {} w1 \<and> frame_of w fr) \<and> (\<forall>k < length cmds. uc_mcmd (rw_ucmd w1) ! k = Some k \<and> rs_mcmd (rw_r w1) ! k = cmds ! k) \<and>
    length cmds \<le> length (uc_mcmd (rw_ucmd w1)) \<and> uc_buf (rw_ucmd w1) = uc_buf (rw_ucmd w) \<and>
    uc_status (rw_ucmd w1) = uc_status (rw_ucmd w) \<and> rw_mem w1 = rw_mem w"
proof -
  let ?N = "rd_num off sz" and ?tc = "rs_tctx (rw_r w)" and ?prps = "rs_prp (rw_r w)"
  note rdy = ready [unfolded read_ready_def]
  have id: "get_at (uc_node_id (rw_ucmd w)) 0 = Some n" "u32 n = n" using rdy by (auto simp: hd_conv_nth u32_small)
  have len: "?N \<le> length ?prps" "?N \<le> length (rs_mcmd (rw_r w))" "?N \<le> length (uc_mcmd (rw_ucmd w))"
    using rdy num by simp_all
  define u where "u = (rw_ucmd w)\<lparr>uc_mcmd := fill_from 0 ?N Some (uc_mcmd (rw_ucmd w))\<rparr>"
  define r where "r = (rw_r w)\<lparr>rs_mcmd := fill_from 0 ?N (rd_cmd pro node ?tc ?prps off sz) (rs_mcmd (rw_r w))\<rparr>"
  obtain rp where b: "read_start off sz = Some (sec_up (off + sz) - off div 4096, rp)"
    "read_build pro node ?tc ZTL_IO_RC_NUM rp (rw_ucmd w, rw_r w) = Some (rd_done off sz ?N, u, r)"
    using read_commands [OF fits len num, of ?tc] unfolding u_def r_def by blast
  define n8 where "n8 = u64 ((sec_up (off + sz) - off div 4096) * ZNS_ALIGMENT)"
  define w1 where "w1 = w\<lparr>rw_ucmd := u, rw_r := r, rw_media := (rw_media w)\<lparr>ms_io :=
    (ms_io (rw_media w))[st XZTL_STATS_READ_BYTES := u64 (ms_io (rw_media w) ! st XZTL_STATS_READ_BYTES + n8)]\<rparr>\<rparr>"
  have io: "st XZTL_STATS_READ_BYTES < length (ms_io (rw_media w))" 
    using rdy by (intro less_le_trans [of _ XZTL_STATS_IO_TYPES "length (ms_io (rw_media w))"]) simp_all
  have st: "read_stats_inc XZTL_STATS_READ_BYTES n8 (w\<lparr>rw_ucmd := u, rw_r := r\<rparr>) = Some w1"
    using io by (simp add: read_stats_inc_def xztl_stats_inc_Some w1_def)
  have t: "rp_total_cmd (rd_done off sz ?N) = ?N" by (simp add: rd_done_def)
  have e: "uc_offset (rw_ucmd w) = off" "uc_size (rw_ucmd w) = sz" using rdy by simp_all
  have "ztl_io_read_ucmd dma xn core grp fuel w =
      (if ?N = 1 then read_single dma core w1 else read_many dma xn core fuel ?N w1)"
    using b st id node t e unfolding ztl_io_read_ucmd_def by (simp add: n8_def)
  moreover have "fetching (read_frame w1) cmds queue ok pend {} w1"
    using rdy len rd_cmds_ok [OF fits, of ?tc ?prps] by (simp add: fetching_def w1_def r_def cmds_def fill_from_nth)
  moreover have "frame_of w (read_frame w1)" by (simp add: frame_of_def read_frame_def w1_def r_def)
  ultimately show ?thesis using len by (intro exI [of _ w1] conjI exI [of _ "read_frame w1"])
      (simp_all add: w1_def u_def r_def cmds_def fill_from_nth)
qed

lemma fetch_single:
  assumes dev: "reader xn dma ok pend disk depth" and inv: "fetching fr [c] queue ok pend {} w"
    and cmd: "uc_mcmd (rw_ucmd w) ! 0 = Some 0" "rs_mcmd (rw_r w) ! 0 = c" "uc_mcmd (rw_ucmd w) \<noteq> []" "mc_buf_off c = 0"
    and home: "\<And>a. covers c (uc_buf (rw_ucmd w)) a \<Longrightarrow> fetched_from c (uc_buf (rw_ucmd w)) a = home a"
  shows "\<exists>w'. read_single dma (znd_core xn zv) w = Some (0, w') \<and> read_frame w' = fr \<and> ok (ms_x (rw_media w')) \<and>
    pend (ms_x (rw_media w')) = {} \<and> rw_ucmd w' = (rw_ucmd w)\<lparr>uc_completed := 1\<rparr> \<and>
    rw_mem w' = copied [c] {0} (uc_buf (rw_ucmd w)) (\<lambda>a. disk (home a)) (rw_mem w)"
proof -
  note f = fetching_cmd [OF inv, of 0]
  let ?buf = "uc_buf (rw_ucmd w)" and ?x = "ms_x (rw_media w)"
  obtain r x where rd: "xn_read xn None (read_dev zv) (g_sect (mc_addr c)) (nlb_arg (mc_nsec c)) (mc_prp c) ?x = (r, x)" by force
  have ok: "ok ?x" "pend ?x = {}" using inv by (simp_all add: fetching_def)
  have r: "r = 0" "filled dma disk (g_sect (mc_addr c)) (nlb_arg (mc_nsec c)) (mc_prp c) x" "pend x = {}" "ok x"
    using readerD(5) [OF dev ok(1), of "read_dev zv" "g_sect (mc_addr c)" "nlb_arg (mc_nsec c)" "mc_prp c"] ok(2) rd by simp_all
  have c: "0 < mc_nsec c" "mc_nsec c \<le> 8" "mc_sequence c + mc_cpsize c \<le> mc_nsec c * 4096" using inv by (simp_all add: fetching_def read_cmds_def)
  have nlb: "nlb_arg (mc_nsec c) + 1 = mc_nsec c" using c(1,2) by (simp add: nlb_arg_def u16_small usub_small)
  have "dma x (mc_prp c + mc_sequence c + (a - ?buf)) = disk (home a)" if "covers c ?buf a" for a
  proof -
    have "mc_sequence c + (a - ?buf) < (nlb_arg (mc_nsec c) + 1) * 4096" using that c(3) cmd(4) unfolding nlb covers_def by linarith
    then show ?thesis using r(2) home [OF that] cmd(4) by (simp add: filled_def fetched_from_def add.assoc)
  qed
  then have mem: "memcpy dma x ?buf (mc_prp c + mc_sequence c) (mc_cpsize c) (rw_mem w) = copied [c] {0} ?buf (\<lambda>a. disk (home a)) (rw_mem w)"
    using cmd(4) by (auto simp: copied_def memcpy_def covers_def fun_eq_iff)
  have l: "0 < length (rs_mcmd (rw_r w))" using f(1) by simp
  have "read_single dma (znd_core xn zv) w = Some (0, (put_rcmd 0 (c\<lparr>mc_synch := 1\<rparr>) w)\<lparr>rw_media := (rw_media w)\<lparr>ms_x := x\<rparr>,
      rw_mem := memcpy dma x ?buf (mc_prp c + mc_sequence c) (mc_cpsize c) (rw_mem w), rw_ucmd := (rw_ucmd w)\<lparr>uc_completed := 1\<rparr>\<rparr>)"
    using f(2) cmd rd r(1) l
    by (simp add: read_single_def put_rcmd_def read_submit_def xztl_media_submit_io_def znd_media_fns_def znd_media_submit_io_def
      znd_media_submit_read_synch_def Let_def read_dev_geo)
  moreover have "read_frame w = fr" using inv by (simp add: fetching_def)
  ultimately show ?thesis using r(3,4) unfolding mem by (simp add: read_frame_def put_rcmd_def)
qed

lemma fetch_many:
  assumes dev: "reader xn dma ok pend disk depth" and inv: "fetching fr cmds queue ok pend {} w"
    and cmd: "\<forall>k < length cmds. uc_mcmd (rw_ucmd w) ! k = Some k \<and> mc_submitted (rs_mcmd (rw_r w) ! k) = 0"
      "length cmds \<le> length (uc_mcmd (rw_ucmd w))" "0 < length cmds"
    and room: "length cmds \<le> depth" "length cmds < fuel"
    and ap: "apart ((\<lambda>k. request_of (cmds ! k) k) ` {..<length cmds})"
    and home: "\<And>k a. k < length cmds \<Longrightarrow> covers (cmds ! k) (uc_buf (rw_ucmd w)) a \<Longrightarrow> fetched_from (cmds ! k) (uc_buf (rw_ucmd w)) a = home a"
  shows "\<exists>w'. read_many dma xn (znd_core xn zv) fuel (length cmds) w = Some (0, w') \<and> read_frame w' = fr \<and> ok (ms_x (rw_media w')) \<and>
    pend (ms_x (rw_media w')) = {} \<and> uc_completed (rw_ucmd w') = 1 \<and>
    uc_status (rw_ucmd w') = uc_status (rw_ucmd w) \<and>
    rw_mem w' = copied cmds {..<length cmds} (uc_buf (rw_ucmd w)) (\<lambda>a. disk (home a)) (rw_mem w)"
proof -
  define w1 where "w1 = w\<lparr>rw_ucmd := (rw_ucmd w)\<lparr>uc_nmcmd := u16 (length cmds)\<rparr>\<rparr>"
  have i: "fetching fr cmds queue ok pend {..<0} w1" using inv by (simp add: fetching_def w1_def)
  have "\<forall>k < length cmds. uc_mcmd (rw_ucmd w1) ! k = Some k \<and> (0 \<le> k \<longrightarrow> mc_submitted (rs_mcmd (rw_r w1) ! k) = 0)"
    "length cmds \<le> length (uc_mcmd (rw_ucmd w1))" using cmd by (simp_all add: w1_def)
  then obtain w2 where w2: "read_pass (znd_core xn zv) 0 (length cmds) 0 0 w1 = Some (0, length cmds, w2)"
    "fetching fr cmds queue ok pend {..<length cmds} w2" "rw_ucmd w2 = rw_ucmd w1" "rw_mem w2 = rw_mem w1"
    using fetch_pass [OF dev room(1) _ i, of "length cmds" zv 0] by auto
  obtain f where f: "fuel = Suc f" using room(2) by (cases fuel) auto
  have loop: "read_submit_loop (znd_core xn zv) (length cmds) fuel 0 0 w1 = Some (0, w2)"
    using cmd(3) w2(1) by (simp add: read_submit_loop.simps f)
  have q: "ms_tctx (rw_media w2) (rs_tctx (rw_r w2)) = Some queue" using w2(2) by (simp add: fetching_def)
  obtain w3 where w3: "read_drain dma xn (znd_core xn zv) queue fuel w2 = Some w3" "rw_ucmd w3 = rw_ucmd w2" "fetching fr cmds queue ok pend {} w3"
    "rw_mem w3 = copied cmds {..<length cmds} (uc_buf (rw_ucmd w)) (\<lambda>a. disk (home a)) (rw_mem w2)"
    using fetch_drain [OF dev home ap w2(2), where fuel = fuel and zv = zv] room(2) w2(3) by (auto simp: w1_def)
  have "read_many dma xn (znd_core xn zv) fuel (length cmds) w = Some (0, w3\<lparr>rw_ucmd := (rw_ucmd w3)\<lparr>uc_completed := 1\<rparr>\<rparr>)"
    using loop q w3(1) by (simp add: read_many_def w1_def [symmetric] Let_def)
  then show ?thesis using w3 w2(3,4) by (simp add: w1_def fetching_def)
qed

text \<open>A read of \<open>sz\<close> bytes from offset \<open>off\<close> of a node succeeds: byte \<open>i\<close> of the buffer is the byte of the device
  at the place of byte \<open>off + i\<close> of the node, and nothing else of the memory of the caller changes.\<close>

lemma user_read:
  assumes "reader xn dma ok pend disk depth" "gr_pro grp = Some pro" "get_at (pg_vnodes pro) n = Some node"
    "read_fits pro node off sz" "read_ready n off sz queue ok pend w" "rd_num off sz \<le> ZTL_IO_RC_NUM" "rd_num off sz \<le> depth"
    "rd_num off sz < fuel"
  shows "\<exists>w'. ztl_io_read_ucmd dma xn (znd_core xn zv) grp fuel w = Some (0, w') \<and> uc_completed (rw_ucmd w') = 1 \<and>
    uc_status (rw_ucmd w') = uc_status (rw_ucmd w) \<and> frame_of w (read_frame w') \<and> ok (ms_x (rw_media w')) \<and> pend (ms_x (rw_media w')) = {} \<and>
    (\<forall>a. rw_mem w' a = (if uc_buf (rw_ucmd w) \<le> a \<and> a < uc_buf (rw_ucmd w) + sz
       then disk (byte_home pro node (off + (a - uc_buf (rw_ucmd w)))) else rw_mem w a))"
proof -
  let ?N = "rd_num off sz" and ?buf = "uc_buf (rw_ucmd w)" and ?c = "rd_cmd pro node (rs_tctx (rw_r w)) (rs_prp (rw_r w)) off sz"
  define cmds where "cmds = map ?c [0..<?N]"
  define home where "home a = byte_home pro node (off + (a - ?buf))" for a
  obtain w1 fr where w1: "ztl_io_read_ucmd dma xn (znd_core xn zv) grp fuel w =
      (if ?N = 1 then read_single dma (znd_core xn zv) w1 else read_many dma xn (znd_core xn zv) fuel ?N w1)"
    "fetching fr cmds queue ok pend {} w1" "\<forall>k < ?N. uc_mcmd (rw_ucmd w1) ! k = Some k \<and> rs_mcmd (rw_r w1) ! k = cmds ! k"
    "?N \<le> length (uc_mcmd (rw_ucmd w1))" "uc_buf (rw_ucmd w1) = ?buf" "uc_status (rw_ucmd w1) = uc_status (rw_ucmd w)" "rw_mem w1 = rw_mem w" "frame_of w fr"
    using read_built [OF assms(5,4,2,3,6), of dma xn "znd_core xn zv" fuel] unfolding cmds_def by auto
  have c: "cmds ! k = ?c k" "length cmds = ?N" if "k < ?N" for k using that by (simp_all add: cmds_def)
  have N: "0 < ?N" "length cmds = ?N" using rd_num_pos assms(4) by (simp_all add: read_fits_def cmds_def)
  have home: "fetched_from (cmds ! k) ?buf a = home a" if "k < length cmds" "covers (cmds ! k) ?buf a" for k a
    using that rd_cmd_home [OF assms(4), of k] c N(2) by (simp add: home_def)
  have ap: "apart ((\<lambda>k. request_of (cmds ! k) k) ` {..<length cmds})"
    using rd_cmds_apart [OF assms(4,6), of "rs_prp (rw_r w)"] assms(5) unfolding N(2) by (simp add: cmds_def read_ready_def)
  have fin: "copied cmds {..<?N} ?buf (\<lambda>a. disk (home a)) (rw_mem w) a =
      (if ?buf \<le> a \<and> a < ?buf + sz then disk (byte_home pro node (off + (a - ?buf))) else rw_mem w a)" for a
    using rd_cmds_cover [OF assms(4), of "rs_tctx (rw_r w)" "rs_prp (rw_r w)" ?buf a] c by (auto simp: copied_def home_def)
  show ?thesis
  proof (cases "?N = 1")
    case True
    then have s: "cmds = [cmds ! 0]" using N(2) by (intro nth_equalityI) auto
    have "{..<?N} = {0}" using True by auto
    note fin = fin [unfolded this]
    have "mc_buf_off (cmds ! 0) = 0" using c(1) [OF N(1)] by (simp add: rd_cmd_def rd_from_def)
    moreover have "uc_mcmd (rw_ucmd w1) \<noteq> []" using w1(4) N(1) by auto
    ultimately show ?thesis
      using fetch_single [OF assms(1), of fr "cmds ! 0" queue w1 home zv] s w1 fin N home True by auto
  next
    case False
    have "mc_submitted (?c k) = 0" for k by (simp add: rd_cmd_def zero_mcmd_def)
    then show ?thesis
      using fetch_many [OF assms(1) w1(2) _ _ _ _ _ ap, of fuel home zv] w1 c N assms(7,8) home fin False by auto
  qed
qed

definition sample_rs :: ztl_read_rs where
  "sample_rs = \<lparr>rs_tctx = 1, rs_mcmd = replicate ZTL_IO_RC_NUM zero_mcmd, rs_prp = map (\<lambda>j. 1000000 + 32768 * j) [0..<ZTL_IO_RC_NUM], rs_usedflag = True\<rparr>"

lemma sample_read_fits: "0 < sz \<Longrightarrow> off + sz \<le> 32768 * ZTL_PRO_OPT_SEC_NUM_INNODE \<Longrightarrow> read_fits sample_pro sample_node off sz"
  using sample_linked sample_fits by (simp add: read_fits_def node_linked_def)

section \<open>Properties\<close>

text \<open>C5: A read finds what a write stored. Take a piece of \<open>num\<close> slots written from slot \<open>start\<close> of a node, and
  any read within the node. When a command of the read delivers a byte of that piece, it takes it from the
  place on the device where the command of the write for that slot put the same byte of its buffer.\<close>

theorem read_finds_written:
  assumes "gr_pro grp = Some pro" "get_at (pg_vnodes pro) node_id = Some node" "zd_tbl (gr_zmd grp) = Some tbl"
    "node_linked pro (length tbl) node" "node_at pro tbl node start" "node_fits pro node"
    "start + num \<le> ZTL_PRO_OPT_SEC_NUM_INNODE" "room_ok 4096 num prov mcmds ucmd boff"
    "read_fits pro node off sz" "rd_num off sz \<le> length (rs_prp r)" "rd_num off sz \<le> length (rs_mcmd r)"
    "rd_num off sz \<le> length (uc_mcmd rucmd)" "rd_num off sz \<le> ZTL_IO_RC_NUM"
  shows "\<exists>prov' grp' ps secs rp rp' rucmd' r'. ztl_pro_new num node_id prov start grp = Some (xz XZTL_OK, prov', grp') \<and>
    populate 4096 tctx num prov' mcmds ucmd boff = Some ps \<and> read_start off sz = Some (secs, rp) \<and>
    read_build pro node rtctx ZTL_IO_RC_NUM rp (rucmd, r) = Some (rp', rucmd', r') \<and>
    (\<forall>j < rp_total_cmd rp'. \<forall>a b. covers (rs_mcmd r' ! j) buf a \<and> off + (a - buf) = 32768 * start + b \<and> b < 32768 * num \<longrightarrow>
       (let c = ps_mcmd ps ! (b div 32768) in mc_prp c \<le> boff + b \<and> boff + b < mc_prp c + 32768 \<and>
          fetched_from (rs_mcmd r' ! j) buf a = 4096 * g_sect (mc_addr c) + (boff + b - mc_prp c)))"
proof -
  obtain prov' grp' ps where p: "ztl_pro_new num node_id prov start grp = Some (xz XZTL_OK, prov', grp')"
    "populate 4096 tctx num prov' mcmds ucmd boff = Some ps"
    "\<forall>k < num. g_sect (mc_addr (ps_mcmd ps ! k)) = slot_sector pro node (start + k) \<and> mc_prp (ps_mcmd ps ! k) = boff + k * 32768"
    using piece_striped [OF assms(1-8), of tctx] by (auto simp: Let_def)
  define r' where "r' = r\<lparr>rs_mcmd := fill_from 0 (rd_num off sz) (rd_cmd pro node rtctx (rs_prp r) off sz) (rs_mcmd r)\<rparr>"
  obtain rp where b: "read_start off sz = Some (sec_up (off + sz) - off div 4096, rp)"
    "read_build pro node rtctx ZTL_IO_RC_NUM rp (rucmd, r) = Some (rd_done off sz (rd_num off sz),
      rucmd\<lparr>uc_mcmd := fill_from 0 (rd_num off sz) Some (uc_mcmd rucmd)\<rparr>, r')"
    using read_commands [OF assms(9-13), of rtctx] unfolding r'_def by blast
  have t: "rp_total_cmd (rd_done off sz (rd_num off sz)) = rd_num off sz" by (simp add: rd_done_def)
  have "let c = ps_mcmd ps ! (b div 32768) in mc_prp c \<le> boff + b \<and> boff + b < mc_prp c + 32768 \<and>
      fetched_from (rs_mcmd r' ! j) buf a = 4096 * g_sect (mc_addr c) + (boff + b - mc_prp c)"
    if j: "j < rd_num off sz" and cov: "covers (rs_mcmd r' ! j) buf a" and ab: "off + (a - buf) = 32768 * start + b" "b < 32768 * num" for j a b
  proof -
    have k: "b div 32768 < num" using ab(2) by (simp add: div_less_iff_less_mult mult.commute)
    define t where "t = b div 32768"
    define m where "m = b mod 32768"
    have b: "b = t * 32768 + m" "m < 32768" by (simp_all add: t_def m_def)
    have "rs_mcmd r' ! j = rd_cmd pro node rtctx (rs_prp r) off sz j" using j assms(11) by (simp add: r'_def fill_from_nth)
    then have "fetched_from (rs_mcmd r' ! j) buf a = byte_home pro node (32768 * start + b)"
      using rd_cmd_home [OF assms(9) j] cov ab(1) by metis
    moreover have "byte_home pro node (32768 * start + b) = 4096 * slot_sector pro node (start + t) + m"
      by (simp add: byte_home_def t_def m_def)
    ultimately show ?thesis using p(3) k b by (simp add: Let_def t_def [symmetric])
  qed
  then show ?thesis using p(1,2) b t by auto
qed

theorem read_finds_written_witness:
  "\<exists>prov' grp' ps secs rp rp' rucmd' r'. ztl_pro_new 100 0 sample_ctx 0 sample_grp = Some (xz XZTL_OK, prov', grp') \<and>
     populate 4096 1 100 prov' (replicate 1024 zero_mcmd) (sample_ucmd 100) 65536 = Some ps \<and> read_start 5000 40000 = Some (secs, rp) \<and>
     read_build sample_pro sample_node 1 ZTL_IO_RC_NUM rp (sample_ucmd 1, sample_rs) = Some (rp', rucmd', r')"
proof -
  have "get_at (pg_vnodes sample_pro) 0 = Some sample_node" by (simp add: sample_pro_def)
  moreover have "gr_pro sample_grp = Some sample_pro" "zd_tbl (gr_zmd sample_grp) = Some sample_tbl" by (simp_all add: sample_grp_def)
  moreover have "room_ok 4096 100 sample_ctx (replicate 1024 zero_mcmd) (sample_ucmd 100) 65536"
    by (simp add: room_ok_def sample_ucmd_def sample_ctx_def)
  moreover have "rd_num 5000 40000 = 2" by (simp add: rd_num_def)
  ultimately show ?thesis
    using read_finds_written [of sample_grp sample_pro 0 sample_node sample_tbl 0 100 sample_ctx "replicate 1024 zero_mcmd"
        "sample_ucmd 100" 65536 5000 40000 sample_rs "sample_ucmd 1" 1 1 65536] sample_linked sample_at sample_fits
      sample_read_fits [of 40000 5000] by (auto simp: sample_rs_def sample_ucmd_def)
qed

end
