(* ===== verification/Ztl_Io_Module.thy ===== *)
theory Ztl_Io_Module
  imports Ztl_Io_Fetch
begin

text \<open>
  The I/O module as a whole: \<open>ztl-io.c\<close> around the write and read paths. Its state is the five write
  queues with the addresses of their provisioning contexts, the read resources, the user commands
  (a queue holds references to them), the group and the media layer.

  Starting the module allocates the resources of every queue and of every read context; the results of
  the allocations, of the lock initialization and of the creation of the threads are parameters. The
  thread of a queue is its turn \<open>write_th_turn\<close>: it takes the first user command and writes it. The thread
  looks at its run flag only when the queue is empty, so it ends with all commands served.
\<close>

section \<open>Model\<close>

abbreviation (input) PRO_ADDR_SZ :: nat where "PRO_ADDR_SZ \<equiv> 1552"

record 'x io_mod =
  im_ucmds :: "xztl_io_ucmd list"
  im_qp :: "ztl_queue_pool list"
  im_prov :: "nat list"
  im_rr :: "ztl_read_rs list"
  im_grp :: app_group
  im_media :: "'x media_state"

text \<open>What the environment answers: the contents of fresh commands, the address and the junk for a thread context,
  whether its lock can be initialized, and the results for the lock and the thread of a queue.\<close>

record io_env =
  ev_fresh :: "nat \<Rightarrow> xztl_io_mcmd"
  ev_ctx :: "nat \<Rightarrow> nat"
  ev_junk :: nat
  ev_spin_fails :: bool
  ev_queue_spin :: "nat \<Rightarrow> int"
  ev_thread :: "nat \<Rightarrow> int"
  ev_mutex :: int

subsection \<open>Resources of a write queue\<close>

definition ztl_io_write_rs_exit ::
    "'x media_state xztl_core \<Rightarrow> xztl_misc_cmd \<Rightarrow> nat \<Rightarrow> 'x io_mod \<Rightarrow> 'x io_mod option" where
  "ztl_io_write_rs_exit core misc0 level m = do {
     q \<leftarrow> get_at (im_qp m) level;
     prov \<leftarrow> get_at (im_prov m) level;
     (ret, s) \<leftarrow> xztl_ctx_media_exit core misc0 (qp_tctx q) (im_media m);
     s \<leftarrow> xztl_media_dma_free core prov s;
     Some (m\<lparr>im_qp := (im_qp m)[level := q\<lparr>qp_mcmd := []\<rparr>], im_media := s\<rparr>) }"

definition ztl_io_write_rs_init ::
    "io_env \<Rightarrow> 'x media_state xztl_core \<Rightarrow> xztl_misc_cmd \<Rightarrow> znd_media \<Rightarrow> nat \<Rightarrow> 'x io_mod \<Rightarrow> (int \<times> 'x io_mod) option" where
  "ztl_io_write_rs_init env core misc0 zv level m = do {
     q \<leftarrow> get_at (im_qp m) level;
     let q = q\<lparr>qp_mcmd := map (ev_fresh env) [0..<ZTL_IO_RC_NUM]\<rparr>;
     (prov, s) \<leftarrow> xztl_media_dma_alloc core PRO_ADDR_SZ (im_media m);
     provs \<leftarrow> set_at (im_prov m) level prov;
     let m = m\<lparr>im_qp := (im_qp m)[level := q], im_prov := provs, im_media := s\<rparr>;
     if prov = 0 then Some (xz XZTL_ZTL_IO_ERR, m)
     else do {
       let q = q\<lparr>qp_prov := (qp_prov q)\<lparr>pa_grp := Some 0\<rparr>\<rparr>;
       (tctx, s) \<leftarrow> xztl_ctx_media_init (ev_ctx env level) (ev_junk env) (ev_spin_fails env) core misc0 (zv_io_depth zv) s;
       let q = q\<lparr>qp_tctx := tctx\<rparr>;
       if tctx = 0 then Some (xz XZTL_ZTL_IO_ERR, m\<lparr>im_qp := (im_qp m)[level := q], im_media := s\<rparr>)
       else Some (xz XZTL_OK, m\<lparr>im_qp := (im_qp m)[level := q\<lparr>qp_node := None\<rparr>], im_media := s\<rparr>) } }"

subsection \<open>Read resources\<close>

fun read_rs_alloc ::
    "io_env \<Rightarrow> 'x media_state xztl_core \<Rightarrow> nat \<Rightarrow> nat \<Rightarrow> ztl_read_rs \<Rightarrow> 'x media_state \<Rightarrow> (ztl_read_rs \<times> 'x media_state) option" where
  "read_rs_alloc env core mcmd_id 0 r s = Some (r, s)"
| "read_rs_alloc env core mcmd_id (Suc left) r s = do {
     mcmds \<leftarrow> set_at (rs_mcmd r) mcmd_id (ev_fresh env mcmd_id);
     (prp, s) \<leftarrow> xztl_media_dma_alloc core (ZNS_ALIGMENT * ZTL_IO_SEC_MCMD) s;
     prps \<leftarrow> set_at (rs_prp r) mcmd_id prp;
     read_rs_alloc env core (mcmd_id + 1) left (r\<lparr>rs_mcmd := mcmds, rs_prp := prps\<rparr>) s }"

definition ztl_io_read_rs_init ::
    "io_env \<Rightarrow> 'x media_state xztl_core \<Rightarrow> xztl_misc_cmd \<Rightarrow> znd_media \<Rightarrow> nat \<Rightarrow> 'x io_mod \<Rightarrow> (int \<times> 'x io_mod) option" where
  "ztl_io_read_rs_init env core misc0 zv rn m = do {
     r \<leftarrow> get_at (im_rr m) rn;
     (r, s) \<leftarrow> read_rs_alloc env core 0 ZTL_IO_RC_NUM r (im_media m);
     (tctx, s) \<leftarrow> xztl_ctx_media_init (ev_ctx env (ZROCKS_LEVEL_NUM + rn)) (ev_junk env) (ev_spin_fails env) core misc0 (zv_io_depth zv) s;
     let r = r\<lparr>rs_tctx := tctx\<rparr>;
     if tctx = 0 then Some (xz XZTL_ZTL_IO_ERR, m\<lparr>im_rr := (im_rr m)[rn := r], im_media := s\<rparr>)
     else Some (xz XZTL_OK, m\<lparr>im_rr := (im_rr m)[rn := r\<lparr>rs_usedflag := False\<rparr>], im_media := s\<rparr>) }"

fun read_rs_free :: "'x media_state xztl_core \<Rightarrow> nat list \<Rightarrow> 'x media_state \<Rightarrow> 'x media_state option" where
  "read_rs_free core [] s = Some s"
| "read_rs_free core (prp # prps) s = do { s \<leftarrow> xztl_media_dma_free core prp s; read_rs_free core prps s }"

definition ztl_io_read_rs_exit ::
    "'x media_state xztl_core \<Rightarrow> xztl_misc_cmd \<Rightarrow> nat \<Rightarrow> 'x io_mod \<Rightarrow> 'x io_mod option" where
  "ztl_io_read_rs_exit core misc0 rn m = do {
     r \<leftarrow> get_at (im_rr m) rn;
     (ret, s) \<leftarrow> xztl_ctx_media_exit core misc0 (rs_tctx r) (im_media m);
     s \<leftarrow> read_rs_free core (take ZTL_IO_RC_NUM (rs_prp r)) s;
     Some (m\<lparr>im_media := s\<rparr>) }"

subsection \<open>User commands and the thread of a queue\<close>

definition ztl_io_submit :: "nat \<Rightarrow> 'x io_mod \<Rightarrow> 'x io_mod option" where
  "ztl_io_submit u m = do {
     ucmd \<leftarrow> get_at (im_ucmds m) u;
     q \<leftarrow> get_at (im_qp m) (uc_prov_type ucmd);
     Some (m\<lparr>im_qp := (im_qp m)[uc_prov_type ucmd := q\<lparr>qp_ucmd_head := tailq_insert_tail (qp_ucmd_head q) u\<rparr>]\<rparr>) }"

text \<open>A write of the thread runs on the queue of the level of its command.\<close>

definition write_th_turn ::
    "'x xnvme \<Rightarrow> 'x media_state xztl_core \<Rightarrow> ztl_metadata \<Rightarrow> xztl_misc_cmd \<Rightarrow> nat \<Rightarrow> nat \<Rightarrow> 'x io_mod \<Rightarrow> 'x io_mod option" where
  "write_th_turn xn core md misc0 fuel level m = do {
     q \<leftarrow> get_at (im_qp m) level;
     case tailq_first (qp_ucmd_head q) of
       None \<Rightarrow> Some m
     | Some u \<Rightarrow> do {
         let m = m\<lparr>im_qp := (im_qp m)[level := q\<lparr>qp_ucmd_head := tl (qp_ucmd_head q)\<rparr>]\<rparr>;
         ucmd \<leftarrow> get_at (im_ucmds m) u;
         q \<leftarrow> get_at (im_qp m) (uc_prov_type ucmd);
         (ret, w) \<leftarrow> ztl_io_write_ucmd xn core md misc0 fuel
            \<lparr>iw_ucmd = ucmd, iw_q = q, iw_grp = im_grp m, iw_media = im_media m\<rparr>;
         Some (m\<lparr>im_ucmds := (im_ucmds m)[u := iw_ucmd w], im_qp := (im_qp m)[uc_prov_type ucmd := iw_q w],
           im_grp := iw_grp w, im_media := iw_media w\<rparr>) } }"

fun ztl_io_write_th ::
    "'x xnvme \<Rightarrow> 'x media_state xztl_core \<Rightarrow> ztl_metadata \<Rightarrow> xztl_misc_cmd \<Rightarrow> nat \<Rightarrow> nat \<Rightarrow> nat \<Rightarrow> 'x io_mod \<Rightarrow> 'x io_mod option" where
  "ztl_io_write_th xn core md misc0 fuel level turns m = do {
     q \<leftarrow> get_at (im_qp m) level;
     if qp_ucmd_head q = [] then Some m
     else case turns of
       0 \<Rightarrow> None
     | Suc turns' \<Rightarrow> do {
         m \<leftarrow> write_th_turn xn core md misc0 fuel level m;
         ztl_io_write_th xn core md misc0 fuel level turns' m } }"

declare ztl_io_write_th.simps [simp del]

definition ztl_io_nodeset :: "nat \<Rightarrow> int \<Rightarrow> int \<Rightarrow> 'x io_mod \<Rightarrow> 'x io_mod option" where
  "ztl_io_nodeset node_id level nr_valid m = do {
     pro \<leftarrow> gr_pro (im_grp m);
     znode \<leftarrow> get_at (pg_vnodes pro) node_id;
     let znode = znode\<lparr>nd_nr_valid := u64_of_int (int (nd_nr_valid znode) + nr_valid)\<rparr>;
     let put = (\<lambda>znode. (im_grp m)\<lparr>gr_pro := Some (pro\<lparr>pg_vnodes := (pg_vnodes pro)[node_id := znode]\<rparr>)\<rparr>);
     if nd_status znode = XZTL_ZMD_NODE_USED
     then do {
       let level = (if level \<ge> int ZROCKS_LEVEL_NUM then int ZROCKS_LEVEL_NUM - 1 else level);
       if level < 0 then None
       else do {
         q \<leftarrow> get_at (im_qp m) (nat level);
         Some (m\<lparr>im_grp := put (znode\<lparr>nd_level := level\<rparr>), im_qp := (im_qp m)[nat level := q\<lparr>qp_node := Some node_id\<rparr>]\<rparr>) } }
     else Some (m\<lparr>im_grp := put znode\<rparr>) }"

subsection \<open>Start and stop\<close>

definition ztl_io_w_queue_init ::
    "io_env \<Rightarrow> 'x media_state xztl_core \<Rightarrow> xztl_misc_cmd \<Rightarrow> znd_media \<Rightarrow> nat \<Rightarrow> 'x io_mod \<Rightarrow> (int \<times> 'x io_mod) option" where
  "ztl_io_w_queue_init env core misc0 zv level m = do {
     q \<leftarrow> get_at (im_qp m) level;
     (ret, m) \<leftarrow> ztl_io_write_rs_init env core misc0 zv level (m\<lparr>im_qp := (im_qp m)[level := q\<lparr>qp_ucmd_head := []\<rparr>]\<rparr>);
     if ret \<noteq> 0 then Some (xz XZTL_ZTL_IO_ERR, m)
     else if ev_queue_spin env level \<noteq> 0 \<or> ev_thread env level \<noteq> 0
     then do { m \<leftarrow> ztl_io_write_rs_exit core misc0 level m; Some (xz XZTL_ZTL_IO_ERR, m) }
     else do {
       q \<leftarrow> get_at (im_qp m) level;
       Some (xz XZTL_OK, m\<lparr>im_qp := (im_qp m)[level := q\<lparr>qp_flag_running := 1\<rparr>]\<rparr>) } }"

definition ztl_io_w_queue_exit ::
    "'x xnvme \<Rightarrow> 'x media_state xztl_core \<Rightarrow> ztl_metadata \<Rightarrow> xztl_misc_cmd \<Rightarrow> nat \<Rightarrow> nat \<Rightarrow> nat \<Rightarrow> 'x io_mod \<Rightarrow> 'x io_mod option" where
  "ztl_io_w_queue_exit xn core md misc0 fuel turns level m = do {
     q \<leftarrow> get_at (im_qp m) level;
     m \<leftarrow> ztl_io_write_th xn core md misc0 fuel level turns (m\<lparr>im_qp := (im_qp m)[level := q\<lparr>qp_flag_running := 0\<rparr>]\<rparr>);
     ztl_io_write_rs_exit core misc0 level m }"

fun io_each :: "(nat \<Rightarrow> 'x io_mod \<Rightarrow> (int \<times> 'x io_mod) option) \<Rightarrow> nat \<Rightarrow> nat \<Rightarrow> 'x io_mod \<Rightarrow> (int \<times> 'x io_mod) option" where
  "io_each f i 0 m = Some (xz XZTL_OK, m)"
| "io_each f i (Suc left) m = do {
     (ret, m) \<leftarrow> f i m;
     if ret \<noteq> 0 then Some (xz XZTL_ZTL_IO_ERR, m) else io_each f (i + 1) left m }"

fun io_each_exit :: "(nat \<Rightarrow> 'x io_mod \<Rightarrow> 'x io_mod option) \<Rightarrow> nat \<Rightarrow> nat \<Rightarrow> 'x io_mod \<Rightarrow> 'x io_mod option" where
  "io_each_exit f i 0 m = Some m"
| "io_each_exit f i (Suc left) m = do { m \<leftarrow> f i m; io_each_exit f (i + 1) left m }"

definition ztl_io_init ::
    "io_env \<Rightarrow> 'x media_state xztl_core \<Rightarrow> xztl_misc_cmd \<Rightarrow> znd_media \<Rightarrow> 'x io_mod \<Rightarrow> (int \<times> 'x io_mod) option" where
  "ztl_io_init env core misc0 zv m = do {
     (ret, m) \<leftarrow> io_each (ztl_io_w_queue_init env core misc0 zv) 0 ZROCKS_LEVEL_NUM m;
     if ret \<noteq> 0 then Some (ret, m)
     else do {
       (ret, m) \<leftarrow> io_each (ztl_io_read_rs_init env core misc0 zv) 0 (zv_read_ctx_num zv) m;
       if ret \<noteq> 0 then Some (ret, m)
       else if ev_mutex env \<noteq> 0 then Some (xz XZTL_ZTL_IO_ERR, m)
       else Some (xz XZTL_OK, m) } }"

definition ztl_io_exit ::
    "'x xnvme \<Rightarrow> 'x media_state xztl_core \<Rightarrow> ztl_metadata \<Rightarrow> xztl_misc_cmd \<Rightarrow> znd_media \<Rightarrow> nat \<Rightarrow> nat \<Rightarrow> 'x io_mod \<Rightarrow> 'x io_mod option" where
  "ztl_io_exit xn core md misc0 zv fuel turns m = do {
     m \<leftarrow> io_each_exit (ztl_io_w_queue_exit xn core md misc0 fuel turns) 0 ZROCKS_LEVEL_NUM m;
     io_each_exit (ztl_io_read_rs_exit core misc0) 0 (zv_read_ctx_num zv) m }"

end
