(* ===== verification/Ztl_Mgmt.thy ===== *)
theory Ztl_Mgmt
  imports Ztl_Media Ztl_Pro_Nodes
begin

text \<open>
  Management of nodes (\<open>ztl-mgmt-cmd.c\<close>): resetting and finishing the zones of a node, the
  queue of requests that the rest of the library fills, the thread that works it off, and the
  clearing of nodes without valid data.

  The group of a request is \<open>glist[0]\<close>; its nodes and its zone table are arguments. A node
  pointer is an index. \<open>cmd0\<close> is the uninitialised command on the stack. The proofs use the
  contract \<open>zone_device\<close> of the media layer.
\<close>

section \<open>Model\<close>

abbreviation (input) MGMT_MAX_RETRY :: nat where "MGMT_MAX_RETRY \<equiv> 3"
abbreviation (input) ZTL_NODE_MGMT_SZ :: nat where "ZTL_NODE_MGMT_SZ \<equiv> 384"

record xnvme_node_mgmt_entry =
  et_node :: nat
  et_mp_entry :: xztl_mp_entry
  et_op_code :: ztl_pro_mgmt_opcode

text \<open>The reset of all zones reports success whatever the device says.\<close>

definition ztl_pro_grp_reset_all_zones ::
    "'s xztl_core \<Rightarrow> xztl_zn_mcmd \<Rightarrow> app_group \<Rightarrow> 's \<Rightarrow> (int \<times> 's) option" where
  "ztl_pro_grp_reset_all_zones core cmd0 grp s = do {
     (ret, cmd, s) \<leftarrow> xztl_media_submit_zn core
        (cmd0\<lparr>zc_opcode := op XZTL_ZONE_MGMT_RESET, zc_nzones := zd_entries (gr_zmd grp)\<rparr>) s;
     Some (xz XZTL_OK, s) }"

definition ztl_mgmt_node_reset_zn ::
    "'s xztl_core \<Rightarrow> xztl_zn_mcmd \<Rightarrow> ztl_pro_zone \<Rightarrow> app_zmd_entry list \<Rightarrow> 's \<Rightarrow>
     (int \<times> app_zmd_entry list \<times> 's) option" where
  "ztl_mgmt_node_reset_zn core cmd0 zone tbl s = do {
     (ret, cmd, s) \<leftarrow> xztl_media_submit_zn core
        (cmd0\<lparr>zc_opcode := op XZTL_ZONE_MGMT_RESET, zc_addr := zn_addr zone, zc_nzones := 1\<rparr>) s;
     if ret \<noteq> 0 \<or> zc_status cmd \<noteq> 0 then Some (ret, tbl, s)
     else do {
       e \<leftarrow> zn_zmd_entry zone;
       zmde \<leftarrow> get_at tbl e;
       tbl \<leftarrow> set_at tbl e (zmde\<lparr>ze_wptr := g_sect (zn_addr zone), ze_wptr_inflight := g_sect (zn_addr zone)\<rparr>);
       Some (ret, tbl, s) } }"

fun node_reset_loop ::
    "'s xztl_core \<Rightarrow> xztl_zn_mcmd \<Rightarrow> ztl_pro_node_grp \<Rightarrow> ztl_pro_node \<Rightarrow> nat \<Rightarrow> nat \<Rightarrow> app_zmd_entry list \<Rightarrow> 's \<Rightarrow>
     (int \<times> app_zmd_entry list \<times> 's) option" where
  "node_reset_loop core cmd0 pro node i 0 tbl s = Some (xz XZTL_OK, tbl, s)"
| "node_reset_loop core cmd0 pro node i (Suc left) tbl s = do {
     zone \<leftarrow> node_zone pro node i;
     (ret, tbl, s) \<leftarrow> ztl_mgmt_node_reset_zn core cmd0 zone tbl s;
     if ret \<noteq> 0 then Some (ret, tbl, s) else node_reset_loop core cmd0 pro node (i + 1) left tbl s }"

definition ztl_mgmt_node_reset ::
    "'s xztl_core \<Rightarrow> xztl_zn_mcmd \<Rightarrow> nat \<Rightarrow> ztl_pro_node_grp \<Rightarrow> app_zmd_entry list \<Rightarrow> 's \<Rightarrow>
     (int \<times> ztl_pro_node_grp \<times> app_zmd_entry list \<times> 's) option" where
  "ztl_mgmt_node_reset core cmd0 n pro tbl s = do {
     node \<leftarrow> get_at (pg_vnodes pro) n;
     (ret, tbl, s) \<leftarrow> node_reset_loop core cmd0 pro node 0 ZTL_PRO_ZONE_NUM_INNODE tbl s;
     if ret \<noteq> 0
     then Some (ret, pro\<lparr>pg_vnodes := (pg_vnodes pro)[n := node\<lparr>nd_nr_reset_err := u32 (nd_nr_reset_err node + 1)\<rparr>]\<rparr>,
                tbl, s)
     else do {
       let node = node\<lparr>nd_status := XZTL_ZMD_NODE_FREE, nd_optimal_write_sec_left := ZTL_PRO_OPT_SEC_NUM_INNODE,
          nd_optimal_write_sec_used := 0, nd_nr_valid := 0, nd_level := -1\<rparr>;
       full \<leftarrow> tailq_remove (pg_full_head pro) n;
       Some (ret, pro\<lparr>pg_vnodes := (pg_vnodes pro)[n := node], pg_full_head := full,
                pg_free_head := tailq_insert_tail (pg_free_head pro) n, pg_nfree := u32 (pg_nfree pro + 1)\<rparr>,
             tbl, s) } }"

fun clear_invalid_loop ::
    "'s xztl_core \<Rightarrow> xztl_zn_mcmd \<Rightarrow> nat \<Rightarrow> nat \<Rightarrow> ztl_pro_node_grp \<Rightarrow> app_zmd_entry list \<Rightarrow> 's \<Rightarrow>
     (ztl_pro_node_grp \<times> app_zmd_entry list \<times> 's) option" where
  "clear_invalid_loop core cmd0 node_id 0 pro tbl s = Some (pro, tbl, s)"
| "clear_invalid_loop core cmd0 node_id (Suc left) pro tbl s = do {
     node \<leftarrow> get_at (pg_vnodes pro) node_id;
     if nd_nr_valid node = 0 \<and> nd_status node \<noteq> XZTL_ZMD_NODE_FREE
     then do {
       (_, pro, tbl, s) \<leftarrow> ztl_mgmt_node_reset core cmd0 node_id pro tbl s;
       clear_invalid_loop core cmd0 (node_id + 1) left pro tbl s }
     else clear_invalid_loop core cmd0 (node_id + 1) left pro tbl s }"

definition ztl_mgmt_clear_invalid_node ::
    "'s xztl_core \<Rightarrow> xztl_zn_mcmd \<Rightarrow> ztl_pro_node_grp \<Rightarrow> app_zmd_entry list \<Rightarrow> 's \<Rightarrow>
     (ztl_pro_node_grp \<times> app_zmd_entry list \<times> 's) option" where
  "ztl_mgmt_clear_invalid_node core cmd0 pro tbl s = clear_invalid_loop core cmd0 0 (pg_nnodes pro) pro tbl s"

text \<open>The loop of a finish reuses its command. It returns whether it ran into an error.\<close>

fun node_finish_loop ::
    "'s xztl_core \<Rightarrow> xztl_zn_mcmd \<Rightarrow> ztl_pro_node_grp \<Rightarrow> ztl_pro_node \<Rightarrow> nat \<Rightarrow> nat \<Rightarrow> app_zmd_entry list \<Rightarrow> 's \<Rightarrow>
     (int \<times> bool \<times> app_zmd_entry list \<times> 's) option" where
  "node_finish_loop core cmd pro node i 0 tbl s = Some (xz XZTL_OK, False, tbl, s)"
| "node_finish_loop core cmd pro node i (Suc left) tbl s = do {
     zone \<leftarrow> node_zone pro node i;
     (ret, cmd, s) \<leftarrow> xztl_media_submit_zn core
        (cmd\<lparr>zc_opcode := op XZTL_ZONE_MGMT_FINISH, zc_addr := zn_addr zone, zc_nzones := 1\<rparr>) s;
     if ret \<noteq> 0 \<or> zc_status cmd \<noteq> 0 then Some (ret, True, tbl, s)
     else do {
       tbl \<leftarrow> set_zone_wptr tbl zone (u64 (g_sect (zn_addr zone) + zn_capacity zone));
       node_finish_loop core cmd pro node (i + 1) left tbl s } }"

definition ztl_mgmt_node_finish ::
    "'s xztl_core \<Rightarrow> xztl_zn_mcmd \<Rightarrow> nat \<Rightarrow> ztl_pro_node_grp \<Rightarrow> app_zmd_entry list \<Rightarrow> 's \<Rightarrow>
     (int \<times> ztl_pro_node_grp \<times> app_zmd_entry list \<times> 's) option" where
  "ztl_mgmt_node_finish core cmd0 n pro tbl s = do {
     node \<leftarrow> get_at (pg_vnodes pro) n;
     (ret, err, tbl, s) \<leftarrow> node_finish_loop core cmd0 pro node 0 ZTL_PRO_ZONE_NUM_INNODE tbl s;
     let node = (if err then node\<lparr>nd_nr_finish_err := u32 (nd_nr_finish_err node + 1)\<rparr> else node);
     Some (ret, pro\<lparr>pg_vnodes := (pg_vnodes pro)[n := node]\<rparr>, tbl, s) }"

subsection \<open>The request queue and its thread\<close>

text \<open>The state the thread works on.\<close>

record 's mgmt_state =
  mg_submit_head :: "xnvme_node_mgmt_entry list"
  mg_mp :: xztl_mempool
  mg_io :: xztl_stats_data
  mg_pro :: ztl_pro_node_grp
  mg_tbl :: "app_zmd_entry list"
  mg_media :: 's

definition ztl_mgmt_submit_reset_finish ::
    "nat \<Rightarrow> ztl_pro_mgmt_opcode \<Rightarrow> 's mgmt_state \<Rightarrow> (int \<times> 's mgmt_state) option" where
  "ztl_mgmt_submit_reset_finish n op_code ms = do {
     (mp_cmd, mp) \<leftarrow> xztl_mempool_get (mg_mp ms) (mpt XZTL_NODE_MGMT_ENTRY) 0;
     let et = \<lparr>et_node = n, et_mp_entry = mp_cmd, et_op_code = op_code\<rparr>;
     Some (xz XZTL_OK, ms\<lparr>mg_mp := mp, mg_submit_head := tailq_insert_tail (mg_submit_head ms) et\<rparr>) }"

text \<open>A request is tried until it succeeds, three times at most.\<close>

fun mgmt_attempts ::
    "'s xztl_core \<Rightarrow> xztl_zn_mcmd \<Rightarrow> xnvme_node_mgmt_entry \<Rightarrow> nat \<Rightarrow> 's mgmt_state \<Rightarrow> 's mgmt_state option" where
  "mgmt_attempts core cmd0 et 0 ms = Some ms"
| "mgmt_attempts core cmd0 et (Suc left) ms = do {
     (ret, pro, tbl, s) \<leftarrow>
       (if et_op_code et = ZTL_MGMG_FULL_ZONE
        then ztl_mgmt_node_finish core cmd0 (et_node et) (mg_pro ms) (mg_tbl ms) (mg_media ms)
        else ztl_mgmt_node_reset core cmd0 (et_node et) (mg_pro ms) (mg_tbl ms) (mg_media ms));
     let ms = ms\<lparr>mg_pro := pro, mg_tbl := tbl, mg_media := s\<rparr>;
     if ret = 0 then Some ms
     else do {
       io \<leftarrow> xztl_stats_inc (st XZTL_STATS_MGMT_FAIL) 1 (mg_io ms);
       mgmt_attempts core cmd0 et left (ms\<lparr>mg_io := io\<rparr>) } }"

text \<open>One round of the thread: the first request is taken, tried, and its entry given back.\<close>

definition mgmt_thd_round :: "'s xztl_core \<Rightarrow> xztl_zn_mcmd \<Rightarrow> 's mgmt_state \<Rightarrow> 's mgmt_state option" where
  "mgmt_thd_round core cmd0 ms =
     (case mg_submit_head ms of
        [] \<Rightarrow> Some ms
      | et # rest \<Rightarrow> do {
          ms \<leftarrow> mgmt_attempts core cmd0 et MGMT_MAX_RETRY (ms\<lparr>mg_submit_head := rest\<rparr>);
          mp \<leftarrow> xztl_mempool_put (mg_mp ms) (et_mp_entry et) (mpt XZTL_NODE_MGMT_ENTRY) 0;
          Some (ms\<lparr>mg_mp := mp\<rparr>) })"

text \<open>The thread repeats the round until the queue is empty; \<open>n\<close> bounds the rounds.\<close>

fun mgmt_thd_process :: "'s xztl_core \<Rightarrow> xztl_zn_mcmd \<Rightarrow> nat \<Rightarrow> 's mgmt_state \<Rightarrow> 's mgmt_state option" where
  "mgmt_thd_process core cmd0 0 ms = Some ms"
| "mgmt_thd_process core cmd0 (Suc n) ms =
     (if mg_submit_head ms = [] then Some ms
      else do { ms \<leftarrow> mgmt_thd_round core cmd0 ms; mgmt_thd_process core cmd0 n ms })"

text \<open>The start creates the pool of request entries; 40 is the size of an entry. The thread is
  started even when that failed. The stop waits for an empty queue.\<close>

definition ztl_mgmt_init ::
    "bool \<Rightarrow> bool \<Rightarrow> (nat \<Rightarrow> nat) \<Rightarrow> (nat \<Rightarrow> nat) \<Rightarrow> 's mgmt_state \<Rightarrow>
     (int \<times> 's mgmt_state \<times> mem_event list) option" where
  "ztl_mgmt_init spin_fails pool_spin_fails ent_at opq_at ms =
     (let ms = ms\<lparr>mg_submit_head := []\<rparr>
      in if spin_fails then Some (xz XZTL_ZTL_PROV_GRP_ERR, ms, [])
         else do {
           (ret, mp, evs) \<leftarrow> xztl_mempool_create pool_spin_fails ent_at opq_at (mg_mp ms)
              (mpt XZTL_NODE_MGMT_ENTRY) 0 ZTL_NODE_MGMT_SZ 40 False False;
           Some (ret, ms\<lparr>mg_mp := mp\<rparr>, evs) })"

definition ztl_mgmt_exit :: "'s xztl_core \<Rightarrow> xztl_zn_mcmd \<Rightarrow> 's mgmt_state \<Rightarrow> 's mgmt_state option" where
  "ztl_mgmt_exit core cmd0 ms = mgmt_thd_process core cmd0 (length (mg_submit_head ms)) ms"

section \<open>Lemmas\<close>

definition reset_entry :: "ztl_pro_zone \<Rightarrow> app_zmd_entry \<Rightarrow> app_zmd_entry" where
  "reset_entry zone e = e\<lparr>ze_wptr := g_sect (zn_addr zone), ze_wptr_inflight := g_sect (zn_addr zone)\<rparr>"

text \<open>The table after the zones from \<open>i\<close> up to \<open>k\<close> of a node have been reset.\<close>

definition zones_reset ::
    "ztl_pro_node_grp \<Rightarrow> ztl_pro_node \<Rightarrow> nat \<Rightarrow> nat \<Rightarrow> app_zmd_entry list \<Rightarrow> app_zmd_entry list \<Rightarrow> bool" where
  "zones_reset pro node i k tbl tbl' \<longleftrightarrow> length tbl' = length tbl \<and>
     (\<forall>z. i \<le> z \<and> z < k \<longrightarrow> tbl' ! nent pro node z = reset_entry (nzone pro node z) (tbl ! nent pro node z)) \<and>
     (\<forall>e < length tbl. (\<forall>z. i \<le> z \<and> z < k \<longrightarrow> e \<noteq> nent pro node z) \<longrightarrow> tbl' ! e = tbl ! e)"

lemma zones_reset_step:
  assumes "node_linked pro (length tbl) node" "i < k" "k \<le> 64"
    "zones_reset pro node (i + 1) k (tbl[nent pro node i := reset_entry (nzone pro node i) (tbl ! nent pro node i)]) tbl'"
  shows "zones_reset pro node i k tbl tbl'"
proof -
  let ?e = "nent pro node i"
  let ?tbl1 = "tbl[?e := reset_entry (nzone pro node i) (tbl ! ?e)]"
  have e: "?e < length tbl" using assms(1-3) node_linkedD(3) [of pro "length tbl" node i] by simp
  have neq: "?e \<noteq> nent pro node z" if "Suc i \<le> z" "z < k" for z
    using nent_inj [OF assms(1), of z i] that assms(2,3) by auto
  have a: "length tbl' = length tbl"
    "\<And>z. Suc i \<le> z \<Longrightarrow> z < k \<Longrightarrow> tbl' ! nent pro node z = reset_entry (nzone pro node z) (?tbl1 ! nent pro node z)"
    "\<And>e. e < length tbl \<Longrightarrow> \<forall>z. Suc i \<le> z \<and> z < k \<longrightarrow> e \<noteq> nent pro node z \<Longrightarrow> tbl' ! e = ?tbl1 ! e"
    using assms(4) by (auto simp: zones_reset_def)
  have first: "tbl' ! ?e = reset_entry (nzone pro node i) (tbl ! ?e)"
    using a(3) [OF e] neq e by auto
  have "tbl' ! nent pro node z = reset_entry (nzone pro node z) (tbl ! nent pro node z)" if "i \<le> z" "z < k" for z
    using first a(2) [of z] neq [of z] that by (cases "z = i") auto
  moreover have "tbl' ! e = tbl ! e" if "e < length tbl" "\<forall>z. i \<le> z \<and> z < k \<longrightarrow> e \<noteq> nent pro node z" for e
    using a(3) [OF that(1)] that assms(2) by auto
  ultimately show ?thesis using a(1) by (simp add: zones_reset_def)
qed

text \<open>A node ready for its first slot: free, with all its space, and with the write pointers of
  its zones at their first sectors.\<close>

definition node_fresh :: "ztl_pro_node_grp \<Rightarrow> app_zmd_entry list \<Rightarrow> nat \<Rightarrow> bool" where
  "node_fresh pro tbl n \<longleftrightarrow> (let node = pg_vnodes pro ! n in
     nd_status node = XZTL_ZMD_NODE_FREE \<and> nd_optimal_write_sec_left node = ZTL_PRO_OPT_SEC_NUM_INNODE \<and>
     nd_optimal_write_sec_used node = 0 \<and> nd_nr_valid node = 0 \<and> nd_level node = -1 \<and>
     node_linked pro (length tbl) node \<and> node_at pro tbl node 0 \<and>
     (\<forall>z < 64. ze_wptr (tbl ! nent pro node z) = g_sect (zn_addr (nzone pro node z))))"

text \<open>The record of a node that has been reset, and the group with it moved to the free list.\<close>

definition reset_node :: "ztl_pro_node \<Rightarrow> ztl_pro_node" where
  "reset_node node = node\<lparr>nd_status := XZTL_ZMD_NODE_FREE, nd_optimal_write_sec_left := ZTL_PRO_OPT_SEC_NUM_INNODE,
     nd_optimal_write_sec_used := 0, nd_nr_valid := 0, nd_level := -1\<rparr>"

definition reset_pro :: "nat \<Rightarrow> ztl_pro_node_grp \<Rightarrow> ztl_pro_node_grp" where
  "reset_pro n pro = pro\<lparr>pg_vnodes := (pg_vnodes pro)[n := reset_node (pg_vnodes pro ! n)],
     pg_full_head := remove1 n (pg_full_head pro), pg_free_head := pg_free_head pro @ [n],
     pg_nfree := pg_nfree pro + 1\<rparr>"

definition reset_err :: "nat \<Rightarrow> ztl_pro_node_grp \<Rightarrow> ztl_pro_node_grp" where
  "reset_err n pro = pro\<lparr>pg_vnodes := (pg_vnodes pro)[n := (pg_vnodes pro ! n)\<lparr>nd_nr_reset_err :=
     u32 (nd_nr_reset_err (pg_vnodes pro ! n) + 1)\<rparr>]\<rparr>"

lemma nodes_of_moved:
  assumes "pg_vzones pro' = pg_vzones pro" "nd_vzones node' = nd_vzones node"
  shows "nzone pro' node' = nzone pro node" "nent pro' node' = nent pro node"
    "node_linked pro' m node' = node_linked pro m node" "node_at pro' tbl node' k = node_at pro tbl node k"
proof -
  have z: "node_zone pro' node' = node_zone pro node" by (intro ext) (simp add: node_zone_def assms)
  then show nz: "nzone pro' node' = nzone pro node" by (intro ext) (simp add: nzone_def)
  then show ne: "nent pro' node' = nent pro node" by (intro ext) (simp add: nent_def)
  show "node_linked pro' m node' = node_linked pro m node" "node_at pro' tbl node' k = node_at pro tbl node k"
    by (simp_all add: node_linked_def node_at_def z nz ne)
qed

lemma full_not_free:
  assumes "pro_wf pro" "n \<in> set (pg_full_head pro)"
  shows "n < length (pg_vnodes pro)" "pg_nfree pro + 1 < 2 ^ 32"
proof -
  show "n < length (pg_vnodes pro)" using assms by (auto simp: pro_wf_def)
  have d: "distinct (n # pg_free_head pro)" "set (n # pg_free_head pro) \<subseteq> {..<length (pg_vnodes pro)}"
    using assms by (auto simp: pro_wf_def)
  then have "length (n # pg_free_head pro) \<le> length (pg_vnodes pro)"
    using card_mono [OF _ d(2)] distinct_card [OF d(1)] by simp
  then show "pg_nfree pro + 1 < 2 ^ 32" using assms(1) by (auto simp: pro_wf_def)
qed

lemma reset_pro_wf:
  assumes "pro_wf pro" "n \<in> set (pg_full_head pro)"
  shows "pro_wf (reset_pro n pro)" "pro_wf (reset_err n pro)"
  using assms by (auto simp: pro_wf_def reset_pro_def reset_err_def reset_node_def nth_list_update)

lemma reset_pro_fresh:
  assumes "pro_wf pro" "n \<in> set (pg_full_head pro)" "node_linked pro (length tbl) (pg_vnodes pro ! n)"
    "zones_reset pro (pg_vnodes pro ! n) 0 64 tbl tbl'"
  shows "node_fresh (reset_pro n pro) tbl' n"
proof -
  have n: "n < length (pg_vnodes pro)" using assms by (auto simp: pro_wf_def)
  note m = nodes_of_moved [of "reset_pro n pro" pro "reset_node (pg_vnodes pro ! n)" "pg_vnodes pro ! n"]
  have "slots_before 0 z = 0" if "z < 64" for z using that by (simp add: slots_before_def)
  then show ?thesis using n assms(3,4)
    by (simp add: node_fresh_def Let_def reset_pro_def m [unfolded reset_pro_def reset_node_def, simplified]
      reset_node_def zones_reset_def node_at_def reset_entry_def)
qed

context zone_device
begin

lemma reset_zn:
  assumes "mm_zone_fn m = Some zone_fn" "ok s" "zn_zmd_entry zone = Some e" "e < length tbl"
  shows "\<exists>ret s'. ok s' \<and> ztl_mgmt_node_reset_zn (Some m) cmd0 zone tbl s =
    Some (ret, if ret = 0 then tbl[e := reset_entry zone (tbl ! e)] else tbl, s')"
proof -
  let ?cmd = "cmd0\<lparr>zc_opcode := op XZTL_ZONE_MGMT_RESET, zc_addr := zn_addr zone, zc_nzones := 1\<rparr>"
  obtain ret cmd' s' where r: "zone_fn ?cmd s = Some (ret, cmd', s')" "ok s'" using zone_total [OF assms(2)] by blast
  moreover have "ret = 0 \<Longrightarrow> zc_status cmd' = 0" using zone_status [of ?cmd s cmd' s'] r(1) by simp
  ultimately show ?thesis using assms
    by (auto simp: ztl_mgmt_node_reset_zn_def xztl_media_submit_zn_def reset_entry_def)
qed

lemma reset_loop:
  assumes "mm_zone_fn m = Some zone_fn" "ok s" "node_linked pro (length tbl) node" "i + left \<le> 64"
  shows "\<exists>ret k tbl' s'. node_reset_loop (Some m) cmd0 pro node i left tbl s = Some (ret, tbl', s') \<and> ok s' \<and>
    i \<le> k \<and> k \<le> i + left \<and> zones_reset pro node i k tbl tbl' \<and> (ret = 0 \<longrightarrow> k = i + left)"
  using assms(2-)
proof (induction left arbitrary: i tbl s)
  case 0
  then show ?case by (intro exI [of _ 0] exI [of _ i] exI [of _ tbl] exI [of _ s]) (auto simp: zones_reset_def)
next
  case (Suc left)
  have l: "node_zone pro node i = Some (nzone pro node i)" "zn_zmd_entry (nzone pro node i) = Some (nent pro node i)"
    "nent pro node i < length tbl" using node_linkedD [OF Suc.prems(2), of i] Suc.prems(3) by auto
  obtain ret s1 where r: "ok s1" "ztl_mgmt_node_reset_zn (Some m) cmd0 (nzone pro node i) tbl s = Some (ret,
      if ret = 0 then tbl[nent pro node i := reset_entry (nzone pro node i) (tbl ! nent pro node i)] else tbl, s1)"
    using reset_zn [OF assms(1) Suc.prems(1) l(2,3)] by blast
  show ?case
  proof (cases "ret = 0")
    case False
    then show ?thesis using r l Suc.prems
      by (intro exI [of _ ret] exI [of _ i] exI [of _ tbl] exI [of _ s1]) (auto simp: zones_reset_def)
  next
    case True
    let ?tbl1 = "tbl[nent pro node i := reset_entry (nzone pro node i) (tbl ! nent pro node i)]"
    have "node_linked pro (length ?tbl1) node" "i + 1 + left \<le> 64" using Suc.prems(2,3) by simp_all
    from Suc.IH [OF r(1) this] obtain ret' k tbl' s' where IH: "node_reset_loop (Some m) cmd0 pro node (i + 1) left ?tbl1 s1 = Some (ret', tbl', s')"
      "ok s'" "i + 1 \<le> k" "k \<le> i + 1 + left" "zones_reset pro node (i + 1) k ?tbl1 tbl'" "ret' = 0 \<longrightarrow> k = i + 1 + left"
      by blast
    moreover have "zones_reset pro node i k tbl tbl'"
      using zones_reset_step [OF Suc.prems(2) _ _ IH(5)] IH(3,4) Suc.prems(3) by auto
    moreover have "node_reset_loop (Some m) cmd0 pro node i (Suc left) tbl s = Some (ret', tbl', s')"
      using l r True IH(1) by simp
    ultimately show ?thesis using True
      by (intro exI [of _ ret'] exI [of _ k] exI [of _ tbl'] exI [of _ s']) auto
  qed
qed

lemma node_reset:
  assumes "mm_zone_fn m = Some zone_fn" "ok s" "pro_wf pro" "n \<in> set (pg_full_head pro)"
    "node_linked pro (length tbl) (pg_vnodes pro ! n)"
  shows "\<exists>ret k tbl' s'. ok s' \<and> ztl_mgmt_node_reset (Some m) cmd0 n pro tbl s =
      Some (ret, if ret = 0 then reset_pro n pro else reset_err n pro, tbl', s') \<and>
    k \<le> 64 \<and> zones_reset pro (pg_vnodes pro ! n) 0 k tbl tbl' \<and> (ret = 0 \<longrightarrow> k = 64)"
proof -
  obtain ret k tbl' s' where r:
    "node_reset_loop (Some m) cmd0 pro (pg_vnodes pro ! n) 0 64 tbl s = Some (ret, tbl', s')" "ok s'"
    "k \<le> 64" "zones_reset pro (pg_vnodes pro ! n) 0 k tbl tbl'" "ret = 0 \<longrightarrow> k = 64"
    using reset_loop [OF assms(1,2,5), where i = 0 and left = 64 and ?cmd0.0 = cmd0] by auto
  have "u32 (pg_nfree pro + 1) = pg_nfree pro + 1"
    using full_not_free [OF assms(3,4)] by (simp only: take_bit_small)
  then have "ztl_mgmt_node_reset (Some m) cmd0 n pro tbl s =
      Some (ret, if ret = 0 then reset_pro n pro else reset_err n pro, tbl', s')"
    using r(1) full_not_free [OF assms(3,4)] assms(4)
    by (simp add: ztl_mgmt_node_reset_def reset_pro_def reset_err_def reset_node_def tailq_insert_tail_def Let_def)
  then show ?thesis using r by blast
qed

end

text \<open>What the nodes of a group keep over the work of the thread: their zones, and their
  places in the full list apart from the node of the request.\<close>

definition same_zones :: "ztl_pro_node_grp \<Rightarrow> ztl_pro_node_grp \<Rightarrow> bool" where
  "same_zones pro pro' \<longleftrightarrow> pg_vzones pro' = pg_vzones pro \<and> length (pg_vnodes pro') = length (pg_vnodes pro) \<and>
     (\<forall>n < length (pg_vnodes pro). nd_vzones (pg_vnodes pro' ! n) = nd_vzones (pg_vnodes pro ! n))"

lemma same_zones_linked:
  "same_zones pro pro' \<Longrightarrow> n < length (pg_vnodes pro) \<Longrightarrow>
   node_linked pro' k (pg_vnodes pro' ! n) = node_linked pro k (pg_vnodes pro ! n)"
  by (rule nodes_of_moved(3)) (simp_all add: same_zones_def)

lemma same_zones_trans: "same_zones p q \<Longrightarrow> same_zones q r \<Longrightarrow> same_zones p r"
  by (auto simp: same_zones_def)

definition finish_err :: "nat \<Rightarrow> bool \<Rightarrow> ztl_pro_node_grp \<Rightarrow> ztl_pro_node_grp" where
  "finish_err n err pro = pro\<lparr>pg_vnodes := (pg_vnodes pro)[n := (if err
     then (pg_vnodes pro ! n)\<lparr>nd_nr_finish_err := u32 (nd_nr_finish_err (pg_vnodes pro ! n) + 1)\<rparr>
     else pg_vnodes pro ! n)]\<rparr>"

lemma moved_zones:
  "same_zones pro (reset_pro n pro)" "same_zones pro (reset_err n pro)" "same_zones pro (finish_err n err pro)"
  by (simp_all add: same_zones_def reset_pro_def reset_err_def reset_node_def finish_err_def nth_update_same)

lemma finish_err_wf: "pro_wf pro \<Longrightarrow> n < length (pg_vnodes pro) \<Longrightarrow> pro_wf (finish_err n err pro)"
  by (auto simp: pro_wf_def finish_err_def nth_list_update)

text \<open>The requests the thread can serve: their nodes are linked, a node to be reset is full, and
  no node is to be reset twice.\<close>

definition request_ok :: "xnvme_node_mgmt_entry \<Rightarrow> 's mgmt_state \<Rightarrow> bool" where
  "request_ok et ms \<longleftrightarrow> et_node et < length (pg_vnodes (mg_pro ms)) \<and>
     node_linked (mg_pro ms) (length (mg_tbl ms)) (pg_vnodes (mg_pro ms) ! et_node et) \<and>
     (et_op_code et \<noteq> ZTL_MGMG_FULL_ZONE \<longrightarrow> et_node et \<in> set (pg_full_head (mg_pro ms)))"

definition requests_ok :: "('s \<Rightarrow> bool) \<Rightarrow> 's mgmt_state \<Rightarrow> bool" where
  "requests_ok ok ms \<longleftrightarrow> ok (mg_media ms) \<and> pro_wf (mg_pro ms) \<and> length (mg_io ms) = XZTL_STATS_IO_TYPES \<and>
     (\<forall>et \<in> set (mg_submit_head ms). request_ok et ms) \<and>
     distinct (map et_node (filter (\<lambda>et. et_op_code et \<noteq> ZTL_MGMG_FULL_ZONE) (mg_submit_head ms))) \<and>
     (\<exists>p. pool_at (mg_mp ms) (mpt XZTL_NODE_MGMT_ENTRY) 0 = Some p)"

abbreviation mgmt_pool :: "'s mgmt_state \<Rightarrow> xztl_mp_entry list" where
  "mgmt_pool ms \<equiv> po_head (the (pool_at (mg_mp ms) (mpt XZTL_NODE_MGMT_ENTRY) 0))"

lemma mempool_put_head:
  assumes "pool_at mp type tid = Some p"
  shows "\<exists>mp' p'. xztl_mempool_put mp ent type tid = Some mp' \<and> pool_at mp' type tid = Some p' \<and>
    po_head p' = po_head p @ [ent]"
proof -
  have "type < length mp" "tid < length (mp ! type)" using assms by (auto simp: pool_at_def bind_eq_Some_conv)
  then show ?thesis using assms
    by (simp add: xztl_mempool_put_def pool_upd_def pool_at_def mp_give_def tailq_insert_tail_def)
qed

context zone_device
begin

lemma finish_loop:
  assumes "mm_zone_fn m = Some zone_fn" "ok s" "node_linked pro (length tbl) node" "i + left \<le> 64"
  shows "\<exists>ret err tbl' s'. node_finish_loop (Some m) cmd pro node i left tbl s = Some (ret, err, tbl', s') \<and>
    ok s' \<and> length tbl' = length tbl \<and> (err \<longrightarrow> ret \<noteq> 0) \<and>
    (\<not> err \<longrightarrow> ret = 0 \<and> (\<forall>z. i \<le> z \<and> z < i + left \<longrightarrow> ze_wptr (tbl' ! nent pro node z) =
       u64 (g_sect (zn_addr (nzone pro node z)) + zn_capacity (nzone pro node z)))) \<and>
    (\<forall>e < length tbl. ze_wptr_inflight (tbl' ! e) = ze_wptr_inflight (tbl ! e) \<and>
       ((\<forall>z. i \<le> z \<and> z < i + left \<longrightarrow> e \<noteq> nent pro node z) \<longrightarrow> tbl' ! e = tbl ! e))"
  using assms(2-)
proof (induction left arbitrary: i tbl s cmd)
  case 0
  then show ?case by auto
next
  case (Suc left)
  let ?cmd = "cmd\<lparr>zc_opcode := op XZTL_ZONE_MGMT_FINISH, zc_addr := zn_addr (nzone pro node i), zc_nzones := 1\<rparr>"
  let ?e = "nent pro node i"
  let ?v = "u64 (g_sect (zn_addr (nzone pro node i)) + zn_capacity (nzone pro node i))"
  let ?tbl1 = "tbl[?e := (tbl ! ?e)\<lparr>ze_wptr := ?v\<rparr>]"
  have l: "node_zone pro node i = Some (nzone pro node i)" "zn_zmd_entry (nzone pro node i) = Some ?e"
    "?e < length tbl" using node_linkedD [OF Suc.prems(2), of i] Suc.prems(3) by auto
  obtain ret cmd1 s1 where r: "zone_fn ?cmd s = Some (ret, cmd1, s1)" "ok s1" using zone_total [OF Suc.prems(1)] by blast
  have st: "ret = 0 \<Longrightarrow> zc_status cmd1 = 0" using zone_status [of ?cmd s cmd1 s1] r(1) by simp
  show ?case
  proof (cases "ret = 0")
    case False
    then show ?thesis using r l assms(1) by (auto simp: xztl_media_submit_zn_def)
  next
    case True
    have "node_linked pro (length ?tbl1) node" "i + 1 + left \<le> 64" using Suc.prems(2,3) by simp_all
    from Suc.IH [OF r(2) this, of cmd1] obtain ret' err tbl' s' where IH:
      "node_finish_loop (Some m) cmd1 pro node (i + 1) left ?tbl1 s1 = Some (ret', err, tbl', s')"
      "ok s'" "length tbl' = length tbl" "err \<longrightarrow> ret' \<noteq> 0"
      "\<not> err \<longrightarrow> ret' = 0 \<and> (\<forall>z. i + 1 \<le> z \<and> z < i + 1 + left \<longrightarrow> ze_wptr (tbl' ! nent pro node z) =
         u64 (g_sect (zn_addr (nzone pro node z)) + zn_capacity (nzone pro node z)))"
      "\<forall>e < length tbl. ze_wptr_inflight (tbl' ! e) = ze_wptr_inflight (?tbl1 ! e) \<and>
         ((\<forall>z. i + 1 \<le> z \<and> z < i + 1 + left \<longrightarrow> e \<noteq> nent pro node z) \<longrightarrow> tbl' ! e = ?tbl1 ! e)"
      by auto
    have neq: "?e \<noteq> nent pro node z" if "i + 1 \<le> z" "z < i + 1 + left" for z
      using nent_inj [OF Suc.prems(2), of z i] that Suc.prems(3) by auto
    have loop: "node_finish_loop (Some m) cmd pro node i (Suc left) tbl s = Some (ret', err, tbl', s')"
      using l r True st IH(1) assms(1) set_zone_wptr_Some [OF l(2,3)] by (simp add: xztl_media_submit_zn_def)
    have "ze_wptr (tbl' ! ?e) = ?v" using IH(6) l(3) neq by auto
    then have "ze_wptr (tbl' ! nent pro node z) = u64 (g_sect (zn_addr (nzone pro node z)) + zn_capacity (nzone pro node z))"
      if "\<not> err" "i \<le> z" "z < i + Suc left" for z
      using IH(5) that by (cases "z = i") auto
    moreover have "ze_wptr_inflight (tbl' ! e) = ze_wptr_inflight (tbl ! e)" if "e < length tbl" for e
      using IH(6) that by (cases "e = ?e") auto
    moreover have "tbl' ! e = tbl ! e" if "e < length tbl" "\<forall>z. i \<le> z \<and> z < i + Suc left \<longrightarrow> e \<noteq> nent pro node z" for e
      using IH(6) that by auto
    ultimately show ?thesis using loop IH by auto
  qed
qed

lemma node_finish:
  assumes "mm_zone_fn m = Some zone_fn" "ok s" "n < length (pg_vnodes pro)"
    "node_linked pro (length tbl) (pg_vnodes pro ! n)"
  shows "\<exists>ret err tbl' s'. ztl_mgmt_node_finish (Some m) cmd0 n pro tbl s = Some (ret, finish_err n err pro, tbl', s') \<and>
    ok s' \<and> length tbl' = length tbl"
proof -
  obtain ret err tbl' s' where
    "node_finish_loop (Some m) cmd0 pro (pg_vnodes pro ! n) 0 64 tbl s = Some (ret, err, tbl', s')"
    "ok s'" "length tbl' = length tbl"
    using finish_loop [OF assms(1,2,4), where i = 0 and left = 64 and cmd = cmd0] by auto
  then show ?thesis using assms(3) by (auto simp: ztl_mgmt_node_finish_def finish_err_def)
qed

lemma request_run:
  assumes "mm_zone_fn m = Some zone_fn" "ok (mg_media ms)" "pro_wf (mg_pro ms)" "request_ok et ms"
  shows "\<exists>ret pro tbl s. (if et_op_code et = ZTL_MGMG_FULL_ZONE
       then ztl_mgmt_node_finish (Some m) cmd0 (et_node et) (mg_pro ms) (mg_tbl ms) (mg_media ms)
       else ztl_mgmt_node_reset (Some m) cmd0 (et_node et) (mg_pro ms) (mg_tbl ms) (mg_media ms)) =
       Some (ret, pro, tbl, s) \<and> ok s \<and> pro_wf pro \<and> same_zones (mg_pro ms) pro \<and>
     length tbl = length (mg_tbl ms) \<and> (ret \<noteq> 0 \<or> et_op_code et = ZTL_MGMG_FULL_ZONE \<longrightarrow> pg_full_head pro = pg_full_head (mg_pro ms)) \<and>
     (\<forall>n \<in> set (pg_full_head (mg_pro ms)). n \<noteq> et_node et \<longrightarrow> n \<in> set (pg_full_head pro))"
proof -
  let ?n = "et_node et"
  have req: "?n < length (pg_vnodes (mg_pro ms))" "node_linked (mg_pro ms) (length (mg_tbl ms)) (pg_vnodes (mg_pro ms) ! ?n)"
    using assms(4) by (auto simp: request_ok_def)
  show ?thesis
  proof (cases "et_op_code et = ZTL_MGMG_FULL_ZONE")
    case True
    from node_finish [OF assms(1,2) req] show ?thesis
      using True finish_err_wf [OF assms(3) req(1)] moved_zones(3) [of "mg_pro ms" ?n]
      by (fastforce simp: finish_err_def)
  next
    case False
    then have full: "?n \<in> set (pg_full_head (mg_pro ms))" using assms(4) by (simp add: request_ok_def)
    show ?thesis using node_reset [OF assms(1-3) full req(2), of cmd0] False
        reset_pro_wf [OF assms(3) full] moved_zones(1,2) [of "mg_pro ms" ?n]
      by (fastforce simp: reset_pro_def reset_err_def zones_reset_def)
  qed
qed

lemma attempts:
  assumes "mm_zone_fn m = Some zone_fn" "ok (mg_media ms)" "pro_wf (mg_pro ms)"
    "length (mg_io ms) = XZTL_STATS_IO_TYPES" "request_ok et ms"
  shows "\<exists>ms'. mgmt_attempts (Some m) cmd0 et left ms = Some ms' \<and> ok (mg_media ms') \<and> pro_wf (mg_pro ms') \<and>
    length (mg_io ms') = XZTL_STATS_IO_TYPES \<and> same_zones (mg_pro ms) (mg_pro ms') \<and>
    length (mg_tbl ms') = length (mg_tbl ms) \<and> mg_mp ms' = mg_mp ms \<and> mg_submit_head ms' = mg_submit_head ms \<and>
    (\<forall>n. n \<in> set (pg_full_head (mg_pro ms)) \<longrightarrow> (et_op_code et = ZTL_MGMG_FULL_ZONE \<or> n \<noteq> et_node et) \<longrightarrow>
       n \<in> set (pg_full_head (mg_pro ms')))"
  using assms(2-)
proof (induction left arbitrary: ms)
  case 0
  then show ?case by (simp add: same_zones_def)
next
  case (Suc left)
  let ?n = "et_node et"
  let ?run = "if et_op_code et = ZTL_MGMG_FULL_ZONE
     then ztl_mgmt_node_finish (Some m) cmd0 ?n (mg_pro ms) (mg_tbl ms) (mg_media ms)
     else ztl_mgmt_node_reset (Some m) cmd0 ?n (mg_pro ms) (mg_tbl ms) (mg_media ms)"
  have req: "?n < length (pg_vnodes (mg_pro ms))" "node_linked (mg_pro ms) (length (mg_tbl ms)) (pg_vnodes (mg_pro ms) ! ?n)"
    using Suc.prems(4) by (auto simp: request_ok_def)
  from request_run [OF assms(1) Suc.prems(1,2,4)] obtain ret pro tbl s where r: "?run = Some (ret, pro, tbl, s)" "ok s" "pro_wf pro" "same_zones (mg_pro ms) pro"
      "length tbl = length (mg_tbl ms)" "ret \<noteq> 0 \<or> et_op_code et = ZTL_MGMG_FULL_ZONE \<longrightarrow> pg_full_head pro = pg_full_head (mg_pro ms)"
      "\<forall>n \<in> set (pg_full_head (mg_pro ms)). n \<noteq> ?n \<longrightarrow> n \<in> set (pg_full_head pro)" by blast
  let ?ms = "ms\<lparr>mg_pro := pro, mg_tbl := tbl, mg_media := s\<rparr>"
  show ?case
  proof (cases "ret = 0")
    case True
    then show ?thesis using r Suc.prems(3) by (auto simp del: mgmt_attempts.simps(1))
  next
    case False
    let ?io = "(mg_io ms)[st XZTL_STATS_MGMT_FAIL := u64 (mg_io ms ! st XZTL_STATS_MGMT_FAIL + 1)]"
    have "request_ok et (?ms\<lparr>mg_io := ?io\<rparr>)"
      using Suc.prems(4) r(4-6) False same_zones_linked [OF r(4) req(1)]
      by (auto simp: request_ok_def same_zones_def)
    then obtain ms' where IH: "mgmt_attempts (Some m) cmd0 et left (?ms\<lparr>mg_io := ?io\<rparr>) = Some ms'" "ok (mg_media ms')"
      "pro_wf (mg_pro ms')" "length (mg_io ms') = 22" "same_zones pro (mg_pro ms')" "length (mg_tbl ms') = length tbl"
      "mg_mp ms' = mg_mp ms" "mg_submit_head ms' = mg_submit_head ms"
      "\<forall>n. n \<in> set (pg_full_head pro) \<longrightarrow> (et_op_code et = ZTL_MGMG_FULL_ZONE \<or> n \<noteq> ?n) \<longrightarrow> n \<in> set (pg_full_head (mg_pro ms'))"
      using Suc.IH [of "?ms\<lparr>mg_io := ?io\<rparr>"] r(2,3) Suc.prems(3) by auto
    moreover have "xztl_stats_inc (st XZTL_STATS_MGMT_FAIL) 1 (mg_io ms) = Some ?io"
      using Suc.prems(3) by (simp add: xztl_stats_inc_Some)
    ultimately show ?thesis using r False same_zones_trans [OF r(4) IH(5)] by auto
  qed
qed

lemma thd_round:
  assumes "mm_zone_fn m = Some zone_fn" "requests_ok ok ms" "mg_submit_head ms = et # rest"
  shows "\<exists>ms'. mgmt_thd_round (Some m) cmd0 ms = Some ms' \<and> requests_ok ok ms' \<and> mg_submit_head ms' = rest \<and>
    mgmt_pool ms' = mgmt_pool ms @ [et_mp_entry et]"
proof -
  let ?ms = "ms\<lparr>mg_submit_head := rest\<rparr>"
  have r: "ok (mg_media ?ms)" "pro_wf (mg_pro ?ms)" "length (mg_io ?ms) = XZTL_STATS_IO_TYPES" "request_ok et ?ms"
    "\<forall>x \<in> set rest. request_ok x ms"
    "distinct (map et_node (filter (\<lambda>et. et_op_code et \<noteq> ZTL_MGMG_FULL_ZONE) (et # rest)))"
    using assms(2,3) by (auto simp: requests_ok_def request_ok_def)
  obtain p where p: "pool_at (mg_mp ms) (mpt XZTL_NODE_MGMT_ENTRY) 0 = Some p"
    using assms(2) by (auto simp: requests_ok_def)
  from attempts [OF assms(1) r(1-4), where ?cmd0.0 = cmd0 and left = 3] obtain ms1 where a:
    "mgmt_attempts (Some m) cmd0 et 3 ?ms = Some ms1" "ok (mg_media ms1)" "pro_wf (mg_pro ms1)"
    "length (mg_io ms1) = 22" "same_zones (mg_pro ms) (mg_pro ms1)" "length (mg_tbl ms1) = length (mg_tbl ms)"
    "mg_mp ms1 = mg_mp ms" "mg_submit_head ms1 = rest"
    "\<forall>n. n \<in> set (pg_full_head (mg_pro ms)) \<longrightarrow> (et_op_code et = ZTL_MGMG_FULL_ZONE \<or> n \<noteq> et_node et) \<longrightarrow>
       n \<in> set (pg_full_head (mg_pro ms1))"
    by auto
  obtain mp' p' where put: "xztl_mempool_put (mg_mp ms) (et_mp_entry et) (mpt XZTL_NODE_MGMT_ENTRY) 0 = Some mp'"
    "pool_at mp' (mpt XZTL_NODE_MGMT_ENTRY) 0 = Some p'" "po_head p' = po_head p @ [et_mp_entry et]"
    using mempool_put_head [OF p] by blast
  have "request_ok x (ms1\<lparr>mg_mp := mp'\<rparr>)" if "x \<in> set rest" for x
  proof -
    have x: "request_ok x ms" using r(5) that by blast
    then have "et_op_code et = ZTL_MGMG_FULL_ZONE \<or> et_node x \<noteq> et_node et" if "et_op_code x \<noteq> ZTL_MGMG_FULL_ZONE"
      using r(6) that \<open>x \<in> set rest\<close> by (force simp: image_iff)
    then show ?thesis using x a(5,6,9) same_zones_linked [OF a(5), of "et_node x"]
      by (auto simp: request_ok_def same_zones_def)
  qed
  then have "requests_ok ok (ms1\<lparr>mg_mp := mp'\<rparr>)" using a put r(6) by (auto simp: requests_ok_def split: if_splits)
  moreover have "mgmt_thd_round (Some m) cmd0 ms = Some (ms1\<lparr>mg_mp := mp'\<rparr>)"
    using a(1,7) put(1) assms(3) by (simp add: mgmt_thd_round_def)
  ultimately show ?thesis using a(8) put p by simp
qed

lemma thd_drains:
  assumes "mm_zone_fn m = Some zone_fn" "requests_ok ok ms" "length (mg_submit_head ms) \<le> n"
  shows "\<exists>ms'. mgmt_thd_process (Some m) cmd0 n ms = Some ms' \<and> mg_submit_head ms' = [] \<and> requests_ok ok ms' \<and>
    mgmt_pool ms' = mgmt_pool ms @ map et_mp_entry (mg_submit_head ms)"
  using assms(2,3)
proof (induction n arbitrary: ms)
  case 0
  then show ?case by simp
next
  case (Suc n)
  show ?case
  proof (cases "mg_submit_head ms")
    case Nil
    then show ?thesis using Suc.prems by simp
  next
    case (Cons et rest)
    from thd_round [OF assms(1) Suc.prems(1) Cons, of cmd0] obtain ms1 where
      "mgmt_thd_round (Some m) cmd0 ms = Some ms1" "requests_ok ok ms1" "mg_submit_head ms1 = rest"
      "mgmt_pool ms1 = mgmt_pool ms @ [et_mp_entry et]" by blast
    then show ?thesis using Suc.IH [of ms1] Suc.prems(2) Cons by auto
  qed
qed

end

lemma mgmt_ret_ok:
  assumes "\<And>d lba all oper x. fst (xn_mgmt xn d lba all oper x) = 0"
    "znd_media_zone_mgmt xn zv cmd s = Some (ret, cmd', s')"
    "zc_opcode cmd = op XZTL_ZONE_MGMT_RESET \<or> zc_opcode cmd = op XZTL_ZONE_MGMT_FINISH"
  shows "ret = 0"
  using assms(2,3)
  by (auto simp: znd_media_zone_mgmt_def znd_media_zone_manage_def Let_def bind_eq_Some_conv case_prod_beta assms(1))

lemma reset_loop_ok:
  assumes "\<And>d lba all oper x. fst (xn_mgmt xn d lba all oper x) = 0" "mm_zone_fn m = Some (znd_media_zone_mgmt xn zv)"
    "node_reset_loop (Some m) cmd0 pro node i left tbl s = Some (ret, tbl', s')"
  shows "ret = 0"
  using assms(3)
proof (induction left arbitrary: i tbl s)
  case 0
  then show ?case by simp
next
  case (Suc left)
  then show ?case using mgmt_ret_ok [OF assms(1)] assms(2)
    by (fastforce simp: bind_eq_Some_conv ztl_mgmt_node_reset_zn_def xztl_media_submit_zn_def split: if_splits)
qed

lemma finish_loop_ok:
  assumes "\<And>d lba all oper x. fst (xn_mgmt xn d lba all oper x) = 0" "mm_zone_fn m = Some (znd_media_zone_mgmt xn zv)"
    "node_finish_loop (Some m) cmd pro node i left tbl s = Some (ret, err, tbl', s')"
  shows "ret = 0"
  using assms(3)
proof (induction left arbitrary: i tbl s cmd)
  case 0
  then show ?case by simp
next
  case (Suc left)
  then show ?case using mgmt_ret_ok [OF assms(1)] assms(2)
    by (fastforce simp: bind_eq_Some_conv xztl_media_submit_zn_def split: if_splits)
qed

section \<open>Properties\<close>

text \<open>C28: Resetting a full node through the layer for zoned devices always returns. On
  success the node is ready for its first slot and stands at the end of the free list, the
  invariant of the nodes holds, and only the entries of its own zones have changed. On failure
  the node keeps its place in the full list and counts the error.\<close>

theorem node_reset_correct:
  assumes "mm_zone_fn m = Some (znd_media_zone_mgmt xn zv)" "length (ms_io s) = XZTL_STATS_IO_TYPES"
    and "pro_wf pro" "n \<in> set (pg_full_head pro)" "node_linked pro (length tbl) (pg_vnodes pro ! n)"
  shows "\<exists>ret pro' tbl' s'. ztl_mgmt_node_reset (Some m) cmd0 n pro tbl s = Some (ret, pro', tbl', s') \<and>
    pro_wf pro' \<and> (\<forall>e < length tbl. (\<forall>z < 64. e \<noteq> nent pro (pg_vnodes pro ! n) z) \<longrightarrow> tbl' ! e = tbl ! e) \<and>
    (if ret = 0 then node_fresh pro' tbl' n \<and> pg_free_head pro' = pg_free_head pro @ [n] \<and> n \<notin> set (pg_full_head pro')
     else pg_full_head pro' = pg_full_head pro \<and> pg_free_head pro' = pg_free_head pro \<and>
       nd_nr_reset_err (pg_vnodes pro' ! n) = u32 (nd_nr_reset_err (pg_vnodes pro ! n) + 1))"
proof -
  obtain ret k tbl' s' where r: "ztl_mgmt_node_reset (Some m) cmd0 n pro tbl s =
      Some (ret, if ret = 0 then reset_pro n pro else reset_err n pro, tbl', s')"
    "k \<le> 64" "zones_reset pro (pg_vnodes pro ! n) 0 k tbl tbl'" "ret = 0 \<longrightarrow> k = 64"
    using znd.node_reset [OF assms] by blast
  have "distinct (pg_full_head pro)" "n < length (pg_vnodes pro)" using assms(3,4) by (auto simp: pro_wf_def)
  moreover have "tbl' ! e = tbl ! e" if "e < length tbl" "\<forall>z < 64. e \<noteq> nent pro (pg_vnodes pro ! n) z" for e
    using r(2,3) that by (auto simp: zones_reset_def)
  ultimately show ?thesis using r reset_pro_wf [OF assms(3,4)] reset_pro_fresh [OF assms(3-5)]
    by (cases "ret = 0") (auto simp: reset_pro_def reset_err_def)
qed

definition sample_full :: ztl_pro_node_grp where
  "sample_full = sample_pro\<lparr>pg_free_head := [], pg_full_head := [0], pg_nfree := 0\<rparr>"

lemma sample_full_wf:
  "pro_wf sample_full \<and> 0 \<in> set (pg_full_head sample_full) \<and>
   node_linked sample_full (length sample_tbl) (pg_vnodes sample_full ! 0)"
  using sample_linked nodes_of_moved(3) [of sample_full sample_pro sample_node sample_node "length sample_tbl"]
  by (simp add: pro_wf_def sample_full_def sample_pro_def sample_node_def zero_node_def)

definition sample_ms :: "sample_x media_state" where
  "sample_ms = \<lparr>ms_io = replicate 22 0, ms_tctx = Map.empty, ms_done = [], ms_x = \<lparr>sx_dev = \<lambda>b. [], sx_buf = [], sx_free = []\<rparr>\<rparr>"

theorem node_reset_correct_witness:
  "\<exists>ret pro' tbl' s'. ztl_mgmt_node_reset (Some (znd_media_fns sample_xn sample_zv)) sample_zn_mcmd 0 sample_full
      sample_tbl sample_ms = Some (ret, pro', tbl', s') \<and> pro_wf pro'"
proof -
  have m: "mm_zone_fn (znd_media_fns sample_xn sample_zv) =
      Some (znd_media_zone_mgmt sample_xn (sample_zv\<lparr>zv_geo := geo_fill (zv_geo sample_zv)\<rparr>))"
    by (simp add: znd_media_fns_def Let_def)
  have io: "length (ms_io sample_ms) = XZTL_STATS_IO_TYPES" by (simp add: sample_ms_def)
  show ?thesis using node_reset_correct [OF m io] sample_full_wf by blast
qed

text \<open>C29: The thread serves every request: from a state whose requests are proper, as many
  rounds as there are requests leave the queue empty whatever the device answers, every entry
  is back in its pool in the order of the requests, and the stop of the module returns.\<close>

theorem mgmt_thread_drains:
  assumes "mm_zone_fn m = Some (znd_media_zone_mgmt xn zv)"
    and "requests_ok (\<lambda>s. length (ms_io s) = XZTL_STATS_IO_TYPES) ms"
  shows "\<exists>ms'. ztl_mgmt_exit (Some m) cmd0 ms = Some ms' \<and> mg_submit_head ms' = [] \<and> pro_wf (mg_pro ms') \<and>
    mgmt_pool ms' = mgmt_pool ms @ map et_mp_entry (mg_submit_head ms)"
  using znd.thd_drains [OF assms order.refl, of cmd0] by (auto simp: ztl_mgmt_exit_def requests_ok_def)

definition sample_mgmt :: "sample_x media_state mgmt_state" where
  "sample_mgmt = \<lparr>mg_submit_head = [\<lparr>et_node = 0, et_mp_entry = \<lparr>en_ptr = 1, en_opaque = 2, en_tid = 0, en_entry_id = 0\<rparr>,
      et_op_code = ZTL_MGMG_RESET_ZONE\<rparr>],
     mg_mp = sample_mp, mg_io = replicate 22 0, mg_pro = sample_full, mg_tbl = sample_tbl, mg_media = sample_ms\<rparr>"

theorem mgmt_thread_drains_witness:
  "\<exists>ms'. ztl_mgmt_exit (Some (znd_media_fns sample_xn sample_zv)) sample_zn_mcmd sample_mgmt = Some ms' \<and>
     mg_submit_head ms' = []"
proof -
  have m: "mm_zone_fn (znd_media_fns sample_xn sample_zv) =
      Some (znd_media_zone_mgmt sample_xn (sample_zv\<lparr>zv_geo := geo_fill (zv_geo sample_zv)\<rparr>))"
    by (simp add: znd_media_fns_def Let_def)
  have "requests_ok (\<lambda>s. length (ms_io s) = XZTL_STATS_IO_TYPES) sample_mgmt"
    using sample_full_wf
    by (auto simp: requests_ok_def request_ok_def sample_mgmt_def sample_ms_def pool_at_def sample_mp_def pro_wf_def)
  from mgmt_thread_drains [OF m this, of sample_zn_mcmd] show ?thesis by auto
qed

text \<open>C34: The reset takes its node off the full list without a look at the state of the node.
  The clearing of nodes without valid data also resets nodes that a write queue holds: when the
  first node to clear is in use and the device resets its zones, the call is undefined.\<close>

theorem clear_invalid_used:
  assumes dev: "\<And>d lba all oper x. fst (xn_mgmt xn d lba all oper x) = 0"
    and m: "mm_zone_fn m = Some (znd_media_zone_mgmt xn zv)" "length (ms_io s) = XZTL_STATS_IO_TYPES"
    and pro: "pro_wf pro" "pg_nnodes pro = length (pg_vnodes pro)" "n \<in> set (pg_used_head pro)"
      "node_linked pro (length tbl) (pg_vnodes pro ! n)"
    and first: "\<forall>j < n. nd_nr_valid (pg_vnodes pro ! j) \<noteq> 0 \<or> nd_status (pg_vnodes pro ! j) = XZTL_ZMD_NODE_FREE"
      "nd_nr_valid (pg_vnodes pro ! n) = 0" "nd_status (pg_vnodes pro ! n) = XZTL_ZMD_NODE_USED"
  shows "ztl_mgmt_clear_invalid_node (Some m) cmd0 pro tbl s = None"
proof -
  have n: "n < length (pg_vnodes pro)" "n \<notin> set (pg_full_head pro)" using pro by (auto simp: pro_wf_def)
  obtain ret tbl' s' where "node_reset_loop (Some m) cmd0 pro (pg_vnodes pro ! n) 0 64 tbl s = Some (ret, tbl', s')"
    using znd.reset_loop [OF m pro(4), where i = 0 and left = 64 and ?cmd0.0 = cmd0] by auto
  moreover have "ret = 0" using reset_loop_ok [OF _ m(1) calculation] dev by blast
  ultimately have reset: "ztl_mgmt_node_reset (Some m) cmd0 n pro tbl s = None"
    using n by (simp add: ztl_mgmt_node_reset_def tailq_remove_def)
  have "clear_invalid_loop (Some m) cmd0 j (length (pg_vnodes pro) - j) pro tbl s = None" if "j \<le> n" for j
    using that
  proof (induction "n - j" arbitrary: j)
    case 0
    then show ?case using n(1) reset first(2,3)
      by (cases "length (pg_vnodes pro) - n") auto
  next
    case (Suc d)
    then have j: "j < n" "j < length (pg_vnodes pro)" "length (pg_vnodes pro) - j = Suc (length (pg_vnodes pro) - Suc j)"
      using n(1) by auto
    then show ?case using Suc.hyps(1) [of "Suc j"] Suc.hyps(2) first(1) by auto
  qed
  from this [of 0] show ?thesis using pro(2) by (simp add: ztl_mgmt_clear_invalid_node_def)
qed

definition sample_used :: ztl_pro_node_grp where
  "sample_used = sample_pro\<lparr>pg_vnodes := [sample_node\<lparr>nd_status := XZTL_ZMD_NODE_USED\<rparr>], pg_free_head := [],
     pg_used_head := [0], pg_nfree := 0\<rparr>"

theorem clear_invalid_used_witness:
  "get_node_claim 0 sample_pro = Some sample_used \<and>
   ztl_mgmt_clear_invalid_node (Some (znd_media_fns sample_xn sample_zv)) sample_zn_mcmd sample_used sample_tbl sample_ms = None"
proof
  show "get_node_claim 0 sample_pro = Some sample_used"
    by (simp add: get_node_claim_def sample_used_def sample_pro_def tailq_insert_tail_def usub_small)
  have m: "mm_zone_fn (znd_media_fns sample_xn sample_zv) =
      Some (znd_media_zone_mgmt sample_xn (sample_zv\<lparr>zv_geo := geo_fill (zv_geo sample_zv)\<rparr>))"
    by (simp add: znd_media_fns_def Let_def)
  have io: "length (ms_io sample_ms) = XZTL_STATS_IO_TYPES" by (simp add: sample_ms_def)
  have "node_linked sample_used (length sample_tbl) (pg_vnodes sample_used ! 0)"
    using sample_linked nodes_of_moved(3) [of sample_used sample_pro "sample_node\<lparr>nd_status := XZTL_ZMD_NODE_USED\<rparr>"
      sample_node "length sample_tbl"] by (simp add: sample_used_def)
  then show "ztl_mgmt_clear_invalid_node (Some (znd_media_fns sample_xn sample_zv)) sample_zn_mcmd sample_used sample_tbl
      sample_ms = None"
    by (intro clear_invalid_used [OF _ m io, of sample_used 0])
      (simp_all add: sample_xn_def pro_wf_def sample_used_def sample_pro_def sample_node_def zero_node_def)
qed

text \<open>C35: Finishing a node moves the write pointers of its zones to their end, but neither the
  in-flight pointers, from which the next addresses are taken, nor the space and the state of
  the node: a write queue that holds the node goes on handing out its slots.\<close>

theorem node_finish_keeps_space:
  assumes "mm_zone_fn m = Some (znd_media_zone_mgmt xn zv)" "length (ms_io s) = XZTL_STATS_IO_TYPES"
    and "n < length (pg_vnodes pro)" "node_linked pro (length tbl) (pg_vnodes pro ! n)"
    and "ztl_mgmt_node_finish (Some m) cmd0 n pro tbl s = Some (0, pro', tbl', s')"
  shows "pro' = pro \<and> (\<forall>z < 64. let zone = nzone pro (pg_vnodes pro ! n) z; e = nent pro (pg_vnodes pro ! n) z
     in ze_wptr (tbl' ! e) = u64 (g_sect (zn_addr zone) + zn_capacity zone) \<and>
        ze_wptr_inflight (tbl' ! e) = ze_wptr_inflight (tbl ! e))"
proof -
  from znd.finish_loop [OF assms(1,2,4), where i = 0 and left = 64 and cmd = cmd0] obtain ret err tbl1 s1 where f:
    "node_finish_loop (Some m) cmd0 pro (pg_vnodes pro ! n) 0 64 tbl s = Some (ret, err, tbl1, s1)" "err \<longrightarrow> ret \<noteq> 0"
    "\<not> err \<longrightarrow> (\<forall>z < 64. ze_wptr (tbl1 ! nent pro (pg_vnodes pro ! n) z) =
       u64 (g_sect (zn_addr (nzone pro (pg_vnodes pro ! n) z)) + zn_capacity (nzone pro (pg_vnodes pro ! n) z)))"
    "\<forall>e < length tbl. ze_wptr_inflight (tbl1 ! e) = ze_wptr_inflight (tbl ! e)"
    by auto
  then have "pro' = pro" "tbl' = tbl1" "\<not> err" using assms(3,5) by (auto simp: ztl_mgmt_node_finish_def)
  then show ?thesis using f(3,4) node_linkedD(3) [OF assms(4)] by (auto simp: Let_def)
qed

theorem node_finish_keeps_space_witness:
  "\<exists>tbl' s'. ztl_mgmt_node_finish (Some (znd_media_fns sample_xn sample_zv)) sample_zn_mcmd 0 sample_full sample_tbl
      sample_ms = Some (0, sample_full, tbl', s')"
proof -
  let ?m = "znd_media_fns sample_xn sample_zv"
  have m: "mm_zone_fn ?m = Some (znd_media_zone_mgmt sample_xn (sample_zv\<lparr>zv_geo := geo_fill (zv_geo sample_zv)\<rparr>))"
    by (simp add: znd_media_fns_def Let_def)
  have io: "length (ms_io sample_ms) = XZTL_STATS_IO_TYPES" by (simp add: sample_ms_def)
  have n: "0 < length (pg_vnodes sample_full)" by (simp add: sample_full_def sample_pro_def)
  obtain ret pro' tbl' s' where r:
    "ztl_mgmt_node_finish (Some ?m) sample_zn_mcmd 0 sample_full sample_tbl sample_ms = Some (ret, pro', tbl', s')"
    using znd.node_finish [OF m io n] sample_full_wf by blast
  moreover have "ret = 0" using finish_loop_ok [OF _ m] r n
    by (auto simp: ztl_mgmt_node_finish_def bind_eq_Some_conv sample_xn_def Let_def)
  ultimately show ?thesis using node_finish_keeps_space [OF m io n] sample_full_wf by blast
qed

end
