(* ===== verification/Ztl_Map.thy ===== *)
theory Ztl_Map
  imports Xztl_Core
begin

text \<open>
  The mapping of object numbers to device addresses: the page cache of \<open>ztl-map.c\<close> and the table
  of mapping pages of \<open>ztl-mpe.c\<close>.

  A word of the table is either the address of a mapping page or, with the flag bit set, the address of
  the cache entry that holds the page. The cache entries stand in one array from \<open>ca_base\<close>, so the
  pointer to entry \<open>i\<close> is \<open>ca_base + 80 * i\<close>. The lists of free and used entries are lists of
  indices. The results of the allocations of the start are parameters.

  The cache has more pages than the table (8192 and 256), so a page is never evicted, and the cache
  behaves like an array from the object numbers to the values (\<open>map_refines\<close>).
\<close>

section \<open>Model\<close>

abbreviation (input) MAP_BUF_PGS :: nat where "MAP_BUF_PGS \<equiv> 8192"
abbreviation (input) MAP_N_CACHES :: nat where "MAP_N_CACHES \<equiv> 1"
abbreviation (input) ZTL_MPE_PG_SEC :: nat where "ZTL_MPE_PG_SEC \<equiv> 8"
abbreviation (input) ZTL_MPE_CPGS :: nat where "ZTL_MPE_CPGS \<equiv> 256"

definition MAP_ADDR_FLAG :: map_md_addr where
  "MAP_ADDR_FLAG = push_bit 63 1"

text \<open>\<open>ce_buf\<close> is the buffer as entries, null when it is not allocated; \<open>ce_md_entry\<close> is the index in the
  table.\<close>

record map_cache_entry =
  ce_dirty :: nat
  ce_buf :: "app_map_entry list option"
  ce_buf_sz :: nat
  ce_addr :: app_map_entry
  ce_md_entry :: "nat option"
  ce_cache :: nat

record map_cache =
  ca_base :: nat
  ca_pg_buf :: "map_cache_entry list"
  ca_mbf_head :: "nat list"
  ca_mbu_head :: "nat list"
  ca_nfree :: nat
  ca_nused :: nat
  ca_id :: nat

record map_world =
  mw_caches :: "map_cache list"
  mw_cp_running :: nat
  mw_map_pg_sz :: nat
  mw_map_ent_per_pg :: nat
  mw_tbl :: "map_md_addr list"

text \<open>The size of \<open>struct map_cache_entry\<close>, and the entry behind a pointer.\<close>

abbreviation (input) CACHE_ENTRY_SZ :: nat where "CACHE_ENTRY_SZ \<equiv> 80"

definition entry_ptr :: "map_cache \<Rightarrow> nat \<Rightarrow> nat" where
  "entry_ptr cache i = ca_base cache + CACHE_ENTRY_SZ * i"

definition entry_of_ptr :: "map_cache \<Rightarrow> nat \<Rightarrow> nat option" where
  "entry_of_ptr cache p =
     (if ca_base cache \<le> p \<and> (p - ca_base cache) mod CACHE_ENTRY_SZ = 0 \<and>
         (p - ca_base cache) div CACHE_ENTRY_SZ < length (ca_pg_buf cache)
      then Some ((p - ca_base cache) div CACHE_ENTRY_SZ) else None)"

definition put_entry :: "nat \<Rightarrow> map_cache_entry \<Rightarrow> map_cache \<Rightarrow> map_cache" where
  "put_entry i ent cache = cache\<lparr>ca_pg_buf := (ca_pg_buf cache)[i := ent]\<rparr>"

subsection \<open>The table of mapping pages\<close>

fun mpe_create_loop :: "nat \<Rightarrow> nat \<Rightarrow> map_md_addr list \<Rightarrow> map_md_addr list option" where
  "mpe_create_loop i 0 tbl = Some tbl"
| "mpe_create_loop i (Suc left) tbl = do { tbl \<leftarrow> set_at tbl i 0; mpe_create_loop (i + 1) left tbl }"

definition ztl_mpe_create :: "nat \<Rightarrow> map_md_addr list \<Rightarrow> (int \<times> map_md_addr list) option" where
  "ztl_mpe_create entries tbl = do { tbl \<leftarrow> mpe_create_loop 0 entries tbl; Some (xz XZTL_OK, tbl) }"

definition ztl_mpe_load :: int where "ztl_mpe_load = xz XZTL_OK"
definition ztl_mpe_flush :: int where "ztl_mpe_flush = xz XZTL_OK"

text \<open>The pointer to an entry of the table: any index gives one, as in the code.\<close>

definition ztl_mpe_get :: "nat \<Rightarrow> nat" where
  "ztl_mpe_get index = index"

subsection \<open>Pages in the cache\<close>

definition map_nvm_read :: "map_cache_entry \<Rightarrow> int" where
  "map_nvm_read ent = xz XZTL_OK"

definition map_evict_pg_cache :: "map_cache \<Rightarrow> map_md_addr list \<Rightarrow> (int \<times> map_cache \<times> map_md_addr list) option" where
  "map_evict_pg_cache cache tbl =
     (case tailq_first (ca_mbu_head cache) of
        None \<Rightarrow> Some (xz XZTL_ZTL_MAP_ERR, cache, tbl)
      | Some i \<Rightarrow> do {
          used \<leftarrow> tailq_remove (ca_mbu_head cache) i;
          let cache = cache\<lparr>ca_mbu_head := used, ca_nused := usub 32 (ca_nused cache) 1\<rparr>;
          ent \<leftarrow> get_at (ca_pg_buf cache) i;
          md \<leftarrow> ce_md_entry ent;
          tbl \<leftarrow> set_at tbl md (ce_addr ent);
          let cache = put_entry i (ent\<lparr>ce_addr := 0, ce_md_entry := None\<rparr>) cache;
          Some (xz XZTL_OK, cache\<lparr>ca_mbf_head := list_insert_head (ca_mbf_head cache) i,
            ca_nfree := u32 (ca_nfree cache + 1)\<rparr>, tbl) })"

text \<open>A page that does not exist yet is filled with zeros.\<close>

fun map_zero_loop :: "nat \<Rightarrow> nat \<Rightarrow> app_map_entry list \<Rightarrow> app_map_entry list option" where
  "map_zero_loop ent_id 0 buf = Some buf"
| "map_zero_loop ent_id (Suc left) buf = do { buf \<leftarrow> set_at buf ent_id 0; map_zero_loop (ent_id + 1) left buf }"

text \<open>With a checkpoint running and no free entry the code waits for another thread: \<open>None\<close>.\<close>

definition map_load_evict :: "nat \<Rightarrow> map_cache \<Rightarrow> map_md_addr list \<Rightarrow> (int \<times> map_cache \<times> map_md_addr list) option" where
  "map_load_evict cp_running cache tbl =
     (if ca_mbf_head cache = []
      then if cp_running \<noteq> 0 then None
           else do {
             (ret, cache, tbl) \<leftarrow> map_evict_pg_cache cache tbl;
             Some (if ret \<noteq> 0 then xz XZTL_ZTL_MAP_ERR else 0, cache, tbl) }
      else Some (0, cache, tbl))"

definition map_load_pg_cache ::
    "nat \<Rightarrow> nat \<Rightarrow> nat \<Rightarrow> map_cache \<Rightarrow> map_md_addr list \<Rightarrow> (int \<times> map_cache \<times> map_md_addr list) option" where
  "map_load_pg_cache cp_running ent_per_pg md cache tbl = do {
     (ret, cache, tbl) \<leftarrow> map_load_evict cp_running cache tbl;
     if ret \<noteq> 0 then Some (ret, cache, tbl)
     else case tailq_first (ca_mbf_head cache) of
       None \<Rightarrow> Some (xz XZTL_ZTL_MAP_ERR, cache, tbl)
     | Some i \<Rightarrow> do {
         free \<leftarrow> tailq_remove (ca_mbf_head cache) i;
         let cache = cache\<lparr>ca_mbf_head := free, ca_nfree := usub 32 (ca_nfree cache) 1\<rparr>;
         ent \<leftarrow> get_at (ca_pg_buf cache) i;
         let ent = ent\<lparr>ce_md_entry := Some md\<rparr>;
         word \<leftarrow> get_at tbl md;
         (ret, ent) \<leftarrow> (if word = 0
           then do {
             buf \<leftarrow> ce_buf ent;
             buf \<leftarrow> map_zero_loop 0 ent_per_pg buf;
             Some (0, ent\<lparr>ce_buf := Some buf, ce_dirty := 1\<rparr>) }
           else Some (map_nvm_read ent, ent));
         if ret \<noteq> 0
         then Some (xz XZTL_ZTL_MAP_ERR, (put_entry i (ent\<lparr>ce_md_entry := None, ce_addr := 0\<rparr>) cache)
                \<lparr>ca_mbf_head := list_insert_head (ca_mbf_head cache) i, ca_nfree := u32 (ca_nfree cache + 1)\<rparr>, tbl)
         else do {
           tbl \<leftarrow> set_at tbl md (word_of_nat (entry_ptr cache i) OR MAP_ADDR_FLAG);
           Some (xz XZTL_OK, (put_entry i ent cache)\<lparr>ca_mbu_head := tailq_insert_tail (ca_mbu_head cache) i,
             ca_nused := u32 (ca_nused cache + 1)\<rparr>, tbl) } } }"

text \<open>The result \<open>None\<close> inside is the null pointer.\<close>

definition map_get_cache_entry :: "nat \<Rightarrow> map_world \<Rightarrow> (nat option \<times> map_world) option" where
  "map_get_cache_entry key w = do {
     let cache_id = key mod MAP_N_CACHES;
     let md = ztl_mpe_get (u32 (key div mw_map_ent_per_pg w));
     word \<leftarrow> get_at (mw_tbl w) md;
     cache \<leftarrow> get_at (mw_caches w) cache_id;
     (ret, cache, tbl) \<leftarrow> (if md_flag word = 0
       then map_load_pg_cache (mw_cp_running w) (mw_map_ent_per_pg w) md cache (mw_tbl w)
       else do {
         i \<leftarrow> entry_of_ptr cache (md_addr word);
         if mw_cp_running w \<noteq> 0 then Some (0, cache, mw_tbl w)
         else do {
           used \<leftarrow> tailq_remove (ca_mbu_head cache) i;
           Some (0, cache\<lparr>ca_mbu_head := tailq_insert_tail used i\<rparr>, mw_tbl w) } });
     let w = w\<lparr>mw_caches := (mw_caches w)[cache_id := cache], mw_tbl := tbl\<rparr>;
     if ret \<noteq> 0 then Some (None, w)
     else do {
       word \<leftarrow> get_at (mw_tbl w) md;
       i \<leftarrow> entry_of_ptr cache (md_addr word);
       Some (Some i, w) } }"

definition map_upsert_md :: "nat \<Rightarrow> nat \<Rightarrow> nat \<Rightarrow> int" where
  "map_upsert_md index new_addr old_addr = xz XZTL_OK"

text \<open>\<open>old\<close> is the variable of the caller for the previous value.\<close>

definition map_upsert ::
    "nat \<Rightarrow> app_map_entry \<Rightarrow> app_map_entry \<Rightarrow> app_map_entry \<Rightarrow> map_world \<Rightarrow> (int \<times> app_map_entry \<times> map_world) option" where
  "map_upsert key val old old_caller w =
     (if mw_map_ent_per_pg w = 0 then None
      else do {
        let ent_off = u32 (key mod mw_map_ent_per_pg w);
        if mw_map_ent_per_pg w \<le> ent_off then Some (xz XZTL_ZTL_MAP_ERR, old, w)
        else do {
          (ce, w) \<leftarrow> map_get_cache_entry key w;
          case ce of
            None \<Rightarrow> Some (xz XZTL_ZTL_MAP_ERR, old, w)
          | Some i \<Rightarrow> do {
              cache \<leftarrow> get_at (mw_caches w) 0;
              ent \<leftarrow> get_at (ca_pg_buf cache) i;
              buf \<leftarrow> ce_buf ent;
              cur \<leftarrow> get_at buf ent_off;
              if old_caller \<noteq> 0 \<and> cur \<noteq> old_caller then Some (xz XZTL_ZTL_MAP_ERR, cur, w)
              else Some (xz XZTL_OK, cur, w\<lparr>mw_caches := (mw_caches w)[0 :=
                put_entry i (ent\<lparr>ce_buf := Some (buf[ent_off := val])\<rparr>) cache]\<rparr>) } } })"

definition map_read :: "nat \<Rightarrow> map_world \<Rightarrow> (nat \<times> map_world) option" where
  "map_read key w =
     (if mw_map_ent_per_pg w = 0 then None
      else do {
        let ent_off = u32 (key mod mw_map_ent_per_pg w);
        if mw_map_ent_per_pg w \<le> ent_off then Some (AND64, w)
        else do {
          (ce, w) \<leftarrow> map_get_cache_entry key w;
          case ce of
            None \<Rightarrow> Some (AND64, w)
          | Some i \<Rightarrow> do {
              cache \<leftarrow> get_at (mw_caches w) 0;
              ent \<leftarrow> get_at (ca_pg_buf cache) i;
              buf \<leftarrow> ce_buf ent;
              map_ent \<leftarrow> get_at buf ent_off;
              Some (me_offset map_ent, w) } } })"

subsection \<open>Start and stop\<close>

definition zero_cache_entry :: map_cache_entry where
  "zero_cache_entry = \<lparr>ce_dirty = 0, ce_buf = None, ce_buf_sz = 0, ce_addr = 0, ce_md_entry = None, ce_cache = 0\<rparr>"

definition zero_cache :: map_cache where
  "zero_cache = \<lparr>ca_base = 0, ca_pg_buf = [], ca_mbf_head = [], ca_mbu_head = [], ca_nfree = 0, ca_nused = 0, ca_id = 0\<rparr>"

text \<open>\<open>buf_at pg_i\<close> tells whether the buffer of page \<open>pg_i\<close> can be allocated. The result is the number of
  pages linked and whether all of them are.\<close>

fun map_init_pages :: "(nat \<Rightarrow> bool) \<Rightarrow> nat \<Rightarrow> nat \<Rightarrow> nat \<Rightarrow> map_cache \<Rightarrow> (bool \<times> nat \<times> map_cache) option" where
  "map_init_pages buf_at pg_sz pg_i 0 cache = Some (True, pg_i, cache)"
| "map_init_pages buf_at pg_sz pg_i (Suc left) cache = do {
     ent \<leftarrow> get_at (ca_pg_buf cache) pg_i;
     let ent = ent\<lparr>ce_dirty := 0, ce_buf_sz := pg_sz, ce_addr := 0, ce_md_entry := None, ce_cache := ca_id cache\<rparr>;
     if \<not> buf_at pg_i then Some (False, pg_i, put_entry pg_i (ent\<lparr>ce_buf := None\<rparr>) cache)
     else map_init_pages buf_at pg_sz (pg_i + 1) left
       ((put_entry pg_i (ent\<lparr>ce_buf := Some (replicate (pg_sz div 8) 0)\<rparr>) cache)
        \<lparr>ca_mbf_head := list_insert_head (ca_mbf_head cache) pg_i, ca_nfree := u32 (ca_nfree cache + 1)\<rparr>) }"

fun map_free_pages :: "nat \<Rightarrow> map_cache \<Rightarrow> map_cache option" where
  "map_free_pages 0 cache = Some cache"
| "map_free_pages (Suc pg_i) cache = do {
     free \<leftarrow> tailq_remove (ca_mbf_head cache) pg_i;
     ent \<leftarrow> get_at (ca_pg_buf cache) pg_i;
     map_free_pages pg_i ((put_entry pg_i (ent\<lparr>ce_buf := None\<rparr>) cache)
       \<lparr>ca_mbf_head := free, ca_nfree := usub 32 (ca_nfree cache) 1\<rparr>) }"

text \<open>\<open>pg_buf\<close> is the address of the array of entries (0 when it cannot be allocated), \<open>spin\<close> and \<open>mutex\<close> the
  results of the initialization of the locks.\<close>

definition map_init_cache ::
    "nat \<Rightarrow> int \<Rightarrow> int \<Rightarrow> (nat \<Rightarrow> bool) \<Rightarrow> nat \<Rightarrow> map_cache \<Rightarrow> (int \<times> map_cache) option" where
  "map_init_cache pg_buf spin mutex buf_at pg_sz cache =
     (if pg_buf = 0 then Some (xz XZTL_ZTL_MAP_ERR, cache\<lparr>ca_base := 0, ca_pg_buf := []\<rparr>)
      else if spin \<noteq> 0 \<or> mutex \<noteq> 0 then Some (xz XZTL_ZTL_MAP_ERR, cache\<lparr>ca_base := pg_buf, ca_pg_buf := []\<rparr>)
      else do {
        (ok, pg_i, cache) \<leftarrow> map_init_pages buf_at pg_sz 0 MAP_BUF_PGS
          (cache\<lparr>ca_base := pg_buf, ca_pg_buf := replicate MAP_BUF_PGS zero_cache_entry, ca_mbf_head := [],
            ca_mbu_head := [], ca_nfree := 0, ca_nused := 0\<rparr>);
        if ok then Some (xz XZTL_OK, cache)
        else do {
          cache \<leftarrow> map_free_pages pg_i cache;
          Some (xz XZTL_ZTL_MAP_ERR, cache\<lparr>ca_pg_buf := []\<rparr>) } })"

definition map_flush_cache :: "map_cache \<Rightarrow> nat \<Rightarrow> map_cache" where
  "map_flush_cache cache full = cache"

definition map_flush_all_caches :: "map_world \<Rightarrow> map_world option" where
  "map_flush_all_caches w = do {
     cache \<leftarrow> get_at (mw_caches w) 0;
     Some (w\<lparr>mw_caches := (mw_caches w)[0 := map_flush_cache cache 0]\<rparr>) }"

fun map_exit_loop :: "nat list \<Rightarrow> map_cache \<Rightarrow> map_cache option" where
  "map_exit_loop [] cache = Some (cache\<lparr>ca_mbf_head := []\<rparr>)"
| "map_exit_loop (i # free) cache = do {
     ent \<leftarrow> get_at (ca_pg_buf cache) i;
     map_exit_loop free ((put_entry i (ent\<lparr>ce_buf := None\<rparr>) cache)\<lparr>ca_nfree := usub 32 (ca_nfree cache) 1\<rparr>) }"

definition map_exit_cache :: "map_cache \<Rightarrow> map_cache option" where
  "map_exit_cache cache = do {
     let cache = map_flush_cache cache 1;
     map_exit_loop (ca_mbf_head cache) cache }"

text \<open>The entries are released with their array; what is left in \<open>ca_pg_buf\<close> of the result of
  \<open>map_exit_cache\<close> shows which buffers were not.\<close>

definition map_exit :: "map_world \<Rightarrow> map_world option" where
  "map_exit w = do {
     cache \<leftarrow> get_at (mw_caches w) 0;
     cache \<leftarrow> map_exit_cache cache;
     Some (w\<lparr>mw_caches := []\<rparr>) }"

definition map_init ::
    "'s xztl_core \<Rightarrow> bool \<Rightarrow> nat \<Rightarrow> int \<Rightarrow> int \<Rightarrow> (nat \<Rightarrow> bool) \<Rightarrow> map_world \<Rightarrow> (int \<times> map_world) option" where
  "map_init core caches_ok pg_buf spin mutex buf_at w =
     (if \<not> caches_ok then Some (xz XZTL_ZTL_MAP_ERR, w\<lparr>mw_caches := []\<rparr>)
      else do {
        m \<leftarrow> core;
        let pg_sz = u32 (ZTL_MPE_PG_SEC * ge_nbytes (mm_geo m));
        let w = w\<lparr>mw_map_pg_sz := pg_sz, mw_map_ent_per_pg := pg_sz div 8\<rparr>;
        (ret, cache) \<leftarrow> map_init_cache pg_buf spin mutex buf_at pg_sz zero_cache;
        if ret \<noteq> 0 then Some (xz XZTL_ZTL_MAP_ERR, w\<lparr>mw_caches := []\<rparr>)
        else Some (xz XZTL_OK, w\<lparr>mw_caches := [cache\<lparr>ca_id := 0\<rparr>], mw_cp_running := 0\<rparr>) })"

section \<open>Words of the table\<close>

text \<open>The pointer to a cache entry together with the flag can be taken apart again.\<close>

definition ptr_word :: "map_cache \<Rightarrow> nat \<Rightarrow> map_md_addr" where
  "ptr_word cache i = word_of_nat (entry_ptr cache i) OR MAP_ADDR_FLAG"

definition base_ok :: "map_cache \<Rightarrow> bool" where
  "base_ok cache \<longleftrightarrow> 0 < ca_base cache \<and> ca_base cache + CACHE_ENTRY_SZ * MAP_BUF_PGS \<le> 2 ^ 63 \<and> length (ca_pg_buf cache) = MAP_BUF_PGS"

lemma bit_flag: "bit MAP_ADDR_FLAG n \<longleftrightarrow> n = 63"
  unfolding MAP_ADDR_FLAG_def by (auto simp only: bit_push_bit_iff bit_1_iff possible_bit_word) simp

lemma flag_word:
  assumes "p < 2 ^ 63"
  shows "md_addr (word_of_nat p OR MAP_ADDR_FLAG) = p" "md_flag (word_of_nat p OR MAP_ADDR_FLAG) = 1"
proof -
  have nb: "n < 63" if "bit p n" for n
    using assms that by (metis bit_take_bit_iff take_bit_nat_eq_self)
  have "md_addr (word_of_nat p OR MAP_ADDR_FLAG) = p"
  proof (rule bit_eqI)
    fix n
    show "bit (md_addr (word_of_nat p OR MAP_ADDR_FLAG)) n = bit p n"
      unfolding md_addr_def using nb [of n] by (auto simp: bit_bf_get bit_or_iff bit_flag bit_simps)
  qed
  then show "md_addr (word_of_nat p OR MAP_ADDR_FLAG) = p" .
  have "md_flag (word_of_nat p OR MAP_ADDR_FLAG) = 1"
  proof (rule bit_eqI)
    fix n
    show "bit (md_flag (word_of_nat p OR MAP_ADDR_FLAG)) n = bit (1 :: nat) n"
      unfolding md_flag_def by (auto simp: bit_bf_get bit_or_iff bit_flag bit_1_iff simp del: One_nat_def)
  qed
  then show "md_flag (word_of_nat p OR MAP_ADDR_FLAG) = 1" .
qed

lemma ptr_word_parts:
  assumes "base_ok cache" "i < MAP_BUF_PGS"
  shows "md_addr (ptr_word cache i) = entry_ptr cache i" "md_flag (ptr_word cache i) = 1" "ptr_word cache i \<noteq> 0"
    "entry_of_ptr cache (entry_ptr cache i) = Some i"
proof -
  have "entry_ptr cache i < 2 ^ 63" using assms by (simp add: base_ok_def entry_ptr_def)
  from flag_word [OF this] show "md_addr (ptr_word cache i) = entry_ptr cache i" "md_flag (ptr_word cache i) = 1"
    by (simp_all add: ptr_word_def)
  moreover have "md_flag 0 = 0" by (simp add: md_addr_defs bf_get_def)
  ultimately show "ptr_word cache i \<noteq> 0" by auto
  show "entry_of_ptr cache (entry_ptr cache i) = Some i" using assms by (simp add: entry_of_ptr_def entry_ptr_def base_ok_def)
qed

lemma ptr_word_inj:
  assumes "base_ok cache" "i < MAP_BUF_PGS" "j < MAP_BUF_PGS"
  shows "ptr_word cache i = ptr_word cache j \<longleftrightarrow> i = j"
proof
  assume "ptr_word cache i = ptr_word cache j"
  then have "entry_ptr cache i = entry_ptr cache j"
    using ptr_word_parts(1) [OF assms(1,2)] ptr_word_parts(1) [OF assms(1,3)] by simp
  then show "i = j" by (simp add: entry_ptr_def)
qed simp

lemma flag_zero [simp]: "md_flag 0 = 0"
  by (simp add: md_addr_defs bf_get_def)

section \<open>Invariant\<close>

text \<open>Every entry is in one of the two lists and has a buffer, and the used entries and the flagged words of the
  table refer to each other.\<close>

definition cache_inv :: "nat \<Rightarrow> map_md_addr list \<Rightarrow> map_cache \<Rightarrow> bool" where
  "cache_inv epp tbl c \<longleftrightarrow> base_ok c \<and> length tbl = ZTL_MPE_CPGS \<and>
     distinct (ca_mbf_head c @ ca_mbu_head c) \<and> set (ca_mbf_head c) \<union> set (ca_mbu_head c) = {..<MAP_BUF_PGS} \<and>
     ca_nfree c = length (ca_mbf_head c) \<and> ca_nused c = length (ca_mbu_head c) \<and>
     (\<forall>i < MAP_BUF_PGS. \<exists>b. ce_buf (ca_pg_buf c ! i) = Some b \<and> length b = epp) \<and>
     (\<forall>p < ZTL_MPE_CPGS. tbl ! p = 0 \<or> (\<exists>i \<in> set (ca_mbu_head c). tbl ! p = ptr_word c i \<and> ce_md_entry (ca_pg_buf c ! i) = Some p)) \<and>
     (\<forall>i \<in> set (ca_mbu_head c). \<exists>p < ZTL_MPE_CPGS. ce_md_entry (ca_pg_buf c ! i) = Some p \<and> tbl ! p = ptr_word c i)"

definition map_inv :: "map_world \<Rightarrow> bool" where
  "map_inv w \<longleftrightarrow> 0 < mw_map_ent_per_pg w \<and> mw_map_ent_per_pg w < 2 ^ 32 \<and> mw_cp_running w = 0 \<and>
     (\<exists>c. mw_caches w = [c] \<and> cache_inv (mw_map_ent_per_pg w) (mw_tbl w) c)"

text \<open>The contents of page \<open>p\<close>, and the value of a key.\<close>

definition page_buf :: "map_md_addr list \<Rightarrow> map_cache \<Rightarrow> nat \<Rightarrow> nat \<Rightarrow> app_map_entry" where
  "page_buf tbl c p off = (if md_flag (tbl ! p) = 0 then 0
     else the (ce_buf (ca_pg_buf c ! the (entry_of_ptr c (md_addr (tbl ! p))))) ! off)"

definition map_lookup :: "map_world \<Rightarrow> nat \<Rightarrow> app_map_entry" where
  "map_lookup w key = (let p = key div mw_map_ent_per_pg w in
     if p < ZTL_MPE_CPGS then page_buf (mw_tbl w) (hd (mw_caches w)) p (key mod mw_map_ent_per_pg w) else 0)"

text \<open>A used entry belongs to one page, so at most 256 entries are used and one is always free.\<close>

lemma cache_has_free:
  assumes "cache_inv epp tbl c"
  shows "ca_mbf_head c \<noteq> []"
proof
  assume e: "ca_mbf_head c = []"
  then have u: "set (ca_mbu_head c) = {..<MAP_BUF_PGS}" using assms by (simp add: cache_inv_def)
  have p: "\<exists>p < 256. ce_md_entry (ca_pg_buf c ! i) = Some p \<and> tbl ! p = ptr_word c i" if "i < MAP_BUF_PGS" for i
    using assms u that by (simp add: cache_inv_def)
  have "inj_on (\<lambda>i. the (ce_md_entry (ca_pg_buf c ! i))) {..<MAP_BUF_PGS}"
  proof (rule inj_onI)
    fix i j assume ij: "i \<in> {..<MAP_BUF_PGS}" "j \<in> {..<MAP_BUF_PGS}" "the (ce_md_entry (ca_pg_buf c ! i)) = the (ce_md_entry (ca_pg_buf c ! j))"
    then have "ptr_word c i = ptr_word c j" using p [of i] p [of j] by auto
    then show "i = j" using ptr_word_inj [of c i j] ij assms by (simp add: cache_inv_def)
  qed
  moreover have "(\<lambda>i. the (ce_md_entry (ca_pg_buf c ! i))) ` {..<MAP_BUF_PGS} \<subseteq> {..<256}" using p by force
  ultimately have "card {..<MAP_BUF_PGS} \<le> card {..<256 :: nat}" by (intro card_inj_on_le [where f = "\<lambda>i. the (ce_md_entry (ca_pg_buf c ! i))"]) auto
  then show False by simp
qed

lemma map_zero_loop_all: "ent_id + left = length buf \<Longrightarrow> map_zero_loop ent_id left buf = Some (take ent_id buf @ replicate left 0)"
proof (induction left arbitrary: ent_id buf)
  case (Suc left)
  then show ?case by (simp add: take_Suc_conv_app_nth)
qed simp

lemma cache_invD:
  assumes "cache_inv epp tbl c"
  shows "base_ok c" "length tbl = ZTL_MPE_CPGS" "distinct (ca_mbf_head c)" "distinct (ca_mbu_head c)"
    "set (ca_mbf_head c) \<inter> set (ca_mbu_head c) = {}" "set (ca_mbf_head c) \<union> set (ca_mbu_head c) = {..<MAP_BUF_PGS}"
    "ca_nfree c = length (ca_mbf_head c)" "ca_nused c = length (ca_mbu_head c)"
    "i < MAP_BUF_PGS \<Longrightarrow> \<exists>b. ce_buf (ca_pg_buf c ! i) = Some b \<and> length b = epp"
    "p < ZTL_MPE_CPGS \<Longrightarrow> tbl ! p = 0 \<or> (\<exists>i \<in> set (ca_mbu_head c). tbl ! p = ptr_word c i \<and> ce_md_entry (ca_pg_buf c ! i) = Some p)"
    "i \<in> set (ca_mbu_head c) \<Longrightarrow> \<exists>p < ZTL_MPE_CPGS. ce_md_entry (ca_pg_buf c ! i) = Some p \<and> tbl ! p = ptr_word c i"
  using assms unfolding cache_inv_def by simp_all

lemma used_lt: "cache_inv epp tbl c \<Longrightarrow> i \<in> set (ca_mbu_head c) \<Longrightarrow> i < MAP_BUF_PGS"
  using cache_invD(6) by blast

lemma ptr_word_cong: "ca_base c' = ca_base c \<Longrightarrow> ptr_word c' i = ptr_word c i"
  by (simp add: ptr_word_def entry_ptr_def)

text \<open>Entry \<open>i\<close> holds page \<open>p\<close>.\<close>

lemma page_buf_cached:
  assumes "base_ok c" "i < MAP_BUF_PGS" "tbl ! p = ptr_word c i" "ce_buf (ca_pg_buf c ! i) = Some b"
  shows "page_buf tbl c p off = b ! off"
  using ptr_word_parts [OF assms(1,2)] assms(3,4) by (simp add: page_buf_def)

lemma page_buf_empty: "tbl ! p = 0 \<Longrightarrow> page_buf tbl c p off = 0"
  by (simp add: page_buf_def)

text \<open>The contents of a page depend only on the words of the table and on the buffers of the used entries.\<close>

lemma page_buf_same:
  assumes inv: "cache_inv epp tbl c" and p: "p < ZTL_MPE_CPGS" and base: "ca_base c' = ca_base c" "length (ca_pg_buf c') = MAP_BUF_PGS"
    and same: "tbl' ! p = tbl ! p" "\<And>i. i \<in> set (ca_mbu_head c) \<Longrightarrow> tbl ! p = ptr_word c i \<Longrightarrow> ce_buf (ca_pg_buf c' ! i) = ce_buf (ca_pg_buf c ! i)"
  shows "page_buf tbl' c' p = page_buf tbl c p"
proof
  fix off
  have b: "base_ok c" "base_ok c'" using cache_invD(1) [OF inv] base by (simp_all add: base_ok_def)
  from cache_invD(10) [OF inv p] show "page_buf tbl' c' p off = page_buf tbl c p off"
  proof
    assume "tbl ! p = 0"
    then show ?thesis using same(1) by (simp add: page_buf_empty)
  next
    assume "\<exists>i \<in> set (ca_mbu_head c). tbl ! p = ptr_word c i \<and> ce_md_entry (ca_pg_buf c ! i) = Some p"
    then obtain i where i: "i \<in> set (ca_mbu_head c)" "tbl ! p = ptr_word c i" by blast
    obtain bf where bf: "ce_buf (ca_pg_buf c ! i) = Some bf" using cache_invD(9) [OF inv used_lt [OF inv i(1)]] by blast
    have "page_buf tbl' c' p off = bf ! off"
      using same i bf ptr_word_cong [OF base(1)] by (intro page_buf_cached [OF b(2) used_lt [OF inv i(1)]]) simp_all
    then show ?thesis using page_buf_cached [OF b(1) used_lt [OF inv i(1)] i(2) bf] by simp
  qed
qed

text \<open>Loading a page that does not exist yet.\<close>

lemma load_page:
  assumes inv: "cache_inv epp tbl c" and md: "md < ZTL_MPE_CPGS" "tbl ! md = 0"
  shows "\<exists>i c'. map_load_pg_cache cp epp md c tbl = Some (0, c', tbl[md := ptr_word c' i]) \<and>
    cache_inv epp (tbl[md := ptr_word c' i]) c' \<and> i < MAP_BUF_PGS \<and>
    (\<forall>p < ZTL_MPE_CPGS. \<forall>off < epp. page_buf (tbl[md := ptr_word c' i]) c' p off = page_buf tbl c p off)"
proof -
  obtain i free where f: "ca_mbf_head c = i # free" using cache_has_free [OF inv] by (cases "ca_mbf_head c") auto
  note d = cache_invD [OF inv]
  have i: "i < MAP_BUF_PGS" "i \<notin> set (ca_mbu_head c)" "i \<notin> set free" using d(3,5,6) f by auto
  obtain b where b: "ce_buf (ca_pg_buf c ! i) = Some b" "length b = epp" using d(9) [OF i(1)] by blast
  define ent where "ent = (ca_pg_buf c ! i)\<lparr>ce_md_entry := Some md, ce_buf := Some (replicate epp 0), ce_dirty := 1\<rparr>"
  define c' where "c' = c\<lparr>ca_mbf_head := free, ca_nfree := length free, ca_pg_buf := (ca_pg_buf c)[i := ent],
    ca_mbu_head := ca_mbu_head c @ [i], ca_nused := Suc (length (ca_mbu_head c))\<rparr>"
  have len: "length (ca_pg_buf c) = MAP_BUF_PGS" using d(1) by (simp add: base_ok_def)
  have card: "length (ca_mbf_head c) + length (ca_mbu_head c) = MAP_BUF_PGS"
    using distinct_card [of "ca_mbf_head c @ ca_mbu_head c"] d(3-6) by simp
  have u: "usub 32 (ca_nfree c) 1 = length free" "u32 (ca_nused c + 1) = Suc (length (ca_mbu_head c))"
    using d(7,8) f card by (simp_all add: usub_small u32_small)
  have pw: "ptr_word c' j = ptr_word c j" for j by (rule ptr_word_cong) (simp add: c'_def)
  have load: "map_load_pg_cache cp epp md c tbl = Some (0, c', tbl[md := ptr_word c' i])"
    using f i len md d(2) b u map_zero_loop_all [of 0 epp b]
    by (simp add: map_load_pg_cache_def map_load_evict_def put_entry_def c'_def ent_def tailq_insert_tail_def ptr_word_def entry_ptr_def Let_def)
  have at: "ca_pg_buf c' ! j = (if j = i then ent else ca_pg_buf c ! j)" for j using i len by (simp add: c'_def)
  have used: "set (ca_mbu_head c') = insert i (set (ca_mbu_head c))" by (simp add: c'_def)
  have b': "base_ok c'" using d(1) by (simp add: base_ok_def c'_def)
  have nz: "ptr_word c j \<noteq> 0" if "j \<in> set (ca_mbu_head c)" for j using ptr_word_parts(3) [OF d(1) used_lt [OF inv that]] .
  have bufs: "\<exists>b. ce_buf (ca_pg_buf c' ! j) = Some b \<and> length b = epp" if "j < MAP_BUF_PGS" for j
    using d(9) [OF that] unfolding at by (simp add: ent_def)
  have words: "tbl[md := ptr_word c' i] ! q = 0 \<or> (\<exists>j \<in> set (ca_mbu_head c').
      tbl[md := ptr_word c' i] ! q = ptr_word c' j \<and> ce_md_entry (ca_pg_buf c' ! j) = Some q)"
    if "q < ZTL_MPE_CPGS" for q
  proof (cases "q = md")
    case True
    then show ?thesis using d(2) that used by (simp add: at ent_def)
  next
    case False
    from d(10) [OF that] show ?thesis
    proof
      assume "\<exists>j \<in> set (ca_mbu_head c). tbl ! q = ptr_word c j \<and> ce_md_entry (ca_pg_buf c ! j) = Some q"
      then obtain j where "j \<in> set (ca_mbu_head c)" "tbl ! q = ptr_word c j" "ce_md_entry (ca_pg_buf c ! j) = Some q" by blast
      then show ?thesis using False i(2) pw used by (intro disjI2 bexI [of _ j]) (auto simp: at)
    qed (use False in simp)
  qed
  have refs: "\<exists>q < ZTL_MPE_CPGS. ce_md_entry (ca_pg_buf c' ! j) = Some q \<and> tbl[md := ptr_word c' i] ! q = ptr_word c' j"
    if "j \<in> set (ca_mbu_head c')" for j
  proof (cases "j = i")
    case True
    then show ?thesis unfolding at using md d(2) by (simp add: ent_def)
  next
    case False
    then have j: "j \<in> set (ca_mbu_head c)" using that used by simp
    then obtain q where q: "q < ZTL_MPE_CPGS" "ce_md_entry (ca_pg_buf c ! j) = Some q" "tbl ! q = ptr_word c j" using d(11) by blast
    then have "q \<noteq> md" using md(2) nz [OF j] by auto
    then show ?thesis unfolding at using False q pw by auto
  qed
  moreover have "cache_inv epp (tbl[md := ptr_word c' i]) c'"
    unfolding cache_inv_def using b' d(2,3,4,5,6) f i bufs words refs by (auto simp: c'_def)
  moreover have "page_buf (tbl[md := ptr_word c' i]) c' p off = page_buf tbl c p off" if "p < ZTL_MPE_CPGS" "off < epp" for p off
  proof (cases "p = md")
    case True
    then have "page_buf (tbl[md := ptr_word c' i]) c' p off = replicate epp 0 ! off"
      using i(1) that d(2) at by (intro page_buf_cached [OF b' i(1)]) (simp_all add: ent_def)
    then show ?thesis using True md(2) that(2) by (simp add: page_buf_empty)
  next
    case False
    have "page_buf (tbl[md := ptr_word c' i]) c' p = page_buf tbl c p"
      using False i(2) at len by (intro page_buf_same [OF inv that(1)]) (auto simp: c'_def)
    then show ?thesis by simp
  qed
  ultimately show ?thesis using i(1) load by blast
qed

text \<open>Moving an entry to the end of the used list.\<close>

lemma touch_page:
  assumes "cache_inv epp tbl c" "i \<in> set (ca_mbu_head c)"
  defines "c' \<equiv> c\<lparr>ca_mbu_head := tailq_insert_tail (remove1 i (ca_mbu_head c)) i\<rparr>"
  shows "cache_inv epp tbl c'" "page_buf tbl c' p off = page_buf tbl c p off"
proof -
  have s: "set (ca_mbu_head c') = set (ca_mbu_head c)" "distinct (ca_mbu_head c')" "length (ca_mbu_head c') = length (ca_mbu_head c)"
    using assms cache_invD(4) [OF assms(1)] length_pos_if_in_set [OF assms(2)] by (auto simp: tailq_insert_tail_def length_remove1)
  have e: "ptr_word c' = ptr_word c" "base_ok c' = base_ok c" "ca_pg_buf c' = ca_pg_buf c" "ca_mbf_head c' = ca_mbf_head c"
    "ca_nfree c' = ca_nfree c" "ca_nused c' = ca_nused c" "entry_of_ptr c' = entry_of_ptr c"
    by (auto simp: c'_def ptr_word_def entry_ptr_def base_ok_def entry_of_ptr_def fun_eq_iff)
  show "cache_inv epp tbl c'" using cache_invD [OF assms(1)] unfolding cache_inv_def distinct_append e s(1,3) using s(2) by simp
  show "page_buf tbl c' p off = page_buf tbl c p off" by (simp add: page_buf_def e)
qed

lemma get_entry:
  assumes inv: "cache_inv (mw_map_ent_per_pg w) (mw_tbl w) c" and w: "mw_caches w = [c]" "mw_cp_running w = 0"
    and p: "key div mw_map_ent_per_pg w < ZTL_MPE_CPGS"
  shows "\<exists>i c' tbl'. map_get_cache_entry key w = Some (Some i, w\<lparr>mw_caches := [c'], mw_tbl := tbl'\<rparr>) \<and>
    cache_inv (mw_map_ent_per_pg w) tbl' c' \<and> i < MAP_BUF_PGS \<and> tbl' ! (key div mw_map_ent_per_pg w) = ptr_word c' i \<and>
    (\<forall>p < ZTL_MPE_CPGS. \<forall>off < mw_map_ent_per_pg w. page_buf tbl' c' p off = page_buf (mw_tbl w) c p off)"
proof -
  let ?p = "key div mw_map_ent_per_pg w" and ?tbl = "mw_tbl w" and ?e = "mw_map_ent_per_pg w"
  have u: "ztl_mpe_get (u32 ?p) = ?p" "?p < length ?tbl" using p cache_invD(2) [OF inv] by (simp_all add: ztl_mpe_get_def u32_small)
  from cache_invD(10) [OF inv p] show ?thesis
  proof
    assume z: "?tbl ! ?p = 0"
    obtain i c' where l: "map_load_pg_cache 0 ?e ?p c ?tbl = Some (0, c', ?tbl[?p := ptr_word c' i])"
      "cache_inv ?e (?tbl[?p := ptr_word c' i]) c'" "i < MAP_BUF_PGS"
      "\<forall>p < ZTL_MPE_CPGS. \<forall>off < ?e. page_buf (?tbl[?p := ptr_word c' i]) c' p off = page_buf ?tbl c p off"
      using load_page [OF inv p z] by blast
    note q = ptr_word_parts [OF cache_invD(1) [OF l(2)] l(3)]
    have "map_get_cache_entry key w = Some (Some i, w\<lparr>mw_caches := [c'], mw_tbl := ?tbl[?p := ptr_word c' i]\<rparr>)"
      using u w l(1) q z by (simp add: map_get_cache_entry_def Let_def)
    then show ?thesis using l u(2) by (intro exI [of _ i] exI [of _ c'] exI [of _ "?tbl[?p := ptr_word c' i]"]) simp
  next
    assume "\<exists>i \<in> set (ca_mbu_head c). ?tbl ! ?p = ptr_word c i \<and> ce_md_entry (ca_pg_buf c ! i) = Some ?p"
    then obtain i where i: "i \<in> set (ca_mbu_head c)" "?tbl ! ?p = ptr_word c i" by blast
    define c' where "c' = c\<lparr>ca_mbu_head := tailq_insert_tail (remove1 i (ca_mbu_head c)) i\<rparr>"
    note t = touch_page [OF inv i(1), folded c'_def] and q = ptr_word_parts [OF cache_invD(1) [OF inv] used_lt [OF inv i(1)]]
    have e: "entry_of_ptr c' = entry_of_ptr c" "ptr_word c' i = ptr_word c i"
      by (auto simp: c'_def ptr_word_def entry_ptr_def entry_of_ptr_def fun_eq_iff)
    have "map_get_cache_entry key w = Some (Some i, w\<lparr>mw_caches := [c'], mw_tbl := ?tbl\<rparr>)"
      using u w i q e by (simp add: map_get_cache_entry_def Let_def c'_def [symmetric])
    then show ?thesis using t i(2) e(2) used_lt [OF inv i(1)] by (intro exI [of _ i] exI [of _ c'] exI [of _ ?tbl]) simp
  qed
qed

text \<open>Storing a value in the buffer of the entry that holds page \<open>p\<close>.\<close>

lemma store_value:
  fixes val :: app_map_entry
  assumes inv: "cache_inv epp tbl c" and p: "p < ZTL_MPE_CPGS" "tbl ! p = ptr_word c i" and i: "i < MAP_BUF_PGS"
    and b: "ce_buf (ca_pg_buf c ! i) = Some b" and off: "off < epp"
  defines "c' \<equiv> put_entry i ((ca_pg_buf c ! i)\<lparr>ce_buf := Some (b[off := val])\<rparr>) c"
  shows "cache_inv epp tbl c'" "q < ZTL_MPE_CPGS \<Longrightarrow> r < epp \<Longrightarrow>
    page_buf tbl c' q r = (if q = p \<and> r = off then val else page_buf tbl c q r)"
proof -
  note d = cache_invD [OF inv]
  have len: "length (ca_pg_buf c) = MAP_BUF_PGS" "length b = epp" using d(1) d(9) [OF i] b by (auto simp: base_ok_def)
  have e: "ptr_word c' = ptr_word c" "base_ok c' = base_ok c" "ca_mbf_head c' = ca_mbf_head c" "ca_mbu_head c' = ca_mbu_head c"
    "ca_nfree c' = ca_nfree c" "ca_nused c' = ca_nused c"
    by (auto simp: c'_def put_entry_def ptr_word_def entry_ptr_def base_ok_def fun_eq_iff)
  have at: "ca_pg_buf c' ! j = (if j = i then (ca_pg_buf c ! i)\<lparr>ce_buf := Some (b[off := val])\<rparr> else ca_pg_buf c ! j)" for j
    using i len by (simp add: c'_def put_entry_def)
  have md: "ce_md_entry (ca_pg_buf c' ! j) = ce_md_entry (ca_pg_buf c ! j)" for j unfolding at by simp
  have bufs: "\<exists>b. ce_buf (ca_pg_buf c' ! j) = Some b \<and> length b = epp" if "j < MAP_BUF_PGS" for j
    using d(9) [OF that] len(2) unfolding at by simp
  show inv': "cache_inv epp tbl c'" using d bufs unfolding cache_inv_def e md distinct_append by simp
  show "page_buf tbl c' q r = (if q = p \<and> r = off then val else page_buf tbl c q r)" if qr: "q < ZTL_MPE_CPGS" "r < epp"
  proof (cases "tbl ! q = ptr_word c i")
    case True
    have owner: "ce_md_entry (ca_pg_buf c ! i) = Some s" if s: "s < ZTL_MPE_CPGS" "tbl ! s = ptr_word c i" for s
      using d(10) [OF s(1)] s(2) ptr_word_parts(3) [OF d(1) i] ptr_word_inj [OF d(1) i] used_lt [OF inv] by auto
    have "q = p" using owner [OF qr(1) True] owner [OF p] by simp
    moreover have "page_buf tbl c' p r = b[off := val] ! r"
      using p(2) by (intro page_buf_cached [OF cache_invD(1) [OF inv'] i]) (simp_all add: e at)
    ultimately show ?thesis using page_buf_cached [OF d(1) i p(2) b] len(2) off by simp
  next
    case False
    then have "page_buf tbl c' q = page_buf tbl c q"
      using len by (intro page_buf_same [OF inv qr(1)]) (auto simp: at, auto simp: c'_def put_entry_def)
    then show ?thesis using False p(2) by auto
  qed
qed

text \<open>The entry for a key, found or loaded; nothing visible changes.\<close>

lemma find_entry:
  assumes inv: "map_inv w" and key: "key < ZTL_MPE_CPGS * mw_map_ent_per_pg w"
  defines "e \<equiv> mw_map_ent_per_pg w"
  obtains i c tbl b where "map_get_cache_entry key w = Some (Some i, w\<lparr>mw_caches := [c], mw_tbl := tbl\<rparr>)"
    "0 < e" "key div e < ZTL_MPE_CPGS" "key mod e < e" "u32 (key mod e) = key mod e" "cache_inv e tbl c" "i < MAP_BUF_PGS" "i < length (ca_pg_buf c)"
    "tbl ! (key div e) = ptr_word c i" "ce_buf (ca_pg_buf c ! i) = Some b" "length b = e" "b ! (key mod e) = map_lookup w key"
    "map_inv (w\<lparr>mw_caches := [c], mw_tbl := tbl\<rparr>)" "map_lookup (w\<lparr>mw_caches := [c], mw_tbl := tbl\<rparr>) = map_lookup w"
proof -
  obtain c0 where e: "0 < e" "e < 2 ^ 32" "mw_cp_running w = 0" "mw_caches w = [c0]" "cache_inv e (mw_tbl w) c0"
    using inv by (auto simp: map_inv_def e_def)
  have p: "key div e < ZTL_MPE_CPGS" "key mod e < e" using key e(1) by (simp_all add: e_def div_less_iff_less_mult)
  obtain i c tbl where g: "map_get_cache_entry key w = Some (Some i, w\<lparr>mw_caches := [c], mw_tbl := tbl\<rparr>)"
    "cache_inv e tbl c" "i < MAP_BUF_PGS" "tbl ! (key div e) = ptr_word c i"
    "\<forall>p < ZTL_MPE_CPGS. \<forall>off < e. page_buf tbl c p off = page_buf (mw_tbl w) c0 p off"
    using get_entry [OF e(5) [unfolded e_def] e(4,3) p(1) [unfolded e_def]] unfolding e_def by blast
  obtain b where b: "ce_buf (ca_pg_buf c ! i) = Some b" "length b = e" using cache_invD(9) [OF g(2,3)] by blast
  have same: "map_lookup (w\<lparr>mw_caches := [c], mw_tbl := tbl\<rparr>) = map_lookup w"
    using g(5) e(1,4) by (auto simp: map_lookup_def Let_def fun_eq_iff e_def)
  then have "map_lookup w key = page_buf tbl c (key div e) (key mod e)" using p by (simp add: map_lookup_def Let_def e_def [symmetric] flip: same)
  then have "b ! (key mod e) = map_lookup w key" using page_buf_cached [OF cache_invD(1) [OF g(2)] g(3,4) b(1)] by simp
  moreover have "u32 (key mod e) = key mod e" using p(2) e(2) by (intro u32_small) simp
  moreover have "i < length (ca_pg_buf c)" using cache_invD(1) [OF g(2)] g(3) by (simp add: base_ok_def)
  moreover have "map_inv (w\<lparr>mw_caches := [c], mw_tbl := tbl\<rparr>)" using e(1-3) g(2) by (simp add: map_inv_def e_def)
  ultimately show thesis using that [OF g(1)] e(1) p g b same by blast
qed

lemma map_upsert_correct:
  assumes inv: "map_inv w" and key: "key < ZTL_MPE_CPGS * mw_map_ent_per_pg w"
  shows "\<exists>w'. map_upsert key val old old_caller w =
      Some (if old_caller \<noteq> 0 \<and> map_lookup w key \<noteq> old_caller then xz XZTL_ZTL_MAP_ERR else xz XZTL_OK, map_lookup w key, w') \<and>
    map_inv w' \<and> mw_map_ent_per_pg w' = mw_map_ent_per_pg w \<and>
    map_lookup w' = (if old_caller \<noteq> 0 \<and> map_lookup w key \<noteq> old_caller then map_lookup w else (map_lookup w)(key := val))"
proof -
  define e where "e = mw_map_ent_per_pg w"
  obtain i c tbl b where g: "map_get_cache_entry key w = Some (Some i, w\<lparr>mw_caches := [c], mw_tbl := tbl\<rparr>)"
    "0 < e" "key div e < ZTL_MPE_CPGS" "key mod e < e" "u32 (key mod e) = key mod e" "cache_inv e tbl c" "i < MAP_BUF_PGS" "i < length (ca_pg_buf c)"
    "tbl ! (key div e) = ptr_word c i" "ce_buf (ca_pg_buf c ! i) = Some b" "length b = e" "b ! (key mod e) = map_lookup w key"
    "map_inv (w\<lparr>mw_caches := [c], mw_tbl := tbl\<rparr>)" "map_lookup (w\<lparr>mw_caches := [c], mw_tbl := tbl\<rparr>) = map_lookup w"
    by (rule find_entry [OF assms, folded e_def])
  let ?refuse = "old_caller \<noteq> 0 \<and> map_lookup w key \<noteq> old_caller" and ?w1 = "w\<lparr>mw_caches := [c], mw_tbl := tbl\<rparr>"
  define c2 where "c2 = put_entry i ((ca_pg_buf c ! i)\<lparr>ce_buf := Some (b[key mod e := val])\<rparr>) c"
  let ?w2 = "w\<lparr>mw_caches := [c2], mw_tbl := tbl\<rparr>"
  have run: "map_upsert key val old old_caller w =
      Some (if ?refuse then xz XZTL_ZTL_MAP_ERR else xz XZTL_OK, map_lookup w key, if ?refuse then ?w1 else ?w2)"
    using g(1-5,8,10-12) unfolding e_def by (simp add: map_upsert_def Let_def c2_def e_def)
  note st = store_value [where val = val, OF g(6,3,9,7,10,4), folded c2_def]
  have "map_inv ?w2" using g(13) st(1) by (simp add: map_inv_def e_def)
  moreover have "map_lookup ?w2 = (map_lookup w)(key := val)"
  proof
    fix k
    have "k div e = key div e \<and> k mod e = key mod e \<longleftrightarrow> k = key" by (metis div_mult_mod_eq)
    then show "map_lookup ?w2 k = ((map_lookup w)(key := val)) k"
      using st(2) [of "k div e" "k mod e"] g(2,3) unfolding g(14) [symmetric] by (auto simp: map_lookup_def Let_def e_def [symmetric])
  qed
  ultimately show ?thesis using run g(13,14) by auto
qed

lemma map_read_correct:
  assumes inv: "map_inv w" and key: "key < ZTL_MPE_CPGS * mw_map_ent_per_pg w"
  shows "\<exists>w'. map_read key w = Some (me_offset (map_lookup w key), w') \<and> map_inv w' \<and>
    mw_map_ent_per_pg w' = mw_map_ent_per_pg w \<and> map_lookup w' = map_lookup w"
proof -
  define e where "e = mw_map_ent_per_pg w"
  obtain i c tbl b where g: "map_get_cache_entry key w = Some (Some i, w\<lparr>mw_caches := [c], mw_tbl := tbl\<rparr>)"
    "0 < e" "key div e < ZTL_MPE_CPGS" "key mod e < e" "u32 (key mod e) = key mod e" "cache_inv e tbl c" "i < MAP_BUF_PGS" "i < length (ca_pg_buf c)"
    "tbl ! (key div e) = ptr_word c i" "ce_buf (ca_pg_buf c ! i) = Some b" "length b = e" "b ! (key mod e) = map_lookup w key"
    "map_inv (w\<lparr>mw_caches := [c], mw_tbl := tbl\<rparr>)" "map_lookup (w\<lparr>mw_caches := [c], mw_tbl := tbl\<rparr>) = map_lookup w"
    by (rule find_entry [OF assms, folded e_def])
  have "map_read key w = Some (me_offset (map_lookup w key), w\<lparr>mw_caches := [c], mw_tbl := tbl\<rparr>)"
    using g(1,2,4,5,8,10-12) unfolding e_def by (simp add: map_read_def Let_def)
  then show ?thesis using g(13,14) by auto
qed

section \<open>A store of values by key\<close>

text \<open>What a client relies on: operations answer as they do on a function from keys to values.\<close>

datatype map_op = Upsert nat app_map_entry app_map_entry | Fetch nat

datatype map_res = Stored int app_map_entry | Fetched nat

fun op_key :: "map_op \<Rightarrow> nat" where
  "op_key (Upsert key val old_caller) = key"
| "op_key (Fetch key) = key"

text \<open>A store with the expected old value takes effect only when that value is still current.\<close>

fun spec_step :: "map_op \<Rightarrow> (nat \<Rightarrow> app_map_entry) \<Rightarrow> map_res \<times> (nat \<Rightarrow> app_map_entry)" where
  "spec_step (Upsert key val old_caller) m =
     (if old_caller \<noteq> 0 \<and> m key \<noteq> old_caller then (Stored (xz XZTL_ZTL_MAP_ERR) (m key), m)
      else (Stored (xz XZTL_OK) (m key), m(key := val)))"
| "spec_step (Fetch key) m = (Fetched (me_offset (m key)), m)"

fun spec_run :: "map_op list \<Rightarrow> (nat \<Rightarrow> app_map_entry) \<Rightarrow> map_res list \<times> (nat \<Rightarrow> app_map_entry)" where
  "spec_run [] m = ([], m)"
| "spec_run (x # xs) m = (let (r, m) = spec_step x m; (rs, m) = spec_run xs m in (r # rs, m))"

fun run_ops :: "(map_op \<Rightarrow> 's \<Rightarrow> (map_res \<times> 's) option) \<Rightarrow> map_op list \<Rightarrow> 's \<Rightarrow> (map_res list \<times> 's) option" where
  "run_ops f [] s = Some ([], s)"
| "run_ops f (x # xs) s = do { (r, s) \<leftarrow> f x s; (rs, s) \<leftarrow> run_ops f xs s; Some (r # rs, s) }"

locale key_store =
  fixes inv :: "'s \<Rightarrow> bool"
    and keys :: "'s \<Rightarrow> nat"
    and lookup :: "'s \<Rightarrow> nat \<Rightarrow> app_map_entry"
    and step :: "map_op \<Rightarrow> 's \<Rightarrow> (map_res \<times> 's) option"
  assumes step_law: "inv s \<Longrightarrow> op_key x < keys s \<Longrightarrow> \<exists>s'. step x s = Some (fst (spec_step x (lookup s)), s') \<and>
    inv s' \<and> keys s' = keys s \<and> lookup s' = snd (spec_step x (lookup s))"
begin

lemma run_refines:
  "inv s \<Longrightarrow> \<forall>x \<in> set xs. op_key x < keys s \<Longrightarrow> \<exists>s'. run_ops step xs s = Some (fst (spec_run xs (lookup s)), s') \<and>
     inv s' \<and> lookup s' = snd (spec_run xs (lookup s))"
proof (induction xs arbitrary: s)
  case (Cons x xs)
  obtain s1 where s1: "step x s = Some (fst (spec_step x (lookup s)), s1)" "inv s1" "keys s1 = keys s" "lookup s1 = snd (spec_step x (lookup s))"
    using step_law [OF Cons.prems(1), of x] Cons.prems(2) by auto
  then obtain s2 where "run_ops step xs s1 = Some (fst (spec_run xs (lookup s1)), s2)" "inv s2" "lookup s2 = snd (spec_run xs (lookup s1))"
    using Cons.IH [of s1] Cons.prems(2) by auto
  then show ?case using s1 by (auto simp: Let_def split: prod.splits)
qed simp

end

fun map_step :: "map_op \<Rightarrow> map_world \<Rightarrow> (map_res \<times> map_world) option" where
  "map_step (Upsert key val old_caller) w = do { (ret, old, w) \<leftarrow> map_upsert key val 0 old_caller w; Some (Stored ret old, w) }"
| "map_step (Fetch key) w = do { (v, w) \<leftarrow> map_read key w; Some (Fetched v, w) }"

interpretation page_cache: key_store map_inv "\<lambda>w. ZTL_MPE_CPGS * mw_map_ent_per_pg w" map_lookup map_step
proof
  fix w x assume "map_inv w" "op_key x < ZTL_MPE_CPGS * mw_map_ent_per_pg w"
  then show "\<exists>w'. map_step x w = Some (fst (spec_step x (map_lookup w)), w') \<and> map_inv w' \<and>
      ZTL_MPE_CPGS * mw_map_ent_per_pg w' = ZTL_MPE_CPGS * mw_map_ent_per_pg w \<and> map_lookup w' = snd (spec_step x (map_lookup w))"
  proof (cases x)
    case (Upsert key val old_caller)
    then show ?thesis using map_upsert_correct [of w key val 0 old_caller] \<open>map_inv w\<close> \<open>op_key x < _\<close> by auto
  next
    case (Fetch key)
    then show ?thesis using map_read_correct [of w key] \<open>map_inv w\<close> \<open>op_key x < _\<close> by auto
  qed
qed

section \<open>Start\<close>

definition fresh_entry :: "nat \<Rightarrow> nat \<Rightarrow> map_cache_entry" where
  "fresh_entry pg_sz n = zero_cache_entry\<lparr>ce_buf_sz := pg_sz, ce_buf := Some (replicate (pg_sz div 8) 0), ce_cache := n\<rparr>"

lemma map_init_pages_all:
  "ca_pg_buf cache = replicate pg_i (fresh_entry pg_sz (ca_id cache)) @ replicate left zero_cache_entry \<Longrightarrow>
   ca_nfree cache = pg_i \<Longrightarrow> pg_i + left < 2 ^ 32 \<Longrightarrow> ca_mbf_head cache = rev [0..<pg_i] \<Longrightarrow>
   map_init_pages (\<lambda>_. True) pg_sz pg_i left cache = Some (True, pg_i + left, cache\<lparr>ca_pg_buf := replicate (pg_i + left) (fresh_entry pg_sz (ca_id cache)),
     ca_mbf_head := rev [0..<pg_i + left], ca_nfree := pg_i + left\<rparr>)"
proof (induction left arbitrary: pg_i cache)
  case (Suc left)
  let ?c = "cache\<lparr>ca_pg_buf := replicate (Suc pg_i) (fresh_entry pg_sz (ca_id cache)) @ replicate left zero_cache_entry,
    ca_mbf_head := rev [0..<Suc pg_i], ca_nfree := Suc pg_i\<rparr>"
  have "map_init_pages (\<lambda>_. True) pg_sz pg_i (Suc left) cache = map_init_pages (\<lambda>_. True) pg_sz (Suc pg_i) left ?c"
    using Suc.prems
    by (simp add: put_entry_def nth_append list_update_append list_insert_head_def u32_small fresh_entry_def zero_cache_entry_def
      replicate_app_Cons_same)
  also have "\<dots> = Some (True, Suc pg_i + left, ?c\<lparr>ca_pg_buf := replicate (Suc pg_i + left) (fresh_entry pg_sz (ca_id ?c)),
     ca_mbf_head := rev [0..<Suc pg_i + left], ca_nfree := Suc pg_i + left\<rparr>)"
    using Suc.prems(3) by (intro Suc.IH) simp_all
  finally show ?case by simp
qed (simp del: upt_rec_numeral)

lemma map_init_inv:
  assumes "core = Some m" "ge_nbytes (mm_geo m) = nbytes" "0 < nbytes" "nbytes < 2 ^ 29" "0 < pg_buf" "pg_buf + 80 * 8192 \<le> 2 ^ 63"
    "mw_tbl w = replicate ZTL_MPE_CPGS 0"
  shows "\<exists>w'. map_init core True pg_buf 0 0 (\<lambda>_. True) w = Some (xz XZTL_OK, w') \<and> map_inv w' \<and>
    mw_map_ent_per_pg w' = nbytes \<and> map_lookup w' = (\<lambda>_. 0)"
proof -
  define c where "c = zero_cache\<lparr>ca_base := pg_buf, ca_pg_buf := replicate MAP_BUF_PGS (fresh_entry (8 * nbytes) 0),
    ca_mbf_head := rev [0..<MAP_BUF_PGS], ca_nfree := MAP_BUF_PGS\<rparr>"
  define w' where "w' = w\<lparr>mw_map_pg_sz := 8 * nbytes, mw_map_ent_per_pg := nbytes, mw_caches := [c], mw_cp_running := 0\<rparr>"
  have p: "map_init_pages (\<lambda>_. True) (8 * nbytes) 0 MAP_BUF_PGS (zero_cache\<lparr>ca_base := pg_buf,
      ca_pg_buf := replicate MAP_BUF_PGS zero_cache_entry, ca_mbf_head := [], ca_mbu_head := [], ca_nfree := 0, ca_nused := 0\<rparr>) = Some (True, MAP_BUF_PGS, c)"
    by (subst map_init_pages_all) (simp_all add: c_def zero_cache_def del: upt_rec_numeral)
  have "u32 (8 * nbytes) = 8 * nbytes" using assms(4) by (intro u32_small) simp
  then have "map_init core True pg_buf 0 0 (\<lambda>_. True) w = Some (xz XZTL_OK, w')"
    using assms(1,2,5) p by (simp add: map_init_def map_init_cache_def Let_def w'_def c_def zero_cache_def del: upt_rec_numeral)
  moreover have "cache_inv nbytes (mw_tbl w) c"
    using assms(5-7) by (auto simp: cache_inv_def base_ok_def c_def zero_cache_def fresh_entry_def simp del: upt_rec_numeral)
  then have "map_inv w'" using assms(3,4) by (simp add: map_inv_def w'_def)
  moreover have "map_lookup w' = (\<lambda>_. 0)" using assms(7) by (auto simp: map_lookup_def w'_def page_buf_def Let_def fun_eq_iff)
  ultimately show ?thesis by (intro exI [of _ w']) (simp add: w'_def)
qed

section \<open>Properties\<close>

text \<open>A key behind the last page of the table is not reported as an error: the access is undefined.\<close>

lemma map_beyond_table:
  assumes "map_inv w" "ZTL_MPE_CPGS * mw_map_ent_per_pg w \<le> key" "key < 2 ^ 32 * mw_map_ent_per_pg w"
  shows "map_upsert key val old old_caller w = None" "map_read key w = None"
proof -
  let ?e = "mw_map_ent_per_pg w"
  have e: "0 < ?e" "?e < 2 ^ 32" "length (mw_tbl w) = ZTL_MPE_CPGS" using assms(1) by (auto simp: map_inv_def cache_inv_def)
  have "ZTL_MPE_CPGS \<le> key div ?e" "key div ?e < 2 ^ 32"
    using assms(2,3) e(1) by (simp_all add: less_eq_div_iff_mult_less_eq div_less_iff_less_mult)
  then have g: "map_get_cache_entry key w = None"
    using e(3) by (simp add: map_get_cache_entry_def ztl_mpe_get_def u32_small Let_def get_at_def)
  have "key mod ?e < ?e" using e(1) by simp
  moreover from this have "u32 (key mod ?e) = key mod ?e" using e(2) by (intro u32_small) simp
  ultimately show "map_upsert key val old old_caller w = None" "map_read key w = None"
    using g e(1) by (simp_all add: map_upsert_def map_read_def Let_def not_le)
qed

text \<open>C13: The page cache with its table behaves like a function from keys to values. Started with working
  allocations it holds zeros, and any sequence of stores and reads of keys in range succeeds with the answers
  that the same sequence has on the function: a read gives the offset stored last, and a store that
  names an old value is refused exactly when that is not the current one.\<close>

theorem map_refines:
  assumes "core = Some m" "ge_nbytes (mm_geo m) = nbytes" "0 < nbytes" "nbytes < 2 ^ 29" "0 < pg_buf" "pg_buf + 80 * 8192 \<le> 2 ^ 63"
    "mw_tbl w = replicate ZTL_MPE_CPGS 0" "\<forall>x \<in> set xs. op_key x < ZTL_MPE_CPGS * nbytes"
  shows "\<exists>w1 w2. map_init core True pg_buf 0 0 (\<lambda>_. True) w = Some (xz XZTL_OK, w1) \<and>
    run_ops map_step xs w1 = Some (fst (spec_run xs (\<lambda>_. 0)), w2) \<and> map_lookup w2 = snd (spec_run xs (\<lambda>_. 0))"
proof -
  obtain w1 where w1: "map_init core True pg_buf 0 0 (\<lambda>_. True) w = Some (xz XZTL_OK, w1)" "map_inv w1"
    "mw_map_ent_per_pg w1 = nbytes" "map_lookup w1 = (\<lambda>_. 0)" using map_init_inv [OF assms(1-7)] by blast
  then show ?thesis using page_cache.run_refines [OF w1(2), of xs] assms(8) by auto
qed

definition empty_map :: map_world where
  "empty_map = \<lparr>mw_caches = [], mw_cp_running = 0, mw_map_pg_sz = 0, mw_map_ent_per_pg = 0, mw_tbl = replicate ZTL_MPE_CPGS 0\<rparr>"

theorem map_refines_witness:
  "\<exists>w1 w2. map_init (Some sample_media) True 4096 0 0 (\<lambda>_. True) empty_map = Some (xz XZTL_OK, w1) \<and>
     run_ops map_step [Upsert 5000 77 0, Upsert 5000 78 9, Fetch 5000] w1 =
       Some ([Stored (xz XZTL_OK) 0, Stored (xz XZTL_ZTL_MAP_ERR) 77, Fetched 77], w2)"
proof -
  have "me_offset 77 = 77" by (simp add: me_offset_def bf_get_def)
  then show ?thesis
    using map_refines [of "Some sample_media" sample_media 4096 4096 empty_map "[Upsert 5000 77 0, Upsert 5000 78 9, Fetch 5000]"]
    by (auto simp: sample_media_def sample_geo_def geo_fill_def empty_map_def Let_def)
qed

end
