(* ===== verification/Ztl_Modules.thy ===== *)
theory Ztl_Modules
  imports Ztl_Map
begin

text \<open>
  The global state of the translation layer (\<open>ztl.c\<close>) and the start and stop of the library
  (\<open>xztl_init\<close> and \<open>xztl_exit\<close> in \<open>xztl-core.c\<close>).

  The modules register themselves as pointers in a table; \<open>ztl_mod_set\<close> installs the registered ones, and the
  start calls their functions one after the other through these pointers, stopping what was started when one
  of them fails. A module is therefore a record of functions over the state \<open>'s\<close> of the library. The
  start in closed form is \<open>start_all\<close>: a list of steps with an undo for each.
\<close>

section \<open>Model\<close>

abbreviation (input) APP_MOD_COUNT :: nat where "APP_MOD_COUNT \<equiv> 10"
abbreviation (input) APP_FN_SLOTS :: nat where "APP_FN_SLOTS \<equiv> 32"

abbreviation (input) ZTLMOD_ZMD :: nat where "ZTLMOD_ZMD \<equiv> 1"
abbreviation (input) ZTLMOD_PRO :: nat where "ZTLMOD_PRO \<equiv> 2"
abbreviation (input) ZTLMOD_MPE :: nat where "ZTLMOD_MPE \<equiv> 3"
abbreviation (input) ZTLMOD_MAP :: nat where "ZTLMOD_MAP \<equiv> 4"
abbreviation (input) ZTLMOD_IO :: nat where "ZTLMOD_IO \<equiv> 7"
abbreviation (input) ZTLMOD_MGMT :: nat where "ZTLMOD_MGMT \<equiv> 8"

abbreviation (input) LIBZTL_ZMD :: nat where "LIBZTL_ZMD \<equiv> 4"
abbreviation (input) LIBZTL_PRO :: nat where "LIBZTL_PRO \<equiv> 2"
abbreviation (input) LIBZTL_MGMT :: nat where "LIBZTL_MGMT \<equiv> 2"
abbreviation (input) LIBZTL_MPE :: nat where "LIBZTL_MPE \<equiv> 4"
abbreviation (input) LIBZTL_MAP :: nat where "LIBZTL_MAP \<equiv> 2"
abbreviation (input) LIBZTL_IO :: nat where "LIBZTL_IO \<equiv> 3"

text \<open>The functions of a module that the start and stop call; the module for the mapping table has a function that
  creates the table in place of a start. A call returns \<open>None\<close> when it is undefined.\<close>

record 's app_mod =
  am_init_fn :: "'s \<Rightarrow> (int \<times> 's) option"
  am_exit_fn :: "'s \<Rightarrow> 's option"

text \<open>\<open>'m\<close> is the type of pointers to modules. The pointers \<open>zmd\<close> to \<open>mgmt\<close> are entries \<open>1\<close> to \<open>8\<close> of
  \<open>ag_mod\<close>, by the number of the module.\<close>

record 'm app_global =
  ag_mod_list :: "'m option list list"
  ag_mod :: "nat \<rightharpoonup> 'm"
  ag_modset :: "nat list"

definition mod_known :: "nat \<Rightarrow> bool" where
  "mod_known mod_i \<longleftrightarrow> mod_i \<in> {ZTLMOD_ZMD, ZTLMOD_PRO, ZTLMOD_MPE, ZTLMOD_MAP, ZTLMOD_IO, ZTLMOD_MGMT}"

subsection \<open>Registration\<close>

definition ztl_mod_register :: "nat \<Rightarrow> nat \<Rightarrow> 'm option \<Rightarrow> 'm app_global \<Rightarrow> (int \<times> 'm app_global) option" where
  "ztl_mod_register modtype modid md g =
     (if APP_FN_SLOTS \<le> modid \<or> APP_MOD_COUNT \<le> modtype \<or> md = None then Some (xz XZTL_ZTL_MOD_ERR, g)
      else do {
        slots \<leftarrow> get_at (ag_mod_list g) modtype;
        slots \<leftarrow> set_at slots modid md;
        modset \<leftarrow> set_at (ag_modset g) modtype modid;
        Some (xz XZTL_OK, g\<lparr>ag_mod_list := (ag_mod_list g)[modtype := slots], ag_modset := modset\<rparr>) })"

fun mod_set_loop :: "nat list \<Rightarrow> nat \<Rightarrow> nat \<Rightarrow> 'm app_global \<Rightarrow> 'm app_global option" where
  "mod_set_loop modset mod_i 0 g = Some g"
| "mod_set_loop modset mod_i (Suc left) g = do {
     modid \<leftarrow> get_at modset mod_i;
     if modid = 0 then mod_set_loop modset (mod_i + 1) left g
     else do {
       slots \<leftarrow> get_at (ag_mod_list g) mod_i;
       md \<leftarrow> get_at slots modid;
       case md of
         None \<Rightarrow> mod_set_loop modset (mod_i + 1) left g
       | Some p \<Rightarrow> mod_set_loop modset (mod_i + 1) left
           (if mod_known mod_i then g\<lparr>ag_mod := (ag_mod g)(mod_i \<mapsto> p)\<rparr> else g) } }"

definition ztl_mod_set :: "nat list \<Rightarrow> 'm app_global \<Rightarrow> (int \<times> 'm app_global) option" where
  "ztl_mod_set modset g =
     (if length modset < APP_MOD_COUNT then None
      else if list_ex (\<lambda>modid. APP_FN_SLOTS \<le> modid) (take APP_MOD_COUNT modset) then Some (xz XZTL_ZTL_MOD_ERR, g)
      else do { g \<leftarrow> mod_set_loop modset 0 APP_MOD_COUNT g; Some (xz XZTL_OK, g) })"

subsection \<open>The mapping table\<close>

record app_mpe =
  pe_magic :: nat
  pe_entries :: nat
  pe_entry_sz :: nat
  pe_tbl :: "map_md_addr list option"
  pe_ent_per_pg :: nat
  pe_locks :: nat


text \<open>\<open>pe_locks\<close> counts the mutexes that are initialized; \<open>mutex_at\<close> gives the result for each.\<close>

fun map_lock_loop :: "(nat \<Rightarrow> int) \<Rightarrow> nat \<Rightarrow> nat \<Rightarrow> nat \<times> bool" where
  "map_lock_loop mutex_at ent_i 0 = (ent_i, True)"
| "map_lock_loop mutex_at ent_i (Suc left) =
     (if mutex_at ent_i \<noteq> 0 then (ent_i, False) else map_lock_loop mutex_at (ent_i + 1) left)"

definition app_init_map_lock :: "bool \<Rightarrow> (nat \<Rightarrow> int) \<Rightarrow> app_mpe \<Rightarrow> int \<times> app_mpe" where
  "app_init_map_lock malloc_ok mutex_at mpe =
     (if \<not> malloc_ok then (xz XZTL_ZTL_MAP_ERR, mpe)
      else case map_lock_loop mutex_at 0 (pe_entries mpe) of
        (ent_i, True) \<Rightarrow> (xz XZTL_OK, mpe\<lparr>pe_locks := ent_i\<rparr>)
      | (ent_i, False) \<Rightarrow> (xz XZTL_ZTL_MAP_ERR, mpe\<lparr>pe_locks := 0\<rparr>))"

definition app_exit_map_lock :: "app_mpe \<Rightarrow> app_mpe" where
  "app_exit_map_lock mpe = mpe\<lparr>pe_locks := pe_locks mpe - pe_entries mpe\<rparr>"

text \<open>\<open>create_fn\<close> is the function of the registered module.\<close>

definition app_mpe_init ::
    "'s xztl_core \<Rightarrow> bool \<Rightarrow> bool \<Rightarrow> (nat \<Rightarrow> int) \<Rightarrow> (nat \<Rightarrow> map_md_addr list \<Rightarrow> (int \<times> map_md_addr list) option) \<Rightarrow>
     app_mpe \<Rightarrow> (int \<times> app_mpe) option" where
  "app_mpe_init core tbl_ok malloc_ok mutex_at create_fn mpe = do {
     m \<leftarrow> core;
     let mpe = mpe\<lparr>pe_entry_sz := 8, pe_ent_per_pg := u32 (ZTL_MPE_PG_SEC * ge_nbytes (mm_geo m)) div 8, pe_entries := ZTL_MPE_CPGS\<rparr>;
     if \<not> tbl_ok then Some (xz XZTL_ZTL_MAP_ERR, mpe\<lparr>pe_tbl := None\<rparr>)
     else do {
       let tbl = replicate ZTL_MPE_CPGS 0;
       let (ret, mpe) = app_init_map_lock malloc_ok mutex_at (mpe\<lparr>pe_tbl := Some tbl, pe_magic := APP_MAGIC\<rparr>);
       if ret \<noteq> 0 then Some (xz XZTL_ZTL_MAP_ERR, mpe\<lparr>pe_tbl := None\<rparr>)
       else do {
         (ret, tbl) \<leftarrow> create_fn (pe_entries mpe) tbl;
         if ret \<noteq> 0 then Some (xz XZTL_ZTL_MAP_ERR, (app_exit_map_lock mpe)\<lparr>pe_tbl := None\<rparr>)
         else Some (xz XZTL_OK, mpe\<lparr>pe_tbl := Some tbl\<rparr>) } } }"

definition app_mpe_exit :: "app_mpe \<Rightarrow> app_mpe" where
  "app_mpe_exit mpe = (app_exit_map_lock mpe)\<lparr>pe_tbl := None\<rparr>"

subsection \<open>Start and stop of the layer\<close>

text \<open>The table of modules is fixed when the layer starts; \<open>mods\<close> maps the number of a module to its functions, and the
  entry of \<open>ZTLMOD_MPE\<close> stands for \<open>app_mpe_init\<close> and \<open>app_mpe_exit\<close>.\<close>

definition app_global_init :: "(nat \<rightharpoonup> 's app_mod) \<Rightarrow> 's \<Rightarrow> (int \<times> 's) option" where
  "app_global_init mods s = do {
     pro \<leftarrow> mods ZTLMOD_PRO;
     (ret, s) \<leftarrow> am_init_fn pro s;
     if ret \<noteq> 0 then Some (xz XZTL_ZTL_PROV_ERR, s)
     else do {
       mpe \<leftarrow> mods ZTLMOD_MPE;
       (ret, s) \<leftarrow> am_init_fn mpe s;
       if ret \<noteq> 0 then do { s \<leftarrow> am_exit_fn pro s; Some (xz XZTL_ZTL_MPE_ERR, s) }
       else do {
         mp \<leftarrow> mods ZTLMOD_MAP;
         (ret, s) \<leftarrow> am_init_fn mp s;
         if ret \<noteq> 0 then do { s \<leftarrow> am_exit_fn mpe s; s \<leftarrow> am_exit_fn pro s; Some (xz XZTL_ZTL_MAP_ERR, s) }
         else do {
           io \<leftarrow> mods ZTLMOD_IO;
           (ret, s) \<leftarrow> am_init_fn io s;
           if ret \<noteq> 0
           then do { s \<leftarrow> am_exit_fn mp s; s \<leftarrow> am_exit_fn mpe s; s \<leftarrow> am_exit_fn pro s; Some (xz XZTL_ZTL_IO_ERR, s) }
           else do {
             mgmt \<leftarrow> mods ZTLMOD_MGMT;
             (ret, s) \<leftarrow> am_init_fn mgmt s;
             if ret \<noteq> 0
             then do {
               s \<leftarrow> am_exit_fn io s; s \<leftarrow> am_exit_fn mp s; s \<leftarrow> am_exit_fn mpe s; s \<leftarrow> am_exit_fn pro s;
               Some (xz XZTL_ZTL_MGMT_ERR, s) }
             else Some (xz XZTL_OK, s) } } } } }"

definition app_global_exit :: "(nat \<rightharpoonup> 's app_mod) \<Rightarrow> 's \<Rightarrow> 's option" where
  "app_global_exit mods s = do {
     mgmt \<leftarrow> mods ZTLMOD_MGMT; s \<leftarrow> am_exit_fn mgmt s;
     io \<leftarrow> mods ZTLMOD_IO; s \<leftarrow> am_exit_fn io s;
     mp \<leftarrow> mods ZTLMOD_MAP; s \<leftarrow> am_exit_fn mp s;
     mpe \<leftarrow> mods ZTLMOD_MPE; s \<leftarrow> am_exit_fn mpe s;
     pro \<leftarrow> mods ZTLMOD_PRO; am_exit_fn pro s }"

text \<open>\<open>groups\<close> are the functions of the group module, whose start returns the number of groups.\<close>

definition ztl_exit :: "(nat \<rightharpoonup> 's app_mod) \<Rightarrow> 's app_mod \<Rightarrow> 's \<Rightarrow> 's option" where
  "ztl_exit mods groups s = do { s \<leftarrow> app_global_exit mods s; am_exit_fn groups s }"

definition ztl_init ::
    "'s app_mod app_global \<Rightarrow> 's app_mod \<Rightarrow> 's \<Rightarrow> (int \<times> 's app_mod app_global \<times> nat \<times> 's) option" where
  "ztl_init g groups s = do {
     (ret, g) \<leftarrow> ztl_mod_set (ag_modset g) g;
     if ret \<noteq> 0 then Some (xz XZTL_ZTL_MOD_ERR, g, 0, s)
     else do {
       (ngrps, s) \<leftarrow> am_init_fn groups s;
       if ngrps \<le> 0 then Some (xz XZTL_ZTL_GROUP_ERR, g, 0, s)
       else do {
         let app_ngrps = u16 (nat ngrps);
         (ret, s) \<leftarrow> app_global_init (ag_mod g) s;
         if ret \<noteq> 0 then do { s \<leftarrow> am_exit_fn groups s; Some (ret, g, app_ngrps, s) }
         else Some (xz XZTL_OK, g, app_ngrps, s) } } }"

subsection \<open>Start and stop of the library\<close>

text \<open>The steps of \<open>xztl_init\<close> over the state of the library: registration of the media layer (none when no function has
  been added), the memory pools, the media layer, the translation layer and the statistics.\<close>

record 's lib_fns =
  lf_media_fn :: "(string \<Rightarrow> 's \<Rightarrow> (int \<times> 's) option) option"
  lf_mempool :: "'s app_mod"
  lf_media :: "'s app_mod"
  lf_ztl :: "'s app_mod"
  lf_stats :: "'s app_mod"

abbreviation (input) XZTL_MEDIA_ERROR :: int where "XZTL_MEDIA_ERROR \<equiv> 0x0100"

definition xztl_init :: "'s lib_fns \<Rightarrow> string \<Rightarrow> 's \<Rightarrow> (int \<times> 's) option" where
  "xztl_init lib dev_name s =
     (case lf_media_fn lib of
        None \<Rightarrow> Some (xz XZTL_NOMEDIA, s)
      | Some media_fn \<Rightarrow> do {
          (ret, s) \<leftarrow> media_fn dev_name s;
          if ret \<noteq> 0 then Some (XZTL_MEDIA_ERROR OR ret, s)
          else do {
            (ret, s) \<leftarrow> am_init_fn (lf_mempool lib) s;
            if ret \<noteq> 0 then Some (ret, s)
            else do {
              (ret, s) \<leftarrow> am_init_fn (lf_media lib) s;
              if ret \<noteq> 0 then do { s \<leftarrow> am_exit_fn (lf_mempool lib) s; Some (ret, s) }
              else do {
                (ret, s) \<leftarrow> am_init_fn (lf_ztl lib) s;
                if ret \<noteq> 0
                then do { s \<leftarrow> am_exit_fn (lf_media lib) s; s \<leftarrow> am_exit_fn (lf_mempool lib) s; Some (ret, s) }
                else do {
                  (ret, s) \<leftarrow> am_init_fn (lf_stats lib) s;
                  if ret \<noteq> 0
                  then do {
                    s \<leftarrow> am_exit_fn (lf_ztl lib) s; s \<leftarrow> am_exit_fn (lf_media lib) s; s \<leftarrow> am_exit_fn (lf_mempool lib) s;
                    Some (ret, s) }
                  else Some (xz XZTL_OK, s) } } } } })"

text \<open>\<open>media_exit\<close> is \<open>xztl_media_exit\<close> with its result, \<open>free_media\<close> the release of \<open>core.media\<close>.\<close>

definition xztl_exit ::
    "'s lib_fns \<Rightarrow> ('s \<Rightarrow> (int \<times> 's) option) \<Rightarrow> ('s \<Rightarrow> 's) \<Rightarrow> 's \<Rightarrow> (int \<times> 's) option" where
  "xztl_exit lib media_exit free_media s = do {
     s \<leftarrow> am_exit_fn (lf_stats lib) s;
     s \<leftarrow> am_exit_fn (lf_ztl lib) s;
     (ret, s) \<leftarrow> media_exit s;
     s \<leftarrow> am_exit_fn (lf_mempool lib) s;
     Some (ret, free_media s) }"

section \<open>Start as a list of steps\<close>

fun stop_all :: "'s app_mod list \<Rightarrow> 's \<Rightarrow> 's option" where
  "stop_all [] s = Some s"
| "stop_all (md # mds) s = do { s \<leftarrow> am_exit_fn md s; stop_all mds s }"

text \<open>The modules are started in order; when one fails, the ones started are stopped in reverse order, and the error of
  the step is the result.\<close>

fun start_all :: "('s app_mod \<times> int) list \<Rightarrow> 's app_mod list \<Rightarrow> 's \<Rightarrow> (int \<times> 's) option" where
  "start_all [] started s = Some (xz XZTL_OK, s)"
| "start_all ((md, err) # rest) started s = do {
     (ret, s) \<leftarrow> am_init_fn md s;
     if ret \<noteq> 0 then do { s \<leftarrow> stop_all started s; Some (err, s) }
     else start_all rest (md # started) s }"

definition ztl_steps :: "'s app_mod \<Rightarrow> 's app_mod \<Rightarrow> 's app_mod \<Rightarrow> 's app_mod \<Rightarrow> 's app_mod \<Rightarrow> ('s app_mod \<times> int) list" where
  "ztl_steps pro mpe mp io mgmt = [(pro, xz XZTL_ZTL_PROV_ERR), (mpe, xz XZTL_ZTL_MPE_ERR), (mp, xz XZTL_ZTL_MAP_ERR),
     (io, xz XZTL_ZTL_IO_ERR), (mgmt, xz XZTL_ZTL_MGMT_ERR)]"

text \<open>The state after the starts of some modules that all succeed.\<close>

fun started :: "'s app_mod list \<Rightarrow> 's \<Rightarrow> 's option" where
  "started [] s = Some s"
| "started (md # mds) s = do { (ret, s) \<leftarrow> am_init_fn md s; if ret = 0 then started mds s else None }"

lemma start_all_ok: "started (map fst steps) s = Some s' \<Longrightarrow> start_all steps acc s = Some (xz XZTL_OK, s')"
  by (induction steps arbitrary: s acc) (auto simp: bind_eq_Some_conv split: if_splits)

lemma start_all_fails:
  assumes "started (take k (map fst steps)) s = Some s1" "k < length steps" "am_init_fn (fst (steps ! k)) s1 = Some (ret, s2)" "ret \<noteq> 0"
  shows "start_all steps acc s = do { s \<leftarrow> stop_all (rev (take k (map fst steps)) @ acc) s2; Some (snd (steps ! k), s) }"
  using assms(1-3)
proof (induction steps arbitrary: k s acc)
  case (Cons step steps)
  obtain md err where st: "step = (md, err)" by force
  show ?case
  proof (cases k)
    case 0
    then show ?thesis using Cons.prems assms(4) st by simp
  next
    case (Suc j)
    then obtain s' where s': "am_init_fn md s = Some (0, s')" "started (take j (map fst steps)) s' = Some s1"
      using Cons.prems(1) st by (auto simp: bind_eq_Some_conv split: if_splits)
    then show ?thesis using Cons.IH [of j s' "md # acc"] Cons.prems(2,3) Suc st by simp
  qed
qed simp

section \<open>Installed modules\<close>

definition mods_wf :: "'m app_global \<Rightarrow> bool" where
  "mods_wf g \<longleftrightarrow> length (ag_mod_list g) = APP_MOD_COUNT \<and> (\<forall>slots \<in> set (ag_mod_list g). length slots = APP_FN_SLOTS) \<and>
     length (ag_modset g) = APP_MOD_COUNT \<and> (\<forall>modid \<in> set (ag_modset g). modid < APP_FN_SLOTS)"

lemma mod_set_loop_eq:
  assumes wf: "length (ag_mod_list g) = APP_MOD_COUNT" "\<forall>slots \<in> set (ag_mod_list g). length slots = APP_FN_SLOTS"
    "length modset = APP_MOD_COUNT" "\<forall>modid \<in> set modset. modid < APP_FN_SLOTS"
  shows "mod_i + left \<le> APP_MOD_COUNT \<Longrightarrow> mod_set_loop modset mod_i left (g\<lparr>ag_mod := f\<rparr>) = Some (g\<lparr>ag_mod := (\<lambda>i.
    if mod_i \<le> i \<and> i < mod_i + left \<and> mod_known i \<and> modset ! i \<noteq> 0 \<and> ag_mod_list g ! i ! (modset ! i) \<noteq> None
    then ag_mod_list g ! i ! (modset ! i) else f i)\<rparr>)"
proof (induction left arbitrary: mod_i f)
  case 0
  have "(\<lambda>i. if mod_i \<le> i \<and> i < mod_i + 0 \<and> mod_known i \<and> modset ! i \<noteq> 0 \<and> ag_mod_list g ! i ! (modset ! i) \<noteq> None
    then ag_mod_list g ! i ! (modset ! i) else f i) = f" by (auto simp: fun_eq_iff)
  then show ?case by (simp only: mod_set_loop.simps)
next
  case (Suc left)
  have l: "length (ag_mod_list g ! mod_i) = APP_FN_SLOTS" "modset ! mod_i < APP_FN_SLOTS" using wf Suc.prems by auto
  have IH: "mod_set_loop modset (Suc mod_i) left (g\<lparr>ag_mod := h\<rparr>) = Some (g\<lparr>ag_mod := (\<lambda>i.
    if Suc mod_i \<le> i \<and> i < Suc mod_i + left \<and> mod_known i \<and> modset ! i \<noteq> 0 \<and> ag_mod_list g ! i ! (modset ! i) \<noteq> None
    then ag_mod_list g ! i ! (modset ! i) else h i)\<rparr>)" for h using Suc.IH [of "Suc mod_i" h] Suc.prems by simp
  show ?case
    using Suc.prems l wf(1,3) IH
    by (auto simp: fun_eq_iff le_Suc_eq not_less_eq_eq Suc_le_eq intro!: arg_cong [where f = "\<lambda>h. g\<lparr>ag_mod := h\<rparr>"] split: option.splits)
qed

lemma mod_set_installs:
  assumes "mods_wf g"
  shows "\<exists>g'. ztl_mod_set (ag_modset g) g = Some (xz XZTL_OK, g') \<and> (\<forall>i. ag_mod g' i =
    (if i < APP_MOD_COUNT \<and> mod_known i \<and> ag_modset g ! i \<noteq> 0 \<and> ag_mod_list g ! i ! (ag_modset g ! i) \<noteq> None
     then ag_mod_list g ! i ! (ag_modset g ! i) else ag_mod g i))"
proof -
  have wf: "length (ag_mod_list g) = APP_MOD_COUNT" "\<forall>slots \<in> set (ag_mod_list g). length slots = APP_FN_SLOTS"
    "length (ag_modset g) = APP_MOD_COUNT" "\<forall>modid \<in> set (ag_modset g). modid < APP_FN_SLOTS"
    using assms by (simp_all add: mods_wf_def)
  have "\<not> list_ex (\<lambda>modid. APP_FN_SLOTS \<le> modid) (take APP_MOD_COUNT (ag_modset g))" using wf(3,4) by (auto simp: list_ex_iff)
  then show ?thesis using mod_set_loop_eq [OF wf, of 0 APP_MOD_COUNT "ag_mod g"] wf(3) by (auto simp: ztl_mod_set_def)
qed

section \<open>Properties\<close>

text \<open>C20: The start of the layer starts provisioning, mapping table, mapping, I/O and management in this order. When the
  first \<open>k\<close> of them start and the next one fails, whatever the modules do, the result is the error of the
  module that failed, and exactly the \<open>k\<close> started modules are stopped, the last one first, from the state the failed start left.
  When all start, the result is 0, and the stop of the layer stops all of them in reverse order.\<close>

theorem global_start_stop:
  assumes mods: "mods ZTLMOD_PRO = Some pro" "mods ZTLMOD_MPE = Some mpe" "mods ZTLMOD_MAP = Some mp" "mods ZTLMOD_IO = Some io"
      "mods ZTLMOD_MGMT = Some mgmt"
    and run: "started (take k [pro, mpe, mp, io, mgmt]) s = Some s1"
  shows "(k < 5 \<and> am_init_fn ([pro, mpe, mp, io, mgmt] ! k) s1 = Some (ret, s2) \<and> ret \<noteq> 0 \<longrightarrow>
      app_global_init mods s = do {
        s \<leftarrow> stop_all (rev (take k [pro, mpe, mp, io, mgmt])) s2;
        Some (xz ([XZTL_ZTL_PROV_ERR, XZTL_ZTL_MPE_ERR, XZTL_ZTL_MAP_ERR, XZTL_ZTL_IO_ERR, XZTL_ZTL_MGMT_ERR] ! k), s) }) \<and>
    (5 \<le> k \<longrightarrow> app_global_init mods s = Some (xz XZTL_OK, s1) \<and> app_global_exit mods s1 = stop_all [mgmt, io, mp, mpe, pro] s1)"
proof -
  let ?steps = "ztl_steps pro mpe mp io mgmt"
  have init: "app_global_init mods s = start_all ?steps [] s"
    using mods by (auto simp: app_global_init_def ztl_steps_def split: bind_splits)
  have exit: "app_global_exit mods s1 = stop_all [mgmt, io, mp, mpe, pro] s1"
    using mods by (auto simp: app_global_exit_def split: bind_splits)
  have ms: "map fst ?steps = [pro, mpe, mp, io, mgmt]" "length ?steps = 5" by (simp_all add: ztl_steps_def)
  have nth: "fst (?steps ! k) = [pro, mpe, mp, io, mgmt] ! k"
    "snd (?steps ! k) = xz ([XZTL_ZTL_PROV_ERR, XZTL_ZTL_MPE_ERR, XZTL_ZTL_MAP_ERR, XZTL_ZTL_IO_ERR, XZTL_ZTL_MGMT_ERR] ! k)" if "k < 5"
  proof -
    from that consider "k = 0" | "k = 1" | "k = 2" | "k = 3" | "k = 4" by linarith
    then show "fst (?steps ! k) = [pro, mpe, mp, io, mgmt] ! k"
      "snd (?steps ! k) = xz ([XZTL_ZTL_PROV_ERR, XZTL_ZTL_MPE_ERR, XZTL_ZTL_MAP_ERR, XZTL_ZTL_IO_ERR, XZTL_ZTL_MGMT_ERR] ! k)"
      by (cases; simp add: ztl_steps_def)+
  qed
  have all: "5 \<le> k \<Longrightarrow> started [pro, mpe, mp, io, mgmt] s = Some s1" using run take_all [of "[pro, mpe, mp, io, mgmt]" k] by simp
  show ?thesis unfolding init exit
    using all start_all_fails [of k ?steps s s1 ret s2 "[]"] start_all_ok [of ?steps s s1 "[]"] run nth unfolding ms by (auto simp del: started.simps)
qed

definition flag_module :: "int \<Rightarrow> nat \<Rightarrow> nat list app_mod" where
  "flag_module ret n = \<lparr>am_init_fn = (\<lambda>s. Some (ret, n # s)), am_exit_fn = (\<lambda>s. Some ((100 + n) # s))\<rparr>"

theorem global_start_stop_witness:
  "app_global_init [2 \<mapsto> flag_module 0 2, 3 \<mapsto> flag_module 0 3, 4 \<mapsto> flag_module 0 4, 7 \<mapsto> flag_module 5 7, 8 \<mapsto> flag_module 0 8] [] =
     Some (xz XZTL_ZTL_IO_ERR, [102, 103, 104, 7, 4, 3, 2])"
  using global_start_stop [of "[2 \<mapsto> flag_module 0 2, 3 \<mapsto> flag_module 0 3, 4 \<mapsto> flag_module 0 4, 7 \<mapsto> flag_module 5 7, 8 \<mapsto> flag_module 0 8]"
      "flag_module 0 2" "flag_module 0 3" "flag_module 0 4" "flag_module 5 7" "flag_module 0 8" 3 "[]" "[4, 3, 2]" 5 "[7, 4, 3, 2]"]
  by (simp add: flag_module_def numeral_3_eq_3)

text \<open>C21: What is registered is what the start installs: after a module of a known kind has been registered under a number
  other than 0, \<open>ztl_mod_set\<close> succeeds and the pointer of that kind is that module, and registering it does not
  change which modules are installed for the other kinds.\<close>

theorem registered_is_installed:
  assumes "mods_wf g" "mod_known modtype" "0 < modid" "modid < APP_FN_SLOTS"
  shows "\<exists>g1 g2 g0. ztl_mod_register modtype modid (Some md) g = Some (xz XZTL_OK, g1) \<and> mods_wf g1 \<and>
    ztl_mod_set (ag_modset g1) g1 = Some (xz XZTL_OK, g2) \<and> ag_mod g2 modtype = Some md \<and>
    ztl_mod_set (ag_modset g) g = Some (xz XZTL_OK, g0) \<and> (\<forall>i. i \<noteq> modtype \<longrightarrow> ag_mod g2 i = ag_mod g0 i)"
proof -
  have t: "modtype < APP_MOD_COUNT" using assms(2) by (auto simp: mod_known_def)
  define g1 where "g1 = g\<lparr>ag_mod_list := (ag_mod_list g)[modtype := (ag_mod_list g ! modtype)[modid := Some md]], ag_modset := (ag_modset g)[modtype := modid]\<rparr>"
  have l: "length (ag_mod_list g) = APP_MOD_COUNT" "length (ag_mod_list g ! modtype) = APP_FN_SLOTS" "length (ag_modset g) = APP_MOD_COUNT"
    using assms(1) t by (auto simp: mods_wf_def)
  have reg: "ztl_mod_register modtype modid (Some md) g = Some (xz XZTL_OK, g1)"
    using l t assms(4) by (simp add: ztl_mod_register_def g1_def)
  have wf: "mods_wf g1" using assms(1,4) l by (auto simp: mods_wf_def g1_def dest!: set_update_subset_insert [THEN subsetD])
  obtain g2 where g2: "ztl_mod_set (ag_modset g1) g1 = Some (xz XZTL_OK, g2)" "\<forall>i. ag_mod g2 i =
    (if i < APP_MOD_COUNT \<and> mod_known i \<and> ag_modset g1 ! i \<noteq> 0 \<and> ag_mod_list g1 ! i ! (ag_modset g1 ! i) \<noteq> None
     then ag_mod_list g1 ! i ! (ag_modset g1 ! i) else ag_mod g1 i)" using mod_set_installs [OF wf] by blast
  obtain g0 where g0: "ztl_mod_set (ag_modset g) g = Some (xz XZTL_OK, g0)" "\<forall>i. ag_mod g0 i =
    (if i < APP_MOD_COUNT \<and> mod_known i \<and> ag_modset g ! i \<noteq> 0 \<and> ag_mod_list g ! i ! (ag_modset g ! i) \<noteq> None
     then ag_mod_list g ! i ! (ag_modset g ! i) else ag_mod g i)" using mod_set_installs [OF assms(1)] by blast
  have "ag_mod g2 modtype = Some md" using g2(2) t l assms(2-4) by (simp add: g1_def)
  moreover have "ag_mod g2 i = ag_mod g0 i" if "i \<noteq> modtype" for i using that g2(2) g0(2) by (auto simp: g1_def)
  ultimately show ?thesis using reg wf g2(1) g0(1) by blast
qed

definition empty_global :: "nat app_global" where
  "empty_global = \<lparr>ag_mod_list = replicate APP_MOD_COUNT (replicate APP_FN_SLOTS None), ag_mod = Map.empty, ag_modset = replicate APP_MOD_COUNT 0\<rparr>"

theorem registered_is_installed_witness:
  "\<exists>g1 g2. ztl_mod_register ZTLMOD_IO LIBZTL_IO (Some 77) empty_global = Some (xz XZTL_OK, g1) \<and>
     ztl_mod_set (ag_modset g1) g1 = Some (xz XZTL_OK, g2) \<and> ag_mod g2 ZTLMOD_IO = Some 77"
  using registered_is_installed [of empty_global ZTLMOD_IO LIBZTL_IO 77] by (auto simp: mods_wf_def mod_known_def empty_global_def)

end
