(* ===== verification/Zrocks.thy ===== *)
theory Zrocks
  imports Ztl_Io_Module Ztl_Mgmt Ztl_Modules
begin

text \<open>
  The interface of the library for RocksDB, \<open>zrocks.c\<close>: writes that return a list of pieces
  (\<open>struct zrocks_map\<close>), reads by node and offset, trimming of pieces, requests for nodes, and the start and
  stop of the library.

  The state is the I/O module, the queue of requests for nodes, the memory pools, the mapping, and the memory
  of the caller. A write is queued and the caller waits until the thread of the queue has completed it, so the
  model runs the thread; the memory of the transfers (\<open>zrocks_alloc\<close>) belongs to the state of xNVMe. \<open>ucmd0\<close>
  is the uninitialised user command on the stack.
\<close>

section \<open>Model\<close>

abbreviation (input) ZROCKS_BUF_ENTS :: nat where "ZROCKS_BUF_ENTS \<equiv> 1024"
abbreviation (input) ZROCKS_MAX_READ_SZ :: nat where "ZROCKS_MAX_READ_SZ \<equiv> 256 * ZNS_ALIGMENT"
abbreviation (input) ZROCKS_READ_MAX_RETRY :: nat where "ZROCKS_READ_MAX_RETRY \<equiv> 3"

record 'x zr_world =
  zr_io :: "'x io_mod"
  zr_reqs :: "xnvme_node_mgmt_entry list"
  zr_mp :: xztl_mempool
  zr_map :: map_world
  zr_mem :: "nat \<Rightarrow> nat"

abbreviation zr_media :: "'x zr_world \<Rightarrow> 'x media_state" where "zr_media z \<equiv> im_media (zr_io z)"

definition zr_put_media :: "'x media_state \<Rightarrow> 'x zr_world \<Rightarrow> 'x zr_world" where
  "zr_put_media s z = z\<lparr>zr_io := (zr_io z)\<lparr>im_media := s\<rparr>\<rparr>"

definition zrocks_alloc :: "'x media_state xztl_core \<Rightarrow> nat \<Rightarrow> 'x zr_world \<Rightarrow> (nat \<times> 'x zr_world) option" where
  "zrocks_alloc core sz z = do { (p, s) \<leftarrow> xztl_media_dma_alloc core sz (zr_media z); Some (p, zr_put_media s z) }"

definition zrocks_free :: "'x media_state xztl_core \<Rightarrow> nat \<Rightarrow> 'x zr_world \<Rightarrow> 'x zr_world option" where
  "zrocks_free core p z = do { s \<leftarrow> xztl_media_dma_free core p (zr_media z); Some (zr_put_media s z) }"

definition zrocks_new :: int where
  "zrocks_new = xz XZTL_OK"

subsection \<open>Writing\<close>

definition zr_stats_inc :: "xztl_stats_io_types \<Rightarrow> nat \<Rightarrow> 'x zr_world \<Rightarrow> 'x zr_world option" where
  "zr_stats_inc type val z = do {
     io \<leftarrow> xztl_stats_inc (st type) val (ms_io (zr_media z));
     Some (zr_put_media ((zr_media z)\<lparr>ms_io := io\<rparr>) z) }"

text \<open>The pieces of the command are written to the array of the caller.\<close>

fun write_maps :: "xztl_io_ucmd \<Rightarrow> nat \<Rightarrow> nat \<Rightarrow> nat \<Rightarrow> zrocks_map list \<Rightarrow> zrocks_map list option" where
  "write_maps ucmd pad i 0 maps = Some maps"
| "write_maps ucmd pad i (Suc left) maps = do {
     m \<leftarrow> get_at maps i;
     n \<leftarrow> get_at (uc_node_id ucmd) i;
     s \<leftarrow> get_at (uc_start ucmd) i;
     k \<leftarrow> get_at (uc_num ucmd) i;
     let m = set_num k (set_start s (set_node_id n m));
     let m = (if int i < int (uc_pieces ucmd) - 1 then set_padding 0 m else set_padding pad m);
     write_maps ucmd pad (i + 1) left (maps[i := m]) }"

definition write_level :: "int \<Rightarrow> nat" where
  "write_level level = (let level = (if level < 0 then 0 else level) in if level \<ge> int ZROCKS_LEVEL_NUM then ZROCKS_LEVEL_NUM - 1 else nat level)"

definition write_size :: "nat \<Rightarrow> nat" where
  "write_size sz =
     (let alignment = ZNS_ALIGMENT * ZTL_IO_SEC_MCMD; misalign = u32 (sz mod alignment)
      in if misalign \<noteq> 0 then u64 (sz + (alignment - misalign)) else sz)"

definition write_ucmd :: "xztl_io_ucmd \<Rightarrow> nat \<Rightarrow> nat \<Rightarrow> nat \<Rightarrow> xztl_io_ucmd" where
  "write_ucmd ucmd0 buf new_sz level = ucmd0\<lparr>uc_app_md := 1, uc_prov_type := level, uc_id := op XZTL_CMD_WRITE, uc_buf := buf,
     uc_size := new_sz, uc_status := 0, uc_completed := 0, uc_pieces := 0\<rparr>"

definition zrocks_write ::
    "'x xnvme \<Rightarrow> 'x media_state xztl_core \<Rightarrow> ztl_metadata \<Rightarrow> xztl_misc_cmd \<Rightarrow> nat \<Rightarrow> nat \<Rightarrow> xztl_io_ucmd \<Rightarrow>
     nat \<Rightarrow> nat \<Rightarrow> int \<Rightarrow> zrocks_map list \<Rightarrow> bool \<Rightarrow> 'x zr_world \<Rightarrow> (int \<times> zrocks_map list \<times> nat \<times> 'x zr_world) option" where
  "zrocks_write xn core md misc0 fuel turns ucmd0 buf sz level maps is_gc z = do {
     let new_sz = write_size sz;
     let level = write_level level;
     let u = length (im_ucmds (zr_io z));
     m \<leftarrow> ztl_io_submit u ((zr_io z)\<lparr>im_ucmds := im_ucmds (zr_io z) @ [write_ucmd ucmd0 buf new_sz level]\<rparr>);
     m \<leftarrow> ztl_io_write_th xn core md misc0 fuel level turns m;
     ucmd \<leftarrow> get_at (im_ucmds m) u;
     if uc_completed ucmd = 0 then None
     else do {
       maps \<leftarrow> write_maps ucmd (usub 64 new_sz sz) 0 (uc_pieces ucmd) maps;
       let z = z\<lparr>zr_io := m\<lparr>im_ucmds := take u (im_ucmds m)\<rparr>\<rparr>;
       z \<leftarrow> zr_stats_inc (if is_gc then XZTL_STATS_APPEND_BYTES_GC else XZTL_STATS_APPEND_BYTES_U) sz z;
       z \<leftarrow> zr_stats_inc (if is_gc then XZTL_STATS_APPEND_GC_CMD else XZTL_STATS_APPEND_UCMD) 1 z;
       z \<leftarrow> zr_stats_inc XZTL_STATS_APPEND_BYTES new_sz z;
       Some (xz XZTL_OK, maps, uc_pieces ucmd, z) } }"

subsection \<open>Reading\<close>

definition zrocks_read_obj :: "nat \<Rightarrow> 'x zr_world \<Rightarrow> (int \<times> 'x zr_world) option" where
  "zrocks_read_obj key z = do { (objsec_off, w) \<leftarrow> map_read key (zr_map z); Some (xz XZTL_OK, z\<lparr>zr_map := w\<rparr>) }"

text \<open>A failed attempt is repeated, twice at most, and again and again while the status is 22. The status of the
  user command is that of all attempts.\<close>

fun read_attempts ::
    "('x \<Rightarrow> nat \<Rightarrow> nat) \<Rightarrow> 'x xnvme \<Rightarrow> 'x media_state xztl_core \<Rightarrow> znd_media \<Rightarrow> nat \<Rightarrow> nat \<Rightarrow> nat \<Rightarrow> xztl_io_ucmd \<Rightarrow> 'x zr_world \<Rightarrow>
     (int \<times> xztl_io_ucmd \<times> 'x zr_world) option" where
  "read_attempts dma xn core zv fuel 0 retry ucmd z = None"
| "read_attempts dma xn core zv fuel (Suc left) retry ucmd z = do {
     (ret, rs, ucmd, s, mem) \<leftarrow> ztl_io_read dma xn core zv (im_grp (zr_io z)) fuel (im_rr (zr_io z)) ucmd (zr_media z) (zr_mem z);
     let z = z\<lparr>zr_io := (zr_io z)\<lparr>im_rr := rs, im_media := s\<rparr>, zr_mem := mem\<rparr>;
     if ret \<noteq> 0 \<or> uc_status ucmd \<noteq> 0
     then do {
       let retry = (if uc_status ucmd = 22 then 0 else retry) + 1;
       if retry < ZROCKS_READ_MAX_RETRY then read_attempts dma xn core zv fuel left retry ucmd z
       else Some (xz XZTL_ZROCKS_READ_ERR, ucmd, z) }
     else Some (xz XZTL_OK, ucmd, z) }"

definition read_ucmd :: "xztl_io_ucmd \<Rightarrow> nat \<Rightarrow> nat \<Rightarrow> nat \<Rightarrow> nat \<Rightarrow> xztl_io_ucmd" where
  "read_ucmd ucmd0 node_id offset buf sz = ucmd0\<lparr>uc_id := op XZTL_CMD_READ, uc_buf := buf, uc_size := sz, uc_offset := offset, uc_status := 0,
     uc_completed := 0, uc_ncb := 0, uc_node_id := (uc_node_id ucmd0)[0 := node_id]\<rparr>"

definition zrocks_read ::
    "('x \<Rightarrow> nat \<Rightarrow> nat) \<Rightarrow> 'x xnvme \<Rightarrow> 'x media_state xztl_core \<Rightarrow> znd_media \<Rightarrow> nat \<Rightarrow> nat \<Rightarrow> xztl_io_ucmd \<Rightarrow>
     nat \<Rightarrow> nat \<Rightarrow> nat \<Rightarrow> nat \<Rightarrow> bool \<Rightarrow> 'x zr_world \<Rightarrow> (int \<times> 'x zr_world) option" where
  "zrocks_read dma xn core zv fuel attempts ucmd0 node_id offset buf sz is_gc z = do {
     (ret, ucmd, z) \<leftarrow> read_attempts dma xn core zv fuel attempts 0 (read_ucmd ucmd0 node_id offset buf sz) z;
     if ret \<noteq> 0 then Some (xz XZTL_ZROCKS_READ_ERR, z)
     else if uc_completed ucmd = 0 then None
     else do {
       z \<leftarrow> zr_stats_inc (if is_gc then XZTL_STATS_READ_BYTES_GC else XZTL_STATS_READ_BYTES_U) sz z;
       z \<leftarrow> zr_stats_inc (if is_gc then XZTL_STATS_READ_GC_CMD else XZTL_STATS_READ_UCMD) 1 z;
       Some (xz XZTL_OK, z) } }"

subsection \<open>Objects, pieces and nodes\<close>

definition zrocks_delete :: "nat \<Rightarrow> app_map_entry \<Rightarrow> 'x zr_world \<Rightarrow> (int \<times> 'x zr_world) option" where
  "zrocks_delete key old z = do { (ret, old, w) \<leftarrow> map_upsert key 0 old 0 (zr_map z); Some (ret, z\<lparr>zr_map := w\<rparr>) }"

text \<open>A request for a node goes to the queue of the management thread.\<close>

definition zr_request :: "nat \<Rightarrow> ztl_pro_mgmt_opcode \<Rightarrow> 'x zr_world \<Rightarrow> (int \<times> 'x zr_world) option" where
  "zr_request n op_code z = do {
     pro \<leftarrow> gr_pro (im_grp (zr_io z));
     tbl \<leftarrow> zd_tbl (gr_zmd (im_grp (zr_io z)));
     (ret, ms) \<leftarrow> ztl_mgmt_submit_reset_finish n op_code
        \<lparr>mg_submit_head = zr_reqs z, mg_mp = zr_mp z, mg_io = ms_io (zr_media z), mg_pro = pro, mg_tbl = tbl, mg_media = zr_media z\<rparr>;
     Some (ret, z\<lparr>zr_reqs := mg_submit_head ms, zr_mp := mg_mp ms\<rparr>) }"

definition zr_put_node :: "nat \<Rightarrow> ztl_pro_node \<Rightarrow> 'x zr_world \<Rightarrow> 'x zr_world option" where
  "zr_put_node n node z = do {
     pro \<leftarrow> gr_pro (im_grp (zr_io z));
     vnodes \<leftarrow> set_at (pg_vnodes pro) n node;
     Some (z\<lparr>zr_io := (zr_io z)\<lparr>im_grp := (im_grp (zr_io z))\<lparr>gr_pro := Some (pro\<lparr>pg_vnodes := vnodes\<rparr>)\<rparr>\<rparr>\<rparr>) }"

definition zrocks_trim :: "zrocks_map \<Rightarrow> 'x zr_world \<Rightarrow> (int \<times> 'x zr_world) option" where
  "zrocks_trim m z = do {
     pro \<leftarrow> gr_pro (im_grp (zr_io z));
     node \<leftarrow> get_at (pg_vnodes pro) (zm_node_id m);
     let node = node\<lparr>nd_nr_valid := usub 64 (nd_nr_valid node) (zm_num m)\<rparr>;
     z \<leftarrow> zr_put_node (zm_node_id m) node z;
     if nd_nr_valid node = 0 \<and> nd_status node = XZTL_ZMD_NODE_FULL
     then do {
       z \<leftarrow> zr_put_node (zm_node_id m) (node\<lparr>nd_status := XZTL_ZMD_NODE_RESET\<rparr>) z;
       zr_request (zm_node_id m) ZTL_MGMG_RESET_ZONE z }
     else Some (xz XZTL_OK, z) }"

definition zrocks_node_set :: "nat \<Rightarrow> int \<Rightarrow> int \<Rightarrow> 'x zr_world \<Rightarrow> 'x zr_world option" where
  "zrocks_node_set node_id level num z = do { m \<leftarrow> ztl_io_nodeset node_id level num (zr_io z); Some (z\<lparr>zr_io := m\<rparr>) }"

definition zrocks_node_finish :: "nat \<Rightarrow> 'x zr_world \<Rightarrow> (int \<times> 'x zr_world) option" where
  "zrocks_node_finish node_id z = zr_request node_id ZTL_MGMG_FULL_ZONE z"

definition zrocks_clear_invalid_nodes ::
    "'x media_state xztl_core \<Rightarrow> xztl_zn_mcmd \<Rightarrow> 'x zr_world \<Rightarrow> 'x zr_world option" where
  "zrocks_clear_invalid_nodes core cmd0 z = do {
     pro \<leftarrow> gr_pro (im_grp (zr_io z));
     tbl \<leftarrow> zd_tbl (gr_zmd (im_grp (zr_io z)));
     (pro, tbl, s) \<leftarrow> ztl_mgmt_clear_invalid_node core cmd0 pro tbl (zr_media z);
     Some (z\<lparr>zr_io := (zr_io z)\<lparr>im_grp := (im_grp (zr_io z))\<lparr>gr_pro := Some pro, gr_zmd := (gr_zmd (im_grp (zr_io z)))\<lparr>zd_tbl := Some tbl\<rparr>\<rparr>,
       im_media := s\<rparr>\<rparr>) }"

subsection \<open>Garbage collection\<close>

definition zrocks_gc_get_nodes_num :: "'x zr_world \<Rightarrow> nat option" where
  "zrocks_gc_get_nodes_num z = do { pro \<leftarrow> gr_pro (im_grp (zr_io z)); Some (pg_nnodes pro) }"

definition zrocks_gc_get_free_nodes_num :: "'x zr_world \<Rightarrow> nat option" where
  "zrocks_gc_get_free_nodes_num z = do { pro \<leftarrow> gr_pro (im_grp (zr_io z)); Some (pg_nfree pro) }"

fun gc_full_loop :: "ztl_pro_node_grp \<Rightarrow> nat list \<Rightarrow> nat list \<Rightarrow> nat list option" where
  "gc_full_loop pro [] pct = Some pct"
| "gc_full_loop pro (n # ns) pct = do {
     node \<leftarrow> get_at (pg_vnodes pro) n;
     if nd_level node \<ge> 1 \<and> nd_status node = XZTL_ZMD_NODE_FULL
     then do {
       pct \<leftarrow> set_at pct (nd_id node) (u32 (usub 64 100 (u64 (100 * nd_nr_valid node) div ZTL_PRO_OPT_SEC_NUM_INNODE)));
       gc_full_loop pro ns pct }
     else gc_full_loop pro ns pct }"

definition zrocks_gc_get_full_nodes :: "nat list \<Rightarrow> 'x zr_world \<Rightarrow> nat list option" where
  "zrocks_gc_get_full_nodes pct z = do { pro \<leftarrow> gr_pro (im_grp (zr_io z)); gc_full_loop pro (pg_full_head pro) pct }"

subsection \<open>Start and stop\<close>

text \<open>The registration of the modules of the library; \<open>mods\<close> gives the module for each number. The start takes the steps
  of the library as functions on its state \<open>'s\<close>.\<close>

definition zrocks_register :: "(nat \<Rightarrow> 'm) \<Rightarrow> 'm app_global \<Rightarrow> 'm app_global option" where
  "zrocks_register mods g = do {
     (_, g) \<leftarrow> ztl_mod_register ZTLMOD_ZMD LIBZTL_ZMD (Some (mods ZTLMOD_ZMD)) g;
     (_, g) \<leftarrow> ztl_mod_register ZTLMOD_PRO LIBZTL_PRO (Some (mods ZTLMOD_PRO)) g;
     (_, g) \<leftarrow> ztl_mod_register ZTLMOD_MPE LIBZTL_MPE (Some (mods ZTLMOD_MPE)) g;
     (_, g) \<leftarrow> ztl_mod_register ZTLMOD_MAP LIBZTL_MAP (Some (mods ZTLMOD_MAP)) g;
     (_, g) \<leftarrow> ztl_mod_register ZTLMOD_IO LIBZTL_IO (Some (mods ZTLMOD_IO)) g;
     (_, g) \<leftarrow> ztl_mod_register ZTLMOD_MGMT LIBZTL_MGMT (Some (mods ZTLMOD_MGMT)) g;
     Some g }"

definition zrocks_init ::
    "'s lib_fns \<Rightarrow> (string \<Rightarrow> 's \<Rightarrow> (int \<times> 's) option) \<Rightarrow> ('s \<Rightarrow> 's option) \<Rightarrow> 's app_mod \<Rightarrow> ('s \<Rightarrow> (int \<times> 's) option) \<Rightarrow>
     string \<Rightarrow> 's \<Rightarrow> (int \<times> 's) option" where
  "zrocks_init lib media_fn register pool lib_exit dev_name s = do {
     s \<leftarrow> register s;
     (ret, s) \<leftarrow> xztl_init (lib\<lparr>lf_media_fn := Some media_fn\<rparr>) dev_name s;
     if ret \<noteq> 0 then Some (xz XZTL_ZROCKS_INIT_ERR, s)
     else do {
       (ret, s) \<leftarrow> am_init_fn pool s;
       if ret \<noteq> 0 then do { (_, s) \<leftarrow> lib_exit s; Some (ret, s) }
       else Some (ret, s) } }"

definition zrocks_exit :: "'s app_mod \<Rightarrow> ('s \<Rightarrow> (int \<times> 's) option) \<Rightarrow> 's \<Rightarrow> (int \<times> 's) option" where
  "zrocks_exit pool lib_exit s = do { s \<leftarrow> am_exit_fn pool s; lib_exit s }"

section \<open>Trimming\<close>

lemma zr_put_node_eq:
  assumes "gr_pro (im_grp (zr_io z)) = Some pro" "n < length (pg_vnodes pro)"
  shows "zr_put_node n node z =
    Some (z\<lparr>zr_io := (zr_io z)\<lparr>im_grp := (im_grp (zr_io z))\<lparr>gr_pro := Some (pro\<lparr>pg_vnodes := (pg_vnodes pro)[n := node]\<rparr>)\<rparr>\<rparr>\<rparr>)"
  using assms by (simp add: zr_put_node_def)

text \<open>The node, the requests, the pools and the rest of the table of nodes after a trim.\<close>

definition trim_state :: "nat \<Rightarrow> ztl_pro_node_grp \<Rightarrow> ztl_pro_node \<Rightarrow> 'x zr_world \<Rightarrow> bool" where
  "trim_state n pro node z \<longleftrightarrow> gr_pro (im_grp (zr_io z)) = Some pro \<and> n < length (pg_vnodes pro) \<and> pg_vnodes pro ! n = node \<and>
     zd_tbl (gr_zmd (im_grp (zr_io z))) \<noteq> None"

lemma trim_keeps:
  assumes "trim_state n pro node z" "zm_node_id m = n" "zm_num m < nd_nr_valid node" "nd_nr_valid node < 2 ^ 64"
  shows "\<exists>pro' z'. zrocks_trim m z = Some (xz XZTL_OK, z') \<and> trim_state n pro' (node\<lparr>nd_nr_valid := nd_nr_valid node - zm_num m\<rparr>) z' \<and>
    zr_reqs z' = zr_reqs z \<and> zr_mp z' = zr_mp z"
  using assms by (auto simp: zrocks_trim_def trim_state_def zr_put_node_eq usub_small Let_def)

lemma trim_resets:
  assumes "trim_state n pro node z" "zm_node_id m = n" "zm_num m = nd_nr_valid node" "nd_nr_valid node < 2 ^ 64"
    "nd_status node = XZTL_ZMD_NODE_FULL" "xztl_mempool_get (zr_mp z) (mpt XZTL_NODE_MGMT_ENTRY) 0 = Some (ent, mp)"
  shows "\<exists>pro' z'. zrocks_trim m z = Some (xz XZTL_OK, z') \<and>
    trim_state n pro' (node\<lparr>nd_nr_valid := 0, nd_status := XZTL_ZMD_NODE_RESET\<rparr>) z' \<and>
    zr_reqs z' = zr_reqs z @ [\<lparr>et_node = n, et_mp_entry = ent, et_op_code = ZTL_MGMG_RESET_ZONE\<rparr>] \<and> zr_mp z' = mp"
  using assms by (auto simp: zrocks_trim_def trim_state_def zr_put_node_eq usub_small Let_def zr_request_def
      ztl_mgmt_submit_reset_finish_def tailq_insert_tail_def)

lemma trim_empty:
  assumes "trim_state n pro node z" "zm_node_id m = n" "zm_num m = 0" "nd_nr_valid node = 0" "nd_status node \<noteq> XZTL_ZMD_NODE_FULL"
  shows "\<exists>pro' z'. zrocks_trim m z = Some (xz XZTL_OK, z') \<and> trim_state n pro' node z' \<and> zr_reqs z' = zr_reqs z \<and> zr_mp z' = zr_mp z"
  using assms by (auto simp: zrocks_trim_def trim_state_def zr_put_node_eq usub_small Let_def)

fun trim_all :: "zrocks_map list \<Rightarrow> 'x zr_world \<Rightarrow> 'x zr_world option" where
  "trim_all [] z = Some z"
| "trim_all (m # ms) z = do { (ret, z) \<leftarrow> zrocks_trim m z; if ret = 0 then trim_all ms z else None }"

lemma trim_all_empty:
  assumes "trim_state n pro node z" "\<forall>m \<in> set ms. zm_node_id m = n \<and> zm_num m = 0" "nd_nr_valid node = 0" "nd_status node \<noteq> XZTL_ZMD_NODE_FULL"
  shows "\<exists>pro' z'. trim_all ms z = Some z' \<and> trim_state n pro' node z' \<and> zr_reqs z' = zr_reqs z \<and> zr_mp z' = zr_mp z"
  using assms
proof (induction ms arbitrary: pro z)
  case (Cons m ms)
  obtain pro1 z1 where z1: "zrocks_trim m z = Some (xz XZTL_OK, z1)" "trim_state n pro1 node z1" "zr_reqs z1 = zr_reqs z" "zr_mp z1 = zr_mp z"
    using trim_empty [OF Cons.prems(1) _ _ Cons.prems(3,4), of m] Cons.prems(2) by auto
  then show ?case using Cons.IH [OF z1(2)] Cons.prems(2-4) by auto
qed auto

text \<open>The pieces of a full node, trimmed one after the other in any order and with other pieces of any size among
  them, lead to one request.\<close>

lemma trim_all_resets:
  assumes "trim_state n pro node z" "\<forall>m \<in> set ms. zm_node_id m = n" "sum_list (map zm_num ms) = nd_nr_valid node" "nd_nr_valid node < 2 ^ 64"
    "nd_status node = XZTL_ZMD_NODE_FULL" "xztl_mempool_get (zr_mp z) (mpt XZTL_NODE_MGMT_ENTRY) 0 = Some (ent, mp)" "ms \<noteq> []"
  shows "\<exists>pro' z'. trim_all ms z = Some z' \<and> trim_state n pro' (node\<lparr>nd_nr_valid := 0, nd_status := XZTL_ZMD_NODE_RESET\<rparr>) z' \<and>
    zr_reqs z' = zr_reqs z @ [\<lparr>et_node = n, et_mp_entry = ent, et_op_code = ZTL_MGMG_RESET_ZONE\<rparr>] \<and> zr_mp z' = mp"
  using assms
proof (induction ms arbitrary: pro node z)
  case (Cons m ms)
  have m: "zm_node_id m = n" "zm_num m \<le> nd_nr_valid node" using Cons.prems(2,3) by auto
  show ?case
  proof (cases "zm_num m = nd_nr_valid node")
    case True
    obtain pro1 z1 where z1: "zrocks_trim m z = Some (xz XZTL_OK, z1)"
      "trim_state n pro1 (node\<lparr>nd_nr_valid := 0, nd_status := XZTL_ZMD_NODE_RESET\<rparr>) z1"
      "zr_reqs z1 = zr_reqs z @ [\<lparr>et_node = n, et_mp_entry = ent, et_op_code = ZTL_MGMG_RESET_ZONE\<rparr>]" "zr_mp z1 = mp"
      using trim_resets [OF Cons.prems(1) m(1) True Cons.prems(4-6)] by blast
    have "\<forall>m \<in> set ms. zm_node_id m = n \<and> zm_num m = 0" using Cons.prems(2,3) True by (auto simp: sum_list_eq_0_iff)
    from trim_all_empty [OF z1(2) this] show ?thesis using z1 by auto
  next
    case False
    obtain pro1 z1 where z1: "zrocks_trim m z = Some (xz XZTL_OK, z1)" "trim_state n pro1 (node\<lparr>nd_nr_valid := nd_nr_valid node - zm_num m\<rparr>) z1"
      "zr_reqs z1 = zr_reqs z" "zr_mp z1 = zr_mp z" using trim_keeps [OF Cons.prems(1) m(1) _ Cons.prems(4)] m(2) False by auto
    have "ms \<noteq> []" "sum_list (map zm_num ms) = nd_nr_valid node - zm_num m" using Cons.prems(3) False by auto
    then show ?thesis using Cons.IH [OF z1(2)] Cons.prems(2,4,5,6) z1 by auto
  qed
qed simp

end
