(* ===== verification/Zrocks_Data.thy ===== *)
theory Zrocks_Data
  imports Zrocks
begin

text \<open>
  What writes and reads through \<open>zrocks.c\<close> do with the data of the caller. The device stores what is written
  and reads what is stored (\<open>zns_device\<close>, the documented behaviour of xNVMe over a device that reports no
  errors). A write into a node with room returns one piece, and a read of bytes of this piece returns what
  the caller had written, also after further writes to the same level.
\<close>

section \<open>Devices and states\<close>

definition zns_device ::
    "'x xnvme \<Rightarrow> ('x \<Rightarrow> nat \<Rightarrow> nat) \<Rightarrow> ('x \<Rightarrow> nat \<Rightarrow> nat) \<Rightarrow> ('x \<Rightarrow> request set) \<Rightarrow> ('x \<Rightarrow> nat multiset) \<Rightarrow> nat \<Rightarrow> bool" where
  "zns_device xn dma disk pend infl depth \<longleftrightarrow> device_good xn infl \<and> storing xn (\<lambda>x. (dma x, pend x)) disk \<and>
     (\<forall>d. reader xn dma (\<lambda>x. disk x = d \<and> infl x = {#}) pend d depth)"

abbreviation zr_x :: "'x zr_world \<Rightarrow> 'x" where "zr_x z \<equiv> ms_x (zr_media z)"

text \<open>The write queue of a level is idle and its node \<open>n\<close> has the write pointers where its accounts say.\<close>

definition level_world :: "nat \<Rightarrow> xztl_io_ucmd \<Rightarrow> 'x zr_world \<Rightarrow> 'x io_world" where
  "level_world level ucmd z = \<lparr>iw_ucmd = ucmd, iw_q = im_qp (zr_io z) ! level, iw_grp = im_grp (zr_io z), iw_media = zr_media z\<rparr>"

definition level_at ::
    "ztl_metadata \<Rightarrow> nat \<Rightarrow> nat \<Rightarrow> nat \<Rightarrow> ztl_pro_node_grp \<Rightarrow> ztl_pro_node \<Rightarrow> app_zmd_entry list \<Rightarrow> 'x zr_world \<Rightarrow> bool" where
  "level_at md level n queue pro node tbl z \<longleftrightarrow> level < length (im_qp (zr_io z)) \<and>
     (\<forall>ucmd. write_node md (level_world level ucmd z) n pro node tbl) \<and>
     (let q = im_qp (zr_io z) ! level in qp_ucmd_head q = [] \<and> length (pa_addr (qp_prov q)) = APP_PRO_MAX_OFFS \<and>
        length (pa_nsec (qp_prov q)) = APP_PRO_MAX_OFFS \<and> XZTL_WIO_MAX_MCMD \<le> length (qp_mcmd q) \<and>
        ms_tctx (zr_media z) (qp_tctx q) = Some queue) \<and>
     ms_done (zr_media z) = [] \<and> length (ms_io (zr_media z)) = XZTL_STATS_IO_TYPES"

text \<open>The arrays of a user command have the sizes of the declaration of \<open>struct xztl_io_ucmd\<close>.\<close>

definition ucmd_sized :: "xztl_io_ucmd \<Rightarrow> bool" where
  "ucmd_sized u \<longleftrightarrow> length (uc_mcmd u) = XZTL_WIO_MAX_MCMD \<and> length (uc_msec u) = XZTL_WIO_MAX_MCMD \<and>
     length (uc_moffset u) = XZTL_WIO_MAX_MCMD \<and> length (uc_minflight u) = 256 \<and>
     length (uc_node_id u) = 2 \<and> length (uc_start u) = 2 \<and> length (uc_num u) = 2"

text \<open>All read resources are free, with an open queue and buffers that do not overlap.\<close>

definition rs_idle :: "(nat \<rightharpoonup> nat) \<Rightarrow> ztl_read_rs \<Rightarrow> bool" where
  "rs_idle tctxs r \<longleftrightarrow> \<not> rs_usedflag r \<and> tctxs (rs_tctx r) \<noteq> None \<and> ZTL_IO_RC_NUM \<le> length (rs_mcmd r) \<and> ZTL_IO_RC_NUM \<le> length (rs_prp r) \<and>
     (\<forall>i < ZTL_IO_RC_NUM. \<forall>j < ZTL_IO_RC_NUM. i \<noteq> j \<longrightarrow>
        rs_prp r ! i + 32768 \<le> rs_prp r ! j \<or> rs_prp r ! j + 32768 \<le> rs_prp r ! i)"

definition reads_idle :: "znd_media \<Rightarrow> ('x \<Rightarrow> request set) \<Rightarrow> 'x zr_world \<Rightarrow> bool" where
  "reads_idle zv pend z \<longleftrightarrow> 0 < zv_read_ctx_num zv \<and> zv_read_ctx_num zv \<le> length (im_rr (zr_io z)) \<and>
     (\<forall>r \<in> set (im_rr (zr_io z)). rs_idle (ms_tctx (zr_media z)) r) \<and> pend (zr_x z) = {} \<and> length (ms_io (zr_media z)) = XZTL_STATS_IO_TYPES"

section \<open>Counters\<close>

lemma zr_stats_inc_eq:
  assumes "length (ms_io (zr_media z)) = XZTL_STATS_IO_TYPES"
  shows "\<exists>io. zr_stats_inc t v z = Some (zr_put_media ((zr_media z)\<lparr>ms_io := io\<rparr>) z) \<and> length io = XZTL_STATS_IO_TYPES"
proof -
  have "st t < length (ms_io (zr_media z))" using assms by (cases t) simp_all
  then show ?thesis using assms by (auto simp: zr_stats_inc_def xztl_stats_inc_Some)
qed

lemma zr_put_media_simps [simp]:
  "zr_media (zr_put_media s z) = s" "im_qp (zr_io (zr_put_media s z)) = im_qp (zr_io z)" "im_rr (zr_io (zr_put_media s z)) = im_rr (zr_io z)"
  "im_grp (zr_io (zr_put_media s z)) = im_grp (zr_io z)" "im_ucmds (zr_io (zr_put_media s z)) = im_ucmds (zr_io z)"
  "im_prov (zr_io (zr_put_media s z)) = im_prov (zr_io z)" "zr_mem (zr_put_media s z) = zr_mem z"
  "zr_reqs (zr_put_media s z) = zr_reqs z" "zr_mp (zr_put_media s z) = zr_mp z" "zr_map (zr_put_media s z) = zr_map z"
  "zr_put_media s (zr_put_media s' z) = zr_put_media s z"
  by (simp_all add: zr_put_media_def)

text \<open>Only the counters differ.\<close>

definition counted :: "'x zr_world \<Rightarrow> 'x zr_world \<Rightarrow> bool" where
  "counted z z' \<longleftrightarrow> (\<exists>io. z' = zr_put_media ((zr_media z)\<lparr>ms_io := io\<rparr>) z \<and> length io = XZTL_STATS_IO_TYPES)"

lemma counted_inc:
  assumes "counted z z1" "length (ms_io (zr_media z)) = XZTL_STATS_IO_TYPES"
  shows "\<exists>z2. zr_stats_inc t v z1 = Some z2 \<and> counted z z2"
proof -
  obtain io where io: "z1 = zr_put_media ((zr_media z)\<lparr>ms_io := io\<rparr>) z" "length io = XZTL_STATS_IO_TYPES"
    using assms(1) unfolding counted_def by blast
  have "length (ms_io (zr_media z1)) = XZTL_STATS_IO_TYPES" using io by simp
  from zr_stats_inc_eq [OF this, of t v] show ?thesis using io unfolding counted_def by auto
qed

lemma counted_refl: "length (ms_io (zr_media z)) = XZTL_STATS_IO_TYPES \<Longrightarrow> counted z z"
  unfolding counted_def by (intro exI [of _ "ms_io (zr_media z)"]) (simp add: zr_put_media_def)

lemma counted_simps:
  assumes "counted z z'"
  shows "zr_x z' = zr_x z" "ms_tctx (zr_media z') = ms_tctx (zr_media z)" "ms_done (zr_media z') = ms_done (zr_media z)"
    "length (ms_io (zr_media z')) = XZTL_STATS_IO_TYPES" "im_qp (zr_io z') = im_qp (zr_io z)" "im_rr (zr_io z') = im_rr (zr_io z)"
    "im_grp (zr_io z') = im_grp (zr_io z)" "im_ucmds (zr_io z') = im_ucmds (zr_io z)" "zr_mem z' = zr_mem z" "zr_reqs z' = zr_reqs z"
    "zr_mp z' = zr_mp z" "zr_map z' = zr_map z"
  using assms by (auto simp: counted_def)

section \<open>Sizes and pieces\<close>

definition slots_of :: "nat \<Rightarrow> nat" where
  "slots_of sz = (sz + 32767) div 32768"

lemma write_size_eq:
  assumes "sz \<le> 32768 * XZTL_WIO_MAX_MCMD"
  shows "write_size sz = 32768 * slots_of sz" "sz \<le> write_size sz" "write_size sz < sz + 32768" "slots_of sz \<le> XZTL_WIO_MAX_MCMD"
proof -
  define q r where "q = sz div 32768" and "r = sz mod 32768"
  have sz: "sz = 32768 * q + r" "r < 32768" by (simp_all add: q_def r_def)
  have q: "q \<le> 1024" using assms sz by simp
  have s: "slots_of sz = (if r = 0 then q else q + 1)" using sz(2) by (auto simp: slots_of_def sz(1))
  have w: "write_size sz = (if r = 0 then sz else sz + (32768 - r))"
    using sz q by (simp add: write_size_def Let_def u32_small u64_small flip: r_def)
  show "write_size sz = 32768 * slots_of sz" "sz \<le> write_size sz" "write_size sz < sz + 32768" using s w sz by auto
  show "slots_of sz \<le> XZTL_WIO_MAX_MCMD" using assms by (simp add: slots_of_def)
qed

definition piece_map :: "nat \<Rightarrow> nat \<Rightarrow> nat \<Rightarrow> nat \<Rightarrow> zrocks_map \<Rightarrow> zrocks_map" where
  "piece_map n start num pad m = set_padding pad (set_num num (set_start start (set_node_id n m)))"

lemma piece_map_read:
  assumes "n < 2 ^ 14" "start < 2 ^ 22" "num < 2 ^ 11" "pad < 2 ^ 16"
  shows "zm_node_id (piece_map n start num pad m) = n" "zm_start (piece_map n start num pad m) = start"
    "zm_num (piece_map n start num pad m) = num" "zm_padding (piece_map n start num pad m) = pad"
  using assms by (simp_all add: piece_map_def zrocks_map_read take_bit_nat_eq_self u16_small)

lemma write_maps_one:
  assumes "uc_pieces u = 1" "uc_node_id u ! 0 = n" "uc_start u ! 0 = s" "uc_num u ! 0 = k" "length (uc_node_id u) = 2"
    "length (uc_start u) = 2" "length (uc_num u) = 2" "maps \<noteq> []"
  shows "write_maps u pad 0 (uc_pieces u) maps = Some (maps[0 := piece_map n s k pad (hd maps)])"
  using assms by (cases maps) (simp_all add: piece_map_def numeral_2_eq_2)

section \<open>One write\<close>

lemma write_th_one:
  assumes "level < length (im_qp m)" "qp_ucmd_head (im_qp m ! level) = [u]" "u < length (im_ucmds m)" "uc_prov_type (im_ucmds m ! u) = level"
    "ztl_io_write_ucmd xn core md misc0 fuel \<lparr>iw_ucmd = im_ucmds m ! u, iw_q = (im_qp m ! level)\<lparr>qp_ucmd_head := []\<rparr>, iw_grp = im_grp m,
       iw_media = im_media m\<rparr> = Some (ret, w)" "qp_ucmd_head (iw_q w) = []" "0 < turns"
  shows "ztl_io_write_th xn core md misc0 fuel level turns m = Some (m\<lparr>im_ucmds := (im_ucmds m)[u := iw_ucmd w],
    im_qp := (im_qp m)[level := iw_q w], im_grp := iw_grp w, im_media := iw_media w\<rparr>)"
proof -
  obtain t where t: "turns = Suc t" using assms(7) by (cases turns) auto
  show ?thesis unfolding t
    using assms(1-6) by (simp add: ztl_io_write_th.simps [of _ _ _ _ _ _ "Suc t"] write_th_turn_def Let_def)
      (simp add: ztl_io_write_th.simps)
qed

lemma level_room:
  assumes "level_at md level n queue pro node tbl z" "ucmd_sized ucmd0" "num \<le> XZTL_WIO_MAX_MCMD" "buf + num * 32768 < 2 ^ 64"
  shows "write_room 4096 num queue (level_world level (write_ucmd ucmd0 buf sz level) z)"
  using assms by (simp add: write_room_def room_ok_def level_at_def ucmd_sized_def level_world_def write_ucmd_def Let_def)

text \<open>The world of the queue after its command.\<close>

definition level_put :: "nat \<Rightarrow> 'x io_world \<Rightarrow> 'x zr_world \<Rightarrow> 'x zr_world" where
  "level_put level w z = z\<lparr>zr_io := (zr_io z)\<lparr>im_qp := (im_qp (zr_io z))[level := iw_q w], im_grp := iw_grp w, im_media := iw_media w\<rparr>\<rparr>"

lemma zrocks_write_run:
  assumes "level < length (im_qp (zr_io z))" "qp_ucmd_head (im_qp (zr_io z) ! level) = []" "write_level l = level"
    "ztl_io_write_ucmd xn core md misc0 fuel (level_world level (write_ucmd ucmd0 buf (write_size sz) level) z) = Some (ret, w)"
    "qp_ucmd_head (iw_q w) = []" "0 < turns" "uc_completed (iw_ucmd w) = 1"
    "write_maps (iw_ucmd w) (usub 64 (write_size sz) sz) 0 (uc_pieces (iw_ucmd w)) maps = Some maps'"
    "length (ms_io (iw_media w)) = XZTL_STATS_IO_TYPES"
  shows "\<exists>z'. zrocks_write xn core md misc0 fuel turns ucmd0 buf sz l maps is_gc z = Some (xz XZTL_OK, maps', uc_pieces (iw_ucmd w), z') \<and>
    counted (level_put level w z) z'"
proof -
  let ?ucmd = "write_ucmd ucmd0 buf (write_size sz) level" and ?us = "im_ucmds (zr_io z)"
  define m1 where "m1 = (zr_io z)\<lparr>im_ucmds := ?us @ [?ucmd],
    im_qp := (im_qp (zr_io z))[level := (im_qp (zr_io z) ! level)\<lparr>qp_ucmd_head := [length ?us]\<rparr>]\<rparr>"
  define z1 where "z1 = level_put level w z"
  have sub: "ztl_io_submit (length ?us) ((zr_io z)\<lparr>im_ucmds := ?us @ [?ucmd]\<rparr>) = Some m1"
    using assms(1,2) by (simp add: ztl_io_submit_def m1_def write_ucmd_def tailq_insert_tail_def)
  have q: "(im_qp (zr_io z) ! level)\<lparr>qp_ucmd_head := []\<rparr> = im_qp (zr_io z) ! level"
    using assms(2) by (cases "im_qp (zr_io z) ! level") simp
  have th: "ztl_io_write_th xn core md misc0 fuel level turns m1 = Some (m1\<lparr>im_ucmds := (im_ucmds m1)[length ?us := iw_ucmd w],
      im_qp := (im_qp m1)[level := iw_q w], im_grp := iw_grp w, im_media := iw_media w\<rparr>)"
    using assms(1,4,5,6) q by (intro write_th_one [where ret = ret]) (simp_all add: m1_def level_world_def write_ucmd_def)
  have l: "length (ms_io (zr_media z1)) = XZTL_STATS_IO_TYPES" using assms(9) by (simp add: z1_def level_put_def)
  obtain z2 z3 z4 where c: "zr_stats_inc (if is_gc then XZTL_STATS_APPEND_BYTES_GC else XZTL_STATS_APPEND_BYTES_U) sz z1 = Some z2"
    "zr_stats_inc (if is_gc then XZTL_STATS_APPEND_GC_CMD else XZTL_STATS_APPEND_UCMD) 1 z2 = Some z3"
    "zr_stats_inc XZTL_STATS_APPEND_BYTES (write_size sz) z3 = Some z4" "counted z1 z4"
    using counted_inc [OF counted_refl [OF l] l] counted_inc [OF _ l] by metis
  have "zrocks_write xn core md misc0 fuel turns ucmd0 buf sz l maps is_gc z = Some (xz XZTL_OK, maps', uc_pieces (iw_ucmd w), z4)"
    using assms(3,7,8) sub th c(1) [unfolded z1_def level_put_def] c(2,3) unfolding zrocks_write_def Let_def by (cases is_gc) (simp_all add: m1_def)
  then show ?thesis using c(4) unfolding z1_def by blast
qed

text \<open>The node after a write of \<open>num\<close> slots, and the effect of the write on the state.\<close>

definition node_next :: "nat \<Rightarrow> nat \<Rightarrow> ztl_pro_node \<Rightarrow> ztl_pro_node" where
  "node_next level num node = node_after num (if nd_level node = -1 then node\<lparr>nd_level := int level\<rparr> else node)"

definition write_effect ::
    "('x \<Rightarrow> nat \<Rightarrow> nat) \<Rightarrow> ('x \<Rightarrow> nat \<Rightarrow> nat) \<Rightarrow> ('x \<Rightarrow> request set) \<Rightarrow> ('x \<Rightarrow> nat multiset) \<Rightarrow> ztl_metadata \<Rightarrow> nat \<Rightarrow> nat \<Rightarrow> nat \<Rightarrow>
     ztl_pro_node_grp \<Rightarrow> ztl_pro_node \<Rightarrow> nat \<Rightarrow> nat \<Rightarrow> 'x zr_world \<Rightarrow> 'x zr_world \<Rightarrow> bool" where
  "write_effect dma disk pend infl md level n queue pro node num buf z z' \<longleftrightarrow>
     (\<exists>tbl tbl'. zd_tbl (gr_zmd (im_grp (zr_io z))) = Some tbl \<and> other_wptrs pro node tbl tbl' \<and>
        level_at md level n queue (pro\<lparr>pg_vnodes := (pg_vnodes pro)[n := node_next level num node]\<rparr>) (node_next level num node) tbl' z') \<and>
     written_at pro node (nd_optimal_write_sec_used node) num buf (dma (zr_x z)) (disk (zr_x z)) (disk (zr_x z')) \<and>
     dma (zr_x z') = dma (zr_x z) \<and> pend (zr_x z') = pend (zr_x z) \<and> infl (zr_x z') = {#} \<and>
     ms_tctx (zr_media z') = ms_tctx (zr_media z) \<and> im_rr (zr_io z') = im_rr (zr_io z) \<and> im_ucmds (zr_io z') = im_ucmds (zr_io z) \<and>
     zr_mem z' = zr_mem z \<and> zr_reqs z' = zr_reqs z \<and> zr_mp z' = zr_mp z \<and> zr_map z' = zr_map z"

lemma node_next_simps [simp]:
  "nd_vzones (node_next level num node) = nd_vzones node" "nd_id (node_next level num node) = nd_id node"
  "nd_optimal_write_sec_used (node_next level num node) = nd_optimal_write_sec_used node + num"
  "nd_optimal_write_sec_left (node_next level num node) = nd_optimal_write_sec_left node - num"
  "nd_nr_valid (node_next level num node) = nd_nr_valid node + num"
  by (simp_all add: node_next_def node_after_def)

lemma piece_done_queue:
  assumes "piece_done mem disk infl num n pro node tbl (level_world level ucmd z) w"
  shows "qp_ucmd_head (iw_q w) = qp_ucmd_head (im_qp (zr_io z) ! level)" "qp_tctx (iw_q w) = qp_tctx (im_qp (zr_io z) ! level)"
    "qp_node (iw_q w) = qp_node (im_qp (zr_io z) ! level)" "length (qp_mcmd (iw_q w)) = length (qp_mcmd (im_qp (zr_io z) ! level))"
    "ms_tctx (iw_media w) = ms_tctx (zr_media z)" "ms_done (iw_media w) = ms_done (zr_media z)"
    "length (ms_io (iw_media w)) = length (ms_io (zr_media z))"
proof -
  have q: "q_core (iw_q w) = (q_core (im_qp (zr_io z) ! level))\<lparr>qp_prov := qp_prov (iw_q w)\<rparr>" and f: "iw_frame w = iw_frame (level_world level ucmd z)"
    using assms by (simp_all add: piece_done_def level_world_def)
  show "qp_ucmd_head (iw_q w) = qp_ucmd_head (im_qp (zr_io z) ! level)" "qp_tctx (iw_q w) = qp_tctx (im_qp (zr_io z) ! level)"
    "qp_node (iw_q w) = qp_node (im_qp (zr_io z) ! level)"
    using arg_cong [OF q, of qp_ucmd_head] arg_cong [OF q, of qp_tctx] arg_cong [OF q, of qp_node] by (simp_all add: q_core_def)
  show "length (qp_mcmd (iw_q w)) = length (qp_mcmd (im_qp (zr_io z) ! level))" "ms_tctx (iw_media w) = ms_tctx (zr_media z)"
    "ms_done (iw_media w) = ms_done (zr_media z)" "length (ms_io (iw_media w)) = length (ms_io (zr_media z))"
    using f by (simp_all add: iw_frame_def level_world_def)
qed

lemma level_after:
  assumes lv: "level_at md level n queue pro node tbl z" and num: "num \<le> nd_optimal_write_sec_left node"
    and pd: "piece_done mem disk infl num n pro node tbl (level_world level ucmd z) w" and prov: "uc_prov_type ucmd = level"
    and c: "counted (level_put level w z) z'"
  shows "\<exists>tbl'. other_wptrs pro node tbl tbl' \<and>
    level_at md level n queue (pro\<lparr>pg_vnodes := (pg_vnodes pro)[n := node_next level num node]\<rparr>) (node_next level num node) tbl' z'"
proof -
  let ?node = "node_next level num node"
  let ?pro = "pro\<lparr>pg_vnodes := (pg_vnodes pro)[n := ?node]\<rparr>"
  obtain tbl' where t: "zd_tbl (gr_zmd (iw_grp w)) = Some tbl'" "other_wptrs pro node tbl tbl'"
    "node_at pro tbl' node (nd_optimal_write_sec_used node + num)" "node_written pro tbl' node (nd_optimal_write_sec_used node + num)"
    using pd unfolding piece_done_def by blast
  have g: "gr_pro (iw_grp w) = Some ?pro" using pd prov by (simp add: piece_done_def level_world_def level_node_def node_next_def)
  have q: "length (pa_addr (qp_prov (iw_q w))) = 128" "length (pa_nsec (qp_prov (iw_q w))) = 128" using pd by (simp_all add: piece_done_def)
  note qf = piece_done_queue [OF pd]
  have l: "level < length (im_qp (zr_io z))" using lv by (simp add: level_at_def)
  note nd = lv [unfolded level_at_def, THEN conjunct2, THEN conjunct1, rule_format, of ucmd, unfolded write_node_def]
  have n: "n < length (pg_vnodes pro)" using nd by simp
  have vz: "nd_vzones ?node = nd_vzones node" "pg_vzones ?pro = pg_vzones pro" by simp_all
  have len: "length tbl' = length tbl" using t(2) by (simp add: other_wptrs_def)
  have "write_node md (level_world level u z') n ?pro ?node tbl'" for u
    using nd t len g qf(3) num counted_simps [OF c] n l unfolding write_node_def
    by (simp add: level_world_def level_put_def node_frame [OF vz] written_frame [OF vz])
  then show ?thesis using t(2) lv l q qf counted_simps [OF c] unfolding level_at_def
    by (intro exI [of _ tbl']) (simp add: level_put_def Let_def)
qed

lemma zrocks_write_one:
  assumes dev: "zns_device xn dma disk pend infl depth" and lv: "level_at md level n queue pro node tbl z" and u: "ucmd_sized ucmd0"
    and l: "write_level l = level" and idle: "infl (zr_x z) = {#}" and geo: "ge_nbytes (zv_geo zv) = 4096"
    and sz: "0 < sz" "sz \<le> 32768 * XZTL_WIO_MAX_MCMD" "slots_of sz \<le> nd_optimal_write_sec_left node" "buf + write_size sz < 2 ^ 64"
    and fuel: "(2 * slots_of sz + 1) * (2 * min (slots_of sz) 64 + 4) < fuel" "0 < turns" and maps: "maps \<noteq> []"
  shows "\<exists>z'. zrocks_write xn (znd_core xn zv) md misc0 fuel turns ucmd0 buf sz l maps is_gc z =
      Some (xz XZTL_OK, maps[0 := piece_map n (nd_optimal_write_sec_used node) (slots_of sz) (write_size sz - sz) (hd maps)], 1, z') \<and>
    write_effect dma disk pend infl md level n queue pro node (slots_of sz) buf z z'"
proof -
  define ucmd where "ucmd = write_ucmd ucmd0 buf (write_size sz) level"
  define w where "w = level_world level ucmd z"
  note ws = write_size_eq [OF sz(2)]
  have good: "device_good xn infl" "storing xn (\<lambda>x. (dma x, pend x)) disk" using dev by (simp_all add: zns_device_def)
  have node: "write_node md w n pro node tbl" using lv by (simp add: level_at_def w_def)
  have room: "write_room 4096 (slots_of sz) queue w" unfolding w_def ucmd_def using ws sz(4) by (intro level_room [OF lv u]) simp_all
  have "0 < slots_of sz" using sz(1) by (simp add: slots_of_def div_greater_zero_iff)
  then obtain w' where w': "ztl_io_write_ucmd xn (znd_core xn zv) md misc0 fuel w = Some (xz XZTL_OK, w')"
    "piece_done (\<lambda>x. (dma x, pend x)) disk infl (slots_of sz) n pro node tbl w w'"
    using user_write [OF good node room _ geo _ _ sz(3) fuel(1), of misc0] idle ws(1) by (auto simp: w_def level_world_def ucmd_def write_ucmd_def)
  note pd = w'(2) [unfolded piece_done_def]
  have h: "qp_ucmd_head (iw_q w') = []" "length (ms_io (iw_media w')) = XZTL_STATS_IO_TYPES" "level < length (im_qp (zr_io z))"
      "qp_ucmd_head (im_qp (zr_io z) ! level) = []"
    using piece_done_queue [OF w'(2) [unfolded w_def]] lv by (simp_all add: level_at_def Let_def)
  have p: "uc_pieces (iw_ucmd w') = 1" "uc_completed (iw_ucmd w') = 1" using pd by (simp_all add: w_def level_world_def ucmd_def write_ucmd_def)
  have m: "write_maps (iw_ucmd w') (usub 64 (write_size sz) sz) 0 (uc_pieces (iw_ucmd w')) maps =
      Some (maps[0 := piece_map n (nd_optimal_write_sec_used node) (slots_of sz) (write_size sz - sz) (hd maps)])"
    using write_maps_one [OF p(1) _ _ _ _ _ _ maps] pd ws sz(2) by (simp add: w_def level_world_def ucmd_def write_ucmd_def usub_small)
  obtain z' where z': "zrocks_write xn (znd_core xn zv) md misc0 fuel turns ucmd0 buf sz l maps is_gc z = Some (xz XZTL_OK,
      maps[0 := piece_map n (nd_optimal_write_sec_used node) (slots_of sz) (write_size sz - sz) (hd maps)], uc_pieces (iw_ucmd w'), z')"
      "counted (level_put level w' z) z'"
    using zrocks_write_run [OF h(3,4) l w'(1) [unfolded w_def ucmd_def] h(1) fuel(2) p(2) m h(2)] by blast
  have "zd_tbl (gr_zmd (im_grp (zr_io z))) = Some tbl" using node by (simp add: write_node_def w_def level_world_def)
  then have "write_effect dma disk pend infl md level n queue pro node (slots_of sz) buf z z'"
    using level_after [OF lv sz(3) w'(2) [unfolded w_def] _ z'(2)] pd counted_simps [OF z'(2)]
    by (simp add: write_effect_def w_def level_world_def ucmd_def write_ucmd_def level_put_def iw_frame_def)
  then show ?thesis using z'(1) p(1) by auto
qed

section \<open>One read\<close>

definition read_effect ::
    "('x \<Rightarrow> nat \<Rightarrow> nat) \<Rightarrow> ('x \<Rightarrow> nat multiset) \<Rightarrow> 'x zr_world \<Rightarrow> 'x zr_world \<Rightarrow> bool" where
  "read_effect disk infl z z' \<longleftrightarrow> disk (zr_x z') = disk (zr_x z) \<and> infl (zr_x z') = {#} \<and> im_qp (zr_io z') = im_qp (zr_io z) \<and>
     im_grp (zr_io z') = im_grp (zr_io z) \<and> im_ucmds (zr_io z') = im_ucmds (zr_io z) \<and> ms_tctx (zr_media z') = ms_tctx (zr_media z) \<and>
     ms_done (zr_media z') = ms_done (zr_media z) \<and> length (ms_io (zr_media z')) = length (ms_io (zr_media z)) \<and>
     zr_reqs z' = zr_reqs z \<and> zr_mp z' = zr_mp z \<and> zr_map z' = zr_map z"

lemma get_first_rs:
  assumes "0 < zv_read_ctx_num zv" "rs \<noteq> []" "\<not> rs_usedflag (hd rs)"
  shows "ztl_io_get_read_rs zv rs = Some (0, (hd rs)\<lparr>rs_usedflag := True\<rparr> # tl rs)"
  using assms by (cases rs; cases "zv_read_ctx_num zv") (simp_all add: ztl_io_get_read_rs_def)

lemma io_read_one:
  assumes dev: "zns_device xn dma disk pend infl depth" and rd: "reads_idle zv pend z" and idle: "infl (zr_x z) = {#}"
    and node: "gr_pro (im_grp (zr_io z)) = Some pro" "get_at (pg_vnodes pro) n = Some node" "read_fits pro node off sz"
    and num: "rd_num off sz \<le> ZTL_IO_RC_NUM" "rd_num off sz \<le> depth" "rd_num off sz < fuel" and u: "ucmd_sized ucmd0" "n < 2 ^ 32"
  shows "\<exists>rs ucmd s mem. ztl_io_read dma xn (znd_core xn zv) zv (im_grp (zr_io z)) fuel (im_rr (zr_io z)) (read_ucmd ucmd0 n off buf sz) (zr_media z) (zr_mem z) =
      Some (0, rs, ucmd, s, mem) \<and> uc_status ucmd = 0 \<and> uc_completed ucmd = 1 \<and>
    (\<forall>a. mem a = (if buf \<le> a \<and> a < buf + sz then disk (zr_x z) (byte_home pro node (off + (a - buf))) else zr_mem z a)) \<and>
    disk (ms_x s) = disk (zr_x z) \<and> infl (ms_x s) = {#} \<and> pend (ms_x s) = {} \<and> ms_tctx s = ms_tctx (zr_media z) \<and>
    ms_done s = ms_done (zr_media z) \<and> length (ms_io s) = length (ms_io (zr_media z)) \<and>
    length rs = length (im_rr (zr_io z)) \<and> (\<forall>r \<in> set rs. rs_idle (ms_tctx (zr_media z)) r)"
proof -
  obtain r rr where rr: "im_rr (zr_io z) = r # rr" using rd by (cases "im_rr (zr_io z)") (auto simp: reads_idle_def)
  have ri: "rs_idle (ms_tctx (zr_media z)) r" using rd rr by (simp add: reads_idle_def)
  then obtain queue where queue: "ms_tctx (zr_media z) (rs_tctx r) = Some queue" by (auto simp: rs_idle_def)
  define ok where "ok x \<longleftrightarrow> disk x = disk (zr_x z) \<and> infl x = {#}" for x
  have reader: "reader xn dma ok pend (disk (zr_x z)) depth" using dev unfolding zns_device_def ok_def by blast
  define w where "w = \<lparr>rw_ucmd = read_ucmd ucmd0 n off buf sz, rw_r = r\<lparr>rs_usedflag := True\<rparr>, rw_media = zr_media z, rw_mem = zr_mem z\<rparr>"
  have nid: "(uc_node_id ucmd0)[0 := n] \<noteq> []" "hd ((uc_node_id ucmd0)[0 := n]) = n" using u(1) by (cases "uc_node_id ucmd0"; simp add: ucmd_sized_def)+
  have ready: "read_ready n off sz queue ok pend w"
    using ri rd u idle queue nid by (simp add: read_ready_def w_def read_ucmd_def rs_idle_def reads_idle_def ok_def ucmd_sized_def)
  from user_read [OF reader node ready num]
  obtain w' where w': "ztl_io_read_ucmd dma xn (znd_core xn zv) (im_grp (zr_io z)) fuel w = Some (0, w')" "uc_completed (rw_ucmd w') = 1"
    "uc_status (rw_ucmd w') = uc_status (rw_ucmd w)" "frame_of w (read_frame w')" "ok (ms_x (rw_media w'))" "pend (ms_x (rw_media w')) = {}"
    "\<forall>a. rw_mem w' a = (if uc_buf (rw_ucmd w) \<le> a \<and> a < uc_buf (rw_ucmd w) + sz
       then disk (zr_x z) (byte_home pro node (off + (a - uc_buf (rw_ucmd w)))) else rw_mem w a)" by blast
  have get: "ztl_io_get_read_rs zv (im_rr (zr_io z)) = Some (0, r\<lparr>rs_usedflag := True\<rparr> # rr)"
    using get_first_rs [of zv "im_rr (zr_io z)"] rd ri rr by (simp add: reads_idle_def rs_idle_def)
  have "ztl_io_read dma xn (znd_core xn zv) zv (im_grp (zr_io z)) fuel (im_rr (zr_io z)) (read_ucmd ucmd0 n off buf sz) (zr_media z) (zr_mem z) =
      Some (0, (rw_r w')\<lparr>rs_usedflag := False\<rparr> # rr, rw_ucmd w', rw_media w', rw_mem w')"
    using get w'(1) by (simp add: ztl_io_read_def ztl_io_put_read_rs_def w_def)
  moreover have "rs_idle (ms_tctx (zr_media z)) ((rw_r w')\<lparr>rs_usedflag := False\<rparr>)" "ms_tctx (rw_media w') = ms_tctx (zr_media z)"
    "ms_done (rw_media w') = ms_done (zr_media z)" "length (ms_io (rw_media w')) = length (ms_io (zr_media z))"
    using ri w'(4) by (simp_all add: frame_of_def read_frame_def rs_idle_def w_def)
  ultimately show ?thesis using w'(2,3,5,6,7) rd rr by (simp add: w_def read_ucmd_def ok_def reads_idle_def)
qed

lemma zrocks_read_one:
  assumes dev: "zns_device xn dma disk pend infl depth" and rd: "reads_idle zv pend z" and idle: "infl (zr_x z) = {#}"
    and node: "gr_pro (im_grp (zr_io z)) = Some pro" "get_at (pg_vnodes pro) n = Some node" "read_fits pro node off sz"
    and num: "rd_num off sz \<le> ZTL_IO_RC_NUM" "rd_num off sz \<le> depth" "rd_num off sz < fuel" and u: "ucmd_sized ucmd0" "n < 2 ^ 32"
    and att: "0 < attempts"
  shows "\<exists>z'. zrocks_read dma xn (znd_core xn zv) zv fuel attempts ucmd0 n off buf sz is_gc z = Some (xz XZTL_OK, z') \<and>
    (\<forall>a. zr_mem z' a = (if buf \<le> a \<and> a < buf + sz then disk (zr_x z) (byte_home pro node (off + (a - buf))) else zr_mem z a)) \<and>
    reads_idle zv pend z' \<and> read_effect disk infl z z'"
proof -
  obtain t where t: "attempts = Suc t" using att by (cases attempts) auto
  obtain rs ucmd s mem where r: "ztl_io_read dma xn (znd_core xn zv) zv (im_grp (zr_io z)) fuel (im_rr (zr_io z)) (read_ucmd ucmd0 n off buf sz)
      (zr_media z) (zr_mem z) = Some (0, rs, ucmd, s, mem)" "uc_status ucmd = 0" "uc_completed ucmd = 1"
    "\<forall>a. mem a = (if buf \<le> a \<and> a < buf + sz then disk (zr_x z) (byte_home pro node (off + (a - buf))) else zr_mem z a)"
    "disk (ms_x s) = disk (zr_x z)" "infl (ms_x s) = {#}" "pend (ms_x s) = {}" "ms_tctx s = ms_tctx (zr_media z)"
    "ms_done s = ms_done (zr_media z)" "length (ms_io s) = length (ms_io (zr_media z))"
    "length rs = length (im_rr (zr_io z))" "\<forall>r \<in> set rs. rs_idle (ms_tctx (zr_media z)) r"
    using io_read_one [OF dev rd idle node num u, of buf] by blast
  define z1 where "z1 = z\<lparr>zr_io := (zr_io z)\<lparr>im_rr := rs, im_media := s\<rparr>, zr_mem := mem\<rparr>"
  have a: "read_attempts dma xn (znd_core xn zv) zv fuel attempts 0 (read_ucmd ucmd0 n off buf sz) z = Some (xz XZTL_OK, ucmd, z1)"
    using r(1,2) by (simp add: t z1_def)
  have l: "length (ms_io (zr_media z1)) = XZTL_STATS_IO_TYPES" using r(10) rd by (simp add: z1_def reads_idle_def)
  obtain z2 z3 where c: "zr_stats_inc (if is_gc then XZTL_STATS_READ_BYTES_GC else XZTL_STATS_READ_BYTES_U) sz z1 = Some z2"
    "zr_stats_inc (if is_gc then XZTL_STATS_READ_GC_CMD else XZTL_STATS_READ_UCMD) 1 z2 = Some z3" "counted z1 z3"
    using counted_inc [OF counted_refl [OF l] l] counted_inc [OF _ l] by metis
  have "zrocks_read dma xn (znd_core xn zv) zv fuel attempts ucmd0 n off buf sz is_gc z = Some (xz XZTL_OK, z3)"
    using a c(1,2) r(3) by (cases is_gc) (simp_all add: zrocks_read_def)
  then show ?thesis using r(4-12) rd counted_simps [OF c(3)] by (simp add: z1_def reads_idle_def read_effect_def)
qed

section \<open>A node as a log\<close>

text \<open>What a node holds, as the list of its written bytes: a write appends to it, a read takes a part of it.\<close>

definition node_log :: "('x \<Rightarrow> nat \<Rightarrow> nat) \<Rightarrow> ztl_pro_node_grp \<Rightarrow> ztl_pro_node \<Rightarrow> 'x zr_world \<Rightarrow> nat list" where
  "node_log disk pro node z = map (\<lambda>b. disk (zr_x z) (byte_home pro node b)) [0..<32768 * nd_optimal_write_sec_used node]"

definition buffer :: "(nat \<Rightarrow> nat) \<Rightarrow> nat \<Rightarrow> nat \<Rightarrow> nat list" where
  "buffer m buf sz = map (\<lambda>b. m (buf + b)) [0..<sz]"

lemma length_buffer [simp]: "length (buffer m buf sz) = sz"
  by (simp add: buffer_def)

lemma length_node_log [simp]: "length (node_log disk pro node z) = 32768 * nd_optimal_write_sec_used node"
  by (simp add: node_log_def)

lemma byte_home_apart:
  assumes "zones_apart pro node node" "b < 32768 * start" "start + num \<le> ZTL_PRO_OPT_SEC_NUM_INNODE"
  shows "byte_home pro node b \<notin> node_bytes pro node start num"
proof
  assume "byte_home pro node b \<in> node_bytes pro node start num"
  then obtain c where c: "32768 * start \<le> c" "c < 32768 * (start + num)" "byte_home pro node b = byte_home pro node c"
    by (auto simp: node_bytes_def)
  have d: "b div 32768 < start" "start \<le> c div 32768" "c div 32768 < start + num"
    using assms(2) c by (simp_all add: div_less_iff_less_mult less_eq_div_iff_mult_less_eq mult.commute)
  have "slot_sector pro node (b div 32768) + 8 \<le> slot_sector pro node (c div 32768) \<or> slot_sector pro node (c div 32768) + 8 \<le> slot_sector pro node (b div 32768)"
    using d assms(3) by (intro slots_apart [OF assms(1)]) auto
  moreover have "4096 * slot_sector pro node (b div 32768) + b mod 32768 = 4096 * slot_sector pro node (c div 32768) + c mod 32768"
    using c(3) by (simp add: byte_home_def)
  moreover have "b mod 32768 < 32768" "c mod 32768 < 32768" by simp_all
  ultimately show False by linarith
qed

lemma log_after_write:
  assumes "level_at md level n queue pro node tbl z" "num \<le> nd_optimal_write_sec_left node"
    "write_effect dma disk pend infl md level n queue pro node num buf z z'"
  shows "node_log disk (pro\<lparr>pg_vnodes := (pg_vnodes pro)[n := node_next level num node]\<rparr>) (node_next level num node) z' =
    node_log disk pro node z @ buffer (dma (zr_x z)) buf (32768 * num)"
proof -
  let ?used = "nd_optimal_write_sec_used node"
  have w: "written_at pro node ?used num buf (dma (zr_x z)) (disk (zr_x z)) (disk (zr_x z'))" using assms(3) by (simp add: write_effect_def)
  have nd: "zones_apart pro node node" "?used + num \<le> ZTL_PRO_OPT_SEC_NUM_INNODE"
    using assms(1,2) by (force simp: level_at_def write_node_def)+
  have home: "byte_home (pro\<lparr>pg_vnodes := v\<rparr>) (node_next level num node) = byte_home pro node" for v
    using node_frame(6) [of "node_next level num node" node "pro\<lparr>pg_vnodes := v\<rparr>" pro] by (simp add: byte_home_def fun_eq_iff)
  have old: "disk (zr_x z') (byte_home pro node b) = disk (zr_x z) (byte_home pro node b)" if "b < 32768 * ?used" for b
    using w byte_home_apart [OF nd(1) that nd(2)] by (simp add: written_at_def)
  have new: "disk (zr_x z') (byte_home pro node (32768 * ?used + b)) = dma (zr_x z) (buf + b)" if "b < 32768 * num" for b
    using w that by (simp add: written_at_def)
  have "[0..<32768 * (?used + num)] = [0..<32768 * ?used] @ map (\<lambda>b. 32768 * ?used + b) [0..<32768 * num]"
    using upt_add_eq_append [of 0 "32768 * ?used" "32768 * num"] map_add_upt [of "32768 * ?used" "32768 * num"]
    by (simp add: distrib_left add.commute)
  then show ?thesis using old new by (simp add: node_log_def home buffer_def)
qed

lemma buffer_part: "off + len \<le> sz \<Longrightarrow> take len (drop off (buffer m buf sz)) = buffer m (buf + off) len"
  by (intro nth_equalityI) (simp_all add: buffer_def add.assoc)

lemma reads_after_write:
  assumes "reads_idle zv pend z" "write_effect dma disk pend infl md level n queue pro node num buf z z'"
  shows "length (ms_io (zr_media z')) = XZTL_STATS_IO_TYPES \<Longrightarrow> reads_idle zv pend z'"
  using assms by (simp add: reads_idle_def write_effect_def)

section \<open>Samples\<close>

text \<open>A device with a disk and memory for transfers: outstanding reads, writes in flight, memory, disk.\<close>

type_synonym store = "request list \<times> nat list \<times> (nat \<Rightarrow> nat) \<times> (nat \<Rightarrow> nat)"

definition store_fill :: "nat \<Rightarrow> nat \<Rightarrow> nat \<Rightarrow> (nat \<Rightarrow> nat) \<Rightarrow> (nat \<Rightarrow> nat) \<Rightarrow> nat \<Rightarrow> nat" where
  "store_fill slba nlb buf d m = (\<lambda>a. if buf \<le> a \<and> a < buf + (nlb + 1) * 4096 then d (4096 * slba + (a - buf)) else m a)"

definition store_dev :: "store xnvme" where
  "store_dev = \<lparr>
     xn_read = (\<lambda>c d slba nlb buf (rs, ws, m, dk). (0, case c of None \<Rightarrow> (rs, ws, store_fill slba nlb buf dk m, dk)
       | Some (ctx, k) \<Rightarrow> (rs @ [(k, slba, nlb, buf)], ws, m, dk))),
     xn_write = (\<lambda>c d slba nlb buf (rs, ws, m, dk). (0, rs, case c of None \<Rightarrow> ws | Some (ctx, k) \<Rightarrow> ws @ [k], m, stored slba nlb buf m dk)),
     xn_append = (\<lambda>c d slba nlb buf x. (0, x)),
     xn_mgmt = (\<lambda>d lba all oper x. (0, 0, x)), xn_report = (\<lambda>d x. (None, x)),
     xn_get_ctx = (\<lambda>q x. (1, x)), xn_put_ctx = (\<lambda>q c x. x),
     xn_poke = (\<lambda>q n (rs, ws, m, dk). case ws of [] \<Rightarrow> (0, [], (rs, ws, m, dk))
       | k # ks \<Rightarrow> if n = 0 then (0, [], (rs, ws, m, dk)) else (1, [(k, 0, 0)], (rs, ks, m, dk))),
     xn_drain = (\<lambda>q (rs, ws, m, dk). case rs of [] \<Rightarrow> (None, (rs, ws, m, dk))
       | (k, slba, nlb, buf) # rs' \<Rightarrow> (Some (k, 0, 0), (filter (\<lambda>r. r \<noteq> (k, slba, nlb, buf)) rs', ws, store_fill slba nlb buf dk m, dk))),
     xn_outstanding = (\<lambda>q x. (int (length (fst x)), x)),
     xn_queue_init = (\<lambda>d n x. (0, 1, x)), xn_queue_term = (\<lambda>q x. (0, x)),
     xn_buf_alloc = (\<lambda>d n x. (1, x)), xn_buf_free = (\<lambda>d p x. x),
     xn_dev_open = (\<lambda>n opts x. (1, x)), xn_dev_geo = (\<lambda>d x. None), xn_dev_close = (\<lambda>d x. x)\<rparr>"

definition store_dma :: "store \<Rightarrow> nat \<Rightarrow> nat" where "store_dma x = fst (snd (snd x))"
definition store_disk :: "store \<Rightarrow> nat \<Rightarrow> nat" where "store_disk x = snd (snd (snd x))"
definition store_pend :: "store \<Rightarrow> request set" where "store_pend x = set (fst x)"
definition store_infl :: "store \<Rightarrow> nat multiset" where "store_infl x = mset (fst (snd x))"

lemmas store_defs = store_dev_def store_dma_def store_disk_def store_pend_def store_infl_def

lemma store_dev_good: "device_good store_dev store_infl"
  by (auto simp: device_good_def device_law_def store_defs split: list.splits)

lemma store_dev_storing: "storing store_dev (\<lambda>x. (store_dma x, store_pend x)) store_disk"
  by (auto simp: storing_def store_defs split: list.splits)

lemma store_dev_reader: "reader store_dev store_dma (\<lambda>x. store_disk x = d \<and> store_infl x = {#}) store_pend d depth"
proof -
  have "\<exists>k slba nlb buf cdw0. (k, slba, nlb, buf) \<in> store_pend x \<and> fst (xn_drain store_dev q x) = Some (k, 0, cdw0) \<and>
      store_pend (snd (xn_drain store_dev q x)) = store_pend x - {(k, slba, nlb, buf)} \<and>
      filled store_dma d slba nlb buf (snd (xn_drain store_dev q x)) \<and>
      store_disk (snd (xn_drain store_dev q x)) = d \<and> store_infl (snd (xn_drain store_dev q x)) = {#}"
    if ne: "store_pend x \<noteq> {}" and d: "store_disk x = d" "store_infl x = {#}" for q x
  proof -
    obtain k s n b rs y where x: "x = ((k, s, n, b) # rs, y)" using ne by (cases x; cases "fst x") (auto simp: store_pend_def)
    show ?thesis using d unfolding x
      by (intro exI [of _ k] exI [of _ s] exI [of _ n] exI [of _ b] exI [of _ 0]) (auto simp: store_defs filled_def store_fill_def split_beta)
  qed
  then show ?thesis unfolding reader_def by (auto simp: store_defs filled_def store_fill_def split: option.splits)
qed

lemma store_dev_device: "zns_device store_dev store_dma store_disk store_pend store_infl depth"
  unfolding zns_device_def using store_dev_good store_dev_storing store_dev_reader by blast

lemma slots_bound:
  assumes "level_at md level n queue pro node tbl z" "slots_of sz \<le> nd_optimal_write_sec_left node" "0 < sz"
  shows "nd_optimal_write_sec_used node < 2 ^ 22"
proof -
  have "nd_optimal_write_sec_used node + nd_optimal_write_sec_left node \<le> ZTL_PRO_OPT_SEC_NUM_INNODE"
    using assms(1) by (force simp: level_at_def write_node_def)
  then show ?thesis by simp
qed

text \<open>A read of a part of the log of a node.\<close>

lemma log_part:
  assumes "off + sz \<le> 32768 * nd_optimal_write_sec_used node"
    "\<forall>a. mem a = (if buf \<le> a \<and> a < buf + sz then disk (zr_x z) (byte_home pro node (off + (a - buf))) else mem0 a)"
  shows "buffer mem buf sz = take sz (drop off (node_log disk pro node z))"
  using assms by (intro nth_equalityI) (simp_all add: buffer_def node_log_def)

lemma level_read_fits:
  assumes "level_at md level n queue pro node tbl z" "0 < sz" "off + sz \<le> 32768 * nd_optimal_write_sec_used node"
  shows "read_fits pro node off sz" "gr_pro (im_grp (zr_io z)) = Some pro" "get_at (pg_vnodes pro) n = Some node"
proof -
  have nd: "write_node md (level_world level undefined z) n pro node tbl" using assms(1) by (simp add: level_at_def)
  then have "nd_optimal_write_sec_used node \<le> ZTL_PRO_OPT_SEC_NUM_INNODE" by (simp add: write_node_def)
  then show "read_fits pro node off sz" using nd assms(2,3) unfolding read_fits_def write_node_def node_linked_def by auto
  show "gr_pro (im_grp (zr_io z)) = Some pro" "get_at (pg_vnodes pro) n = Some node" using nd by (simp_all add: write_node_def level_world_def)
qed

lemma level_after_read:
  assumes "level_at md level n queue pro node tbl z" "read_effect disk infl z z'"
  shows "level_at md level n queue pro node tbl z'" "node_log disk pro node z' = node_log disk pro node z"
  using assms unfolding level_at_def read_effect_def node_log_def by (simp_all add: level_world_def write_node_def)

definition sample_zr :: "store zr_world" where
  "sample_zr = \<lparr>
     zr_io = \<lparr>im_ucmds = [], im_qp = replicate ZROCKS_LEVEL_NUM (sample_q sample_ctx), im_prov = replicate ZROCKS_LEVEL_NUM 1,
       im_rr = replicate 256 (sample_rs\<lparr>rs_usedflag := False\<rparr>), im_grp = sample_grp,
       im_media = \<lparr>ms_io = replicate XZTL_STATS_IO_TYPES 0, ms_tctx = [1 \<mapsto> 7], ms_done = [], ms_x = ([], [], \<lambda>a. a mod 251, \<lambda>a. 0)\<rparr>\<rparr>,
     zr_reqs = [], zr_mp = sample_mp, zr_map = \<lparr>mw_caches = [], mw_cp_running = 0, mw_map_pg_sz = 4096, mw_map_ent_per_pg = 512, mw_tbl = []\<rparr>, zr_mem = \<lambda>a. 0\<rparr>"

lemma sample_apart: "zones_apart sample_pro sample_node sample_node"
  unfolding zones_apart_def by (simp add: sample_pro_zones sample_zone_sect) linarith

lemma sample_level: "level_at fresh_md 0 0 7 sample_pro sample_node sample_tbl sample_zr"
proof -
  have "write_node fresh_md (level_world 0 ucmd sample_zr) 0 sample_pro sample_node sample_tbl" for ucmd
    using sample_linked sample_fits sample_numbered sample_at sample_written sample_apart
    by (simp add: write_node_def level_world_def sample_zr_def sample_q_def sample_grp_def) (simp add: sample_pro_def sample_node_def zero_node_def)
  then show ?thesis unfolding level_at_def by (simp add: sample_zr_def sample_q_def sample_ctx_def)
qed

lemma sample_reads: "reads_idle sample_zv store_pend sample_zr"
proof -
  have "(1000000 + 32768 * i) + 32768 \<le> 1000000 + 32768 * j \<or> (1000000 + 32768 * j) + 32768 \<le> 1000000 + 32768 * (i :: nat)"
    if "i \<noteq> j" for i j using that by linarith
  then show ?thesis by (simp add: reads_idle_def rs_idle_def sample_zr_def sample_rs_def sample_zv_def store_pend_def del: upt_rec_numeral)
qed

lemma sample_zr_simps: "ucmd_sized (sample_ucmd 1)" "ge_nbytes (zv_geo sample_zv) = 4096" "store_infl (zr_x sample_zr) = {#}"
  "store_dma (zr_x sample_zr) = (\<lambda>a. a mod 251)" "nd_optimal_write_sec_used sample_node = 0"
  "nd_optimal_write_sec_left sample_node = ZTL_PRO_OPT_SEC_NUM_INNODE" "nd_level sample_node = -1"
  by (simp_all add: ucmd_sized_def sample_ucmd_def sample_zv_def sample_geo_def store_infl_def store_dma_def sample_zr_def sample_node_def zero_node_def)

section \<open>Properties\<close>

text \<open>C3: A write of at most 32 MB into the node of its level, with room left in the node, returns success with one piece.
  The piece names the node, the first slot that was free, the number of slots and the padding, and the log of the node
  is the log before with the bytes of the buffer appended, up to the next multiple of 32 KB. The queue and the node are
  ready for the next write.\<close>

theorem zrocks_write_appends:
  assumes "zns_device xn dma disk pend infl depth" "level_at md level n queue pro node tbl z" "ucmd_sized ucmd0" "write_level l = level"
    "infl (zr_x z) = {#}" "ge_nbytes (zv_geo zv) = 4096" "0 < sz" "sz \<le> 32768 * XZTL_WIO_MAX_MCMD"
    "slots_of sz \<le> nd_optimal_write_sec_left node" "buf + write_size sz < 2 ^ 64"
    "(2 * slots_of sz + 1) * (2 * min (slots_of sz) 64 + 4) < fuel" "0 < turns" "maps \<noteq> []" "n < 2 ^ 14"
  shows "\<exists>m pro' tbl' z'. zrocks_write xn (znd_core xn zv) md misc0 fuel turns ucmd0 buf sz l maps is_gc z = Some (xz XZTL_OK, maps[0 := m], 1, z') \<and>
    zm_node_id m = n \<and> zm_start m = nd_optimal_write_sec_used node \<and> zm_num m = slots_of sz \<and> zm_padding m = 32768 * slots_of sz - sz \<and>
    level_at md level n queue pro' (node_next level (slots_of sz) node) tbl' z' \<and>
    node_log disk pro' (node_next level (slots_of sz) node) z' = node_log disk pro node z @ buffer (dma (zr_x z)) buf (32768 * slots_of sz)"
proof -
  note ws = write_size_eq [OF assms(8)]
  obtain z' where z': "zrocks_write xn (znd_core xn zv) md misc0 fuel turns ucmd0 buf sz l maps is_gc z =
      Some (xz XZTL_OK, maps[0 := piece_map n (nd_optimal_write_sec_used node) (slots_of sz) (write_size sz - sz) (hd maps)], 1, z')"
    "write_effect dma disk pend infl md level n queue pro node (slots_of sz) buf z z'"
    using zrocks_write_one [OF assms(1-13)] by blast
  have "nd_optimal_write_sec_used node < 2 ^ 22" "slots_of sz < 2 ^ 11" "write_size sz - sz < 2 ^ 16"
    using slots_bound [OF assms(2,9,7)] ws by simp_all
  note m = piece_map_read [OF assms(14) this, of "hd maps"]
  obtain tbl' where "level_at md level n queue (pro\<lparr>pg_vnodes := (pg_vnodes pro)[n := node_next level (slots_of sz) node]\<rparr>)
      (node_next level (slots_of sz) node) tbl' z'" using z'(2) unfolding write_effect_def by blast
  then show ?thesis using z'(1) m log_after_write [OF assms(2,9) z'(2)] ws(1) by metis
qed

theorem zrocks_write_appends_witness:
  "\<exists>m pro' z'. zrocks_write store_dev (znd_core store_dev sample_zv) fresh_md sample_misc 5000 1 (sample_ucmd 1) 65536 70000 (-3) [0] False sample_zr =
     Some (xz XZTL_OK, [m], 1, z') \<and> zm_num m = 3 \<and> zm_padding m = 28304 \<and>
     node_log store_disk pro' (node_next 0 3 sample_node) z' = buffer (\<lambda>a. a mod 251) 65536 98304"
proof -
  have s: "slots_of 70000 = 3" "write_level (-3) = 0" "write_size 70000 = 98304" by (simp_all add: slots_of_def write_level_def write_size_def Let_def u32_small u64_small)
  have "node_log store_disk sample_pro sample_node sample_zr = []" by (simp add: node_log_def sample_zr_simps)
  then show ?thesis
    using zrocks_write_appends [OF store_dev_device sample_level sample_zr_simps(1) s(2) sample_zr_simps(3,2), of 70000 65536 5000 1 "[0]" sample_misc False]
    by (auto simp: s sample_zr_simps)
qed

text \<open>C4: A read within what has been written to a node succeeds and puts exactly these bytes of the log of the node into
  the buffer of the caller, at any offset and size and for any number of commands it takes, and changes nothing else in
  the memory of the caller. The log, the level and the read resources stay ready.\<close>

theorem zrocks_read_returns_data:
  assumes "zns_device xn dma disk pend infl depth" "level_at md level n queue pro node tbl z" "reads_idle zv pend z" "infl (zr_x z) = {#}"
    "ucmd_sized ucmd0" "n < 2 ^ 14" "0 < sz" "off + sz \<le> length (node_log disk pro node z)"
    "rd_num off sz \<le> ZTL_IO_RC_NUM" "rd_num off sz \<le> depth" "rd_num off sz < fuel" "0 < attempts"
  shows "\<exists>z'. zrocks_read dma xn (znd_core xn zv) zv fuel attempts ucmd0 n off buf sz is_gc z = Some (xz XZTL_OK, z') \<and>
    buffer (zr_mem z') buf sz = take sz (drop off (node_log disk pro node z)) \<and>
    (\<forall>a. a < buf \<or> buf + sz \<le> a \<longrightarrow> zr_mem z' a = zr_mem z a) \<and>
    level_at md level n queue pro node tbl z' \<and> node_log disk pro node z' = node_log disk pro node z \<and> reads_idle zv pend z'"
proof -
  have off: "off + sz \<le> 32768 * nd_optimal_write_sec_used node" using assms(8) by simp
  note fits = level_read_fits [OF assms(2,7) off]
  have n: "n < 2 ^ 32" using assms(6) by simp
  obtain z' where z': "zrocks_read dma xn (znd_core xn zv) zv fuel attempts ucmd0 n off buf sz is_gc z = Some (xz XZTL_OK, z')"
    "\<forall>a. zr_mem z' a = (if buf \<le> a \<and> a < buf + sz then disk (zr_x z) (byte_home pro node (off + (a - buf))) else zr_mem z a)"
    "reads_idle zv pend z'" "read_effect disk infl z z'"
    using zrocks_read_one [OF assms(1,3,4) fits(2,3,1) assms(9-11,5) n assms(12)] by blast
  then show ?thesis using log_part [where disk = disk and mem = "zr_mem z'" and z = z and pro = pro, OF off z'(2)] level_after_read [OF assms(2) z'(4)] by auto
qed

text \<open>The state after a write and a read of a part of the piece.\<close>

theorem zrocks_read_returns_data_witness:
  "\<exists>m z z'. zrocks_write store_dev (znd_core store_dev sample_zv) fresh_md sample_misc 5000 1 (sample_ucmd 1) 65536 70000 (-3) [0] False sample_zr =
     Some (xz XZTL_OK, m, 1, z) \<and>
     zrocks_read store_dma store_dev (znd_core store_dev sample_zv) sample_zv 10 1 (sample_ucmd 1) 0 5000 900 40000 False z = Some (xz XZTL_OK, z') \<and>
     buffer (zr_mem z') 900 40000 = buffer (\<lambda>a. a mod 251) 70536 40000"
proof -
  have s: "slots_of 70000 = 3" "write_level (-3) = 0" "write_size 70000 = 98304" by (simp_all add: slots_of_def write_level_def write_size_def Let_def u32_small u64_small)
  obtain m z where z: "zrocks_write store_dev (znd_core store_dev sample_zv) fresh_md sample_misc 5000 1 (sample_ucmd 1) 65536 70000 (-3) [0] False sample_zr =
      Some (xz XZTL_OK, m, 1, z)" "write_effect store_dma store_disk store_pend store_infl fresh_md 0 0 7 sample_pro sample_node 3 65536 sample_zr z"
    using zrocks_write_one [OF store_dev_device sample_level sample_zr_simps(1) s(2) sample_zr_simps(3,2), of 70000 65536 5000 1 "[0]" sample_misc False]
    by (auto simp: s sample_zr_simps)
  let ?node = "node_next 0 3 sample_node"
  let ?pro = "sample_pro\<lparr>pg_vnodes := (pg_vnodes sample_pro)[0 := ?node]\<rparr>"
  obtain tbl where lv: "level_at fresh_md 0 0 7 ?pro ?node tbl z" using z(2) unfolding write_effect_def by blast
  have rd: "reads_idle sample_zv store_pend z" "store_infl (zr_x z) = {#}"
    using reads_after_write [OF sample_reads z(2)] z(2) lv by (simp_all add: write_effect_def level_at_def)
  have log: "node_log store_disk ?pro ?node z = buffer (\<lambda>a. a mod 251) 65536 98304"
    using log_after_write [OF sample_level _ z(2)] by (simp add: sample_zr_simps node_log_def)
  have n: "rd_num 5000 40000 = 2" by (simp add: rd_num_def)
  obtain z' where "zrocks_read store_dma store_dev (znd_core store_dev sample_zv) sample_zv 10 1 (sample_ucmd 1) 0 5000 900 40000 False z = Some (xz XZTL_OK, z')"
      "buffer (zr_mem z') 900 40000 = take 40000 (drop 5000 (buffer (\<lambda>a. a mod 251) 65536 98304))"
    using zrocks_read_returns_data [OF store_dev_device lv rd sample_zr_simps(1), of 40000 5000 10 10 1 900 False] n log by (auto simp: sample_zr_simps)
  moreover have "take 40000 (drop 5000 (buffer (\<lambda>a. a mod 251) 65536 98304)) = buffer (\<lambda>a. a mod 251) 70536 40000"
    by (simp add: buffer_part)
  ultimately show ?thesis using z(1) by auto
qed

text \<open>C2: What is written is what is read. After a successful write of \<open>sz\<close> bytes, a read of any part of the piece, at the
  offset its map gives, returns the bytes that were in the buffer of the writer, whatever the number of commands of the
  write and of the read.\<close>

theorem zrocks_write_read:
  assumes "zns_device xn dma disk pend infl depth" "level_at md level n queue pro node tbl z" "ucmd_sized ucmd0" "write_level l = level"
    "infl (zr_x z) = {#}" "ge_nbytes (zv_geo zv) = 4096" "0 < sz" "sz \<le> 32768 * XZTL_WIO_MAX_MCMD"
    "slots_of sz \<le> nd_optimal_write_sec_left node" "buf + write_size sz < 2 ^ 64"
    "(2 * slots_of sz + 1) * (2 * min (slots_of sz) 64 + 4) < fuel" "0 < turns" "maps \<noteq> []" "n < 2 ^ 14" "reads_idle zv pend z" "0 < attempts"
    "0 < len" "off + len \<le> sz" "rd_num (32768 * nd_optimal_write_sec_used node + off) len \<le> depth"
    "rd_num (32768 * nd_optimal_write_sec_used node + off) len \<le> ZTL_IO_RC_NUM" "rd_num (32768 * nd_optimal_write_sec_used node + off) len < fuel"
  shows "\<exists>m z' z''. zrocks_write xn (znd_core xn zv) md misc0 fuel turns ucmd0 buf sz l maps is_gc z = Some (xz XZTL_OK, maps[0 := m], 1, z') \<and>
    zrocks_read dma xn (znd_core xn zv) zv fuel attempts ucmd0 (zm_node_id m) (32768 * zm_start m + off) rbuf len is_gc' z' = Some (xz XZTL_OK, z'') \<and>
    buffer (zr_mem z'') rbuf len = buffer (dma (zr_x z)) (buf + off) len"
proof -
  note ws = write_size_eq [OF assms(8)]
  define node' where "node' = node_next level (slots_of sz) node"
  define pro' where "pro' = pro\<lparr>pg_vnodes := (pg_vnodes pro)[n := node']\<rparr>"
  define m where "m = piece_map n (nd_optimal_write_sec_used node) (slots_of sz) (write_size sz - sz) (hd maps)"
  obtain z' where z': "zrocks_write xn (znd_core xn zv) md misc0 fuel turns ucmd0 buf sz l maps is_gc z = Some (xz XZTL_OK, maps[0 := m], 1, z')"
    "write_effect dma disk pend infl md level n queue pro node (slots_of sz) buf z z'"
    using zrocks_write_one [OF assms(1-13), of misc0 is_gc] unfolding m_def by blast
  have "nd_optimal_write_sec_used node < 2 ^ 22" "slots_of sz < 2 ^ 11" "write_size sz - sz < 2 ^ 16"
    using slots_bound [OF assms(2,9,7)] ws by simp_all
  note m = piece_map_read [OF assms(14) this, of "hd maps", folded m_def]
  obtain tbl' where lv: "level_at md level n queue pro' node' tbl' z'" using z'(2) unfolding write_effect_def pro'_def node'_def by blast
  have rd: "reads_idle zv pend z'" "infl (zr_x z') = {#}"
    using reads_after_write [OF assms(15) z'(2)] lv z'(2) by (simp_all add: write_effect_def level_at_def)
  note log = log_after_write [OF assms(2,9) z'(2), folded node'_def, folded pro'_def]
  have n: "n < 2 ^ 32" using assms(14) by simp
  have fit: "32768 * nd_optimal_write_sec_used node + off + len \<le> 32768 * nd_optimal_write_sec_used node'" using assms(18) ws by (simp add: node'_def)
  note fits = level_read_fits [OF lv assms(17) fit]
  obtain z'' where r: "zrocks_read dma xn (znd_core xn zv) zv fuel attempts ucmd0 n (32768 * nd_optimal_write_sec_used node + off) rbuf len is_gc' z' = Some (xz XZTL_OK, z'')"
    "\<forall>a. zr_mem z'' a = (if rbuf \<le> a \<and> a < rbuf + len then disk (zr_x z') (byte_home pro' node' (32768 * nd_optimal_write_sec_used node + off + (a - rbuf))) else zr_mem z' a)"
    using zrocks_read_one [OF assms(1) rd fits(2,3,1) assms(20,19,21,3) n assms(16)] by blast
  have "buffer (zr_mem z'') rbuf len = take len (drop (32768 * nd_optimal_write_sec_used node + off) (node_log disk pro' node' z'))"
    using log_part [where disk = disk and mem = "zr_mem z''" and z = z' and pro = pro', OF fit r(2)] .
  also have "\<dots> = buffer (dma (zr_x z)) (buf + off) len" unfolding log using assms(18) ws by (simp add: buffer_part)
  finally show ?thesis using z'(1) r(1) m by auto
qed

theorem zrocks_write_read_witness:
  "\<exists>m z' z''. zrocks_write store_dev (znd_core store_dev sample_zv) fresh_md sample_misc 5000 1 (sample_ucmd 1) 65536 70000 2 [0] False
       (sample_zr\<lparr>zr_mem := \<lambda>a. a\<rparr>) = Some (xz XZTL_OK, [m], 1, z') \<and>
     zrocks_read store_dma store_dev (znd_core store_dev sample_zv) sample_zv 5000 1 (sample_ucmd 1) (zm_node_id m) (32768 * zm_start m + 5000) 900 40000 False z' =
       Some (xz XZTL_OK, z'') \<and>
     buffer (zr_mem z'') 900 40000 = buffer (\<lambda>a. a mod 251) (65536 + 5000) 40000"
proof -
  let ?z = "sample_zr\<lparr>zr_mem := \<lambda>a. a\<rparr>"
  have s: "slots_of 70000 = 3" "write_level 2 = 2" "write_size 70000 = 98304" by (simp_all add: slots_of_def write_level_def write_size_def Let_def u32_small u64_small)
  have lv: "level_at fresh_md 2 0 7 sample_pro sample_node sample_tbl ?z"
    using sample_level unfolding level_at_def by (simp add: level_world_def sample_zr_def write_node_def)
  have rd: "reads_idle sample_zv store_pend ?z" "store_infl (zr_x ?z) = {#}" "store_dma (zr_x ?z) = (\<lambda>a. a mod 251)"
    using sample_reads sample_zr_simps(3,4) by (simp_all add: reads_idle_def)
  have n: "rd_num 5000 40000 = 2" by (simp add: rd_num_def)
  show ?thesis
    using zrocks_write_read [OF store_dev_device lv sample_zr_simps(1) s(2) rd(2) sample_zr_simps(2), of 70000 65536 5000 1 "[0]" 1 40000 5000 10 sample_misc False 900 False]
      rd n by (auto simp: s sample_zr_simps)
qed

text \<open>C14: When the last valid slots of a full node are trimmed the node is marked for a reset and exactly one request for it is
  queued, however the slots are split into pieces; trimming a part of the valid slots only counts them.\<close>

theorem full_node_reset_once:
  assumes "gr_pro (im_grp (zr_io z)) = Some pro" "n < length (pg_vnodes pro)" "zd_tbl (gr_zmd (im_grp (zr_io z))) \<noteq> None"
    "nd_status (pg_vnodes pro ! n) = XZTL_ZMD_NODE_FULL" "nd_nr_valid (pg_vnodes pro ! n) < 2 ^ 64"
    "\<forall>m \<in> set ms. zm_node_id m = n" "sum_list (map zm_num ms) = nd_nr_valid (pg_vnodes pro ! n)" "ms \<noteq> []"
    "xztl_mempool_get (zr_mp z) (mpt XZTL_NODE_MGMT_ENTRY) 0 = Some (ent, mp)"
  shows "\<exists>pro' z'. trim_all ms z = Some z' \<and> gr_pro (im_grp (zr_io z')) = Some pro' \<and>
    pg_vnodes pro' ! n = (pg_vnodes pro ! n)\<lparr>nd_nr_valid := 0, nd_status := XZTL_ZMD_NODE_RESET\<rparr> \<and>
    zr_reqs z' = zr_reqs z @ [\<lparr>et_node = n, et_mp_entry = ent, et_op_code = ZTL_MGMG_RESET_ZONE\<rparr>]"
proof -
  have "trim_state n pro (pg_vnodes pro ! n) z" using assms(1-3) by (simp add: trim_state_def)
  from trim_all_resets [OF this assms(6,7,5,4,9,8)] show ?thesis unfolding trim_state_def by blast
qed

theorem full_node_reset_once_witness:
  "\<exists>pro z'. trim_all [piece_map 0 0 2 0 0, piece_map 0 2 3 0 0]
       (sample_zr\<lparr>zr_io := (zr_io sample_zr)\<lparr>im_grp := sample_grp\<lparr>gr_pro := Some (sample_pro\<lparr>pg_vnodes :=
          [sample_node\<lparr>nd_nr_valid := 5, nd_status := XZTL_ZMD_NODE_FULL\<rparr>]\<rparr>)\<rparr>\<rparr>\<rparr>) = Some z' \<and>
     gr_pro (im_grp (zr_io z')) = Some pro \<and> nd_status (pg_vnodes pro ! 0) = XZTL_ZMD_NODE_RESET \<and> length (zr_reqs z') = 1"
proof -
  let ?pro = "sample_pro\<lparr>pg_vnodes := [sample_node\<lparr>nd_nr_valid := 5, nd_status := XZTL_ZMD_NODE_FULL\<rparr>]\<rparr>"
  let ?z = "sample_zr\<lparr>zr_io := (zr_io sample_zr)\<lparr>im_grp := sample_grp\<lparr>gr_pro := Some ?pro\<rparr>\<rparr>\<rparr>"
  have m: "zm_node_id (piece_map 0 s k 0 0) = 0" "zm_num (piece_map 0 s k 0 0) = k" if "s < 10" "k < 10" for s k
    using piece_map_read [of 0 s k 0 0] that by simp_all
  obtain ent mp where g: "xztl_mempool_get (zr_mp ?z) (mpt XZTL_NODE_MGMT_ENTRY) 0 = Some (ent, mp)"
    by (simp add: sample_zr_def sample_mp_def xztl_mempool_get_def pool_at_def mp_take_def zero_pool_def)
  have "gr_pro (im_grp (zr_io ?z)) = Some ?pro" "zd_tbl (gr_zmd (im_grp (zr_io ?z))) \<noteq> None" "zr_reqs ?z = []"
    by (simp_all add: sample_grp_def sample_zr_def)
  with full_node_reset_once [OF this(1) _ this(2) _ _ _ _ _ g, of 0 "[piece_map 0 0 2 0 0, piece_map 0 2 3 0 0]"]
  show ?thesis by (auto simp: m)
qed

end
