(* ===== verification/Env_State.thy ===== *)
theory Env_State
  imports Zrocks_Data
begin

text \<open>
  The state of the RocksDB environment and its metadata log: \<open>env_zns.h\<close> and the first half of \<open>env_zns.cc\<close>.

  The objects \<open>ZNSFile\<close> live in a heap, a list whose entry is \<open>None\<close> once the object is deleted; \<open>files\<close>, a
  \<open>std::map\<close>, is a list of names in ascending order with pointers into the heap, and a lookup by \<open>operator[]\<close>
  adds a null pointer for a name that is missing. The write cache of a file is the list of the bytes between
  \<open>wcache\<close> and \<open>cache_off\<close>, or \<open>None\<close> without a cache. The calls of the library are the fields of \<open>zrocks_fns\<close>
  over its state; buffers for them are lists of bytes. The locks are not part of the model, nor are the
  messages. Bytes of padding in structures, which nothing reads, are 0.
\<close>

section \<open>Model\<close>

abbreviation (input) FILE_METADATA_BUF_SIZE :: nat where "FILE_METADATA_BUF_SIZE \<equiv> 80 * 1024 * 1024"
abbreviation (input) MAX_META_ZONE :: nat where "MAX_META_ZONE \<equiv> 2"
abbreviation (input) MD_WRITE_FULL :: int where "MD_WRITE_FULL \<equiv> 0x1d"
abbreviation (input) METADATA_MAGIC :: nat where "METADATA_MAGIC \<equiv> 0x3D"
abbreviation (input) FILE_NAME_LEN :: nat where "FILE_NAME_LEN \<equiv> 128"
abbreviation (input) META_ZONE_HEAD_SZ :: nat where "META_ZONE_HEAD_SZ \<equiv> ZNS_ALIGMENT"
abbreviation (input) METADATA_HEAD_SZ :: nat where "METADATA_HEAD_SZ \<equiv> 12"
abbreviation (input) FILE_META_SZ :: nat where "FILE_META_SZ \<equiv> 152"
abbreviation (input) ZROCKS_MAP_SZ :: nat where "ZROCKS_MAP_SZ \<equiv> 8"

datatype Operation = Base | Update | Replace | Delete | GCChange

primrec op_tag :: "Operation \<Rightarrow> nat" where
  "op_tag Base = 0" | "op_tag Update = 1" | "op_tag Replace = 2" | "op_tag Delete = 3" | "op_tag GCChange = 4"

text \<open>\<open>OutOfRange\<close> is the exception that \<open>std::vector::at\<close> throws.\<close>

datatype Status = OK | IOError | MemoryLimit | OutOfRange

record ZNSFile =
  f_name :: string
  f_size :: nat
  f_uuididx :: nat
  f_level :: int
  f_map :: "zrocks_map list"
  f_startIndex :: nat
  f_cache :: "nat list option"
  f_is_writing :: bool
  f_current_nid :: int

record 's ZNSEnv =
  ev_heap :: "ZNSFile option list"
  ev_files :: "(string \<times> nat option) list"
  ev_sequence :: nat
  ev_uuididx :: nat
  ev_nid_file_map :: "nat \<Rightarrow> string list"
  ev_zrocks :: 's

text \<open>The library as the environment calls it.\<close>

record 's zrocks_fns =
  zf_alloc :: "nat \<Rightarrow> 's \<Rightarrow> (bool \<times> 's) option"
  zf_free :: "'s \<Rightarrow> 's option"
  zf_write :: "nat list \<Rightarrow> int \<Rightarrow> bool \<Rightarrow> 's \<Rightarrow> (int \<times> zrocks_map list \<times> 's) option"
  zf_read :: "nat \<Rightarrow> nat \<Rightarrow> nat \<Rightarrow> bool \<Rightarrow> 's \<Rightarrow> (int \<times> nat list \<times> 's) option"
  zf_trim :: "zrocks_map \<Rightarrow> 's \<Rightarrow> (int \<times> 's) option"
  zf_node_set :: "nat \<Rightarrow> int \<Rightarrow> int \<Rightarrow> 's \<Rightarrow> 's option"
  zf_clear_invalid_nodes :: "'s \<Rightarrow> 's option"
  zf_write_file_metadata :: "nat list \<Rightarrow> 's \<Rightarrow> (int \<times> 's) option"
  zf_read_metadata :: "nat \<Rightarrow> nat \<Rightarrow> 's \<Rightarrow> (int \<times> nat list \<times> 's) option"
  zf_get_metadata_slbas :: "'s \<Rightarrow> nat list option"
  zf_switch_zone :: "nat \<Rightarrow> 's \<Rightarrow> 's option"
  zf_gc_get_nodes_num :: "'s \<Rightarrow> nat option"
  zf_gc_get_free_nodes_num :: "'s \<Rightarrow> nat option"
  zf_gc_get_full_nodes :: "nat list \<Rightarrow> 's \<Rightarrow> nat list option"

subsection \<open>Files by name\<close>

fun str_less :: "string \<Rightarrow> string \<Rightarrow> bool" where
  "str_less xs [] \<longleftrightarrow> False"
| "str_less [] (y # ys) \<longleftrightarrow> True"
| "str_less (x # xs) (y # ys) \<longleftrightarrow> (of_char x :: nat) < of_char y \<or> x = y \<and> str_less xs ys"

fun files_put :: "string \<Rightarrow> nat option \<Rightarrow> (string \<times> nat option) list \<Rightarrow> (string \<times> nat option) list" where
  "files_put k v [] = [(k, v)]"
| "files_put k v ((k', v') # fs) =
     (if k = k' then (k, v) # fs else if str_less k k' then (k, v) # (k', v') # fs else (k', v') # files_put k v fs)"

definition files_erase :: "string \<Rightarrow> (string \<times> nat option) list \<Rightarrow> (string \<times> nat option) list" where
  "files_erase k fs = filter (\<lambda>f. fst f \<noteq> k) fs"

definition files_at :: "string \<Rightarrow> (string \<times> nat option) list \<Rightarrow> nat option \<times> (string \<times> nat option) list" where
  "files_at k fs = (case map_of fs k of Some v \<Rightarrow> (v, fs) | None \<Rightarrow> (None, files_put k None fs))"

definition obj :: "nat \<Rightarrow> 's ZNSEnv \<Rightarrow> ZNSFile option" where
  "obj p e = do { o' \<leftarrow> get_at (ev_heap e) p; o' }"

definition put_obj :: "nat \<Rightarrow> ZNSFile \<Rightarrow> 's ZNSEnv \<Rightarrow> 's ZNSEnv" where
  "put_obj p f e = e\<lparr>ev_heap := (ev_heap e)[p := Some f]\<rparr>"

definition delete_obj :: "nat \<Rightarrow> 's ZNSEnv \<Rightarrow> 's ZNSEnv option" where
  "delete_obj p e = do { f \<leftarrow> obj p e; Some (e\<lparr>ev_heap := (ev_heap e)[p := None]\<rparr>) }"

text \<open>A new object; its cache is allocated when \<open>createbuf\<close> holds, which it does in all calls.\<close>

definition new_ZNSFile :: "'s zrocks_fns \<Rightarrow> string \<Rightarrow> int \<Rightarrow> 's ZNSEnv \<Rightarrow> (nat \<times> 's ZNSEnv) option" where
  "new_ZNSFile zr fname lvl e = do {
     (ok, s) \<leftarrow> zf_alloc zr ZNS_MAX_BUF (ev_zrocks e);
     let f = \<lparr>f_name = fname, f_size = 0, f_uuididx = 0, f_level = lvl, f_map = [], f_startIndex = 0,
       f_cache = (if ok then Some [] else None), f_is_writing = False, f_current_nid = -1\<rparr>;
     Some (length (ev_heap e), e\<lparr>ev_heap := ev_heap e @ [Some f], ev_zrocks := s\<rparr>) }"

text \<open>The destructor frees the cache.\<close>

definition delete_ZNSFile :: "'s zrocks_fns \<Rightarrow> nat \<Rightarrow> 's ZNSEnv \<Rightarrow> 's ZNSEnv option" where
  "delete_ZNSFile zr p e = do {
     f \<leftarrow> obj p e;
     s \<leftarrow> (if f_cache f = None then Some (ev_zrocks e) else zf_free zr (ev_zrocks e));
     delete_obj p (e\<lparr>ev_zrocks := s\<rparr>) }"

subsection \<open>Bytes\<close>

fun le_bytes :: "nat \<Rightarrow> nat \<Rightarrow> nat list" where
  "le_bytes 0 v = []"
| "le_bytes (Suc n) v = v mod 256 # le_bytes n (v div 256)"

fun le_val :: "nat list \<Rightarrow> nat" where
  "le_val [] = 0"
| "le_val (b # bs) = b + 256 * le_val bs"

definition name_bytes :: "string \<Rightarrow> nat list" where
  "name_bytes s = map of_char s @ replicate (FILE_NAME_LEN - length s) 0"

definition MetaZoneHead_bytes :: "nat \<Rightarrow> nat list" where
  "MetaZoneHead_bytes sequence = le_bytes 1 METADATA_MAGIC @ replicate 3 0 @ le_bytes 4 sequence @ replicate (META_ZONE_HEAD_SZ - 8) 0"

definition MetadataHead_bytes :: "nat \<Rightarrow> Operation \<Rightarrow> nat list" where
  "MetadataHead_bytes dataLength tag = le_bytes 4 0 @ le_bytes 4 dataLength @ le_bytes 1 (op_tag tag) @ replicate 3 0"

definition ZrocksFileMeta_bytes :: "int \<Rightarrow> nat \<Rightarrow> nat \<Rightarrow> string \<Rightarrow> nat list" where
  "ZrocksFileMeta_bytes level filesize pieceNum filename =
     le_bytes 1 (nat (level mod 256)) @ replicate 7 0 @ le_bytes 8 filesize @ le_bytes 4 pieceNum @ name_bytes filename @ replicate 4 0"

definition zrocks_map_bytes :: "zrocks_map \<Rightarrow> nat list" where
  "zrocks_map_bytes m = le_bytes ZROCKS_MAP_SZ (unat m)"

definition sector_align :: "nat \<Rightarrow> nat" where
  "sector_align dataLen = (if dataLen mod ZNS_ALIGMENT \<noteq> 0 then (dataLen div ZNS_ALIGMENT + 1) * ZNS_ALIGMENT else dataLen)"

subsection \<open>Records of the log\<close>

definition GetFileMetaLen :: "ZNSFile \<Rightarrow> nat" where
  "GetFileMetaLen f = u32 (FILE_META_SZ + length (f_map f) * ZROCKS_MAP_SZ)"

text \<open>A name of more than 128 bytes is copied over the end of its field.\<close>

definition WriteMetaToBuf :: "bool \<Rightarrow> ZNSFile \<Rightarrow> (nat list \<times> ZNSFile) option" where
  "WriteMetaToBuf update f =
     (if FILE_NAME_LEN < length (f_name f) then None
      else let i = (if update then f_startIndex f else 0);
               pieceNum = (if update then u32 (usub 64 (length (f_map f)) (f_startIndex f)) else u32 (length (f_map f)))
           in Some (ZrocksFileMeta_bytes (f_level f) (f_size f) pieceNum (f_name f) @ concat (map zrocks_map_bytes (drop i (f_map f))),
                    f\<lparr>f_startIndex := u32 (length (f_map f))\<rparr>))"

definition GetWRLock :: "ZNSFile \<Rightarrow> ZNSFile" where
  "GetWRLock f = f\<lparr>f_is_writing := True\<rparr>"

definition ReleaseWRLock :: "ZNSFile \<Rightarrow> ZNSFile" where
  "ReleaseWRLock f = f\<lparr>f_is_writing := False\<rparr>"

definition IsWR :: "ZNSFile \<Rightarrow> bool" where
  "IsWR f \<longleftrightarrow> f_is_writing f"

fun flush_files_loop :: "(string \<times> nat option) list \<Rightarrow> nat \<Rightarrow> nat list \<Rightarrow> 's ZNSEnv \<Rightarrow> (bool \<times> nat \<times> nat list \<times> 's ZNSEnv) option" where
  "flush_files_loop [] fileNum data e = Some (True, fileNum, data, e)"
| "flush_files_loop ((k, None) # fs) fileNum data e = flush_files_loop fs fileNum data e"
| "flush_files_loop ((k, Some p) # fs) fileNum data e = do {
     zfile \<leftarrow> obj p e;
     let fileNum = fileNum + 1;
     if META_ZONE_HEAD_SZ + METADATA_HEAD_SZ + 4 + length data + GetFileMetaLen zfile \<ge> FILE_METADATA_BUF_SIZE
     then Some (False, fileNum, data, e)
     else do {
       (bs, zfile) \<leftarrow> WriteMetaToBuf False zfile;
       flush_files_loop fs fileNum (data @ bs) (put_obj p zfile e) } }"

definition FlushMetaData :: "'s zrocks_fns \<Rightarrow> 's ZNSEnv \<Rightarrow> (Status \<times> 's ZNSEnv) option" where
  "FlushMetaData zr e = do {
     let head = MetaZoneHead_bytes (u32 (ev_sequence e));
     let e = e\<lparr>ev_sequence := u64 (ev_sequence e + 1)\<rparr>;
     (fits, fileNum, data, e) \<leftarrow> flush_files_loop (ev_files e) 0 [] e;
     if \<not> fits then Some (MemoryLimit, e)
     else do {
       let body = le_bytes 4 fileNum @ data;
       let dataLen = sector_align (META_ZONE_HEAD_SZ + METADATA_HEAD_SZ + length body);
       let buf = head @ MetadataHead_bytes (dataLen - METADATA_HEAD_SZ - META_ZONE_HEAD_SZ) Base @ body;
       let buf = buf @ replicate (dataLen - length buf) 0;
       (ret, s) \<leftarrow> zf_write_file_metadata zr buf (ev_zrocks e);
       if ret = MD_WRITE_FULL
       then do { (ret, s) \<leftarrow> zf_write_file_metadata zr buf s; Some (OK, e\<lparr>ev_zrocks := s\<rparr>) }
       else Some (OK, e\<lparr>ev_zrocks := s\<rparr>) } }"

text \<open>One record: a buffer of one sector with head and body. A body that does not fit is written behind the buffer.\<close>

definition record_bytes :: "Operation \<Rightarrow> nat list \<Rightarrow> nat list option" where
  "record_bytes tag body =
     (if ZNS_ALIGMENT < METADATA_HEAD_SZ + length body then None
      else let dataLen = sector_align (METADATA_HEAD_SZ + length body);
               buf = MetadataHead_bytes (dataLen - METADATA_HEAD_SZ) tag @ body
           in Some (buf @ replicate (dataLen - length buf) 0))"

definition flush_record :: "'s zrocks_fns \<Rightarrow> Operation \<Rightarrow> nat list \<Rightarrow> 's ZNSEnv \<Rightarrow> (Status \<times> 's ZNSEnv) option" where
  "flush_record zr tag body e = do {
     buf \<leftarrow> record_bytes tag body;
     (ret, s) \<leftarrow> zf_write_file_metadata zr buf (ev_zrocks e);
     let e = e\<lparr>ev_zrocks := s\<rparr>;
     e \<leftarrow> (if ret = MD_WRITE_FULL then do { (ret, e) \<leftarrow> FlushMetaData zr e; Some e } else Some e);
     s \<leftarrow> zf_free zr (ev_zrocks e);
     Some (OK, e\<lparr>ev_zrocks := s\<rparr>) }"

definition with_buf :: "'s zrocks_fns \<Rightarrow> ('s ZNSEnv \<Rightarrow> (Status \<times> 's ZNSEnv) option) \<Rightarrow> 's ZNSEnv \<Rightarrow> (Status \<times> 's ZNSEnv) option" where
  "with_buf zr f e = do {
     (ok, s) \<leftarrow> zf_alloc zr ZNS_ALIGMENT (ev_zrocks e);
     let e = e\<lparr>ev_zrocks := s\<rparr>;
     if ok then f e else Some (MemoryLimit, e) }"

definition FlushUpdateMetaData :: "'s zrocks_fns \<Rightarrow> nat \<Rightarrow> 's ZNSEnv \<Rightarrow> (Status \<times> 's ZNSEnv) option" where
  "FlushUpdateMetaData zr p e = do {
     zfile \<leftarrow> obj p e;
     if f_startIndex zfile = length (f_map zfile) then Some (OK, e)
     else with_buf zr (\<lambda>e. do {
       (bs, zfile) \<leftarrow> WriteMetaToBuf True zfile;
       flush_record zr Update bs (put_obj p zfile e) }) e }"

definition FlushGCChangeMetaData :: "'s zrocks_fns \<Rightarrow> nat \<Rightarrow> 's ZNSEnv \<Rightarrow> (Status \<times> 's ZNSEnv) option" where
  "FlushGCChangeMetaData zr p e = do {
     zfile \<leftarrow> obj p e;
     with_buf zr (\<lambda>e. do {
       (bs, zfile) \<leftarrow> WriteMetaToBuf False zfile;
       flush_record zr GCChange bs (put_obj p zfile e) }) e }"

definition FlushDelMetaData :: "'s zrocks_fns \<Rightarrow> string \<Rightarrow> 's ZNSEnv \<Rightarrow> (Status \<times> 's ZNSEnv) option" where
  "FlushDelMetaData zr fileName e = with_buf zr (\<lambda>e.
     if FILE_NAME_LEN < length fileName then None else flush_record zr Delete (name_bytes fileName) e) e"

definition FlushReplaceMetaData :: "'s zrocks_fns \<Rightarrow> string \<Rightarrow> string \<Rightarrow> 's ZNSEnv \<Rightarrow> (Status \<times> 's ZNSEnv) option" where
  "FlushReplaceMetaData zr srcName destName e = with_buf zr (\<lambda>e.
     if FILE_NAME_LEN < length srcName \<or> FILE_NAME_LEN < length destName then None
     else flush_record zr Replace (name_bytes srcName @ name_bytes destName) e) e"

end
