(* ===== verification/Env_Files.thy ===== *)
theory Env_Files
  imports Env_State
begin

text \<open>
  The files of the environment: \<open>env_zns_io.cc\<close> and the operations of \<open>env_zns.cc\<close> on names. Appended data stays in the
  cache of a file until the cache is full or the file is synced or closed; then it becomes one or two pieces on the
  device. A read takes its bytes from the pieces, or from the cache when it starts there.

  The file system of the host and the functions of RocksDB, \<open>posix_fns\<close>, are parameters.
\<close>

section \<open>Model\<close>

subsection \<open>Reading\<close>

text \<open>The data bytes of a piece, an \<open>int\<close> that is converted to \<open>size_t\<close>.\<close>

definition piece_size :: "zrocks_map \<Rightarrow> nat" where
  "piece_size m = usub 64 (zm_num m * (ZNS_ALIGMENT * ZTL_IO_SEC_MCMD)) (zm_padding m)"

fun find_piece :: "zrocks_map list \<Rightarrow> nat \<Rightarrow> nat \<Rightarrow> (zrocks_map list \<times> nat) option" where
  "find_piece [] off offset = None"
| "find_piece (m # ms) off offset =
     (if off + piece_size m > offset then Some (m # ms, usub 64 (piece_size m) (off + piece_size m - offset))
      else find_piece ms (off + piece_size m) offset)"

fun read_pieces ::
    "'s zrocks_fns \<Rightarrow> zrocks_map list \<Rightarrow> nat \<Rightarrow> nat \<Rightarrow> nat list \<Rightarrow> 's \<Rightarrow> (Status \<times> nat list \<times> 's) option" where
  "read_pieces zr [] piece_off left out s = Some (if left = 0 then OK else OutOfRange, out, s)"
| "read_pieces zr (m # ms) piece_off left out s =
     (if left = 0 then Some (OK, out, s)
      else do {
        let msize = usub 64 (piece_size m) piece_off;
        let msize = (if msize > left then left else msize);
        (ret, bs, s) \<leftarrow> zf_read zr (zm_node_id m) (zm_start m * (ZNS_ALIGMENT * ZTL_IO_SEC_MCMD) + piece_off) msize False s;
        if ret \<noteq> 0 then Some (IOError, out, s) else read_pieces zr ms 0 (left - msize) (out @ bs) s })"

definition read_mapped :: "'s zrocks_fns \<Rightarrow> ZNSFile \<Rightarrow> nat \<Rightarrow> nat \<Rightarrow> 's \<Rightarrow> (Status \<times> nat list option \<times> 's) option" where
  "read_mapped zr f offset n s =
     (case find_piece (f_map f) 0 offset of
        None \<Rightarrow> Some (IOError, None, s)
      | Some (ms, piece_off) \<Rightarrow> do {
          (ret, out, s) \<leftarrow> read_pieces zr ms piece_off n [] s;
          Some (ret, if ret = OK then Some out else None, s) })"

record ZNSSequentialFile =
  sq_filename :: string
  sq_znsfile :: "nat option"
  sq_read_off :: nat

definition cache_bytes :: "ZNSFile \<Rightarrow> nat list" where
  "cache_bytes f = (case f_cache f of None \<Rightarrow> [] | Some c \<Rightarrow> c)"

text \<open>The result is \<open>None\<close> when the caller's slice is not set; then the length is 0.\<close>

definition Sequential_ReadOffset ::
    "'s zrocks_fns \<Rightarrow> nat option \<Rightarrow> nat \<Rightarrow> nat \<Rightarrow> 's ZNSEnv \<Rightarrow> (Status \<times> nat list option \<times> nat \<times> 's ZNSEnv) option" where
  "Sequential_ReadOffset zr znsfile offset n e =
     (case znsfile of None \<Rightarrow> Some (OK, None, 0, e)
      | Some p \<Rightarrow> do {
          f \<leftarrow> obj p e;
          if offset \<ge> f_size f then Some (OK, None, 0, e)
          else do {
            let n = (if u64 (offset + n) > f_size f then f_size f - offset else n);
            let cache_pos = usub 64 (f_size f) (length (cache_bytes f));
            if offset \<ge> cache_pos then Some (OK, Some (take n (drop (offset - cache_pos) (cache_bytes f))), n, e)
            else do {
              (ret, out, s) \<leftarrow> read_mapped zr f offset n (ev_zrocks e);
              Some (ret, out, if ret = OK then n else 0, e\<lparr>ev_zrocks := s\<rparr>) } } })"

definition Sequential_Read ::
    "'s zrocks_fns \<Rightarrow> nat \<Rightarrow> ZNSSequentialFile \<Rightarrow> 's ZNSEnv \<Rightarrow> (Status \<times> nat list option \<times> ZNSSequentialFile \<times> 's ZNSEnv) option" where
  "Sequential_Read zr n sq e = do {
     (ret, out, readLen, e) \<leftarrow> Sequential_ReadOffset zr (sq_znsfile sq) (sq_read_off sq) n e;
     Some (ret, out, if ret = OK then sq\<lparr>sq_read_off := u64 (sq_read_off sq + readLen)\<rparr> else sq, e) }"

text \<open>The offset of the caller is not used. The result is the first \<open>readLen\<close> bytes of the scratch buffer, which a read
  from the cache does not fill: \<open>scratch\<close> is what the buffer held.\<close>

definition Sequential_PositionedRead ::
    "'s zrocks_fns \<Rightarrow> nat \<Rightarrow> nat \<Rightarrow> nat list \<Rightarrow> ZNSSequentialFile \<Rightarrow> 's ZNSEnv \<Rightarrow> (Status \<times> nat list \<times> 's ZNSEnv) option" where
  "Sequential_PositionedRead zr offset n scratch sq e = do {
     (ret, out, readLen, e') \<leftarrow> Sequential_ReadOffset zr (sq_znsfile sq) (sq_read_off sq) n e;
     p \<leftarrow> (case sq_znsfile sq of None \<Rightarrow> Some True | Some p \<Rightarrow> do {
       f \<leftarrow> obj p e; Some (sq_read_off sq \<ge> usub 64 (f_size f) (length (cache_bytes f))) });
     Some (OK, take readLen (if p then scratch else case out of None \<Rightarrow> scratch | Some bs \<Rightarrow> bs), e') }"

definition Sequential_Skip :: "nat \<Rightarrow> ZNSSequentialFile \<Rightarrow> 's ZNSEnv \<Rightarrow> (Status \<times> ZNSSequentialFile) option" where
  "Sequential_Skip n sq e = do {
     p \<leftarrow> sq_znsfile sq;
     f \<leftarrow> obj p e;
     Some (OK, if u64 (sq_read_off sq + n) \<le> f_size f then sq\<lparr>sq_read_off := sq_read_off sq + n\<rparr> else sq) }"

definition RandomAccess_ReadOffset ::
    "'s zrocks_fns \<Rightarrow> nat option \<Rightarrow> nat \<Rightarrow> nat \<Rightarrow> 's ZNSEnv \<Rightarrow> (Status \<times> nat list option \<times> 's ZNSEnv) option" where
  "RandomAccess_ReadOffset zr znsfile offset n e =
     (case znsfile of None \<Rightarrow> Some (OK, None, e)
      | Some p \<Rightarrow> do {
          f \<leftarrow> obj p e;
          if offset \<ge> f_size f then Some (OK, None, e)
          else do {
            let n = (if u64 (offset + n) > f_size f then f_size f - offset else n);
            (ret, out, s) \<leftarrow> read_mapped zr f offset n (ev_zrocks e);
            Some (ret, out, e\<lparr>ev_zrocks := s\<rparr>) } })"

definition RandomAccess_Read ::
    "'s zrocks_fns \<Rightarrow> nat option \<Rightarrow> nat \<Rightarrow> nat \<Rightarrow> 's ZNSEnv \<Rightarrow> (Status \<times> nat list option \<times> 's ZNSEnv) option" where
  "RandomAccess_Read zr znsfile offset n e =
     (case znsfile of None \<Rightarrow> Some (OK, None, e)
      | Some p \<Rightarrow> do {
          f \<leftarrow> obj p e;
          if offset \<ge> f_size f then Some (OK, None, e)
          else do {
            let n = (if u64 (offset + n) > f_size f then f_size f - offset else n);
            let cache_pos = usub 64 (f_size f) (length (cache_bytes f));
            if offset \<ge> cache_pos then Some (OK, Some (take n (drop (offset - cache_pos) (cache_bytes f))), e)
            else RandomAccess_ReadOffset zr znsfile offset n e } })"

text \<open>Prefetching is switched off in the header.\<close>

definition RandomAccess_Prefetch :: "nat \<Rightarrow> nat \<Rightarrow> Status" where
  "RandomAccess_Prefetch offset n = OK"

subsection \<open>Writing\<close>

record ZNSWritableFile =
  wf_filename :: string
  wf_filesize :: nat
  wf_znsfile :: nat

fun sync_pieces :: "string \<Rightarrow> nat \<Rightarrow> zrocks_map list \<Rightarrow> 's ZNSEnv \<Rightarrow> 's ZNSEnv option" where
  "sync_pieces filename p [] e = Some e"
| "sync_pieces filename p (m # ms) e = do {
     f \<leftarrow> obj p e;
     let f = f\<lparr>f_map := f_map f @ [m]\<rparr>;
     if f_current_nid f \<noteq> int (zm_node_id m)
     then do {
       let e = put_obj p (f\<lparr>f_current_nid := int (zm_node_id m)\<rparr>) e;
       sync_pieces filename p ms
         (e\<lparr>ev_nid_file_map := (ev_nid_file_map e)(zm_node_id m := ev_nid_file_map e (zm_node_id m) @ [filename])\<rparr>) }
     else sync_pieces filename p ms (put_obj p f e) }"

definition Writable_Sync :: "'s zrocks_fns \<Rightarrow> ZNSWritableFile \<Rightarrow> 's ZNSEnv \<Rightarrow> (Status \<times> 's ZNSEnv) option" where
  "Writable_Sync zr w e = do {
     f \<leftarrow> obj (wf_znsfile w) e;
     case f_cache f of None \<Rightarrow> Some (OK, e)
     | Some c \<Rightarrow>
        if c = [] then Some (OK, e)
        else do {
          (ret, maps, s) \<leftarrow> zf_write zr c (f_level f) False (ev_zrocks e);
          let e = e\<lparr>ev_zrocks := s\<rparr>;
          if ret \<noteq> 0 then Some (IOError, e)
          else do {
            e \<leftarrow> sync_pieces (wf_filename w) (wf_znsfile w) maps e;
            (ret, e) \<leftarrow> FlushUpdateMetaData zr (wf_znsfile w) e;
            f \<leftarrow> obj (wf_znsfile w) e;
            Some (OK, put_obj (wf_znsfile w) (f\<lparr>f_cache := Some []\<rparr>) e) } } }"

definition cache_put :: "nat \<Rightarrow> nat list \<Rightarrow> 's ZNSEnv \<Rightarrow> 's ZNSEnv option" where
  "cache_put p bs e = do { f \<leftarrow> obj p e; c \<leftarrow> f_cache f; Some (put_obj p (f\<lparr>f_cache := Some (c @ bs)\<rparr>) e) }"

function append_chunks :: "'s zrocks_fns \<Rightarrow> ZNSWritableFile \<Rightarrow> nat list \<Rightarrow> 's ZNSEnv \<Rightarrow> (bool \<times> nat list \<times> 's ZNSEnv) option" where
  "append_chunks zr w rest e =
     (if length rest > ZNS_MAX_BUF
      then do {
        e \<leftarrow> cache_put (wf_znsfile w) (take ZNS_MAX_BUF rest) e;
        (ret, e) \<leftarrow> Writable_Sync zr w e;
        if ret \<noteq> OK then Some (False, [], e) else append_chunks zr w (drop ZNS_MAX_BUF rest) e }
      else Some (True, rest, e))"
  by pat_completeness auto
termination by (relation "measure (\<lambda>(zr, w, rest, e). length rest)") auto

declare append_chunks.simps [simp del]

definition Writable_Append ::
    "'s zrocks_fns \<Rightarrow> nat list \<Rightarrow> ZNSWritableFile \<Rightarrow> 's ZNSEnv \<Rightarrow> (Status \<times> ZNSWritableFile \<times> 's ZNSEnv) option" where
  "Writable_Append zr data w e = do {
     f \<leftarrow> obj (wf_znsfile w) e;
     case f_cache f of None \<Rightarrow> Some (IOError, w, e)
     | Some c \<Rightarrow> do {
         (ok, rest, e) \<leftarrow>
           (if length c + length data > ZNS_MAX_BUF
            then do {
              let k = ZNS_MAX_BUF - length c;
              e \<leftarrow> cache_put (wf_znsfile w) (take k data) e;
              (ret, e) \<leftarrow> Writable_Sync zr w e;
              if ret \<noteq> OK then Some (False, [], e) else append_chunks zr w (drop k data) e }
            else Some (True, data, e));
         if \<not> ok then Some (IOError, w, e)
         else do {
           e \<leftarrow> cache_put (wf_znsfile w) rest e;
           f \<leftarrow> obj (wf_znsfile w) e;
           Some (OK, w\<lparr>wf_filesize := u64 (wf_filesize w + length data)\<rparr>,
             put_obj (wf_znsfile w) (f\<lparr>f_size := u64 (f_size f + length data)\<rparr>) e) } } }"

definition Writable_PositionedAppend ::
    "'s zrocks_fns \<Rightarrow> nat list \<Rightarrow> nat \<Rightarrow> ZNSWritableFile \<Rightarrow> 's ZNSEnv \<Rightarrow> (Status \<times> ZNSWritableFile \<times> 's ZNSEnv) option" where
  "Writable_PositionedAppend zr data offset w e = Writable_Append zr data w e"

text \<open>A truncation beyond the cache is ignored.\<close>

definition Writable_Truncate :: "nat \<Rightarrow> ZNSWritableFile \<Rightarrow> 's ZNSEnv \<Rightarrow> (Status \<times> ZNSWritableFile \<times> 's ZNSEnv) option" where
  "Writable_Truncate sz w e = do {
     f \<leftarrow> obj (wf_znsfile w) e;
     let trun_size = usub 64 (f_size f) sz;
     if length (cache_bytes f) < trun_size then Some (OK, w, e)
     else Some (OK, w\<lparr>wf_filesize := sz\<rparr>, put_obj (wf_znsfile w)
       (f\<lparr>f_cache := map_option (\<lambda>c. take (length c - trun_size) c) (f_cache f), f_size := sz\<rparr>) e) }"

definition Writable_Close :: "'s zrocks_fns \<Rightarrow> ZNSWritableFile \<Rightarrow> 's ZNSEnv \<Rightarrow> (Status \<times> 's ZNSEnv) option" where
  "Writable_Close zr w e = do {
     (ret, e) \<leftarrow> Writable_Sync zr w e;
     f \<leftarrow> obj (wf_znsfile w) e;
     s \<leftarrow> (if f_cache f \<noteq> None then zf_free zr (ev_zrocks e) else Some (ev_zrocks e));
     if f_is_writing f
     then Some (OK, put_obj (wf_znsfile w) (ReleaseWRLock (f\<lparr>f_cache := None\<rparr>)) (e\<lparr>ev_zrocks := s\<rparr>))
     else None }"

definition Writable_Flush :: Status where
  "Writable_Flush = OK"

definition Writable_SetWriteLifeTimeHint :: "int \<Rightarrow> int \<Rightarrow> ZNSWritableFile \<Rightarrow> 's ZNSEnv \<Rightarrow> 's ZNSEnv option" where
  "Writable_SetWriteLifeTimeHint wlth_short hint w e = do {
     f \<leftarrow> obj (wf_znsfile w) e;
     Some (put_obj (wf_znsfile w) (f\<lparr>f_level := hint - wlth_short\<rparr>) e) }"

subsection \<open>Names\<close>

text \<open>\<open>px_norm\<close> is \<open>NormalizePath\<close>; \<open>px_open\<close> creates the file of the host for any of the three kinds of file.\<close>

record 'p posix_fns =
  px_norm :: "string \<Rightarrow> string"
  px_open :: "string \<Rightarrow> 'p \<Rightarrow> Status \<times> 'p"
  px_delete :: "string \<Rightarrow> 'p \<Rightarrow> Status \<times> 'p"
  px_rename :: "string \<Rightarrow> string \<Rightarrow> 'p \<Rightarrow> Status \<times> 'p"
  px_size :: "string \<Rightarrow> 'p \<Rightarrow> Status \<times> nat"
  px_mtime :: "string \<Rightarrow> 'p \<Rightarrow> Status \<times> nat"
  px_exists :: "string \<Rightarrow> 'p \<Rightarrow> Status"

datatype 'h opened = Posix Status | Zns 'h

definition IsFilePosix :: "string \<Rightarrow> bool" where
  "IsFilePosix fname = list_ex (\<lambda>i. take 8 (drop i fname) = ''MANIFEST'') [0..<length fname]"

definition NewSequentialFile ::
    "'p posix_fns \<Rightarrow> string \<Rightarrow> 'p \<Rightarrow> 's ZNSEnv \<Rightarrow> ZNSSequentialFile opened \<times> 'p \<times> 's ZNSEnv" where
  "NewSequentialFile px fname h e =
     (let nfname = px_norm px fname in
      if IsFilePosix nfname then let (ret, h) = px_open px nfname h in (Posix ret, h, e)
      else let (p, files) = files_at nfname (ev_files e); e = e\<lparr>ev_files := files\<rparr>
        in if p = None then let (ret, h) = px_open px nfname h in (Posix ret, h, e)
           else (Zns \<lparr>sq_filename = nfname, sq_znsfile = p, sq_read_off = 0\<rparr>, h, e))"

text \<open>The handle of a random access file is its pointer.\<close>

definition NewRandomAccessFile :: "'p posix_fns \<Rightarrow> string \<Rightarrow> 'p \<Rightarrow> 's ZNSEnv \<Rightarrow> nat option opened \<times> 'p \<times> 's ZNSEnv" where
  "NewRandomAccessFile px fname h e =
     (let nfname = px_norm px fname in
      if IsFilePosix nfname then let (ret, h) = px_open px nfname h in (Posix ret, h, e)
      else let (p, files) = files_at nfname (ev_files e) in (Zns p, h, e\<lparr>ev_files := files\<rparr>))"

definition NewWritableFile ::
    "'s zrocks_fns \<Rightarrow> 'p posix_fns \<Rightarrow> string \<Rightarrow> 'p \<Rightarrow> 's ZNSEnv \<Rightarrow> (ZNSWritableFile opened \<times> 'p \<times> 's ZNSEnv) option" where
  "NewWritableFile zr px fname h e =
     (let nfname = px_norm px fname; (ret, h) = px_open px nfname h in
      if IsFilePosix nfname then Some (Posix ret, h, e)
      else do {
        e \<leftarrow> (case map_of (ev_files e) nfname of None \<Rightarrow> Some e
          | Some None \<Rightarrow> Some (e\<lparr>ev_files := files_erase nfname (ev_files e)\<rparr>)
          | Some (Some p) \<Rightarrow> do { e \<leftarrow> delete_ZNSFile zr p e; Some (e\<lparr>ev_files := files_erase nfname (ev_files e)\<rparr>) });
        (p, e) \<leftarrow> new_ZNSFile zr nfname 0 e;
        f \<leftarrow> obj p e;
        let e = put_obj p (GetWRLock (f\<lparr>f_uuididx := ev_uuididx e\<rparr>))
          (e\<lparr>ev_files := files_put nfname (Some p) (ev_files e), ev_uuididx := u64 (ev_uuididx e + 1)\<rparr>);
        Some (Zns \<lparr>wf_filename = nfname, wf_filesize = 0, wf_znsfile = p\<rparr>, h, e) })"

fun trim_pieces :: "'s zrocks_fns \<Rightarrow> zrocks_map list \<Rightarrow> 's \<Rightarrow> 's option" where
  "trim_pieces zr [] s = Some s"
| "trim_pieces zr (m # ms) s = do { (ret, s) \<leftarrow> zf_trim zr m s; trim_pieces zr ms s }"

definition DeleteFile ::
    "'s zrocks_fns \<Rightarrow> 'p posix_fns \<Rightarrow> string \<Rightarrow> 'p \<Rightarrow> 's ZNSEnv \<Rightarrow> (Status \<times> 'p \<times> 's ZNSEnv) option" where
  "DeleteFile zr px fname h e =
     (let nfname = px_norm px fname; (ret, h) = px_delete px nfname h in
      if IsFilePosix nfname then Some (ret, h, e)
      else case map_of (ev_files e) nfname of None \<Rightarrow> Some (OK, h, e) | Some None \<Rightarrow> Some (OK, h, e)
      | Some (Some p) \<Rightarrow> do {
          f \<leftarrow> obj p e;
          s \<leftarrow> trim_pieces zr (f_map f) (ev_zrocks e);
          e \<leftarrow> delete_ZNSFile zr p (e\<lparr>ev_zrocks := s\<rparr>);
          (ret, e) \<leftarrow> FlushDelMetaData zr nfname (e\<lparr>ev_files := files_erase nfname (ev_files e)\<rparr>);
          Some (OK, h, e) })"

text \<open>The size is \<open>None\<close> when the variable of the caller is not set.\<close>

definition GetFileSize :: "'p posix_fns \<Rightarrow> string \<Rightarrow> 'p \<Rightarrow> 's ZNSEnv \<Rightarrow> (Status \<times> nat option) option" where
  "GetFileSize px fname h e =
     (let nfname = px_norm px fname in
      if IsFilePosix nfname then let (ret, sz) = px_size px nfname h in Some (ret, Some sz)
      else case map_of (ev_files e) nfname of None \<Rightarrow> Some (OK, None) | Some None \<Rightarrow> Some (OK, None)
      | Some (Some p) \<Rightarrow> do { f \<leftarrow> obj p e; Some (OK, Some (f_size f)) })"

definition GetFileModificationTime :: "'p posix_fns \<Rightarrow> string \<Rightarrow> 'p \<Rightarrow> Status \<times> nat" where
  "GetFileModificationTime px fname h =
     (let nfname = px_norm px fname in if IsFilePosix nfname then px_mtime px nfname h else (OK, 0))"

definition RenameFile ::
    "'s zrocks_fns \<Rightarrow> 'p posix_fns \<Rightarrow> string \<Rightarrow> string \<Rightarrow> 'p \<Rightarrow> 's ZNSEnv \<Rightarrow> (Status \<times> 'p \<times> 's ZNSEnv) option" where
  "RenameFile zr px src target h e =
     (let nsrc = px_norm px src; ntarget = px_norm px target; (ret, h) = px_rename px nsrc ntarget h in
      if IsFilePosix nsrc then Some (ret, h, e)
      else case map_of (ev_files e) nsrc of None \<Rightarrow> Some (OK, h, e) | Some None \<Rightarrow> Some (OK, h, e)
      | Some (Some p) \<Rightarrow> do {
          f \<leftarrow> obj p e;
          let e = put_obj p (f\<lparr>f_name := ntarget\<rparr>) e;
          let e = e\<lparr>ev_files := files_erase nsrc (files_put ntarget (Some p) (ev_files e))\<rparr>;
          (ret, e) \<leftarrow> FlushReplaceMetaData zr nsrc ntarget e;
          Some (OK, h, e) })"

definition FileExists :: "'p posix_fns \<Rightarrow> string \<Rightarrow> 'p \<Rightarrow> 's ZNSEnv \<Rightarrow> Status" where
  "FileExists px fname h e =
     (let nfname = px_norm px fname in
      case map_of (ev_files e) nfname of Some (Some p) \<Rightarrow> OK | _ \<Rightarrow> px_exists px nfname h)"

end
