(* ===== verification/Env_Data.thy ===== *)
theory Env_Data
  imports Env_Files
begin

text \<open>
  What the files of the environment hold. The contract with the library is the locale \<open>piece_store\<close>: a write that finds
  room stores its data as pieces and keeps all older pieces, a read returns the bytes of a piece, and the other
  calls change neither. Over this contract a file is a list of bytes: its pieces without their padding, then its
  cache. Appending, syncing and closing keep this list, and a read returns a part of it.
\<close>

section \<open>Contents of a file\<close>

definition piece_bytes :: "(nat \<Rightarrow> nat list) \<Rightarrow> zrocks_map \<Rightarrow> nat list" where
  "piece_bytes log m = take (piece_size m) (drop (32768 * zm_start m) (log (zm_node_id m)))"

definition piece_live :: "(nat \<Rightarrow> nat list) \<Rightarrow> zrocks_map \<Rightarrow> bool" where
  "piece_live log m \<longleftrightarrow> zm_num m \<le> XZTL_WIO_MAX_MCMD \<and> zm_padding m < 32768 * zm_num m \<and>
     32768 * (zm_start m + zm_num m) \<le> length (log (zm_node_id m))"

definition pieces_bytes :: "(nat \<Rightarrow> nat list) \<Rightarrow> zrocks_map list \<Rightarrow> nat list" where
  "pieces_bytes log ms = concat (map (piece_bytes log) ms)"

definition file_bytes :: "(nat \<Rightarrow> nat list) \<Rightarrow> ZNSFile \<Rightarrow> nat list" where
  "file_bytes log f = pieces_bytes log (f_map f) @ cache_bytes f"

definition file_live :: "(nat \<Rightarrow> nat list) \<Rightarrow> ZNSFile \<Rightarrow> bool" where
  "file_live log f \<longleftrightarrow> (\<forall>m \<in> set (f_map f). piece_live log m) \<and> length (cache_bytes f) \<le> ZNS_MAX_BUF"

definition file_ok :: "(nat \<Rightarrow> nat list) \<Rightarrow> ZNSFile \<Rightarrow> bool" where
  "file_ok log f \<longleftrightarrow> file_live log f \<and> f_size f = length (file_bytes log f) \<and> f_size f < 2 ^ 64"

text \<open>Logs only grow.\<close>

definition grows :: "(nat \<Rightarrow> nat list) \<Rightarrow> (nat \<Rightarrow> nat list) \<Rightarrow> bool" where
  "grows log log' \<longleftrightarrow> (\<forall>n. \<exists>ext. log' n = log n @ ext)"

lemma piece_size_ok: "piece_live log m \<Longrightarrow> piece_size m = 32768 * zm_num m - zm_padding m"
  by (simp add: piece_size_def piece_live_def usub_small mult.commute)

lemma piece_size_pos: "piece_live log m \<Longrightarrow> 0 < piece_size m \<and> piece_size m \<le> 32768 * zm_num m"
  by (simp add: piece_size_ok) (simp add: piece_live_def)

lemma pieces_first_pos: "\<forall>m \<in> set ms. piece_live log m \<Longrightarrow> ms = [] \<or> 0 < piece_size (hd ms)"
  using piece_size_pos by (cases ms) auto

lemma length_piece_bytes: "piece_live log m \<Longrightarrow> length (piece_bytes log m) = piece_size m"
  using piece_size_pos [of log m] by (auto simp: piece_bytes_def piece_live_def min_def)

lemma length_pieces_bytes: "\<forall>m \<in> set ms. piece_live log m \<Longrightarrow> length (pieces_bytes log ms) = sum_list (map piece_size ms)"
  by (induction ms) (simp_all add: pieces_bytes_def length_piece_bytes)

lemma grows_refl [simp]: "grows log log"
  by (simp add: grows_def)

lemma grows_trans: "grows l1 l2 \<Longrightarrow> grows l2 l3 \<Longrightarrow> grows l1 l3"
  unfolding grows_def by (metis append.assoc)

lemma grows_piece:
  assumes "grows log log'" "piece_live log m"
  shows "piece_live log' m" "piece_bytes log' m = piece_bytes log m"
proof -
  obtain ext where ext: "log' (zm_node_id m) = log (zm_node_id m) @ ext" using assms(1) by (auto simp: grows_def)
  show "piece_live log' m" using assms(2) by (simp add: piece_live_def ext)
  show "piece_bytes log' m = piece_bytes log m"
    using assms(2) piece_size_pos [OF assms(2)] by (simp add: piece_bytes_def piece_live_def ext)
qed

lemma grows_pieces:
  assumes "grows log log'" "\<forall>m \<in> set ms. piece_live log m"
  shows "\<forall>m \<in> set ms. piece_live log' m" "pieces_bytes log' ms = pieces_bytes log ms"
  using assms(2) grows_piece [OF assms(1)] by (auto simp: pieces_bytes_def intro!: arg_cong [of _ _ concat])

lemma file_grows:
  assumes "grows log log'" "file_live log f"
  shows "file_live log' f" "file_bytes log' f = file_bytes log f"
  using assms(2) grows_pieces [OF assms(1), of "f_map f"] by (simp_all add: file_live_def file_bytes_def)

lemma find_piece_in:
  assumes "\<forall>m \<in> set ms. piece_live log m" "off \<le> offset" "offset < off + sum_list (map piece_size ms)" "off + sum_list (map piece_size ms) < 2 ^ 64"
  shows "\<exists>pre ms' po. find_piece ms off offset = Some (ms', po) \<and> ms = pre @ ms' \<and> offset = off + sum_list (map piece_size pre) + po \<and>
    ms' \<noteq> [] \<and> po < piece_size (hd ms')"
  using assms
proof (induction ms arbitrary: off)
  case (Cons m ms)
  show ?case
  proof (cases "off + piece_size m > offset")
    case True
    then have "usub 64 (piece_size m) (off + piece_size m - offset) = offset - off"
      using Cons.prems(2,4) by (subst usub_small) auto
    moreover have "offset - off < piece_size m" using True Cons.prems(2) by (simp add: less_diff_conv2 add.commute)
    ultimately show ?thesis using True Cons.prems(2) by (intro exI [of _ "[]"] exI [of _ "m # ms"] exI [of _ "offset - off"]) simp
  next
    case False
    obtain pre ms' po where "find_piece ms (off + piece_size m) offset = Some (ms', po)" "ms = pre @ ms'"
      "offset = off + piece_size m + sum_list (map piece_size pre) + po" "ms' \<noteq> []" "po < piece_size (hd ms')"
      using Cons.IH [of "off + piece_size m"] Cons.prems False by auto
    then show ?thesis using False by (intro exI [of _ "m # pre"] exI [of _ ms'] exI [of _ po]) simp
  qed
qed simp

section \<open>The contract with the library\<close>

locale piece_store =
  fixes zr :: "'s zrocks_fns" and ok :: "'s \<Rightarrow> bool" and log :: "'s \<Rightarrow> nat \<Rightarrow> nat list" and room :: "'s \<Rightarrow> int \<Rightarrow> nat"
  assumes write_law: "ok s \<Longrightarrow> 0 < length data \<Longrightarrow> length data \<le> ZNS_MAX_BUF \<Longrightarrow> slots_of (length data) \<le> room s level \<Longrightarrow>
      \<exists>ms s'. zf_write zr data level gc s = Some (0, ms, s') \<and> ok s' \<and> grows (log s) (log s') \<and> (\<forall>m \<in> set ms. piece_live (log s') m) \<and>
        pieces_bytes (log s') ms = data \<and> length ms \<le> 2 \<and> room s' level = room s level - slots_of (length data)"
    and read_law: "ok s \<Longrightarrow> piece_live (log s) m \<Longrightarrow> 0 < n \<Longrightarrow> po + n \<le> 32768 * zm_num m \<Longrightarrow>
      \<exists>s'. zf_read zr (zm_node_id m) (32768 * zm_start m + po) n gc s =
          Some (0, take n (drop (32768 * zm_start m + po) (log s (zm_node_id m))), s') \<and> ok s' \<and> log s' = log s \<and> room s' = room s"
    and alloc_law: "ok s \<Longrightarrow> \<exists>s'. zf_alloc zr n s = Some (True, s') \<and> ok s' \<and> log s' = log s \<and> room s' = room s"
    and free_law: "ok s \<Longrightarrow> \<exists>s'. zf_free zr s = Some s' \<and> ok s' \<and> log s' = log s \<and> room s' = room s"
    and meta_law: "ok s \<Longrightarrow> length bs mod ZNS_ALIGMENT = 0 \<Longrightarrow> \<exists>ret s'. zf_write_file_metadata zr bs s = Some (ret, s') \<and> ok s' \<and> log s' = log s \<and> room s' = room s"
begin

lemma read_pieces_ok:
  assumes "ok s" "\<forall>m \<in> set ms. piece_live (log s) m" "ms = [] \<or> po < piece_size (hd ms)" "po + left \<le> sum_list (map piece_size ms)"
    "sum_list (map piece_size ms) < 2 ^ 64"
  shows "\<exists>s'. read_pieces zr ms po left out s = Some (OK, out @ take left (drop po (pieces_bytes (log s) ms)), s') \<and> ok s' \<and> log s' = log s \<and> room s' = room s"
  using assms
proof (induction ms arbitrary: po left out s)
  case Nil
  then show ?case by (auto simp: pieces_bytes_def)
next
  case (Cons m ms)
  show ?case
  proof (cases "left = 0")
    case False
    define k where "k = min left (piece_size m - po)"
    have m: "piece_live (log s) m" "po < piece_size m" using Cons.prems(2,3) by simp_all
    have sz: "usub 64 (piece_size m) po = piece_size m - po" using m Cons.prems(5) by (intro usub_small) auto
    have k: "0 < k" "po + k \<le> piece_size m" using False m(2) by (simp_all add: k_def)
    obtain s1 where s1: "zf_read zr (zm_node_id m) (32768 * zm_start m + po) k False s =
        Some (0, take k (drop (32768 * zm_start m + po) (log s (zm_node_id m))), s1)" "ok s1" "log s1 = log s" "room s1 = room s"
      using read_law [OF Cons.prems(1) m(1) k(1), of po False] k(2) piece_size_pos [OF m(1)] by auto
    have bs: "take k (drop (32768 * zm_start m + po) (log s (zm_node_id m))) = take k (drop po (piece_bytes (log s) m))"
      using k(2) by (simp add: piece_bytes_def drop_take add.commute min_absorb1)
    have rest: "0 + (left - k) \<le> sum_list (map piece_size ms)" "\<forall>m \<in> set ms. piece_live (log s1) m" "ms = [] \<or> 0 < piece_size (hd ms)"
      "sum_list (map piece_size ms) < 2 ^ 64"
      using Cons.prems(2,4,5) m s1(3) pieces_first_pos [of ms "log s"] by (auto simp: k_def)
    obtain s2 where s2: "read_pieces zr ms 0 (left - k) (out @ take k (drop po (piece_bytes (log s) m))) s1 =
        Some (OK, (out @ take k (drop po (piece_bytes (log s) m))) @ take (left - k) (drop 0 (pieces_bytes (log s1) ms)), s2)"
      "ok s2" "log s2 = log s1" "room s2 = room s1" using Cons.IH [OF s1(2) rest(2,3,1,4)] by blast
    have split: "take left (drop po (pieces_bytes (log s) (m # ms))) = take k (drop po (piece_bytes (log s) m)) @ take (left - k) (pieces_bytes (log s) ms)"
      using m length_piece_bytes [OF m(1)] by (auto simp: pieces_bytes_def k_def min_def)
    have "read_pieces zr (m # ms) po left out s = read_pieces zr ms 0 (left - k) (out @ take k (drop po (piece_bytes (log s) m))) s1"
      using False s1(1) sz bs by (auto simp: Let_def k_def min_def mult.commute)
    then show ?thesis using s2 s1(3,4) split by auto
  qed (use Cons.prems in auto)
qed

lemma read_pieces_beyond:
  assumes "ok s" "\<forall>m \<in> set ms. piece_live (log s) m" "ms = [] \<or> po < piece_size (hd ms)" "sum_list (map piece_size ms) < po + left"
    "sum_list (map piece_size ms) < 2 ^ 64" "po \<le> sum_list (map piece_size ms)"
  shows "\<exists>out' s'. read_pieces zr ms po left out s = Some (OutOfRange, out', s')"
  using assms
proof (induction ms arbitrary: po left out s)
  case (Cons m ms)
  have m: "piece_live (log s) m" "po < piece_size m" using Cons.prems(2,3) by simp_all
  have sz: "usub 64 (piece_size m) po = piece_size m - po" using m Cons.prems(5) by (intro usub_small) auto
  have l: "piece_size m - po < left" "left \<noteq> 0" using Cons.prems(4) m(2) by auto
  obtain s1 where s1: "zf_read zr (zm_node_id m) (32768 * zm_start m + po) (piece_size m - po) False s =
      Some (0, take (piece_size m - po) (drop (32768 * zm_start m + po) (log s (zm_node_id m))), s1)" "ok s1" "log s1 = log s"
    using read_law [OF Cons.prems(1) m(1), of "piece_size m - po" po False] m(2) piece_size_pos [OF m(1)] by auto
  have "ms = [] \<or> 0 < piece_size (hd ms)" using Cons.prems(2) by (intro pieces_first_pos [of ms "log s"]) simp
  moreover have "\<forall>m \<in> set ms. piece_live (log s1) m" "sum_list (map piece_size ms) < 0 + (left - (piece_size m - po))"
    "sum_list (map piece_size ms) < 2 ^ 64" using Cons.prems(2,4,5) m s1(3) l by auto
  ultimately show ?case using Cons.IH [OF s1(2), of 0 "left - (piece_size m - po)"] s1(1) sz l by (auto simp: Let_def mult.commute)
qed auto

lemma read_mapped_ok:
  assumes "ok s" "file_ok (log s) f" "offset < length (pieces_bytes (log s) (f_map f))" "offset + n \<le> length (pieces_bytes (log s) (f_map f))"
  shows "\<exists>s'. read_mapped zr f offset n s = Some (OK, Some (take n (drop offset (pieces_bytes (log s) (f_map f)))), s') \<and>
    ok s' \<and> log s' = log s \<and> room s' = room s"
proof -
  have live: "\<forall>m \<in> set (f_map f). piece_live (log s) m" using assms(2) by (simp add: file_ok_def file_live_def)
  note len = length_pieces_bytes [OF live]
  have lt: "sum_list (map piece_size (f_map f)) < 2 ^ 64" using assms(2) len by (simp add: file_ok_def file_bytes_def)
  obtain pre ms po where f: "find_piece (f_map f) 0 offset = Some (ms, po)" "f_map f = pre @ ms" "offset = sum_list (map piece_size pre) + po"
    "ms \<noteq> []" "po < piece_size (hd ms)" using find_piece_in [OF live, of 0 offset] assms(3) len lt by auto
  have ms: "\<forall>m \<in> set ms. piece_live (log s) m" "po + n \<le> sum_list (map piece_size ms)" "sum_list (map piece_size ms) < 2 ^ 64"
    using live lt assms(4) len f(2,3) by auto
  obtain s' where s': "read_pieces zr ms po n [] s = Some (OK, [] @ take n (drop po (pieces_bytes (log s) ms)), s')" "ok s'" "log s' = log s" "room s' = room s"
    using read_pieces_ok [OF assms(1) ms(1) _ ms(2,3), of "[]"] f(5) by blast
  have "drop offset (pieces_bytes (log s) (f_map f)) = drop po (pieces_bytes (log s) ms)"
    using live f(2,3) length_pieces_bytes [of pre "log s"] by (simp add: pieces_bytes_def)
  then show ?thesis using s' f(1) by (simp add: read_mapped_def)
qed

lemma read_mapped_beyond:
  assumes "ok s" "file_ok (log s) f" "offset < length (pieces_bytes (log s) (f_map f))" "length (pieces_bytes (log s) (f_map f)) < offset + n"
  shows "\<exists>s'. read_mapped zr f offset n s = Some (OutOfRange, None, s')"
proof -
  have live: "\<forall>m \<in> set (f_map f). piece_live (log s) m" using assms(2) by (simp add: file_ok_def file_live_def)
  note len = length_pieces_bytes [OF live]
  have lt: "sum_list (map piece_size (f_map f)) < 2 ^ 64" using assms(2) len by (simp add: file_ok_def file_bytes_def)
  obtain pre ms po where f: "find_piece (f_map f) 0 offset = Some (ms, po)" "f_map f = pre @ ms" "offset = sum_list (map piece_size pre) + po"
    "ms \<noteq> []" "po < piece_size (hd ms)" using find_piece_in [OF live, of 0 offset] assms(3) len lt by auto
  have ms: "\<forall>m \<in> set ms. piece_live (log s) m" "sum_list (map piece_size ms) < po + n" "sum_list (map piece_size ms) < 2 ^ 64"
    "po \<le> sum_list (map piece_size ms)" using live lt assms(3,4) len f(2,3) by auto
  obtain out s' where "read_pieces zr ms po n [] s = Some (OutOfRange, out, s')"
    using read_pieces_beyond [OF assms(1) ms(1) _ ms(2-4), of "[]"] f(5) by blast
  then show ?thesis using f(1) by (simp add: read_mapped_def)
qed

text \<open>A read in full: within the file it is cut to the end of the file.\<close>

lemma random_read:
  assumes "ok (ev_zrocks e)" "obj p e = Some f" "file_ok (log (ev_zrocks e)) f" "offset < f_size f" "offset + n < 2 ^ 64"
    "offset \<ge> length (pieces_bytes (log (ev_zrocks e)) (f_map f)) \<or> min (offset + n) (f_size f) \<le> length (pieces_bytes (log (ev_zrocks e)) (f_map f))"
  shows "\<exists>s'. RandomAccess_Read zr (Some p) offset n e =
      Some (OK, Some (take n (drop offset (file_bytes (log (ev_zrocks e)) f))), e\<lparr>ev_zrocks := s'\<rparr>) \<and>
    ok s' \<and> log s' = log (ev_zrocks e) \<and> room s' = room (ev_zrocks e)"
proof -
  let ?P = "pieces_bytes (log (ev_zrocks e)) (f_map f)"
  define k where "k = (if offset + n > f_size f then f_size f - offset else n)"
  have sz: "f_size f = length ?P + length (cache_bytes f)" "f_size f < 2 ^ 64" using assms(3) by (simp_all add: file_ok_def file_bytes_def)
  have cp: "usub 64 (f_size f) (length (cache_bytes f)) = length ?P" using sz by (subst usub_small) auto
  have k: "u64 (offset + n) = offset + n" "offset + k \<le> f_size f" "u64 (offset + k) = offset + k" using assms(4,5) sz(2) by (auto simp: k_def u64_small)
  have tk: "take n (drop offset (file_bytes (log (ev_zrocks e)) f)) = take k (drop offset (file_bytes (log (ev_zrocks e)) f))"
    using sz(1) assms(4) by (auto simp: k_def file_bytes_def)
  show ?thesis
  proof (cases "offset \<ge> length ?P")
    case True
    then have "RandomAccess_Read zr (Some p) offset n e = Some (OK, Some (take k (drop (offset - length ?P) (cache_bytes f))), e)"
      using assms(2,4) k(1) cp by (simp add: RandomAccess_Read_def Let_def k_def)
    moreover have "e = e\<lparr>ev_zrocks := ev_zrocks e\<rparr>" by simp
    ultimately show ?thesis using True assms(1) unfolding tk by (intro exI [of _ "ev_zrocks e"]) (simp add: file_bytes_def)
  next
    case False
    have c: "offset + k \<le> length ?P" using assms(6) False by (auto simp: k_def min_def split: if_splits)
    obtain s' where s': "read_mapped zr f offset k (ev_zrocks e) = Some (OK, Some (take k (drop offset ?P)), s')" "ok s'"
      "log s' = log (ev_zrocks e)" "room s' = room (ev_zrocks e)" using read_mapped_ok [OF assms(1,3) _ c] False by auto
    have "RandomAccess_Read zr (Some p) offset n e = RandomAccess_ReadOffset zr (Some p) offset k e"
      using assms(2,4) k(1) cp False by (simp add: RandomAccess_Read_def Let_def k_def)
    also have "\<dots> = Some (OK, Some (take k (drop offset ?P)), e\<lparr>ev_zrocks := s'\<rparr>)"
      using assms(2,4) k(2,3) s'(1) by (simp add: RandomAccess_ReadOffset_def Let_def)
    finally show ?thesis using s'(2-4) c unfolding tk by (intro exI [of _ s']) (simp add: file_bytes_def)
  qed
qed

end

end
