(* ===== verification/Env_Flush.thy ===== *)
theory Env_Flush
  imports Env_Data
begin

text \<open>
  Writing the metadata log changes nothing but the log and the marks how far each file is in it. With that, what the
  operations of a writable file do: \<open>sync_ok\<close> and \<open>append_ok\<close> over the contract of the library.
\<close>

section \<open>Sizes\<close>

lemma length_le_bytes [simp]: "length (le_bytes n v) = n"
  by (induction n arbitrary: v) simp_all

lemma length_heads [simp]: "length (MetaZoneHead_bytes q) = 4096" "length (MetadataHead_bytes d t) = 12" "length (zrocks_map_bytes m) = 8"
  by (simp_all add: MetaZoneHead_bytes_def MetadataHead_bytes_def zrocks_map_bytes_def)

lemma length_name_bytes: "length s \<le> FILE_NAME_LEN \<Longrightarrow> length (name_bytes s) = FILE_NAME_LEN"
  by (simp add: name_bytes_def)

lemma length_file_meta: "length s \<le> FILE_NAME_LEN \<Longrightarrow> length (ZrocksFileMeta_bytes l z k s) = FILE_META_SZ"
  by (simp add: ZrocksFileMeta_bytes_def length_name_bytes)

lemma sector_align_ge: "n \<le> sector_align n" "sector_align n mod 4096 = 0" "0 < n \<Longrightarrow> n \<le> 4096 \<Longrightarrow> sector_align n = 4096"
proof -
  have "n = n div 4096 * 4096 + n mod 4096" "n mod 4096 < 4096" by simp_all
  then show "n \<le> sector_align n" unfolding sector_align_def by auto
  show "sector_align n mod 4096 = 0" by (auto simp: sector_align_def)
  show "sector_align n = 4096" if "0 < n" "n \<le> 4096"
    using that by (cases "n = 4096") (auto simp: sector_align_def)
qed

lemma length_concat_maps: "length (concat (map zrocks_map_bytes ms)) = 8 * length ms"
  by (induction ms) simp_all

section \<open>The log leaves the files alone\<close>

definition like :: "ZNSFile \<Rightarrow> ZNSFile \<Rightarrow> bool" where
  "like f f' \<longleftrightarrow> f' = f\<lparr>f_startIndex := f_startIndex f'\<rparr>"

definition env_like :: "'s ZNSEnv \<Rightarrow> 's ZNSEnv \<Rightarrow> bool" where
  "env_like e e' \<longleftrightarrow> ev_files e' = ev_files e \<and> ev_nid_file_map e' = ev_nid_file_map e \<and> ev_uuididx e' = ev_uuididx e \<and>
     length (ev_heap e') = length (ev_heap e) \<and> (\<forall>p. rel_option like (obj p e) (obj p e'))"

definition env_ok :: "'s ZNSEnv \<Rightarrow> bool" where
  "env_ok e \<longleftrightarrow> (\<forall>k p. (k, Some p) \<in> set (ev_files e) \<longrightarrow> (\<exists>f. obj p e = Some f \<and> length (f_name f) \<le> FILE_NAME_LEN))"

lemma like_refl [simp]: "like f f"
  by (simp add: like_def)

lemma like_trans: "like f g \<Longrightarrow> like g h \<Longrightarrow> like f h"
  unfolding like_def by (metis (no_types, lifting) ZNSFile.surjective ZNSFile.update_convs(6))

lemma rel_like_trans: "rel_option like a b \<Longrightarrow> rel_option like b c \<Longrightarrow> rel_option like a c"
  by (cases a; cases b; cases c) (auto intro: like_trans)

lemma like_fields:
  assumes "like f f'"
  shows "f_name f' = f_name f" "f_size f' = f_size f" "f_level f' = f_level f" "f_map f' = f_map f" "f_cache f' = f_cache f"
    "f_is_writing f' = f_is_writing f" "f_current_nid f' = f_current_nid f" "f_uuididx f' = f_uuididx f"
  using arg_cong [OF assms [unfolded like_def], of f_name] arg_cong [OF assms [unfolded like_def], of f_size]
    arg_cong [OF assms [unfolded like_def], of f_level] arg_cong [OF assms [unfolded like_def], of f_map]
    arg_cong [OF assms [unfolded like_def], of f_cache] arg_cong [OF assms [unfolded like_def], of f_is_writing]
    arg_cong [OF assms [unfolded like_def], of f_current_nid] arg_cong [OF assms [unfolded like_def], of f_uuididx] by simp_all

lemma env_like_refl [simp]: "env_like e e"
  by (simp add: env_like_def option.rel_refl)

lemma env_like_trans: "env_like e1 e2 \<Longrightarrow> env_like e2 e3 \<Longrightarrow> env_like e1 e3"
  unfolding env_like_def using rel_like_trans by (metis (no_types, lifting))

lemma env_like_simps [simp]: "env_like e (e'\<lparr>ev_zrocks := s\<rparr>) = env_like e e'" "env_like e (e'\<lparr>ev_sequence := q\<rparr>) = env_like e e'"
  "env_like (e\<lparr>ev_zrocks := s\<rparr>) e' = env_like e e'" "env_like (e\<lparr>ev_sequence := q\<rparr>) e' = env_like e e'"
  by (simp_all add: env_like_def obj_def)

lemma obj_simps [simp]: "obj p (e\<lparr>ev_zrocks := s\<rparr>) = obj p e" "obj p (e\<lparr>ev_sequence := q\<rparr>) = obj p e" "obj p (e\<lparr>ev_files := fs\<rparr>) = obj p e"
  "obj p (e\<lparr>ev_nid_file_map := m\<rparr>) = obj p e" "obj p (e\<lparr>ev_uuididx := u\<rparr>) = obj p e"
  by (simp_all add: obj_def)

lemma obj_put [simp]: "obj p e = Some f \<Longrightarrow> obj q (put_obj p g e) = (if q = p then Some g else obj q e)"
  by (auto simp: obj_def put_obj_def get_at_def bind_eq_Some_conv nth_list_update)

lemma env_like_put: "obj p e = Some f \<Longrightarrow> like f g \<Longrightarrow> env_like e (put_obj p g e)"
  unfolding env_like_def using option.rel_refl [of like] by (auto simp: put_obj_def [symmetric]) (auto simp: put_obj_def)

lemma env_likeD: "env_like e e' \<Longrightarrow> obj p e = Some f \<Longrightarrow> \<exists>f'. obj p e' = Some f' \<and> like f f'"
  unfolding env_like_def by (metis option_rel_Some1)

lemma env_like_ok: "env_like e e' \<Longrightarrow> env_ok e \<Longrightarrow> env_ok e'"
  unfolding env_ok_def using env_likeD like_fields(1) by (metis env_like_def)

lemma WriteMeta_ok:
  assumes "length (f_name f) \<le> FILE_NAME_LEN"
  shows "\<exists>bs. WriteMetaToBuf update f = Some (bs, f\<lparr>f_startIndex := u32 (length (f_map f))\<rparr>) \<and>
    length bs = FILE_META_SZ + 8 * (length (f_map f) - (if update then f_startIndex f else 0))"
  using assms by (auto simp: WriteMetaToBuf_def Let_def length_file_meta length_concat_maps)

lemma flush_files_ok:
  assumes "\<forall>k p. (k, Some p) \<in> set fs \<longrightarrow> (\<exists>f. obj p e = Some f \<and> length (f_name f) \<le> FILE_NAME_LEN)"
  shows "\<exists>fits num data' e'. flush_files_loop fs n data e = Some (fits, num, data', e') \<and> env_like e e' \<and> ev_zrocks e' = ev_zrocks e"
  using assms
proof (induction fs n data e rule: flush_files_loop.induct)
  case (3 k p fs n data e)
  obtain f where f: "obj p e = Some f" "length (f_name f) \<le> FILE_NAME_LEN" using "3.prems" by auto
  obtain bs where bs: "WriteMetaToBuf False f = Some (bs, f\<lparr>f_startIndex := u32 (length (f_map f))\<rparr>)" using WriteMeta_ok [OF f(2)] by blast
  define g where "g = f\<lparr>f_startIndex := u32 (length (f_map f))\<rparr>"
  have lk: "env_like e (put_obj p g e)" using f(1) by (rule env_like_put) (simp add: like_def g_def)
  have z: "ev_zrocks (put_obj p g e) = ev_zrocks e" by (simp add: put_obj_def)
  show ?case
  proof (cases "META_ZONE_HEAD_SZ + METADATA_HEAD_SZ + 4 + length data + GetFileMetaLen f \<ge> FILE_METADATA_BUF_SIZE")
    case True
    then show ?thesis using f(1) by (auto simp: Let_def)
  next
    case False
    have "\<forall>k q. (k, Some q) \<in> set fs \<longrightarrow> (\<exists>f'. obj q (put_obj p g e) = Some f' \<and> length (f_name f') \<le> FILE_NAME_LEN)"
      using "3.prems" f by (auto simp: g_def)
    then obtain fits num data' e' where "flush_files_loop fs (n + 1) (data @ bs) (put_obj p g e) = Some (fits, num, data', e')"
        "env_like (put_obj p g e) e'" "ev_zrocks e' = ev_zrocks (put_obj p g e)"
      using "3.IH" [OF f(1) refl False bs [folded g_def] refl] by blast
    then show ?thesis using False f(1) bs env_like_trans [OF lk] z by (auto simp: Let_def g_def)
  qed
qed auto

lemma record_bytes_ok:
  assumes "METADATA_HEAD_SZ + length body \<le> ZNS_ALIGMENT"
  shows "\<exists>bs. record_bytes tag body = Some bs \<and> length bs = ZNS_ALIGMENT"
  using assms sector_align_ge(3) [of "12 + length body"] by (auto simp: record_bytes_def Let_def)

lemma sync_pieces_ok:
  assumes "obj p e = Some f"
  shows "\<exists>e' nid. sync_pieces filename p ms e = Some e' \<and> obj p e' = Some (f\<lparr>f_map := f_map f @ ms, f_current_nid := nid\<rparr>) \<and>
    ev_zrocks e' = ev_zrocks e \<and> ev_files e' = ev_files e \<and> (\<forall>q. q \<noteq> p \<longrightarrow> obj q e' = obj q e)"
  using assms
proof (induction ms arbitrary: e f)
  case Nil
  then show ?case by (auto intro!: exI [of _ "f_current_nid f"])
next
  case (Cons m ms)
  define g where "g = f\<lparr>f_map := f_map f @ [m], f_current_nid := int (zm_node_id m)\<rparr>"
  define e1 where "e1 = (if f_current_nid f \<noteq> int (zm_node_id m)
    then (put_obj p g e)\<lparr>ev_nid_file_map := (ev_nid_file_map (put_obj p g e))(zm_node_id m := ev_nid_file_map (put_obj p g e) (zm_node_id m) @ [filename])\<rparr>
    else put_obj p g e)"
  have e1: "obj p e1 = Some g" "ev_zrocks e1 = ev_zrocks e" "ev_files e1 = ev_files e" "\<forall>q. q \<noteq> p \<longrightarrow> obj q e1 = obj q e"
    using Cons.prems by (simp_all add: e1_def) (simp_all add: put_obj_def)
  have same: "f\<lparr>f_map := f_map f @ [m]\<rparr> = g" if "f_current_nid f = int (zm_node_id m)" using that by (cases f) (simp add: g_def)
  have "sync_pieces filename p (m # ms) e = sync_pieces filename p ms e1"
    using Cons.prems same by (auto simp: Let_def e1_def) (simp add: g_def)
  then show ?case using Cons.IH [OF e1(1)] e1(2-4) by (auto simp: g_def)
qed

text \<open>A file whose pieces are all marked keeps its mark.\<close>

lemma flush_files_mark:
  assumes "flush_files_loop fs n data e = Some (fits, num, data', e')" "obj p e = Some f" "f_startIndex f = length (f_map f)" "length (f_map f) < 2 ^ 32"
  shows "obj p e' = Some f"
  using assms
proof (induction fs n data e arbitrary: data' rule: flush_files_loop.induct)
  case (3 k q fs n data e)
  obtain g where g: "obj q e = Some g" using "3.prems"(1) by (auto simp: bind_eq_Some_conv)
  show ?case
  proof (cases "META_ZONE_HEAD_SZ + METADATA_HEAD_SZ + 4 + length data + GetFileMetaLen g \<ge> FILE_METADATA_BUF_SIZE")
    case True
    then show ?thesis using "3.prems"(1,2) g by (simp add: Let_def)
  next
    case False
    obtain bs where bs: "WriteMetaToBuf False g = Some (bs, g\<lparr>f_startIndex := u32 (length (f_map g))\<rparr>)"
      using "3.prems"(1) g False by (auto simp: Let_def bind_eq_Some_conv WriteMetaToBuf_def split: if_splits)
    have "obj p (put_obj q (g\<lparr>f_startIndex := u32 (length (f_map g))\<rparr>) e) = Some f"
      using g "3.prems"(2-4) by (cases "p = q"; cases f) (auto simp: u32_small)
    then show ?thesis using "3.IH" [OF g refl False bs refl] "3.prems"(1,3,4) g False bs by (simp add: Let_def)
  qed
qed auto

lemma flush_meta_mark:
  assumes "FlushMetaData zr e = Some (ret, e')" "obj p e = Some f" "f_startIndex f = length (f_map f)" "length (f_map f) < 2 ^ 32"
  shows "obj p e' = Some f"
  using assms(1,2) by (auto simp: FlushMetaData_def Let_def bind_eq_Some_conv split: if_splits
    dest!: flush_files_mark [where p = p and f = f, OF _ _ assms(3,4)])

lemma flush_keeps_mark:
  assumes "flush_record zr tag body e = Some (ret, e')" "obj p e = Some f" "f_startIndex f = length (f_map f)" "length (f_map f) < 2 ^ 32"
  shows "obj p e' = Some f"
  using assms(1,2) by (auto simp: flush_record_def Let_def bind_eq_Some_conv split: if_splits
    dest!: flush_meta_mark [where p = p and f = f, OF _ _ assms(3,4)])

text \<open>What a call that writes to the log leaves: the files up to their marks, and the store.\<close>

definition flushed :: "('s \<Rightarrow> bool) \<Rightarrow> ('s \<Rightarrow> nat \<Rightarrow> nat list) \<Rightarrow> ('s \<Rightarrow> int \<Rightarrow> nat) \<Rightarrow> 's ZNSEnv \<Rightarrow> 's ZNSEnv \<Rightarrow> bool" where
  "flushed ok log room e e' \<longleftrightarrow> env_like e e' \<and> ok (ev_zrocks e') \<and> log (ev_zrocks e') = log (ev_zrocks e) \<and> room (ev_zrocks e') = room (ev_zrocks e)"

text \<open>What an operation on the file \<open>p\<close> leaves of the rest, and the state of the file before and after a sync.\<close>

definition file_step :: "('s \<Rightarrow> bool) \<Rightarrow> ('s \<Rightarrow> nat \<Rightarrow> nat list) \<Rightarrow> nat \<Rightarrow> 's ZNSEnv \<Rightarrow> 's ZNSEnv \<Rightarrow> bool" where
  "file_step ok log p e e' \<longleftrightarrow> ok (ev_zrocks e') \<and> grows (log (ev_zrocks e)) (log (ev_zrocks e')) \<and> ev_files e' = ev_files e \<and> env_ok e' \<and>
     (\<forall>q. q \<noteq> p \<longrightarrow> rel_option like (obj q e) (obj q e'))"

definition synced_file :: "(nat \<Rightarrow> nat list) \<Rightarrow> ZNSFile \<Rightarrow> bool" where
  "synced_file log f \<longleftrightarrow> file_live log f \<and> f_startIndex f = length (f_map f) \<and> length (f_name f) \<le> FILE_NAME_LEN"

definition same_head :: "ZNSFile \<Rightarrow> ZNSFile \<Rightarrow> bool" where
  "same_head f f' \<longleftrightarrow> f_name f' = f_name f \<and> f_size f' = f_size f \<and> f_level f' = f_level f \<and> f_is_writing f' = f_is_writing f"

text \<open>How often appending to a buffer until it holds \<open>n\<close> bytes in total empties it.\<close>

definition spills :: "nat \<Rightarrow> nat" where
  "spills n = (n - 1) div ZNS_MAX_BUF"

lemma spills_step: "ZNS_MAX_BUF < n \<Longrightarrow> spills n = Suc (spills (n - ZNS_MAX_BUF))"
  by (simp add: spills_def le_div_geq)

lemma spills_small: "n \<le> ZNS_MAX_BUF \<Longrightarrow> spills n = 0"
  by (cases n) (simp_all add: spills_def)

lemma same_head_trans: "same_head f g \<Longrightarrow> same_head g h \<Longrightarrow> same_head f h"
  by (simp add: same_head_def)

lemma file_step_trans: "file_step ok log p e1 e2 \<Longrightarrow> file_step ok log p e2 e3 \<Longrightarrow> file_step ok log p e1 e3"
  unfolding file_step_def using grows_trans rel_like_trans by (metis (no_types, lifting))

lemma file_step_put:
  assumes "ok (ev_zrocks e)" "env_ok e" "obj p e = Some f" "length (f_name g) \<le> FILE_NAME_LEN"
  shows "file_step ok log p e (put_obj p g e)"
proof -
  have z: "ev_zrocks (put_obj p g e) = ev_zrocks e" "ev_files (put_obj p g e) = ev_files e" by (simp_all add: put_obj_def)
  have "env_ok (put_obj p g e)" using assms(2-4) unfolding env_ok_def z by (metis obj_put)
  then show ?thesis using assms(1,3) z by (simp add: file_step_def option.rel_refl)
qed

context piece_store
begin

lemma flush_meta_ok:
  assumes "ok (ev_zrocks e)" "env_ok e"
  shows "\<exists>ret e'. FlushMetaData zr e = Some (ret, e') \<and> flushed ok log room e e'"
proof -
  obtain fits num data e1 where l: "flush_files_loop (ev_files e) 0 [] (e\<lparr>ev_sequence := u64 (ev_sequence e + 1)\<rparr>) = Some (fits, num, data, e1)"
    "env_like e e1" "ev_zrocks e1 = ev_zrocks e"
    using flush_files_ok [of "ev_files e" "e\<lparr>ev_sequence := u64 (ev_sequence e + 1)\<rparr>" 0 "[]"] assms(2) by (auto simp: env_ok_def)
  define dl where "dl = sector_align (META_ZONE_HEAD_SZ + METADATA_HEAD_SZ + length (le_bytes 4 num @ data))"
  define buf where "buf = MetaZoneHead_bytes (u32 (ev_sequence e)) @ MetadataHead_bytes (dl - METADATA_HEAD_SZ - META_ZONE_HEAD_SZ) Base @ le_bytes 4 num @ data"
  have len: "length (buf @ replicate (dl - length buf) 0) mod ZNS_ALIGMENT = 0"
    using sector_align_ge(1,2) [of "META_ZONE_HEAD_SZ + METADATA_HEAD_SZ + length (le_bytes 4 num @ data)"] by (simp add: buf_def dl_def)
  obtain r s where w: "zf_write_file_metadata zr (buf @ replicate (dl - length buf) 0) (ev_zrocks e1) = Some (r, s)" "ok s" "log s = log (ev_zrocks e)" "room s = room (ev_zrocks e)"
    using meta_law [OF _ len, of "ev_zrocks e1"] assms(1) l(3) by auto
  obtain r' s' where w': "zf_write_file_metadata zr (buf @ replicate (dl - length buf) 0) s = Some (r', s')" "ok s'" "log s' = log s" "room s' = room s"
    using meta_law [OF w(2) len] by blast
  show ?thesis
  proof (cases fits)
    case True
    then have "FlushMetaData zr e = Some (OK, e1\<lparr>ev_zrocks := if r = MD_WRITE_FULL then s' else s\<rparr>)"
      using l(1) w(1) w'(1) by (simp add: FlushMetaData_def Let_def flip: dl_def [simplified] buf_def [simplified])
        (simp add: dl_def buf_def)
    then show ?thesis using l(2) w w' by (auto simp: flushed_def)
  next
    case False
    then show ?thesis using l assms(1) by (auto simp: FlushMetaData_def Let_def flushed_def)
  qed
qed

lemma flush_record_ok:
  assumes "ok (ev_zrocks e)" "env_ok e" "METADATA_HEAD_SZ + length body \<le> ZNS_ALIGMENT"
  shows "\<exists>e'. flush_record zr tag body e = Some (OK, e') \<and> flushed ok log room e e'"
proof -
  obtain bs where bs: "record_bytes tag body = Some bs" "length bs mod ZNS_ALIGMENT = 0" using record_bytes_ok [OF assms(3)] by fastforce
  obtain r s where w: "zf_write_file_metadata zr bs (ev_zrocks e) = Some (r, s)" "ok s" "log s = log (ev_zrocks e)" "room s = room (ev_zrocks e)"
    using meta_law [OF assms(1) bs(2)] by blast
  obtain ret e1 where f: "FlushMetaData zr (e\<lparr>ev_zrocks := s\<rparr>) = Some (ret, e1)" "flushed ok log room (e\<lparr>ev_zrocks := s\<rparr>) e1"
    using flush_meta_ok [of "e\<lparr>ev_zrocks := s\<rparr>"] w(2) assms(2) by (auto simp: env_ok_def)
  define e2 where "e2 = (if r = MD_WRITE_FULL then e1 else e\<lparr>ev_zrocks := s\<rparr>)"
  have e2: "flushed ok log room e e2" using f(2) w by (auto simp: e2_def flushed_def)
  then obtain s' where s': "zf_free zr (ev_zrocks e2) = Some s'" "ok s'" "log s' = log (ev_zrocks e2)" "room s' = room (ev_zrocks e2)"
    using free_law [of "ev_zrocks e2"] by (auto simp: flushed_def)
  have "flush_record zr tag body e = Some (OK, e2\<lparr>ev_zrocks := s'\<rparr>)"
    using bs(1) w(1) f(1) s'(1) by (auto simp: flush_record_def Let_def e2_def)
  then show ?thesis using e2 s' by (auto simp: flushed_def)
qed

lemma flush_update_ok:
  assumes "ok (ev_zrocks e)" "env_ok e" "obj p e = Some f" "length (f_name f) \<le> FILE_NAME_LEN" "f_startIndex f \<le> length (f_map f)"
    "length (f_map f) - f_startIndex f \<le> 2" "length (f_map f) < 2 ^ 32"
  shows "\<exists>e'. FlushUpdateMetaData zr p e = Some (OK, e') \<and> flushed ok log room e e' \<and>
    (\<exists>f'. obj p e' = Some f' \<and> f_startIndex f' = length (f_map f'))"
proof (cases "f_startIndex f = length (f_map f)")
  case True
  then show ?thesis using assms(1,3) by (auto simp: FlushUpdateMetaData_def flushed_def)
next
  case False
  define g where "g = f\<lparr>f_startIndex := length (f_map f)\<rparr>"
  obtain bs where bs: "WriteMetaToBuf True f = Some (bs, g)" "length bs \<le> FILE_META_SZ + 16"
    using WriteMeta_ok [OF assms(4), of True] assms(6,7) by (auto simp: g_def u32_small)
  obtain s where s: "zf_alloc zr ZNS_ALIGMENT (ev_zrocks e) = Some (True, s)" "ok s" "log s = log (ev_zrocks e)" "room s = room (ev_zrocks e)"
    using alloc_law [OF assms(1)] by blast
  define e1 where "e1 = put_obj p g (e\<lparr>ev_zrocks := s\<rparr>)"
  have lk: "env_like e e1" using assms(3) env_like_put [of p "e\<lparr>ev_zrocks := s\<rparr>" f g] by (simp add: e1_def g_def like_def)
  have z: "ev_zrocks e1 = s" "obj p e1 = Some g" using assms(3) obj_put [of p "e\<lparr>ev_zrocks := s\<rparr>" f p g] by (simp_all add: e1_def) (simp add: put_obj_def)
  obtain e2 where e2: "flush_record zr Update bs e1 = Some (OK, e2)" "flushed ok log room e1 e2"
    using flush_record_ok [of e1 bs Update] s(2) z(1) env_like_ok [OF lk assms(2)] bs(2) by auto
  obtain f' where f': "obj p e2 = Some f'" "like g f'" using e2(2) z(2) env_likeD unfolding flushed_def by blast
  have "f_startIndex f' = length (f_map f')"
    using flush_keeps_mark [OF e2(1) z(2)] f' assms(7) by (simp add: g_def)
  then show ?thesis using False assms(3) s bs(1) e2 lk z f'(1) env_like_trans [OF lk]
    by (auto simp: FlushUpdateMetaData_def with_buf_def Let_def flushed_def e1_def [symmetric])
qed

lemma sync_ok:
  assumes "ok (ev_zrocks e)" "env_ok e" "obj (wf_znsfile w) e = Some f" "f_cache f = Some c" "synced_file (log (ev_zrocks e)) f"
    "length (f_map f) + 2 < 2 ^ 32" "slots_of (length c) \<le> room (ev_zrocks e) (f_level f)"
  shows "\<exists>e' f'. Writable_Sync zr w e = Some (OK, e') \<and> file_step ok log (wf_znsfile w) e e' \<and> obj (wf_znsfile w) e' = Some f' \<and>
    synced_file (log (ev_zrocks e')) f' \<and> file_bytes (log (ev_zrocks e')) f' = file_bytes (log (ev_zrocks e)) f \<and> f_cache f' = Some [] \<and>
    same_head f f' \<and> length (f_map f') \<le> length (f_map f) + 2 \<and>
    room (ev_zrocks e') (f_level f) = room (ev_zrocks e) (f_level f) - slots_of (length c)"
proof (cases "c = []")
  case True
  then show ?thesis using assms by (auto simp: Writable_Sync_def file_step_def same_head_def slots_of_def option.rel_refl)
next
  case False
  let ?p = "wf_znsfile w"
  note sf = assms(5) [unfolded synced_file_def file_live_def]
  have c: "0 < length c" "length c \<le> ZNS_MAX_BUF" using False sf assms(4) by (simp_all add: cache_bytes_def)
  obtain ms s where wr: "zf_write zr c (f_level f) False (ev_zrocks e) = Some (0, ms, s)" "ok s" "grows (log (ev_zrocks e)) (log s)"
    "\<forall>m \<in> set ms. piece_live (log s) m" "pieces_bytes (log s) ms = c" "length ms \<le> 2" "room s (f_level f) = room (ev_zrocks e) (f_level f) - slots_of (length c)"
    using write_law [OF assms(1) c assms(7), of False] by blast
  define e1 where "e1 = e\<lparr>ev_zrocks := s\<rparr>"
  have o1: "obj ?p e1 = Some f" using assms(3) by (simp add: e1_def)
  obtain e2 nid where e2: "sync_pieces (wf_filename w) ?p ms e1 = Some e2" "obj ?p e2 = Some (f\<lparr>f_map := f_map f @ ms, f_current_nid := nid\<rparr>)"
    "ev_zrocks e2 = s" "ev_files e2 = ev_files e" "\<forall>q. q \<noteq> ?p \<longrightarrow> obj q e2 = obj q e"
    using sync_pieces_ok [OF o1, of "wf_filename w" ms] by (auto simp: e1_def)
  define g where "g = f\<lparr>f_map := f_map f @ ms, f_current_nid := nid\<rparr>"
  have eo: "env_ok e2" using assms(2) sf e2(2,4,5) unfolding env_ok_def by (metis (no_types, lifting) ZNSFile.simps(1) ZNSFile.update_convs(5,9) ZNSFile.surjective)
  obtain e3 f3 where e3: "FlushUpdateMetaData zr ?p e2 = Some (OK, e3)" "flushed ok log room e2 e3" "obj ?p e3 = Some f3" "f_startIndex f3 = length (f_map f3)"
    using flush_update_ok [of e2 ?p g] e2(2,3) eo wr(2,6) sf assms(6) by (auto simp: g_def)
  have lk: "like g f3" using env_likeD [of e2 e3 ?p g] e3(2,3) e2(2) by (auto simp: flushed_def g_def)
  note l = like_fields [OF lk]
  define f4 where "f4 = f3\<lparr>f_cache := Some []\<rparr>"
  define e4 where "e4 = put_obj ?p f4 e3"
  have run: "Writable_Sync zr w e = Some (OK, e4)"
    using assms(3,4) False wr(1) e2(1) e3(1,3) by (simp add: Writable_Sync_def Let_def e1_def [symmetric] e4_def f4_def)
  have z: "ok (ev_zrocks e3)" "log (ev_zrocks e3) = log s" "room (ev_zrocks e3) = room s" "env_like e2 e3" using e3(2) e2(3) by (simp_all add: flushed_def)
  have n4: "length (f_name f4) \<le> FILE_NAME_LEN" using l(1) sf by (simp add: f4_def g_def)
  have step: "file_step ok log ?p e e4"
  proof -
    have "file_step ok log ?p e e3" unfolding file_step_def
      using z wr(3) e2(4,5) env_like_ok [OF z(4) eo] by (auto simp: env_like_def) metis
    then show ?thesis unfolding e4_def using file_step_trans file_step_put [where ok = ok and log = log, OF z(1) env_like_ok [OF z(4) eo] e3(3) n4] by blast
  qed
  have o4: "obj ?p e4 = Some f4" using e3(3) by (simp add: e4_def)
  have z4: "ev_zrocks e4 = ev_zrocks e3" by (simp add: e4_def put_obj_def)
  have live: "\<forall>m \<in> set (f_map f4). piece_live (log s) m" "f_map f4 = f_map f @ ms"
    using l(4) grows_pieces [OF wr(3), of "f_map f"] sf wr(4) by (auto simp: f4_def g_def)
  have bytes: "file_bytes (log s) f4 = file_bytes (log (ev_zrocks e)) f"
    using live(2) grows_pieces(2) [OF wr(3), of "f_map f"] sf wr(5) assms(4) by (simp add: file_bytes_def cache_bytes_def pieces_bytes_def f4_def)
  have "synced_file (log s) f4" using live n4 e3(4) by (simp add: synced_file_def file_live_def f4_def cache_bytes_def)
  moreover have "same_head f f4" using l by (simp add: same_head_def f4_def g_def)
  ultimately show ?thesis using run step o4 z z4 bytes live(2) wr(6,7) by (intro exI [of _ e4] exI [of _ f4]) (simp add: f4_def)
qed

lemma fill_sync_ok:
  assumes "ok (ev_zrocks e)" "env_ok e" "obj (wf_znsfile w) e = Some f" "f_cache f = Some c" "synced_file (log (ev_zrocks e)) f"
    "length c + length bs = ZNS_MAX_BUF" "length (f_map f) + 2 < 2 ^ 32" "slots_of ZNS_MAX_BUF \<le> room (ev_zrocks e) (f_level f)"
  shows "\<exists>e1 e' f'. cache_put (wf_znsfile w) bs e = Some e1 \<and> Writable_Sync zr w e1 = Some (OK, e') \<and> file_step ok log (wf_znsfile w) e e' \<and>
    obj (wf_znsfile w) e' = Some f' \<and> synced_file (log (ev_zrocks e')) f' \<and>
    file_bytes (log (ev_zrocks e')) f' = file_bytes (log (ev_zrocks e)) f @ bs \<and> f_cache f' = Some [] \<and> same_head f f' \<and>
    length (f_map f') \<le> length (f_map f) + 2 \<and> room (ev_zrocks e') (f_level f) = room (ev_zrocks e) (f_level f) - slots_of ZNS_MAX_BUF"
proof -
  let ?p = "wf_znsfile w"
  define g where "g = f\<lparr>f_cache := Some (c @ bs)\<rparr>"
  define e1 where "e1 = put_obj ?p g e"
  have z: "ev_zrocks e1 = ev_zrocks e" by (simp add: e1_def put_obj_def)
  have put: "cache_put ?p bs e = Some e1" using assms(3,4) by (simp add: cache_put_def e1_def g_def)
  have o1: "obj ?p e1 = Some g" using assms(3) by (simp add: e1_def)
  have sg: "synced_file (log (ev_zrocks e1)) g" using assms(5,6) z by (simp add: synced_file_def file_live_def g_def cache_bytes_def)
  have s1: "file_step ok log ?p e e1" unfolding e1_def
    by (rule file_step_put [where ok = ok, OF assms(1-3)]) (use assms(5) in \<open>simp add: synced_file_def g_def\<close>)
  have e1: "ok (ev_zrocks e1)" "env_ok e1" using s1 by (simp_all add: file_step_def)
  have pre: "f_cache g = Some (c @ bs)" "length (f_map g) + 2 < 2 ^ 32" "slots_of (length (c @ bs)) \<le> room (ev_zrocks e1) (f_level g)"
    using assms(6-8) z by (simp_all add: g_def)
  obtain e' f' where s: "Writable_Sync zr w e1 = Some (OK, e')" "file_step ok log ?p e1 e'" "obj ?p e' = Some f'" "synced_file (log (ev_zrocks e')) f'"
    "file_bytes (log (ev_zrocks e')) f' = file_bytes (log (ev_zrocks e1)) g" "f_cache f' = Some []" "same_head g f'" "length (f_map f') \<le> length (f_map g) + 2"
    "room (ev_zrocks e') (f_level g) = room (ev_zrocks e1) (f_level g) - slots_of (length (c @ bs))"
    using sync_ok [OF e1 o1 pre(1) sg pre(2,3)] by blast
  have "file_bytes (log (ev_zrocks e1)) g = file_bytes (log (ev_zrocks e)) f @ bs"
    using assms(4) z by (simp add: file_bytes_def g_def cache_bytes_def)
  then show ?thesis
    using put s file_step_trans [where ok = ok and log = log, OF s1 s(2)] assms(6) z by (intro exI [of _ e1] exI [of _ e'] exI [of _ f']) (simp add: g_def same_head_def)
qed

lemma append_chunks_ok:
  assumes "ok (ev_zrocks e)" "env_ok e" "obj (wf_znsfile w) e = Some f" "f_cache f = Some []" "synced_file (log (ev_zrocks e)) f"
    "length (f_map f) + 2 * spills (length rest) < 2 ^ 32" "slots_of ZNS_MAX_BUF * spills (length rest) \<le> room (ev_zrocks e) (f_level f)"
  shows "\<exists>rest' e' f'. append_chunks zr w rest e = Some (True, rest', e') \<and> file_step ok log (wf_znsfile w) e e' \<and>
    obj (wf_znsfile w) e' = Some f' \<and> synced_file (log (ev_zrocks e')) f' \<and>
    file_bytes (log (ev_zrocks e')) f' @ rest' = file_bytes (log (ev_zrocks e)) f @ rest \<and> length rest' \<le> ZNS_MAX_BUF \<and>
    length rest' + ZNS_MAX_BUF * spills (length rest) = length rest \<and> f_cache f' = Some [] \<and>
    same_head f f' \<and> length (f_map f') \<le> length (f_map f) + 2 * spills (length rest) \<and>
    room (ev_zrocks e') (f_level f) = room (ev_zrocks e) (f_level f) - slots_of ZNS_MAX_BUF * spills (length rest)"
  using assms
proof (induction "length rest" arbitrary: rest e f rule: less_induct)
  case less
  let ?p = "wf_znsfile w"
  show ?case
  proof (cases "length rest > ZNS_MAX_BUF")
    case False
    then show ?thesis using less.prems
      by (auto simp: append_chunks.simps spills_small file_step_def same_head_def option.rel_refl intro!: exI [of _ e] exI [of _ f])
  next
    case True
    define r where "r = drop ZNS_MAX_BUF rest"
    have sp: "spills (length rest) = Suc (spills (length r))" using spills_step [OF True] by (simp add: r_def)
    have fill: "length [] + length (take ZNS_MAX_BUF rest) = ZNS_MAX_BUF" "length (f_map f) + 2 < 2 ^ 32" "slots_of ZNS_MAX_BUF \<le> room (ev_zrocks e) (f_level f)"
      using True less.prems(6,7) sp by simp_all
    obtain e0 e1 f1 where e1: "cache_put ?p (take ZNS_MAX_BUF rest) e = Some e0" "Writable_Sync zr w e0 = Some (OK, e1)" "file_step ok log ?p e e1"
      "obj ?p e1 = Some f1" "synced_file (log (ev_zrocks e1)) f1" "file_bytes (log (ev_zrocks e1)) f1 = file_bytes (log (ev_zrocks e)) f @ take ZNS_MAX_BUF rest"
      "f_cache f1 = Some []" "same_head f f1" "length (f_map f1) \<le> length (f_map f) + 2"
      "room (ev_zrocks e1) (f_level f) = room (ev_zrocks e) (f_level f) - slots_of ZNS_MAX_BUF"
      using fill_sync_ok [OF less.prems(1-5) fill] by blast
    have lv: "f_level f1 = f_level f" using e1(8) by (simp add: same_head_def)
    have pre: "length r < length rest" "ok (ev_zrocks e1)" "env_ok e1" "length (f_map f1) + 2 * spills (length r) < 2 ^ 32"
      "slots_of ZNS_MAX_BUF * spills (length r) \<le> room (ev_zrocks e1) (f_level f1)"
      using True e1(3,9,10) less.prems(6,7) sp lv by (simp_all add: r_def file_step_def)
    obtain r' e2 f2 where e2: "append_chunks zr w r e1 = Some (True, r', e2)" "file_step ok log ?p e1 e2" "obj ?p e2 = Some f2"
      "synced_file (log (ev_zrocks e2)) f2" "file_bytes (log (ev_zrocks e2)) f2 @ r' = file_bytes (log (ev_zrocks e1)) f1 @ r"
      "length r' \<le> ZNS_MAX_BUF" "f_cache f2 = Some []" "same_head f1 f2" "length (f_map f2) \<le> length (f_map f1) + 2 * spills (length r)"
      "room (ev_zrocks e2) (f_level f1) = room (ev_zrocks e1) (f_level f1) - slots_of ZNS_MAX_BUF * spills (length r)"
      "length r' + ZNS_MAX_BUF * spills (length r) = length r"
      using less.hyps [OF pre(1-3) e1(4,7,5) pre(4,5)] by blast
    have "append_chunks zr w rest e = Some (True, r', e2)" using True e1(1,2) e2(1) by (subst append_chunks.simps) (simp add: r_def)
    moreover have "length r' + ZNS_MAX_BUF * spills (length rest) = length rest" using e2(11) sp True by (simp add: r_def)
    ultimately show ?thesis using e2 e1(6,9,10) lv sp file_step_trans [where ok = ok and log = log, OF e1(3) e2(2)] same_head_trans [OF e1(8) e2(8)]
      by (intro exI [of _ r'] exI [of _ e2] exI [of _ f2]) (simp add: r_def)
  qed
qed

lemma spill_ok:
  assumes "ok (ev_zrocks e)" "env_ok e" "obj (wf_znsfile w) e = Some f" "f_cache f = Some c" "synced_file (log (ev_zrocks e)) f"
    "length (f_map f) + 2 * spills (length c + length data) < 2 ^ 32" "ZNS_MAX_BUF < length c + length data"
    "slots_of ZNS_MAX_BUF * spills (length c + length data) \<le> room (ev_zrocks e) (f_level f)" "k = ZNS_MAX_BUF - length c"
  shows "\<exists>e0 e1 rest e' f'. cache_put (wf_znsfile w) (take k data) e = Some e0 \<and> Writable_Sync zr w e0 = Some (OK, e1) \<and>
    append_chunks zr w (drop k data) e1 = Some (True, rest, e') \<and> file_step ok log (wf_znsfile w) e e' \<and>
    obj (wf_znsfile w) e' = Some f' \<and> synced_file (log (ev_zrocks e')) f' \<and>
    file_bytes (log (ev_zrocks e')) f' @ rest = file_bytes (log (ev_zrocks e)) f @ data \<and> length rest \<le> ZNS_MAX_BUF \<and>
    length rest + ZNS_MAX_BUF * spills (length c + length data) = length c + length data \<and> f_cache f' = Some [] \<and>
    same_head f f' \<and> length (f_map f') \<le> length (f_map f) + 2 * spills (length c + length data) \<and>
    room (ev_zrocks e') (f_level f) = room (ev_zrocks e) (f_level f) - slots_of ZNS_MAX_BUF * spills (length c + length data)"
proof -
  let ?p = "wf_znsfile w"
  have c: "length c \<le> ZNS_MAX_BUF" using assms(4,5) by (simp add: synced_file_def file_live_def cache_bytes_def)
  have sp: "spills (length c + length data) = Suc (spills (length (drop k data)))" using spills_step [OF assms(7)] c assms(9) by (simp add: add.commute)
  have fill: "length c + length (take k data) = ZNS_MAX_BUF" "length (f_map f) + 2 < 2 ^ 32" "slots_of ZNS_MAX_BUF \<le> room (ev_zrocks e) (f_level f)"
    using assms(6-9) c sp by simp_all
  obtain e0 e1 f1 where e1: "cache_put ?p (take k data) e = Some e0" "Writable_Sync zr w e0 = Some (OK, e1)" "file_step ok log ?p e e1"
    "obj ?p e1 = Some f1" "synced_file (log (ev_zrocks e1)) f1" "file_bytes (log (ev_zrocks e1)) f1 = file_bytes (log (ev_zrocks e)) f @ take k data"
    "f_cache f1 = Some []" "same_head f f1" "length (f_map f1) \<le> length (f_map f) + 2"
    "room (ev_zrocks e1) (f_level f) = room (ev_zrocks e) (f_level f) - slots_of ZNS_MAX_BUF"
    using fill_sync_ok [OF assms(1-5) fill] by blast
  have lv: "f_level f1 = f_level f" using e1(8) by (simp add: same_head_def)
  have pre: "ok (ev_zrocks e1)" "env_ok e1" "length (f_map f1) + 2 * spills (length (drop k data)) < 2 ^ 32"
    "slots_of ZNS_MAX_BUF * spills (length (drop k data)) \<le> room (ev_zrocks e1) (f_level f1)"
    using e1(3,9,10) assms(6,8) sp lv by (simp_all add: file_step_def)
  obtain r' e2 f2 where e2: "append_chunks zr w (drop k data) e1 = Some (True, r', e2)" "file_step ok log ?p e1 e2" "obj ?p e2 = Some f2"
    "synced_file (log (ev_zrocks e2)) f2" "file_bytes (log (ev_zrocks e2)) f2 @ r' = file_bytes (log (ev_zrocks e1)) f1 @ drop k data"
    "length r' \<le> ZNS_MAX_BUF" "f_cache f2 = Some []" "same_head f1 f2" "length (f_map f2) \<le> length (f_map f1) + 2 * spills (length (drop k data))"
    "room (ev_zrocks e2) (f_level f1) = room (ev_zrocks e1) (f_level f1) - slots_of ZNS_MAX_BUF * spills (length (drop k data))"
    "length r' + ZNS_MAX_BUF * spills (length (drop k data)) = length (drop k data)"
    using append_chunks_ok [OF pre(1,2) e1(4,7,5) pre(3,4)] by blast
  have "file_bytes (log (ev_zrocks e2)) f2 @ r' = file_bytes (log (ev_zrocks e)) f @ data" using e2(5) e1(6) by simp
  moreover have "length r' + ZNS_MAX_BUF * spills (length c + length data) = length c + length data" using e2(11) sp assms(7,9) c by simp
  ultimately show ?thesis
    using e1(1,2,9,10) e2 lv sp file_step_trans [where ok = ok and log = log, OF e1(3) e2(2)] same_head_trans [OF e1(8) e2(8)]
    by (intro exI [of _ e0] exI [of _ e1] exI [of _ r'] exI [of _ e2] exI [of _ f2]) (simp del: length_drop)
qed

lemma append_ok:
  assumes "ok (ev_zrocks e)" "env_ok e" "obj (wf_znsfile w) e = Some f" "f_cache f = Some c" "synced_file (log (ev_zrocks e)) f"
    "length (f_map f) + 2 * spills (length c + length data) < 2 ^ 32"
    "slots_of ZNS_MAX_BUF * spills (length c + length data) \<le> room (ev_zrocks e) (f_level f)"
  shows "\<exists>w' e' f' c'. Writable_Append zr data w e = Some (OK, w', e') \<and> wf_znsfile w' = wf_znsfile w \<and> wf_filename w' = wf_filename w \<and>
    file_step ok log (wf_znsfile w) e e' \<and> obj (wf_znsfile w) e' = Some f' \<and> synced_file (log (ev_zrocks e')) f' \<and>
    file_bytes (log (ev_zrocks e')) f' = file_bytes (log (ev_zrocks e)) f @ data \<and> f_cache f' = Some c' \<and>
    length c' + ZNS_MAX_BUF * spills (length c + length data) = length c + length data \<and>
    f_size f' = u64 (f_size f + length data) \<and> f_name f' = f_name f \<and> f_level f' = f_level f \<and> f_is_writing f' = f_is_writing f \<and>
    length (f_map f') \<le> length (f_map f) + 2 * spills (length c + length data) \<and>
    room (ev_zrocks e') (f_level f) = room (ev_zrocks e) (f_level f) - slots_of ZNS_MAX_BUF * spills (length c + length data)"
proof -
  let ?p = "wf_znsfile w"
  let ?cut = "if length c + length data > ZNS_MAX_BUF
            then do {
              let k = ZNS_MAX_BUF - length c;
              e \<leftarrow> cache_put ?p (take k data) e;
              (ret, e) \<leftarrow> Writable_Sync zr w e;
              if ret \<noteq> OK then Some (False, [], e) else append_chunks zr w (drop k data) e }
            else Some (True, data, e)"
  obtain rest e1 f1 c1 where e1: "?cut = Some (True, rest, e1)" "file_step ok log ?p e e1" "obj ?p e1 = Some f1"
    "synced_file (log (ev_zrocks e1)) f1" "file_bytes (log (ev_zrocks e1)) f1 @ rest = file_bytes (log (ev_zrocks e)) f @ data"
    "f_cache f1 = Some c1" "length (c1 @ rest) \<le> ZNS_MAX_BUF" "same_head f f1" "length (f_map f1) \<le> length (f_map f) + 2 * spills (length c + length data)"
    "room (ev_zrocks e1) (f_level f) = room (ev_zrocks e) (f_level f) - slots_of ZNS_MAX_BUF * spills (length c + length data)"
    "length (c1 @ rest) + ZNS_MAX_BUF * spills (length c + length data) = length c + length data"
  proof (cases "ZNS_MAX_BUF < length c + length data")
    case True
    show ?thesis using spill_ok [OF assms(1-6) True assms(7) refl] True by (auto simp: Let_def intro!: that)
  next
    case False
    then show ?thesis using assms that [of data e f c] by (simp add: spills_small file_step_def same_head_def option.rel_refl)
  qed
  define g where "g = f1\<lparr>f_cache := Some (c1 @ rest)\<rparr>"
  define g' where "g' = g\<lparr>f_size := u64 (f_size g + length data)\<rparr>"
  define e2 where "e2 = put_obj ?p g e1"
  define e3 where "e3 = put_obj ?p g' e2"
  have z: "ev_zrocks e3 = ev_zrocks e1" "ev_zrocks e2 = ev_zrocks e1" by (simp_all add: e3_def e2_def put_obj_def)
  have run: "Writable_Append zr data w e = Some (OK, w\<lparr>wf_filesize := u64 (wf_filesize w + length data)\<rparr>, e3)"
    using assms(3,4) e1(1,3,6) by (simp add: Writable_Append_def cache_put_def e2_def e3_def g_def g'_def)
  have o3: "obj ?p e2 = Some g" "obj ?p e3 = Some g'" using e1(3) by (simp_all add: e2_def e3_def)
  have nm: "length (f_name g) \<le> FILE_NAME_LEN" "length (f_name g') \<le> FILE_NAME_LEN" using e1(4) by (simp_all add: synced_file_def g_def g'_def)
  have ek: "ok (ev_zrocks e1)" "env_ok e1" using e1(2) by (simp_all add: file_step_def)
  have s2: "file_step ok log ?p e1 e2" unfolding e2_def by (rule file_step_put [where ok = ok, OF ek e1(3) nm(1)])
  then have ek2: "ok (ev_zrocks e2)" "env_ok e2" by (simp_all add: file_step_def)
  have s3: "file_step ok log ?p e2 e3" unfolding e3_def by (rule file_step_put [where ok = ok, OF ek2 o3(1) nm(2)])
  have step: "file_step ok log ?p e e3" using file_step_trans e1(2) s2 s3 by blast
  have "synced_file (log (ev_zrocks e3)) g'" using e1(4,7) z by (simp add: synced_file_def file_live_def g_def g'_def cache_bytes_def)
  moreover have "file_bytes (log (ev_zrocks e3)) g' = file_bytes (log (ev_zrocks e)) f @ data"
    using e1(5,6) z by (simp add: file_bytes_def cache_bytes_def g_def g'_def)
  ultimately show ?thesis using run step o3(2) e1(8-11) z
    by (intro exI [of _ "w\<lparr>wf_filesize := u64 (wf_filesize w + length data)\<rparr>"] exI [of _ e3] exI [of _ g'] exI [of _ "c1 @ rest"])
       (simp add: g_def g'_def same_head_def)
qed

lemma close_ok:
  assumes "ok (ev_zrocks e)" "env_ok e" "obj (wf_znsfile w) e = Some f" "f_cache f = Some c" "synced_file (log (ev_zrocks e)) f"
    "length (f_map f) + 2 < 2 ^ 32" "slots_of (length c) \<le> room (ev_zrocks e) (f_level f)" "f_is_writing f"
  shows "\<exists>e' f'. Writable_Close zr w e = Some (OK, e') \<and> file_step ok log (wf_znsfile w) e e' \<and> obj (wf_znsfile w) e' = Some f' \<and>
    synced_file (log (ev_zrocks e')) f' \<and> file_bytes (log (ev_zrocks e')) f' = file_bytes (log (ev_zrocks e)) f \<and> f_cache f' = None \<and>
    \<not> f_is_writing f' \<and> f_size f' = f_size f \<and> f_name f' = f_name f \<and>
    room (ev_zrocks e') (f_level f) = room (ev_zrocks e) (f_level f) - slots_of (length c)"
proof -
  let ?p = "wf_znsfile w"
  obtain e1 f1 where e1: "Writable_Sync zr w e = Some (OK, e1)" "file_step ok log ?p e e1" "obj ?p e1 = Some f1" "synced_file (log (ev_zrocks e1)) f1"
    "file_bytes (log (ev_zrocks e1)) f1 = file_bytes (log (ev_zrocks e)) f" "f_cache f1 = Some []" "same_head f f1"
    "room (ev_zrocks e1) (f_level f) = room (ev_zrocks e) (f_level f) - slots_of (length c)"
    using sync_ok [OF assms(1-7)] by blast
  have ek: "ok (ev_zrocks e1)" "env_ok e1" using e1(2) by (simp_all add: file_step_def)
  obtain s where s: "zf_free zr (ev_zrocks e1) = Some s" "ok s" "log s = log (ev_zrocks e1)" "room s = room (ev_zrocks e1)" using free_law [OF ek(1)] by blast
  define g where "g = ReleaseWRLock (f1\<lparr>f_cache := None\<rparr>)"
  define e2 where "e2 = e1\<lparr>ev_zrocks := s\<rparr>"
  define e3 where "e3 = put_obj ?p g e2"
  have run: "Writable_Close zr w e = Some (OK, e3)" using assms(8) e1(1,3,6,7) s(1) by (simp add: Writable_Close_def same_head_def e3_def e2_def g_def)
  have z: "ev_zrocks e3 = s" by (simp add: e3_def e2_def put_obj_def)
  have o2: "obj ?p e2 = Some f1" using e1(3) by (simp add: e2_def)
  have s2: "file_step ok log ?p e1 e2" using s ek(2) by (simp add: file_step_def e2_def env_ok_def option.rel_refl)
  then have ek2: "ok (ev_zrocks e2)" "env_ok e2" by (simp_all add: file_step_def)
  have s3: "file_step ok log ?p e2 e3" unfolding e3_def
    by (rule file_step_put [where ok = ok, OF ek2 o2]) (use e1(4) in \<open>simp add: synced_file_def g_def ReleaseWRLock_def\<close>)
  have step: "file_step ok log ?p e e3" using file_step_trans e1(2) s2 s3 by blast
  have "obj ?p e3 = Some g" using o2 by (simp add: e3_def)
  then show ?thesis using run step e1(4-8) z s(3,4)
    by (intro exI [of _ e3] exI [of _ g]) (simp add: g_def ReleaseWRLock_def synced_file_def file_live_def file_bytes_def cache_bytes_def same_head_def)
qed

end

end
