(* ===== verification/Env_Lib.thy ===== *)
theory Env_Lib
  imports Env_Flush
begin

text \<open>
  The library below the environment: the calls of \<open>zrocks.c\<close> and \<open>ztl-metadata.c\<close> over one state, with the parts that
  are not code of the library in \<open>lib_conf\<close>. The state \<open>lib_ok\<close> has one level that can be written, idle resources,
  and two metadata zones apart from the zones of all nodes. In such a state the library fulfils the contract
  \<open>piece_store\<close> of the environment, so that the lemmas on files hold for the library as it is.
\<close>

section \<open>Model\<close>

text \<open>\<open>cf_poke\<close> is a store of the caller into memory for transfers at \<open>cf_buf\<close>, the address of its buffer;
  \<open>cf_nvm_write\<close> and \<open>cf_reset\<close> are the xNVMe calls of the metadata zones; the fields ending in 0 are uninitialised structures.\<close>

record 'x lib_conf =
  cf_xn :: "'x xnvme"
  cf_zv :: znd_media
  cf_dma :: "'x \<Rightarrow> nat \<Rightarrow> nat"
  cf_poke :: "nat \<Rightarrow> nat list \<Rightarrow> 'x \<Rightarrow> 'x"
  cf_nvm_write :: "nat \<Rightarrow> nat \<Rightarrow> nat list \<Rightarrow> 'x \<Rightarrow> int \<times> bool \<times> 'x"
  cf_reset :: "nat \<Rightarrow> 'x \<Rightarrow> int \<times> 'x"
  cf_buf :: nat
  cf_misc0 :: xztl_misc_cmd
  cf_ucmd0 :: xztl_io_ucmd
  cf_mcmd0 :: xztl_io_mcmd
  cf_zn0 :: xztl_zn_mcmd
  cf_fuel :: nat
  cf_turns :: nat
  cf_attempts :: nat

record 'x lib =
  lb_world :: "'x zr_world"
  lb_md :: ztl_metadata

abbreviation lib_core :: "'x lib_conf \<Rightarrow> 'x media_state xztl_core" where
  "lib_core c \<equiv> znd_core (cf_xn c) (cf_zv c)"

abbreviation lib_x :: "'x lib \<Rightarrow> 'x" where "lib_x s \<equiv> zr_x (lb_world s)"

definition lib_set_x :: "'x \<Rightarrow> 'x zr_world \<Rightarrow> 'x zr_world" where
  "lib_set_x x z = zr_put_media ((zr_media z)\<lparr>ms_x := x\<rparr>) z"

definition lib_alloc :: "'x lib_conf \<Rightarrow> nat \<Rightarrow> 'x lib \<Rightarrow> (bool \<times> 'x lib) option" where
  "lib_alloc c n s = do { (p, z) \<leftarrow> zrocks_alloc (lib_core c) n (lb_world s); Some (p \<noteq> 0, s\<lparr>lb_world := z\<rparr>) }"

definition lib_free :: "'x lib_conf \<Rightarrow> 'x lib \<Rightarrow> 'x lib option" where
  "lib_free c s = do { z \<leftarrow> zrocks_free (lib_core c) (cf_buf c) (lb_world s); Some (s\<lparr>lb_world := z\<rparr>) }"

text \<open>The caller has an array for two pieces.\<close>

definition lib_write :: "'x lib_conf \<Rightarrow> nat list \<Rightarrow> int \<Rightarrow> bool \<Rightarrow> 'x lib \<Rightarrow> (int \<times> zrocks_map list \<times> 'x lib) option" where
  "lib_write c data level gc s = do {
     let z = lib_set_x (cf_poke c (cf_buf c) data (lib_x s)) (lb_world s);
     (ret, maps, pieces, z) \<leftarrow> zrocks_write (cf_xn c) (lib_core c) (lb_md s) (cf_misc0 c) (cf_fuel c) (cf_turns c) (cf_ucmd0 c)
        (cf_buf c) (length data) level [0, 0] gc z;
     Some (ret, take pieces maps, s\<lparr>lb_world := z\<rparr>) }"

definition lib_read :: "'x lib_conf \<Rightarrow> nat \<Rightarrow> nat \<Rightarrow> nat \<Rightarrow> bool \<Rightarrow> 'x lib \<Rightarrow> (int \<times> nat list \<times> 'x lib) option" where
  "lib_read c node off n gc s = do {
     (ret, z) \<leftarrow> zrocks_read (cf_dma c) (cf_xn c) (lib_core c) (cf_zv c) (cf_fuel c) (cf_attempts c) (cf_ucmd0 c) node off (cf_buf c) n gc (lb_world s);
     Some (ret, buffer (zr_mem z) (cf_buf c) n, s\<lparr>lb_world := z\<rparr>) }"

definition lib_on_world :: "('x zr_world \<Rightarrow> (int \<times> 'x zr_world) option) \<Rightarrow> 'x lib \<Rightarrow> (int \<times> 'x lib) option" where
  "lib_on_world f s = do { (ret, z) \<leftarrow> f (lb_world s); Some (ret, s\<lparr>lb_world := z\<rparr>) }"

text \<open>The table of the zones and the device after a call on the metadata zones.\<close>

definition lib_put_meta :: "ztl_metadata \<Rightarrow> app_zmd_entry list \<Rightarrow> xztl_stats_data \<Rightarrow> 'x \<Rightarrow> 'x lib \<Rightarrow> 'x lib" where
  "lib_put_meta md tbl io x s = (let z = lb_world s; g = im_grp (zr_io z) in
     \<lparr>lb_world = z\<lparr>zr_io := (zr_io z)\<lparr>im_grp := g\<lparr>gr_zmd := (gr_zmd g)\<lparr>zd_tbl := Some tbl\<rparr>\<rparr>,
        im_media := (zr_media z)\<lparr>ms_io := io, ms_x := x\<rparr>\<rparr>\<rparr>, lb_md = md\<rparr>)"

definition lib_write_meta :: "'x lib_conf \<Rightarrow> nat list \<Rightarrow> 'x lib \<Rightarrow> (int \<times> 'x lib) option" where
  "lib_write_meta c bs s = do {
     tbl \<leftarrow> zd_tbl (gr_zmd (im_grp (zr_io (lb_world s))));
     (ret, md, tbl, io, x) \<leftarrow> zrocks_write_file_metadata (cf_nvm_write c) (cf_reset c) (ge_nbytes (zv_geo (cf_zv c))) bs (u32 (length bs))
        (lb_md s) tbl (ms_io (zr_media (lb_world s))) (lib_x s);
     Some (ret, lib_put_meta md tbl io x s) }"

definition lib_read_meta :: "'x lib_conf \<Rightarrow> nat \<Rightarrow> nat \<Rightarrow> 'x lib \<Rightarrow> (int \<times> nat list \<times> 'x lib) option" where
  "lib_read_meta c slba n s = do {
     let z = lb_world s;
     (ret, bs, mp, io, m) \<leftarrow> zrocks_read_metadata (lib_core c) (\<lambda>p k m. buffer (cf_dma c (ms_x m)) p k) (ge_nbytes (zv_geo (cf_zv c)))
        (cf_mcmd0 c) slba (u32 n) (zr_mp z) (ms_io (zr_media z)) (zr_media z);
     Some (ret, bs, s\<lparr>lb_world := zr_put_media (m\<lparr>ms_io := io\<rparr>) (z\<lparr>zr_mp := mp\<rparr>)\<rparr>) }"

definition lib_switch_zone :: "'x lib_conf \<Rightarrow> nat \<Rightarrow> 'x lib \<Rightarrow> 'x lib option" where
  "lib_switch_zone c slba s = do {
     tbl \<leftarrow> zd_tbl (gr_zmd (im_grp (zr_io (lb_world s))));
     (md, tbl, x) \<leftarrow> zrocks_switch_zone (cf_reset c) slba (lb_md s) tbl (lib_x s);
     Some (lib_put_meta md tbl (ms_io (zr_media (lb_world s))) x s) }"

definition lib_calls :: "'x lib_conf \<Rightarrow> 'x lib zrocks_fns" where
  "lib_calls c = \<lparr>zf_alloc = lib_alloc c, zf_free = lib_free c, zf_write = lib_write c, zf_read = lib_read c,
     zf_trim = (\<lambda>m. lib_on_world (zrocks_trim m)),
     zf_node_set = (\<lambda>n level num s. do { z \<leftarrow> zrocks_node_set n level num (lb_world s); Some (s\<lparr>lb_world := z\<rparr>) }),
     zf_clear_invalid_nodes = (\<lambda>s. do { z \<leftarrow> zrocks_clear_invalid_nodes (lib_core c) (cf_zn0 c) (lb_world s); Some (s\<lparr>lb_world := z\<rparr>) }),
     zf_write_file_metadata = lib_write_meta c, zf_read_metadata = lib_read_meta c,
     zf_get_metadata_slbas = (\<lambda>s. map_option fst (zrocks_get_metadata_slbas (lb_md s) [0, 0])),
     zf_switch_zone = lib_switch_zone c,
     zf_gc_get_nodes_num = (\<lambda>s. zrocks_gc_get_nodes_num (lb_world s)),
     zf_gc_get_free_nodes_num = (\<lambda>s. zrocks_gc_get_free_nodes_num (lb_world s)),
     zf_gc_get_full_nodes = (\<lambda>pct s. zrocks_gc_get_full_nodes pct (lb_world s))\<rparr>"

section \<open>States of the library\<close>

text \<open>What the library relies on: the device stores and reads, memory for transfers takes stores and is available,
  a write to a metadata zone changes its blocks only, a reset only its zone. The bounds on \<open>cf_fuel\<close> suffice for the largest write.\<close>

definition blocks :: "('x \<Rightarrow> nat \<Rightarrow> nat) \<Rightarrow> 'x \<Rightarrow> nat \<Rightarrow> nat list" where
  "blocks disk x b = map (disk x) [4096 * b..<4096 * b + 4096]"

definition lib_device ::
    "'x lib_conf \<Rightarrow> ('x \<Rightarrow> nat \<Rightarrow> nat) \<Rightarrow> ('x \<Rightarrow> request set) \<Rightarrow> ('x \<Rightarrow> nat multiset) \<Rightarrow> bool" where
  "lib_device c disk pend infl \<longleftrightarrow> zns_device (cf_xn c) (cf_dma c) disk pend infl XZTL_WIO_MAX_MCMD \<and>
     (\<forall>a bs x. cf_dma c (cf_poke c a bs x) = (\<lambda>b. if a \<le> b \<and> b < a + length bs then bs ! (b - a) else cf_dma c x b) \<and>
        disk (cf_poke c a bs x) = disk x \<and> pend (cf_poke c a bs x) = pend x \<and> infl (cf_poke c a bs x) = infl x) \<and>
     nvm_write_law (blocks disk) (cf_nvm_write c) \<and>
     (\<forall>a nlb bs x ret bad x'. cf_nvm_write c a nlb bs x = (ret, bad, x') \<longrightarrow> pend x' = pend x \<and> infl x' = infl x) \<and>
     (\<forall>a x ret x'. cf_reset c a x = (ret, x') \<longrightarrow> pend x' = pend x \<and> infl x' = infl x \<and>
        (\<forall>b. b < 4096 * a \<or> 4096 * (a + ge_sec_zn (zv_geo (cf_zv c))) \<le> b \<longrightarrow> disk x' b = disk x b)) \<and>
     (\<forall>d n x p x'. xn_buf_alloc (cf_xn c) d n x = (p, x') \<longrightarrow> p \<noteq> 0 \<and> disk x' = disk x \<and> pend x' = pend x \<and> infl x' = infl x) \<and>
     (\<forall>d p x. disk (xn_buf_free (cf_xn c) d p x) = disk x \<and> pend (xn_buf_free (cf_xn c) d p x) = pend x \<and> infl (xn_buf_free (cf_xn c) d p x) = infl x)"

definition lib_sized :: "'x lib_conf \<Rightarrow> bool" where
  "lib_sized c \<longleftrightarrow> ge_nbytes (zv_geo (cf_zv c)) = ZNS_ALIGMENT \<and> ucmd_sized (cf_ucmd0 c) \<and> cf_buf c + ZNS_MAX_BUF < 2 ^ 64 \<and>
     (2 * XZTL_WIO_MAX_MCMD + 1) * (2 * 64 + 4) < cf_fuel c \<and> 0 < cf_turns c \<and> 0 < cf_attempts c"

text \<open>The other nodes can be read and are apart from the node \<open>n\<close> that is written.\<close>

definition other_nodes :: "ztl_pro_node_grp \<Rightarrow> nat \<Rightarrow> ztl_pro_node \<Rightarrow> bool" where
  "other_nodes pro n node \<longleftrightarrow> (\<forall>k < length (pg_vnodes pro). k \<noteq> n \<longrightarrow> (let node' = pg_vnodes pro ! k in
     nd_id node' \<noteq> nd_id node \<and> (\<forall>z < 64. node_zone pro node' z = Some (nzone pro node' z)) \<and> node_fits pro node' \<and>
     nd_optimal_write_sec_used node' \<le> ZTL_PRO_OPT_SEC_NUM_INNODE \<and> zones_apart pro node node'))"

text \<open>The metadata zones have their own entries and their own sectors, and the write pointer of the current one is in it.\<close>

definition zone_apart :: "nat \<Rightarrow> ztl_pro_zone \<Rightarrow> ztl_pro_node_grp \<Rightarrow> ztl_pro_node \<Rightarrow> bool" where
  "zone_apart sz mz pro node \<longleftrightarrow> (\<forall>z < 64. g_sect (zn_addr mz) + sz \<le> g_sect (zn_addr (nzone pro node z)) \<or>
     g_sect (zn_addr (nzone pro node z)) + ZTL_PRO_SEC_NUM_INZONE \<le> g_sect (zn_addr mz))"

definition meta_ok :: "nat \<Rightarrow> ztl_metadata \<Rightarrow> app_zmd_entry list \<Rightarrow> ztl_pro_node_grp \<Rightarrow> ztl_pro_node \<Rightarrow> bool" where
  "meta_ok sz md tbl pro node \<longleftrightarrow> (\<exists>z0 z1 i0 i1. mt_zone_num md = 2 \<and> mt_metadata_zone md = [z0, z1] \<and> mt_curr_zone_index md < 2 \<and>
       g_sect (zn_addr z0) \<noteq> g_sect (zn_addr z1) \<and> zn_zmd_entry z0 = Some i0 \<and> zn_zmd_entry z1 = Some i1 \<and> i0 < length tbl \<and> i1 < length tbl \<and> i0 \<noteq> i1 \<and>
       (\<forall>z < 64. nent pro node z \<noteq> i0 \<and> nent pro node z \<noteq> i1)) \<and>
     (\<forall>mz \<in> set (mt_metadata_zone md). 0 < zn_capacity mz \<and> zn_capacity mz \<le> sz \<and> g_sect (zn_addr mz) + zn_capacity mz < 2 ^ 63 \<and>
        (\<forall>node' \<in> set (pg_vnodes pro). zone_apart sz mz pro node')) \<and>
     (\<forall>w. zone_wptr tbl (mt_metadata_zone md ! mt_curr_zone_index md) = Some w \<longrightarrow>
        g_sect (zn_addr (mt_metadata_zone md ! mt_curr_zone_index md)) \<le> w \<and>
        w < g_sect (zn_addr (mt_metadata_zone md ! mt_curr_zone_index md)) + zn_capacity (mt_metadata_zone md ! mt_curr_zone_index md))"

definition lib_at ::
    "'x lib_conf \<Rightarrow> ('x \<Rightarrow> request set) \<Rightarrow> ('x \<Rightarrow> nat multiset) \<Rightarrow> nat \<Rightarrow> nat \<Rightarrow> nat \<Rightarrow> ztl_pro_node_grp \<Rightarrow> ztl_pro_node \<Rightarrow>
     app_zmd_entry list \<Rightarrow> 'x lib \<Rightarrow> bool" where
  "lib_at c pend infl level n queue pro node tbl s \<longleftrightarrow> level_at (lb_md s) level n queue pro node tbl (lb_world s) \<and> n < 2 ^ 14 \<and>
     infl (lib_x s) = {#} \<and> reads_idle (cf_zv c) pend (lb_world s) \<and> other_nodes pro n node \<and>
     meta_ok (ge_sec_zn (zv_geo (cf_zv c))) (lb_md s) tbl pro node"

definition lib_ok :: "'x lib_conf \<Rightarrow> ('x \<Rightarrow> nat \<Rightarrow> nat) \<Rightarrow> ('x \<Rightarrow> request set) \<Rightarrow> ('x \<Rightarrow> nat multiset) \<Rightarrow> nat \<Rightarrow> 'x lib \<Rightarrow> bool" where
  "lib_ok c disk pend infl level s \<longleftrightarrow> lib_device c disk pend infl \<and> lib_sized c \<and>
     (\<exists>n queue pro node tbl. lib_at c pend infl level n queue pro node tbl s)"

definition lib_log :: "('x \<Rightarrow> nat \<Rightarrow> nat) \<Rightarrow> 'x lib \<Rightarrow> nat \<Rightarrow> nat list" where
  "lib_log disk s n = (case gr_pro (im_grp (zr_io (lb_world s))) of None \<Rightarrow> []
     | Some pro \<Rightarrow> (case get_at (pg_vnodes pro) n of None \<Rightarrow> [] | Some node \<Rightarrow> node_log disk pro node (lb_world s)))"

definition lib_room :: "nat \<Rightarrow> 'x lib \<Rightarrow> int \<Rightarrow> nat" where
  "lib_room level s l = (if write_level l \<noteq> level then 0
     else case gr_pro (im_grp (zr_io (lb_world s))) of None \<Rightarrow> 0
     | Some pro \<Rightarrow> (case qp_node (im_qp (zr_io (lb_world s)) ! level) of None \<Rightarrow> 0
     | Some n \<Rightarrow> (case get_at (pg_vnodes pro) n of None \<Rightarrow> 0 | Some node \<Rightarrow> nd_optimal_write_sec_left node)))"

section \<open>States without changes to the nodes\<close>

lemma lib_set_x_simps [simp]:
  "zr_media (lib_set_x x z) = (zr_media z)\<lparr>ms_x := x\<rparr>" "im_qp (zr_io (lib_set_x x z)) = im_qp (zr_io z)" "im_rr (zr_io (lib_set_x x z)) = im_rr (zr_io z)"
  "im_grp (zr_io (lib_set_x x z)) = im_grp (zr_io z)" "zr_mem (lib_set_x x z) = zr_mem z" "zr_mp (lib_set_x x z) = zr_mp z"
  by (simp_all add: lib_set_x_def)

lemma level_at_set_x [simp]: "level_at md l n q pro node tbl (lib_set_x x z) = level_at md l n q pro node tbl z"
  by (simp add: level_at_def level_world_def write_node_def)

lemma lib_at_node:
  assumes "lib_at c pend infl level n queue pro node tbl s"
  shows "gr_pro (im_grp (zr_io (lb_world s))) = Some pro" "get_at (pg_vnodes pro) n = Some node" "qp_node (im_qp (zr_io (lb_world s)) ! level) = Some n"
    "zd_tbl (gr_zmd (im_grp (zr_io (lb_world s)))) = Some tbl" "nd_id node = n"
proof -
  have "write_node (lb_md s) (level_world level undefined (lb_world s)) n pro node tbl" using assms by (simp add: lib_at_def level_at_def)
  then show "gr_pro (im_grp (zr_io (lb_world s))) = Some pro" "get_at (pg_vnodes pro) n = Some node" "qp_node (im_qp (zr_io (lb_world s)) ! level) = Some n"
    "zd_tbl (gr_zmd (im_grp (zr_io (lb_world s)))) = Some tbl" "nd_id node = n" by (simp_all add: write_node_def level_world_def)
qed

lemma lib_room_at:
  assumes "lib_at c pend infl level n queue pro node tbl s"
  shows "lib_room level s l = (if write_level l \<noteq> level then 0 else nd_optimal_write_sec_left node)"
  using lib_at_node [OF assms] by (simp add: lib_room_def)

lemma lib_log_at:
  assumes "lib_at c pend infl level n queue pro node tbl s"
  shows "lib_log disk s k = (case get_at (pg_vnodes pro) k of None \<Rightarrow> [] | Some nd \<Rightarrow> node_log disk pro nd (lb_world s))"
  using lib_at_node [OF assms] by (simp add: lib_log_def)

lemma lib_set_x_at:
  assumes "lib_at c pend infl level n queue pro node tbl s" "pend x = pend (lib_x s)" "infl x = infl (lib_x s)"
  shows "lib_at c pend infl level n queue pro node tbl (s\<lparr>lb_world := lib_set_x x (lb_world s)\<rparr>)"
  using assms by (simp add: lib_at_def reads_idle_def)

lemma lib_set_x_log: "disk x = disk (lib_x s) \<Longrightarrow> lib_log disk (s\<lparr>lb_world := lib_set_x x (lb_world s)\<rparr>) = lib_log disk s"
  by (simp add: lib_log_def node_log_def fun_eq_iff split: option.splits)

lemma lib_set_x_room: "lib_room level (s\<lparr>lb_world := lib_set_x x (lb_world s)\<rparr>) = lib_room level s"
  by (rule ext) (simp add: lib_room_def split: option.splits)

lemma lib_okI: "lib_device c disk pend infl \<Longrightarrow> lib_sized c \<Longrightarrow> lib_at c pend infl level n queue pro node tbl s \<Longrightarrow> lib_ok c disk pend infl level s"
  unfolding lib_ok_def by blast

lemma lib_okE:
  assumes "lib_ok c disk pend infl level s"
  obtains n queue pro node tbl where "lib_device c disk pend infl" "lib_sized c" "lib_at c pend infl level n queue pro node tbl s"
  using assms unfolding lib_ok_def by blast

lemma lib_device_alloc:
  assumes "lib_device c disk pend infl" "xn_buf_alloc (cf_xn c) d n x = (p, x')"
  shows "p \<noteq> 0" "disk x' = disk x" "pend x' = pend x" "infl x' = infl x"
  using assms(2) assms(1) [unfolded lib_device_def, THEN conjunct2, THEN conjunct2, THEN conjunct2, THEN conjunct2, THEN conjunct2, THEN conjunct1, rule_format, of d n x p x']
  by simp_all

lemma lib_device_free:
  assumes "lib_device c disk pend infl"
  shows "disk (xn_buf_free (cf_xn c) d p x) = disk x" "pend (xn_buf_free (cf_xn c) d p x) = pend x" "infl (xn_buf_free (cf_xn c) d p x) = infl x"
  using assms [unfolded lib_device_def, THEN conjunct2, THEN conjunct2, THEN conjunct2, THEN conjunct2, THEN conjunct2, THEN conjunct2, rule_format, of d p x]
  by simp_all

lemma lib_set_x_ok:
  assumes "lib_ok c disk pend infl level s" "pend x = pend (lib_x s)" "infl x = infl (lib_x s)"
  shows "lib_ok c disk pend infl level (s\<lparr>lb_world := lib_set_x x (lb_world s)\<rparr>)"
proof -
  obtain n queue pro node tbl where "lib_device c disk pend infl" "lib_sized c" "lib_at c pend infl level n queue pro node tbl s" using assms(1) by (rule lib_okE)
  then show ?thesis using lib_okI lib_set_x_at [where pend = pend and infl = infl, OF _ assms(2,3)] by metis
qed

lemma lib_alloc_ok:
  assumes "lib_ok c disk pend infl level s"
  shows "\<exists>s'. lib_alloc c n s = Some (True, s') \<and> lib_ok c disk pend infl level s' \<and> lib_log disk s' = lib_log disk s \<and> lib_room level s' = lib_room level s"
proof -
  obtain p x where x: "xn_buf_alloc (cf_xn c) (zv_dev (cf_zv c)) n (lib_x s) = (p, x)" by (cases "xn_buf_alloc (cf_xn c) (zv_dev (cf_zv c)) n (lib_x s)")
  have "lib_device c disk pend infl" using assms by (simp add: lib_ok_def)
  note d = lib_device_alloc [OF this x]
  have "lib_alloc c n s = Some (True, s\<lparr>lb_world := lib_set_x x (lb_world s)\<rparr>)"
    using x d(1) by (simp add: lib_alloc_def zrocks_alloc_def xztl_media_dma_alloc_def znd_media_fns_def Let_def znd_media_dma_alloc_def lib_set_x_def)
  then show ?thesis using lib_set_x_ok [OF assms d(3,4)] lib_set_x_log [where disk = disk, OF d(2)] lib_set_x_room [where s = s and x = x and level = level]
    by (intro exI [of _ "s\<lparr>lb_world := lib_set_x x (lb_world s)\<rparr>"] conjI)
qed

lemma lib_free_ok:
  assumes "lib_ok c disk pend infl level s"
  shows "\<exists>s'. lib_free c s = Some s' \<and> lib_ok c disk pend infl level s' \<and> lib_log disk s' = lib_log disk s \<and> lib_room level s' = lib_room level s"
proof -
  define x where "x = xn_buf_free (cf_xn c) (zv_dev (cf_zv c)) (cf_buf c) (lib_x s)"
  have "lib_device c disk pend infl" using assms by (simp add: lib_ok_def)
  note d = lib_device_free [OF this, of "zv_dev (cf_zv c)" "cf_buf c" "lib_x s", folded x_def]
  have "lib_free c s = Some (s\<lparr>lb_world := lib_set_x x (lb_world s)\<rparr>)"
    by (simp add: lib_free_def zrocks_free_def xztl_media_dma_free_def znd_media_fns_def Let_def znd_media_dma_free_def lib_set_x_def x_def)
  then show ?thesis using lib_set_x_ok [OF assms d(2,3)] lib_set_x_log [where disk = disk, OF d(1)] lib_set_x_room [where s = s and x = x and level = level]
    by (intro exI [of _ "s\<lparr>lb_world := lib_set_x x (lb_world s)\<rparr>"] conjI)
qed

section \<open>Reads\<close>

lemma node_log_same: "disk (zr_x z') = disk (zr_x z) \<Longrightarrow> node_log disk pro node z' = node_log disk pro node z"
  by (simp add: node_log_def)

lemma node_can_be_read:
  assumes "lib_at c pend infl level n queue pro node tbl s" "get_at (pg_vnodes pro) k = Some nd" "0 < sz" "off + sz \<le> 32768 * nd_optimal_write_sec_used nd"
  shows "read_fits pro nd off sz"
proof (cases "k = n")
  case True
  then have "nd = node" using lib_at_node(2) [OF assms(1)] assms(2) by simp
  then show ?thesis using level_read_fits(1) [of "lb_md s" level n queue pro node tbl "lb_world s"] assms by (simp add: lib_at_def)
next
  case False
  then have "\<forall>z < 64. node_zone pro nd z = Some (nzone pro nd z)" "node_fits pro nd" "nd_optimal_write_sec_used nd \<le> ZTL_PRO_OPT_SEC_NUM_INNODE"
    using assms(1,2) by (auto simp: lib_at_def other_nodes_def Let_def)
  then show ?thesis using assms(3,4) by (simp add: read_fits_def)
qed

lemma rd_num_piece:
  assumes "po + n \<le> 32768 * num" "0 < n"
  shows "rd_num (32768 * start + po) n \<le> num"
proof -
  have "(32768 * start + po) div 32768 = start + po div 32768" by simp
  moreover have "(32768 * start + po + n + 32767) div 32768 \<le> (32768 * start + 32768 * num + 32767) div 32768" using assms(1) by (intro div_le_mono) simp
  moreover have "(32768 * start + 32768 * num + 32767) div 32768 = start + num" by simp
  ultimately show ?thesis unfolding rd_num_def by linarith
qed

lemma zm_node_id_bound: "zm_node_id m < 2 ^ 14"
  using take_bit_nat_less_exp [of 14 "unat m"] by (simp add: zm_node_id_def bf_get_def unsigned_take_bit_eq)

lemma lib_read_ok:
  assumes "lib_ok c disk pend infl level s" "piece_live (lib_log disk s) m" "0 < n" "po + n \<le> 32768 * zm_num m"
  shows "\<exists>s'. lib_read c (zm_node_id m) (32768 * zm_start m + po) n gc s =
      Some (0, take n (drop (32768 * zm_start m + po) (lib_log disk s (zm_node_id m))), s') \<and> lib_ok c disk pend infl level s' \<and>
    lib_log disk s' = lib_log disk s \<and> lib_room level s' = lib_room level s"
proof -
  obtain k queue pro node tbl where at: "lib_at c pend infl level k queue pro node tbl s" using assms(1) unfolding lib_ok_def by blast
  define off where "off = 32768 * zm_start m + po"
  have lv: "32768 * (zm_start m + zm_num m) \<le> length (lib_log disk s (zm_node_id m))" "zm_num m \<le> 1024" "0 < zm_num m"
    using assms(2) unfolding piece_live_def by auto
  obtain nd where nd: "get_at (pg_vnodes pro) (zm_node_id m) = Some nd" "lib_log disk s (zm_node_id m) = node_log disk pro nd (lb_world s)"
    using lv(1,3) lib_log_at [OF at, of disk "zm_node_id m"] by (cases "get_at (pg_vnodes pro) (zm_node_id m)") auto
  have off: "off + n \<le> 32768 * nd_optimal_write_sec_used nd" using lv(1) assms(4) unfolding nd(2) by (simp add: off_def)
  have dev: "zns_device (cf_xn c) (cf_dma c) disk pend infl 1024" "ucmd_sized (cf_ucmd0 c)" "270468 < cf_fuel c" "0 < cf_attempts c"
    using assms(1) by (simp_all add: lib_ok_def lib_device_def lib_sized_def)
  have num: "rd_num off n \<le> 1024" using rd_num_piece [OF assms(4,3), of "zm_start m"] lv(2) by (simp add: off_def)
  then have num': "rd_num off n \<le> ZTL_IO_RC_NUM" "rd_num off n < cf_fuel c" using dev(3) by simp_all
  have rd: "reads_idle (cf_zv c) pend (lb_world s)" "infl (lib_x s) = {#}" using at by (simp_all add: lib_at_def)
  have id: "zm_node_id m < 2 ^ 32" using zm_node_id_bound [of m] by simp
  obtain z' where z': "zrocks_read (cf_dma c) (cf_xn c) (lib_core c) (cf_zv c) (cf_fuel c) (cf_attempts c) (cf_ucmd0 c) (zm_node_id m) off (cf_buf c) n gc (lb_world s) =
      Some (xz XZTL_OK, z')"
    "\<forall>a. zr_mem z' a = (if cf_buf c \<le> a \<and> a < cf_buf c + n then disk (lib_x s) (byte_home pro nd (off + (a - cf_buf c))) else zr_mem (lb_world s) a)"
    "reads_idle (cf_zv c) pend z'" "read_effect disk infl (lb_world s) z'"
    using zrocks_read_one [OF dev(1) rd lib_at_node(1) [OF at] nd(1) node_can_be_read [OF at nd(1) assms(3) off] num'(1) num num'(2) dev(2) id dev(4)] by blast
  define s' where "s' = s\<lparr>lb_world := z'\<rparr>"
  have w: "lb_world s' = z'" by (simp add: s'_def)
  have e: "disk (zr_x z') = disk (lib_x s)" "infl (zr_x z') = {#}" "im_qp (zr_io z') = im_qp (zr_io (lb_world s))" "im_grp (zr_io z') = im_grp (zr_io (lb_world s))"
    using z'(4) by (simp_all add: read_effect_def)
  have "lib_read c (zm_node_id m) off n gc s = Some (0, take n (drop off (lib_log disk s (zm_node_id m))), s')"
    using z'(1) log_part [where disk = disk and mem = "zr_mem z'" and z = "lb_world s", OF off z'(2)] by (simp add: lib_read_def s'_def nd(2))
  moreover have at': "lib_at c pend infl level k queue pro node tbl s'"
    using at z'(3) e(2) level_after_read(1) [OF _ z'(4)] by (simp add: lib_at_def s'_def)
  moreover have "lib_log disk s' = lib_log disk s" "lib_room level s' = lib_room level s"
    using node_log_same [where disk = disk, OF e(1)] w
    by (simp_all add: fun_eq_iff lib_log_at [OF at] lib_log_at [OF at'] lib_room_at [OF at] lib_room_at [OF at'] split: option.splits)
  ultimately show ?thesis using assms(1) unfolding lib_ok_def off_def by blast
qed

section \<open>Writes\<close>

lemma other_home:
  assumes "zones_apart pro node node'" "node \<noteq> node'" "b < 32768 * ZTL_PRO_OPT_SEC_NUM_INNODE" "start + num \<le> ZTL_PRO_OPT_SEC_NUM_INNODE"
  shows "byte_home pro node' b \<notin> node_bytes pro node start num"
proof
  assume "byte_home pro node' b \<in> node_bytes pro node start num"
  then obtain c where c: "32768 * start \<le> c" "c < 32768 * (start + num)" "byte_home pro node' b = byte_home pro node c"
    by (auto simp: node_bytes_def)
  have d: "b div 32768 < ZTL_PRO_OPT_SEC_NUM_INNODE" "c div 32768 < start + num"
    using assms(3) c by (simp_all add: div_less_iff_less_mult mult.commute)
  have "slot_sector pro node (c div 32768) + 8 \<le> slot_sector pro node' (b div 32768) \<or> slot_sector pro node' (b div 32768) + 8 \<le> slot_sector pro node (c div 32768)"
    using d assms(2,4) by (intro slots_apart [OF assms(1)]) auto
  moreover have "4096 * slot_sector pro node' (b div 32768) + b mod 32768 = 4096 * slot_sector pro node (c div 32768) + c mod 32768"
    using c(3) by (simp add: byte_home_def)
  moreover have "b mod 32768 < 32768" "c mod 32768 < 32768" by simp_all
  ultimately show False by linarith
qed

lemma apart_frame:
  assumes "zones_apart pro node node'" "nd_id node \<noteq> nd_id node'" "nd_vzones nd = nd_vzones node" "pg_vzones pro' = pg_vzones pro"
  shows "zones_apart pro' nd node'"
proof -
  have "nzone pro' nd z = nzone pro node z" "nzone pro' node' z = nzone pro node' z" for z
    using nzone_frame [OF assms(3,4)] nzone_frame [of node' node', OF _ assms(4)] by simp_all
  moreover have "node \<noteq> node'" using assms(2) by auto
  ultimately show ?thesis using assms(1) unfolding zones_apart_def by simp
qed

lemma other_nodes_next:
  assumes "other_nodes pro n node" "nd_vzones nd = nd_vzones node" "nd_id nd = nd_id node"
  shows "other_nodes (pro\<lparr>pg_vnodes := (pg_vnodes pro)[n := nd]\<rparr>) n nd"
proof -
  let ?pro = "pro\<lparr>pg_vnodes := (pg_vnodes pro)[n := nd]\<rparr>"
  have f: "nzone ?pro node' z = nzone pro node' z" "node_fits ?pro node' = node_fits pro node'" "node_zone ?pro node' z = node_zone pro node' z" for node' z
    using nzone_frame [of node' node' ?pro pro] node_frame(3) [of node' node' ?pro pro] by (simp_all add: node_zone_def)
  show ?thesis using assms(1,3) apart_frame [OF _ _ assms(2), where pro = pro and pro' = ?pro] unfolding other_nodes_def by (simp add: f Let_def) metis
qed

lemma zone_wptr_same:
  assumes "other_wptrs pro node tbl tbl'" "zn_zmd_entry mz = Some i" "\<forall>z < 64. nent pro node z \<noteq> i"
  shows "zone_wptr tbl' mz = zone_wptr tbl mz"
proof (cases "i < length tbl")
  case True
  moreover have "ze_wptr (tbl' ! i) = ze_wptr (tbl ! i)" "length tbl' = length tbl" using assms True by (auto simp: other_wptrs_def)
  ultimately show ?thesis using assms(2) by (simp add: zone_wptr_def)
qed (use assms in \<open>simp add: zone_wptr_def other_wptrs_def get_at_def\<close>)

lemma meta_ok_next:
  assumes m: "meta_ok sz md tbl pro node" and n: "node \<in> set (pg_vnodes pro)" "nd_vzones nd = nd_vzones node"
    and t: "other_wptrs pro node tbl tbl'"
  shows "meta_ok sz md tbl' (pro\<lparr>pg_vnodes := (pg_vnodes pro)[n := nd]\<rparr>) nd"
proof -
  let ?pro = "pro\<lparr>pg_vnodes := (pg_vnodes pro)[n := nd]\<rparr>"
  obtain z0 z1 i0 i1 where z: "mt_zone_num md = 2" "mt_metadata_zone md = [z0, z1]" "mt_curr_zone_index md < 2" "g_sect (zn_addr z0) \<noteq> g_sect (zn_addr z1)"
      "zn_zmd_entry z0 = Some i0" "zn_zmd_entry z1 = Some i1" "i0 < length tbl" "i1 < length tbl" "i0 \<noteq> i1"
      "\<forall>z < 64. nent pro node z \<noteq> i0 \<and> nent pro node z \<noteq> i1" using m unfolding meta_ok_def by blast
  have f: "nzone ?pro nd z = nzone pro node z" "nent ?pro nd z = nent pro node z" "nzone ?pro node' z = nzone pro node' z" for z node'
    using nzone_frame [OF n(2), of ?pro pro] nzone_frame [of node' node' ?pro pro] by simp_all
  have ap: "zone_apart sz mz ?pro node'" if "mz \<in> set (mt_metadata_zone md)" "node' \<in> set (pg_vnodes ?pro)" for mz node'
  proof -
    have "\<forall>node' \<in> set (pg_vnodes pro). zone_apart sz mz pro node'" using m that(1) unfolding meta_ok_def by blast
    moreover have "node' = nd \<or> node' \<in> set (pg_vnodes pro)" using that(2) set_update_subset_insert [of "pg_vnodes pro" n nd] by auto
    ultimately consider "node' = nd" "zone_apart sz mz pro node" | "zone_apart sz mz pro node'" using n(1) by blast
    then show ?thesis unfolding zone_apart_def by cases (simp_all only: f(3) nzone_frame(1) [OF n(2) refl])
  qed
  have w: "zone_wptr tbl' mz = zone_wptr tbl mz" if "mz \<in> set (mt_metadata_zone md)" for mz
    using that z zone_wptr_same [OF t] by auto
  have i: "mt_metadata_zone md ! mt_curr_zone_index md \<in> set (mt_metadata_zone md)" using z(2,3) by (simp add: less_Suc_eq numeral_2_eq_2) auto
  have len: "length tbl' = length tbl" using t by (simp add: other_wptrs_def)
  show ?thesis using m ap unfolding meta_ok_def w [OF i] len f by blast
qed

lemma lib_device_poke:
  assumes "lib_device c disk pend infl"
  shows "cf_dma c (cf_poke c a bs x) = (\<lambda>b. if a \<le> b \<and> b < a + length bs then bs ! (b - a) else cf_dma c x b)"
    "disk (cf_poke c a bs x) = disk x" "pend (cf_poke c a bs x) = pend x" "infl (cf_poke c a bs x) = infl x"
  using assms [unfolded lib_device_def, THEN conjunct2, THEN conjunct1, rule_format, of a bs x] by simp_all

lemma buffer_poked:
  assumes "lib_device c disk pend infl" "length data \<le> sz"
  shows "take (length data) (buffer (cf_dma c (cf_poke c a data x)) a sz) = data"
  using assms(2) by (intro nth_equalityI) (simp_all add: buffer_def lib_device_poke [OF assms(1)])

lemma fuel_bound: "k \<le> 1024 \<Longrightarrow> (2 * k + 1) * (2 * min k 64 + 4) \<le> (270468 :: nat)"
proof -
  assume "k \<le> 1024"
  then have "(2 * k + 1) * (2 * min k 64 + 4) \<le> 2049 * 132" by (intro mult_mono) simp_all
  then show ?thesis by simp
qed

text \<open>The logs after a write of \<open>num\<close> slots from the buffer: that of the node grows, the others stay.\<close>

lemma logs_after_write:
  assumes at: "lib_at c pend infl level n queue pro node tbl s" and num: "num \<le> nd_optimal_write_sec_left node"
    and eff: "write_effect (cf_dma c) disk pend infl (lb_md s) level n queue pro node num buf (lb_world s) (lb_world s')"
    and at': "lib_at c pend infl level n queue (pro\<lparr>pg_vnodes := (pg_vnodes pro)[n := node_next level num node]\<rparr>) (node_next level num node) tbl' s'"
  shows "lib_log disk s' k = (if k = n then lib_log disk s n @ buffer (cf_dma c (lib_x s)) buf (32768 * num) else lib_log disk s k)"
proof -
  let ?nd = "node_next level num node"
  let ?pro = "pro\<lparr>pg_vnodes := (pg_vnodes pro)[n := ?nd]\<rparr>"
  have lv: "level_at (lb_md s) level n queue pro node tbl (lb_world s)" using at by (simp add: lib_at_def)
  have n: "n < length (pg_vnodes pro)" "pg_vnodes pro ! n = node" "nd_id node = n" using lib_at_node [OF at] by simp_all
  have fit: "nd_optimal_write_sec_used node + num \<le> ZTL_PRO_OPT_SEC_NUM_INNODE" using lv num by (force simp: level_at_def write_node_def)
  have wr: "written_at pro node (nd_optimal_write_sec_used node) num buf (cf_dma c (lib_x s)) (disk (lib_x s)) (disk (lib_x s'))"
    using eff by (simp add: write_effect_def)
  have other: "node_log disk ?pro nd (lb_world s') = node_log disk pro nd (lb_world s)" if k: "k < length (pg_vnodes pro)" "k \<noteq> n" "nd = pg_vnodes pro ! k" for nd
  proof -
    have o: "nd_id nd \<noteq> nd_id node" "nd_optimal_write_sec_used nd \<le> ZTL_PRO_OPT_SEC_NUM_INNODE" "zones_apart pro node nd"
      using at k unfolding lib_at_def other_nodes_def by (simp_all add: Let_def)
    have "byte_home pro nd b \<notin> node_bytes pro node (nd_optimal_write_sec_used node) num" if "b < 32768 * nd_optimal_write_sec_used nd" for b
      using that o(1,2) by (intro other_home [OF o(3) _ _ fit]) auto
    then have "disk (lib_x s') (byte_home pro nd b) = disk (lib_x s) (byte_home pro nd b)" if "b < 32768 * nd_optimal_write_sec_used nd" for b
      using wr that unfolding written_at_def by blast
    moreover have "byte_home ?pro nd b = byte_home pro nd b" for b using node_frame(6) [of nd nd ?pro pro] by (simp add: byte_home_def)
    ultimately show ?thesis by (simp add: node_log_def)
  qed
  show ?thesis
  proof (cases "k = n")
    case True
    then show ?thesis using log_after_write [OF lv num eff] n by (simp add: lib_log_at [OF at] lib_log_at [OF at'])
  next
    case False
    then show ?thesis using other by (cases "k < length (pg_vnodes pro)") (simp_all add: lib_log_at [OF at] lib_log_at [OF at'] get_at_def)
  qed
qed

lemma lib_write_ok:
  assumes "lib_ok c disk pend infl level s" "0 < length data" "length data \<le> ZNS_MAX_BUF" "slots_of (length data) \<le> lib_room level s l"
  shows "\<exists>ms s'. lib_write c data l gc s = Some (0, ms, s') \<and> lib_ok c disk pend infl level s' \<and> grows (lib_log disk s) (lib_log disk s') \<and>
    (\<forall>m \<in> set ms. piece_live (lib_log disk s') m) \<and> pieces_bytes (lib_log disk s') ms = data \<and> length ms \<le> 2 \<and>
    lib_room level s' l = lib_room level s l - slots_of (length data)"
proof -
  let ?sz = "length data" and ?num = "slots_of (length data)"
  obtain n queue pro node tbl where dev: "lib_device c disk pend infl" "lib_sized c" and at0: "lib_at c pend infl level n queue pro node tbl s" using assms(1) by (rule lib_okE)
  define s1 where "s1 = s\<lparr>lb_world := lib_set_x (cf_poke c (cf_buf c) data (lib_x s)) (lb_world s)\<rparr>"
  note poke = lib_device_poke [OF dev(1), of "cf_buf c" data "lib_x s"]
  have at: "lib_at c pend infl level n queue pro node tbl s1" unfolding s1_def by (rule lib_set_x_at [OF at0 poke(3,4)])
  have log1: "lib_log disk s1 = lib_log disk s" unfolding s1_def by (rule lib_set_x_log [OF poke(2)])
  have w1: "lb_md s1 = lb_md s" "lib_x s1 = cf_poke c (cf_buf c) data (lib_x s)" by (simp_all add: s1_def)
  have pos: "0 < ?num" using assms(2) by (cases data) (simp_all add: slots_of_def div_greater_zero_iff)
  then have l: "write_level l = level" and room: "?num \<le> nd_optimal_write_sec_left node" "lib_room level s l = nd_optimal_write_sec_left node"
    using assms(4) lib_room_at [OF at0, of l] by (simp_all split: if_splits)
  have sz: "?sz \<le> 32768 * XZTL_WIO_MAX_MCMD" using assms(3) by simp
  note ws = write_size_eq [OF sz]
  have cf: "zns_device (cf_xn c) (cf_dma c) disk pend infl 1024" "ge_nbytes (zv_geo (cf_zv c)) = 4096" "ucmd_sized (cf_ucmd0 c)"
    "cf_buf c + write_size ?sz < 2 ^ 64" "(2 * ?num + 1) * (2 * min ?num 64 + 4) < cf_fuel c" "0 < cf_turns c"
    using dev fuel_bound [of ?num] ws(1,4) by (auto simp: lib_device_def lib_sized_def)
  have lv: "level_at (lb_md s) level n queue pro node tbl (lb_world s1)" "infl (lib_x s1) = {#}" "n < 2 ^ 14" "reads_idle (cf_zv c) pend (lb_world s1)"
    using at w1 by (simp_all add: lib_at_def)
  define m where "m = piece_map n (nd_optimal_write_sec_used node) ?num (write_size ?sz - ?sz) 0"
  obtain z' where z': "zrocks_write (cf_xn c) (lib_core c) (lb_md s) (cf_misc0 c) (cf_fuel c) (cf_turns c) (cf_ucmd0 c) (cf_buf c) ?sz l [0, 0] gc (lb_world s1) =
      Some (xz XZTL_OK, [m, 0], 1, z')"
    "write_effect (cf_dma c) disk pend infl (lb_md s) level n queue pro node ?num (cf_buf c) (lb_world s1) z'"
    using zrocks_write_one [OF cf(1) lv(1) cf(3) l lv(2) cf(2) assms(2) sz room(1) cf(4-6), of "[0, 0]" "cf_misc0 c" gc] by (auto simp: m_def)
  define s' where "s' = s\<lparr>lb_world := z'\<rparr>"
  have run: "lib_write c data l gc s = Some (0, [m], s')" using z'(1) by (simp add: lib_write_def Let_def s'_def s1_def)
  let ?nd = "node_next level ?num node"
  let ?pro = "pro\<lparr>pg_vnodes := (pg_vnodes pro)[n := ?nd]\<rparr>"
  obtain tbl' where t: "other_wptrs pro node tbl tbl'" "level_at (lb_md s) level n queue ?pro ?nd tbl' z'"
    using z'(2) lib_at_node(4) [OF at] unfolding write_effect_def by auto
  have n: "n < length (pg_vnodes pro)" "pg_vnodes pro ! n = node" using lib_at_node(2) [OF at] by simp_all
  then have nin: "node \<in> set (pg_vnodes pro)" by (metis nth_mem)
  have at': "lib_at c pend infl level n queue ?pro ?nd tbl' s'"
    using at t(2) other_nodes_next [of pro n node ?nd] meta_ok_next [OF _ nin _ t(1), of _ _ ?nd n] reads_after_write [OF lv(4) z'(2)] z'(2) w1
    unfolding lib_at_def s'_def by (auto simp: write_effect_def level_at_def)
  have eff: "write_effect (cf_dma c) disk pend infl (lb_md s1) level n queue pro node ?num (cf_buf c) (lb_world s1) (lb_world s')" using z'(2) by (simp add: s'_def w1)
  note logs = logs_after_write [OF at room(1) eff at', unfolded log1 w1]
  have used: "length (lib_log disk s n) = 32768 * nd_optimal_write_sec_used node" using lib_at_node(2) [OF at0] by (simp add: lib_log_at [OF at0])
  have "nd_optimal_write_sec_used node < 2 ^ 22" "?num < 2 ^ 11" "write_size ?sz - ?sz < 2 ^ 16" using slots_bound [OF lv(1) room(1) assms(2)] ws by simp_all
  note mr = piece_map_read [OF lv(3) this, of 0, folded m_def]
  have "32768 * ?num - ?sz < 32768 * ?num" using pos assms(2) by (intro diff_less) simp_all
  then have live: "piece_live (lib_log disk s') m" using mr ws used logs [of n] by (simp add: piece_live_def)
  have "piece_bytes (lib_log disk s') m = take ?sz (buffer (cf_dma c (cf_poke c (cf_buf c) data (lib_x s))) (cf_buf c) (32768 * ?num))"
    using piece_size_ok [OF live] mr ws used logs [of n] by (simp add: piece_bytes_def)
  then have "pieces_bytes (lib_log disk s') [m] = data" using buffer_poked [OF dev(1), of data "32768 * ?num" "cf_buf c" "lib_x s"] ws by (simp add: pieces_bytes_def)
  moreover have "grows (lib_log disk s) (lib_log disk s')" using logs by (simp add: grows_def)
  moreover have "lib_room level s' l = lib_room level s l - ?num" using l room(2) lib_room_at [OF at', of l] by simp
  ultimately show ?thesis using run live lib_okI [OF dev at'] by (intro exI [of _ "[m]"] exI [of _ s']) simp
qed

section \<open>Metadata\<close>

lemma md_write_submit_keeps:
  assumes "\<forall>a nlb bs x ret bad x'. nvm a nlb bs x = (ret, bad, x') \<longrightarrow> f x' = f x" "md_write_submit nvm slba nlb data err k io x = Some (err', io', x')"
  shows "f x' = f x \<and> length io' = length io"
  using assms(2)
proof (induction k arbitrary: err io x)
  case (Suc k)
  obtain ret bad x1 where w: "nvm slba nlb data x = (ret, bad, x1)" by (metis prod_cases3)
  then have "f x1 = f x" using assms(1) by blast
  then show ?case using Suc w by (auto simp: xztl_stats_inc_def set_at_def split: if_splits bind_splits option.splits)
qed simp

lemma write_metadata_loop_keeps:
  assumes "\<forall>a nlb bs x ret bad x'. nvm a nlb bs x = (ret, bad, x') \<longrightarrow> f x' = f x"
    "write_metadata_loop nvm nbytes zone data len tbl io x = Some (err', tbl', io', x')"
  shows "f x' = f x \<and> length io' = length io"
  using assms(2)
proof (induction len arbitrary: data tbl io x rule: less_induct)
  case (less len)
  show ?case
  proof (cases "len = 0")
    case False
    define k where "k = (if len > 64 * 4096 then 64 * 4096 else len)"
    have eq: "write_metadata_loop nvm nbytes zone data len tbl io x = do {
        wptr \<leftarrow> zone_wptr tbl zone;
        (err, io1, x1) \<leftarrow> md_write_submit nvm wptr (usub 16 (u16 (k div nbytes)) 1) data 0 3 io x;
        if err \<noteq> 0 then Some (err, tbl, io1, x1)
        else do {
          tbl1 \<leftarrow> set_zone_wptr tbl zone (u64 (wptr + u16 (k div nbytes)));
          write_metadata_loop nvm nbytes zone (drop k data) (len - k) tbl1 io1 x1 } }"
      using False by (subst write_metadata_loop.simps) (simp only: Let_def k_def if_False)
    obtain wptr err io1 x1 where s: "md_write_submit nvm wptr (usub 16 (u16 (k div nbytes)) 1) data 0 3 io x = Some (err, io1, x1)"
      "io' = io1 \<and> x' = x1 \<or> (\<exists>tbl1. write_metadata_loop nvm nbytes zone (drop k data) (len - k) tbl1 io1 x1 = Some (err', tbl', io', x'))"
      using less.prems [unfolded eq] by (auto simp: bind_eq_Some_conv split: if_splits) blast
    have k: "len - k < len" using False by (simp add: k_def)
    have "f x1 = f x \<and> length io1 = length io" using md_write_submit_keeps [OF assms(1) s(1)] .
    then show ?thesis using less.IH [OF k] s(2) by auto
  qed (use less.prems in \<open>simp add: write_metadata_loop.simps\<close>)
qed

lemma blocks_bytes: "blocks disk x' (a div 4096) = blocks disk x (a div 4096) \<Longrightarrow> disk x' a = disk x a"
proof -
  assume "blocks disk x' (a div 4096) = blocks disk x (a div 4096)"
  then have "blocks disk x' (a div 4096) ! (a mod 4096) = blocks disk x (a div 4096) ! (a mod 4096)" by simp
  then show ?thesis by (simp add: blocks_def)
qed

text \<open>The effect of a write of metadata: the entries and the sectors of the nodes stay.\<close>

definition meta_effect ::
    "nat \<Rightarrow> ('x \<Rightarrow> nat \<Rightarrow> nat) \<Rightarrow> ('x \<Rightarrow> 'k) \<Rightarrow> ztl_metadata \<Rightarrow> app_zmd_entry list \<Rightarrow> 'x \<Rightarrow> ztl_metadata \<Rightarrow> app_zmd_entry list \<Rightarrow> 'x \<Rightarrow> bool" where
  "meta_effect sz disk keep md tbl x md' tbl' x' \<longleftrightarrow> mt_zone_num md' = mt_zone_num md \<and> mt_metadata_zone md' = mt_metadata_zone md \<and> length tbl' = length tbl \<and>
     (\<forall>i. (\<forall>mz \<in> set (mt_metadata_zone md). zn_zmd_entry mz \<noteq> Some i) \<longrightarrow> tbl' ! i = tbl ! i) \<and> keep x' = keep x \<and>
     (\<forall>a. (\<forall>mz \<in> set (mt_metadata_zone md). a < 4096 * g_sect (zn_addr mz) \<or> 4096 * (g_sect (zn_addr mz) + sz) \<le> a) \<longrightarrow> disk x' a = disk x a)"

lemma meta_ok_put:
  assumes "meta_ok sz md tbl pro node" "k < 2" "length tbl' = length tbl"
    "\<And>w. zone_wptr tbl' (mt_metadata_zone md ! k) = Some w \<Longrightarrow> g_sect (zn_addr (mt_metadata_zone md ! k)) \<le> w \<and>
       w < g_sect (zn_addr (mt_metadata_zone md ! k)) + zn_capacity (mt_metadata_zone md ! k)"
  shows "meta_ok sz (md\<lparr>mt_curr_zone_index := k\<rparr>) tbl' pro node"
  using assms unfolding meta_ok_def by auto

lemma meta_ok_zones:
  assumes "meta_ok sz md tbl pro node"
  obtains z0 z1 ci ni where "mt_zone_num md = 2" "mt_metadata_zone md = [z0, z1]" "mt_curr_zone_index md < 2" "g_sect (zn_addr z0) \<noteq> g_sect (zn_addr z1)"
    "zn_zmd_entry ([z0, z1] ! mt_curr_zone_index md) = Some ci" "zn_zmd_entry ([z0, z1] ! (1 - mt_curr_zone_index md)) = Some ni"
    "ci < length tbl" "ni < length tbl" "[z0, z1] ! mt_curr_zone_index md \<in> set (mt_metadata_zone md)" "[z0, z1] ! (1 - mt_curr_zone_index md) \<in> set (mt_metadata_zone md)"
proof -
  obtain z0 z1 i0 i1 where z: "mt_zone_num md = 2" "mt_metadata_zone md = [z0, z1]" "mt_curr_zone_index md < 2" "g_sect (zn_addr z0) \<noteq> g_sect (zn_addr z1)"
    "zn_zmd_entry z0 = Some i0" "zn_zmd_entry z1 = Some i1" "i0 < length tbl" "i1 < length tbl" using assms unfolding meta_ok_def by blast
  consider "mt_curr_zone_index md = 0" | "mt_curr_zone_index md = 1" using z(3) by linarith
  then show thesis using z that [of z0 z1] by cases simp_all
qed

lemma meta_ok_zone:
  assumes "meta_ok sz md tbl pro node" "mz \<in> set (mt_metadata_zone md)"
  shows "0 < zn_capacity mz" "zn_capacity mz \<le> sz" "g_sect (zn_addr mz) + zn_capacity mz < 2 ^ 63" "\<forall>node' \<in> set (pg_vnodes pro). zone_apart sz mz pro node'"
  using assms unfolding meta_ok_def by blast+

lemma meta_ok_wptr:
  assumes "meta_ok sz md tbl pro node" "zone_wptr tbl (mt_metadata_zone md ! mt_curr_zone_index md) = Some w"
  shows "g_sect (zn_addr (mt_metadata_zone md ! mt_curr_zone_index md)) \<le> w"
    "w < g_sect (zn_addr (mt_metadata_zone md ! mt_curr_zone_index md)) + zn_capacity (mt_metadata_zone md ! mt_curr_zone_index md)"
  using assms unfolding meta_ok_def by blast+

lemma lib_device_meta:
  assumes "lib_device c disk pend infl"
  shows "nvm_write_law (blocks disk) (cf_nvm_write c)"
    "\<forall>a nlb bs x ret bad x'. cf_nvm_write c a nlb bs x = (ret, bad, x') \<longrightarrow> (pend x', infl x') = (pend x, infl x)"
    "pend (snd (cf_reset c a x)) = pend x \<and> infl (snd (cf_reset c a x)) = infl x \<and>
      (\<forall>b. b < 4096 * a \<or> 4096 * (a + ge_sec_zn (zv_geo (cf_zv c))) \<le> b \<longrightarrow> disk (snd (cf_reset c a x)) b = disk x b)"
proof -
  note d = assms [unfolded lib_device_def, THEN conjunct2, THEN conjunct2]
  show "nvm_write_law (blocks disk) (cf_nvm_write c)" using d by (rule conjunct1)
  show "\<forall>a nlb bs x ret bad x'. cf_nvm_write c a nlb bs x = (ret, bad, x') \<longrightarrow> (pend x', infl x') = (pend x, infl x)"
    using d [THEN conjunct2, THEN conjunct1] by simp
  show "pend (snd (cf_reset c a x)) = pend x \<and> infl (snd (cf_reset c a x)) = infl x \<and>
      (\<forall>b. b < 4096 * a \<or> 4096 * (a + ge_sec_zn (zv_geo (cf_zv c))) \<le> b \<longrightarrow> disk (snd (cf_reset c a x)) b = disk x b)"
    using d [THEN conjunct2, THEN conjunct2, THEN conjunct1, rule_format, of a x "fst (cf_reset c a x)" "snd (cf_reset c a x)"] by simp
qed

lemma write_meta_ok:
  assumes m: "meta_ok sz md tbl pro node" and dev: "lib_device c disk pend infl" and sz: "sz = ge_sec_zn (zv_geo (cf_zv c))"
    and io: "length io = XZTL_STATS_IO_TYPES" and n: "n < 2 ^ 20"
  shows "\<exists>ret md' tbl' io' x'. zrocks_write_file_metadata (cf_nvm_write c) (cf_reset c) 4096 bs (n * 4096) md tbl io x = Some (ret, md', tbl', io', x') \<and>
    meta_ok sz md' tbl' pro node \<and> length io' = XZTL_STATS_IO_TYPES \<and> meta_effect sz disk (\<lambda>x. (pend x, infl x)) md tbl x md' tbl' x'"
proof -
  obtain z0 z1 ci ni where z: "mt_zone_num md = 2" "mt_metadata_zone md = [z0, z1]" "mt_curr_zone_index md < 2" "g_sect (zn_addr z0) \<noteq> g_sect (zn_addr z1)"
    "zn_zmd_entry ([z0, z1] ! mt_curr_zone_index md) = Some ci" "zn_zmd_entry ([z0, z1] ! (1 - mt_curr_zone_index md)) = Some ni"
    "ci < length tbl" "ni < length tbl" "[z0, z1] ! mt_curr_zone_index md \<in> set (mt_metadata_zone md)" "[z0, z1] ! (1 - mt_curr_zone_index md) \<in> set (mt_metadata_zone md)"
    using m by (rule meta_ok_zones)
  define cur new where "cur = [z0, z1] ! mt_curr_zone_index md" and "new = [z0, z1] ! (1 - mt_curr_zone_index md)"
  note z = z [folded cur_def new_def]
  have mz: "mt_metadata_zone md ! mt_curr_zone_index md = cur" "mt_metadata_zone md ! (1 - mt_curr_zone_index md) = new" using z(2) by (simp_all add: cur_def new_def)
  define w where "w = ze_wptr (tbl ! ci)"
  have wp: "zone_wptr tbl cur = Some w" using z(5,7) by (simp add: zone_wptr_Some w_def)
  have wr: "g_sect (zn_addr cur) \<le> w" "w < g_sect (zn_addr cur) + zn_capacity cur" using meta_ok_wptr [OF m] wp mz by simp_all
  note cz = meta_ok_zone [OF m z(9)] and nz = meta_ok_zone [OF m z(10)]
  have u: "u64 (w + n * 4096 div 4096) = w + n" "u64 (g_sect (zn_addr cur) + zn_capacity cur) = g_sect (zn_addr cur) + zn_capacity cur"
    using wr cz n by (simp_all add: u64_small)
  show ?thesis
  proof (cases "w + n < g_sect (zn_addr cur) + zn_capacity cur")
    case False
    define tbl' where "tbl' = tbl[ni := (tbl ! ni)\<lparr>ze_wptr := g_sect (zn_addr new)\<rparr>]"
    define x' where "x' = snd (cf_reset c (g_sect (zn_addr new)) x)"
    have run: "zrocks_write_file_metadata (cf_nvm_write c) (cf_reset c) 4096 bs (n * 4096) md tbl io x =
        Some (xz XZTL_ZTL_MD_WRITE_FULL, md\<lparr>mt_curr_zone_index := 1 - mt_curr_zone_index md\<rparr>, tbl', io, x')"
      unfolding tbl'_def x'_def using False u by (intro write_meta_full [OF z(1-4) cur_def new_def z(6,8) wp]) simp_all
    have "zone_wptr tbl' new = Some (g_sect (zn_addr new))" using z(6,8) by (simp add: zone_wptr_Some tbl'_def)
    then have "meta_ok sz (md\<lparr>mt_curr_zone_index := 1 - mt_curr_zone_index md\<rparr>) tbl' pro node"
      using nz(1) mz by (intro meta_ok_put [OF m]) (simp_all add: tbl'_def)
    moreover have "tbl' ! i = tbl ! i" if "\<forall>mz \<in> set (mt_metadata_zone md). zn_zmd_entry mz \<noteq> Some i" for i
      using that z(6,10) by (cases "i = ni") (auto simp: tbl'_def)
    then have "meta_effect sz disk (\<lambda>x. (pend x, infl x)) md tbl x (md\<lparr>mt_curr_zone_index := 1 - mt_curr_zone_index md\<rparr>) tbl' x'"
      using lib_device_meta(3) [OF dev, of "g_sect (zn_addr new)" x] z(10) unfolding meta_effect_def x'_def sz by (simp add: tbl'_def) blast
    ultimately show ?thesis using run io by blast
  next
    case True
    have "mt_curr_zone_index md < length (mt_metadata_zone md)" using z(2,3) by simp
    note nf = write_file_metadata_not_full [OF this mz(1) z(5,7) True [unfolded w_def] order.strict_trans [OF cz(3)], of "cf_nvm_write c" "cf_reset c" bs io x]
    have "ze_wptr (tbl ! ci) + n < 2 ^ 64" using True cz(3) by (simp add: w_def)
    from write_metadata_loop_correct [OF lib_device_meta(1) [OF dev] z(5,7) io this, of bs x]
    obtain err tbl' io' x' k where r: "write_metadata_loop (cf_nvm_write c) 4096 cur bs (n * 4096) tbl io x = Some (err, tbl', io', x')" "k \<le> n"
      "tbl' = tbl[ci := (tbl ! ci)\<lparr>ze_wptr := w + k\<rparr>]" "\<forall>b. b < w \<or> w + n \<le> b \<longrightarrow> blocks disk x' b = blocks disk x b" unfolding w_def by blast
    note kp = write_metadata_loop_keeps [OF lib_device_meta(2) [OF dev] r(1)]
    have "zone_wptr tbl' cur = Some (w + k)" using z(5,7) by (simp add: zone_wptr_Some r(3))
    then have "meta_ok sz (md\<lparr>mt_curr_zone_index := mt_curr_zone_index md\<rparr>) tbl' pro node"
      using wr(1) r(2) True mz z(3) by (intro meta_ok_put [OF m]) (simp_all add: r(3))
    moreover have "tbl' ! i = tbl ! i" if "\<forall>mz \<in> set (mt_metadata_zone md). zn_zmd_entry mz \<noteq> Some i" for i
      using that z(5,9) by (cases "i = ci") (auto simp: r(3))
    moreover have "disk x' a = disk x a" if "a < 4096 * g_sect (zn_addr cur) \<or> 4096 * (g_sect (zn_addr cur) + sz) \<le> a" for a
    proof (rule blocks_bytes [of disk], rule r(4) [rule_format])
      show "a div 4096 < w \<or> w + n \<le> a div 4096" using that True wr(1) cz(2) by (auto simp: div_less_iff_less_mult less_eq_div_iff_mult_less_eq)
    qed
    ultimately have "meta_ok sz md tbl' pro node" "meta_effect sz disk (\<lambda>x. (pend x, infl x)) md tbl x md tbl' x'"
      using kp z(9) by (simp_all add: meta_effect_def r(3))
    then show ?thesis using nf r(1) kp io by (auto simp: mz)
  qed
qed

lemma home_apart:
  assumes "zone_apart sz mz pro nd" "b < 32768 * ZTL_PRO_OPT_SEC_NUM_INNODE"
  shows "byte_home pro nd b < 4096 * g_sect (zn_addr mz) \<or> 4096 * (g_sect (zn_addr mz) + sz) \<le> byte_home pro nd b"
proof -
  define j where "j = b div 32768"
  let ?s = "g_sect (zn_addr (nzone pro nd (j mod 64)))"
  have "j < 196608" using assms(2) by (simp add: j_def div_less_iff_less_mult)
  then have j: "j div 64 < 3072" by (simp add: div_less_iff_less_mult)
  define d r where "d = j div 64" and "r = b mod 32768"
  have h: "byte_home pro nd b = 4096 * ?s + 32768 * d + r" by (simp add: byte_home_def slot_sector_def j_def d_def r_def)
  have r: "r < 32768" "d < 3072" using j by (simp_all add: d_def r_def)
  consider "g_sect (zn_addr mz) + sz \<le> ?s" | "?s + 24576 \<le> g_sect (zn_addr mz)"
    using assms(1) [unfolded zone_apart_def, rule_format, of "j mod 64"] by auto
  then show ?thesis
  proof cases
    case 1
    then show ?thesis unfolding h using mult_le_mono2 [OF 1, of 4096] by (intro disjI2) linarith
  next
    case 2
    then show ?thesis unfolding h using r by (intro disjI1) linarith
  qed
qed

lemma node_log_meta:
  assumes e: "meta_effect sz disk keep md tbl x md' tbl' x'" and m: "meta_ok sz md tbl pro node" and nd: "nd \<in> set (pg_vnodes pro)"
    "nd_optimal_write_sec_used nd \<le> ZTL_PRO_OPT_SEC_NUM_INNODE" and z: "zr_x z = x" "zr_x z' = x'"
  shows "node_log disk pro nd z' = node_log disk pro nd z"
proof -
  have "disk x' (byte_home pro nd b) = disk x (byte_home pro nd b)" if "b < 32768 * nd_optimal_write_sec_used nd" for b
  proof -
    have b: "b < 32768 * ZTL_PRO_OPT_SEC_NUM_INNODE" using that nd(2) by simp
    have "\<forall>mz \<in> set (mt_metadata_zone md). byte_home pro nd b < 4096 * g_sect (zn_addr mz) \<or> 4096 * (g_sect (zn_addr mz) + sz) \<le> byte_home pro nd b"
      using home_apart [OF _ b] meta_ok_zone(4) [OF m] nd(1) by blast
    then show ?thesis using e unfolding meta_effect_def by blast
  qed
  then show ?thesis using z by (simp add: node_log_def)
qed

lemma meta_level_at:
  assumes at: "lib_at c pend infl level n queue pro node tbl s" and e: "meta_effect sz disk keep (lb_md s) tbl x md' tbl' x'"
    and io: "length io = XZTL_STATS_IO_TYPES" and m: "meta_ok sz (lb_md s) tbl pro node"
  shows "level_at md' level n queue pro node tbl' (lb_world (lib_put_meta md' tbl' io x' s))"
proof -
  have same: "tbl' ! nent pro node z = tbl ! nent pro node z" if "z < 64" for z
  proof -
    have "\<forall>mz \<in> set (mt_metadata_zone (lb_md s)). zn_zmd_entry mz \<noteq> Some (nent pro node z)" using m that unfolding meta_ok_def by fastforce
    then show ?thesis using e unfolding meta_effect_def by blast
  qed
  then have f: "node_at pro tbl' node u = node_at pro tbl node u" "node_written pro tbl' node u = node_written pro tbl node u" for u
    by (simp_all add: node_at_def node_written_def)
  have md: "length tbl' = length tbl" "node_numbered md' pro node = node_numbered (lb_md s) pro node"
    using e by (simp_all add: meta_effect_def node_numbered_def get_metadata_zone_num_def)
  have "write_node md' (level_world level u (lb_world (lib_put_meta md' tbl' io x' s))) n pro node tbl'" for u
    using at f md by (simp add: lib_at_def level_at_def write_node_def level_world_def lib_put_meta_def Let_def)
  then show ?thesis using at io by (simp add: lib_at_def level_at_def lib_put_meta_def Let_def)
qed

lemma lib_write_meta_ok:
  assumes "lib_ok c disk pend infl level s" "length bs mod ZNS_ALIGMENT = 0"
  shows "\<exists>ret s'. lib_write_meta c bs s = Some (ret, s') \<and> lib_ok c disk pend infl level s' \<and> lib_log disk s' = lib_log disk s \<and> lib_room level s' = lib_room level s"
proof -
  obtain n queue pro node tbl where dev: "lib_device c disk pend infl" "lib_sized c" and at: "lib_at c pend infl level n queue pro node tbl s" using assms(1) by (rule lib_okE)
  let ?sz = "ge_sec_zn (zv_geo (cf_zv c))"
  have m: "meta_ok ?sz (lb_md s) tbl pro node" and io: "length (ms_io (zr_media (lb_world s))) = XZTL_STATS_IO_TYPES" using at by (simp_all add: lib_at_def level_at_def)
  define k where "k = length bs div 4096 mod 2 ^ 20"
  have len: "u32 (length bs) = k * 4096" "k < 2 ^ 20"
    using assms(2) mult_mod_right [of 4096 "length bs div 4096" "2 ^ 20"] by (auto simp: k_def take_bit_eq_mod mult.commute)
  obtain ret md' tbl' io' x' where w: "zrocks_write_file_metadata (cf_nvm_write c) (cf_reset c) 4096 bs (k * 4096) (lb_md s) tbl (ms_io (zr_media (lb_world s))) (lib_x s) =
      Some (ret, md', tbl', io', x')" "meta_ok ?sz md' tbl' pro node" "length io' = XZTL_STATS_IO_TYPES"
    "meta_effect ?sz disk (\<lambda>x. (pend x, infl x)) (lb_md s) tbl (lib_x s) md' tbl' x'"
    using write_meta_ok [OF m dev(1) refl io len(2), of bs "lib_x s"] by blast
  define s' where "s' = lib_put_meta md' tbl' io' x' s"
  have run: "lib_write_meta c bs s = Some (ret, s')"
    using w(1) len(1) lib_at_node(4) [OF at] dev(2) by (simp add: lib_write_meta_def lib_sized_def s'_def)
  have e: "lib_x s' = x'" "lb_md s' = md'" "pend x' = pend (lib_x s)" "infl x' = infl (lib_x s)" "im_rr (zr_io (lb_world s')) = im_rr (zr_io (lb_world s))"
    "ms_tctx (zr_media (lb_world s')) = ms_tctx (zr_media (lb_world s))" "ms_io (zr_media (lb_world s')) = io'"
    using w(4) by (simp_all add: meta_effect_def s'_def lib_put_meta_def Let_def)
  have at': "lib_at c pend infl level n queue pro node tbl' s'"
    using at e w(2,3) meta_level_at [OF at w(4,3) m] unfolding lib_at_def reads_idle_def s'_def [symmetric] by simp
  have used: "nd_optimal_write_sec_used nd \<le> ZTL_PRO_OPT_SEC_NUM_INNODE" if "i < length (pg_vnodes pro)" "nd = pg_vnodes pro ! i" for nd i
  proof (cases "i = n")
    case True
    then show ?thesis using at that lib_at_node(2) [OF at] by (force simp: lib_at_def level_at_def write_node_def)
  next
    case False
    then show ?thesis using at that by (simp add: lib_at_def other_nodes_def Let_def)
  qed
  have log: "lib_log disk s' i = lib_log disk s i" for i
    unfolding lib_log_at [OF at] lib_log_at [OF at']
    using node_log_meta [OF w(4) m _ used refl e(1), of "pg_vnodes pro ! i" i] by (simp split: option.splits)
  have "lib_room level s' = lib_room level s" by (rule ext) (simp add: lib_room_at [OF at] lib_room_at [OF at'])
  then show ?thesis using run log lib_okI [OF dev at'] by (intro exI [of _ ret] exI [of _ s']) auto
qed

section \<open>The library fulfils the contract\<close>

interpretation zlib: piece_store "lib_calls c" "lib_ok c disk pend infl level" "lib_log disk" "lib_room level"
  for c :: "'x lib_conf" and disk pend infl level
proof unfold_locales
  fix s :: "'x lib" and data :: "nat list" and l gc assume "lib_ok c disk pend infl level s" "0 < length data" "length data \<le> ZNS_MAX_BUF" "slots_of (length data) \<le> lib_room level s l"
  from lib_write_ok [OF this] show "\<exists>ms s'. zf_write (lib_calls c) data l gc s = Some (0, ms, s') \<and> lib_ok c disk pend infl level s' \<and>
      grows (lib_log disk s) (lib_log disk s') \<and> (\<forall>m \<in> set ms. piece_live (lib_log disk s') m) \<and> pieces_bytes (lib_log disk s') ms = data \<and> length ms \<le> 2 \<and>
      lib_room level s' l = lib_room level s l - slots_of (length data)" by (simp add: lib_calls_def)
next
  fix s :: "'x lib" and m n po gc assume "lib_ok c disk pend infl level s" "piece_live (lib_log disk s) m" "0 < n" "po + n \<le> 32768 * zm_num m"
  from lib_read_ok [OF this] show "\<exists>s'. zf_read (lib_calls c) (zm_node_id m) (32768 * zm_start m + po) n gc s =
      Some (0, take n (drop (32768 * zm_start m + po) (lib_log disk s (zm_node_id m))), s') \<and> lib_ok c disk pend infl level s' \<and>
      lib_log disk s' = lib_log disk s \<and> lib_room level s' = lib_room level s" by (simp add: lib_calls_def)
next
  fix s :: "'x lib" and n assume "lib_ok c disk pend infl level s"
  from lib_alloc_ok [OF this] show "\<exists>s'. zf_alloc (lib_calls c) n s = Some (True, s') \<and> lib_ok c disk pend infl level s' \<and>
      lib_log disk s' = lib_log disk s \<and> lib_room level s' = lib_room level s" by (simp add: lib_calls_def)
next
  fix s :: "'x lib" assume "lib_ok c disk pend infl level s"
  from lib_free_ok [OF this] show "\<exists>s'. zf_free (lib_calls c) s = Some s' \<and> lib_ok c disk pend infl level s' \<and>
      lib_log disk s' = lib_log disk s \<and> lib_room level s' = lib_room level s" by (simp add: lib_calls_def)
next
  fix s :: "'x lib" and bs assume "lib_ok c disk pend infl level s" "length (bs :: nat list) mod ZNS_ALIGMENT = 0"
  from lib_write_meta_ok [OF this] show "\<exists>ret s'. zf_write_file_metadata (lib_calls c) bs s = Some (ret, s') \<and> lib_ok c disk pend infl level s' \<and>
      lib_log disk s' = lib_log disk s \<and> lib_room level s' = lib_room level s" by (simp add: lib_calls_def)
qed

end
