(* ===== verification/Env_Write.thy ===== *)
theory Env_Write
  imports Env_Lib
begin

text \<open>
  Files from their creation to a read: the operations of \<open>Env_Files\<close> composed as RocksDB calls them, over the contract
  \<open>piece_store\<close>, and the properties of files for the library as it is.
\<close>

section \<open>A sequence of appends\<close>

fun append_all :: "'s zrocks_fns \<Rightarrow> nat list list \<Rightarrow> ZNSWritableFile \<Rightarrow> 's ZNSEnv \<Rightarrow> (Status \<times> ZNSWritableFile \<times> 's ZNSEnv) option" where
  "append_all zr [] w e = Some (OK, w, e)"
| "append_all zr (d # ds) w e = do {
     (ret, w, e) \<leftarrow> Writable_Append zr d w e;
     if ret \<noteq> OK then Some (ret, w, e) else append_all zr ds w e }"

lemma spills_add:
  assumes "m + ZNS_MAX_BUF * spills n = n"
  shows "spills (n + r) = spills n + spills (m + r)"
proof (cases "n = 0")
  case True
  then show ?thesis using assms by (simp add: spills_def)
next
  case False
  have "ZNS_MAX_BUF * spills n \<le> n - 1" unfolding spills_def by (rule times_div_less_eq_dividend)
  then have "0 < m" using assms False by linarith
  then have "n + r - 1 = (m + r - 1) + spills n * ZNS_MAX_BUF" using assms by (simp add: mult.commute)
  then show ?thesis by (simp only: spills_def [of "n + r"] spills_def [of "m + r"] div_mult_self1)
qed

lemma slots_split:
  assumes "m + ZNS_MAX_BUF * spills n = n"
  shows "slots_of n = slots_of ZNS_MAX_BUF * spills n + slots_of m"
proof -
  define k where "k = spills n"
  have "n = m + 32768 * (1024 * k)" using assms by (simp add: k_def)
  then have "slots_of n = slots_of m + 1024 * k" by (simp add: slots_of_def)
  then show ?thesis by (simp add: k_def slots_of_def)
qed

lemma map_of_files_put: "map_of (files_put k v fs) k = Some v"
  by (induction k v fs rule: files_put.induct) auto

lemma set_files_put: "set (files_put k v fs) \<subseteq> insert (k, v) (set fs)"
  by (induction k v fs rule: files_put.induct) auto

lemma synced_fileD: "synced_file log f \<Longrightarrow> f_cache f = Some c \<Longrightarrow> length c \<le> ZNS_MAX_BUF"
  by (simp add: synced_file_def file_live_def cache_bytes_def)

context piece_store
begin

lemma append_all_ok:
  assumes "ok (ev_zrocks e)" "env_ok e" "obj (wf_znsfile w) e = Some f" "f_cache f = Some c" "synced_file (log (ev_zrocks e)) f"
    "length (f_map f) + 2 * spills (length c + length (concat ds)) < 2 ^ 32"
    "slots_of ZNS_MAX_BUF * spills (length c + length (concat ds)) \<le> room (ev_zrocks e) (f_level f)"
    "f_size f + length (concat ds) < 2 ^ 64"
  shows "\<exists>w' e' f' c'. append_all zr ds w e = Some (OK, w', e') \<and> wf_znsfile w' = wf_znsfile w \<and> wf_filename w' = wf_filename w \<and>
    file_step ok log (wf_znsfile w) e e' \<and> obj (wf_znsfile w) e' = Some f' \<and> synced_file (log (ev_zrocks e')) f' \<and>
    file_bytes (log (ev_zrocks e')) f' = file_bytes (log (ev_zrocks e)) f @ concat ds \<and> f_cache f' = Some c' \<and>
    length c' + ZNS_MAX_BUF * spills (length c + length (concat ds)) = length c + length (concat ds) \<and>
    f_size f' = f_size f + length (concat ds) \<and> f_name f' = f_name f \<and> f_level f' = f_level f \<and> f_is_writing f' = f_is_writing f \<and>
    length (f_map f') \<le> length (f_map f) + 2 * spills (length c + length (concat ds)) \<and>
    room (ev_zrocks e') (f_level f) = room (ev_zrocks e) (f_level f) - slots_of ZNS_MAX_BUF * spills (length c + length (concat ds))"
  using assms
proof (induction ds arbitrary: w e f c)
  case Nil
  have "spills (length c) = 0" using synced_fileD [OF Nil.prems(5,4)] by (rule spills_small)
  then show ?case using Nil.prems by (auto simp: file_step_def option.rel_refl intro!: exI [of _ f])
next
  case (Cons d ds)
  let ?p = "wf_znsfile w" and ?n = "length c + length d" and ?r = "length (concat ds)"
  define m where "m = ?n - ZNS_MAX_BUF * spills ?n"
  have "ZNS_MAX_BUF * spills ?n \<le> ?n - 1" unfolding spills_def by (rule times_div_less_eq_dividend)
  then have m: "m + ZNS_MAX_BUF * spills ?n = ?n" unfolding m_def by linarith
  have sp: "spills (length c + length (concat (d # ds))) = spills ?n + spills (m + ?r)" using spills_add [OF m, of ?r] by (simp add: add.assoc)
  have pre: "length (f_map f) + 2 * spills ?n < 2 ^ 32" "slots_of ZNS_MAX_BUF * spills ?n \<le> room (ev_zrocks e) (f_level f)"
    using Cons.prems(6,7) unfolding sp by (simp_all add: distrib_left)
  obtain w1 e1 f1 c1 where e1: "Writable_Append zr d w e = Some (OK, w1, e1)" "wf_znsfile w1 = ?p" "wf_filename w1 = wf_filename w" "file_step ok log ?p e e1"
    "obj ?p e1 = Some f1" "synced_file (log (ev_zrocks e1)) f1" "file_bytes (log (ev_zrocks e1)) f1 = file_bytes (log (ev_zrocks e)) f @ d"
    "f_cache f1 = Some c1" "length c1 + ZNS_MAX_BUF * spills ?n = ?n" "f_size f1 = u64 (f_size f + length d)"
    "f_name f1 = f_name f" "f_level f1 = f_level f" "f_is_writing f1 = f_is_writing f" "length (f_map f1) \<le> length (f_map f) + 2 * spills ?n"
    "room (ev_zrocks e1) (f_level f) = room (ev_zrocks e) (f_level f) - slots_of ZNS_MAX_BUF * spills ?n"
    using append_ok [OF Cons.prems(1-5) pre] by blast
  have c1: "length c1 = m" using e1(9) m by linarith
  have sz: "f_size f1 = f_size f + length d" using e1(10) Cons.prems(8) by (simp add: u64_small)
  have pre1: "ok (ev_zrocks e1)" "env_ok e1" "length (f_map f1) + 2 * spills (length c1 + ?r) < 2 ^ 32"
    "slots_of ZNS_MAX_BUF * spills (length c1 + ?r) \<le> room (ev_zrocks e1) (f_level f1)" "f_size f1 + ?r < 2 ^ 64"
    using e1(4,14,15) Cons.prems(6-8) unfolding sp c1 e1(12) sz by (simp_all add: file_step_def distrib_left)
  obtain w2 e2 f2 c2 where e2: "append_all zr ds w1 e1 = Some (OK, w2, e2)" "wf_znsfile w2 = ?p" "wf_filename w2 = wf_filename w1" "file_step ok log ?p e1 e2"
    "obj ?p e2 = Some f2" "synced_file (log (ev_zrocks e2)) f2" "file_bytes (log (ev_zrocks e2)) f2 = file_bytes (log (ev_zrocks e1)) f1 @ concat ds"
    "f_cache f2 = Some c2" "length c2 + ZNS_MAX_BUF * spills (m + ?r) = m + ?r" "f_size f2 = f_size f1 + ?r"
    "f_name f2 = f_name f1" "f_level f2 = f_level f1" "f_is_writing f2 = f_is_writing f1" "length (f_map f2) \<le> length (f_map f1) + 2 * spills (m + ?r)"
    "room (ev_zrocks e2) (f_level f1) = room (ev_zrocks e1) (f_level f1) - slots_of ZNS_MAX_BUF * spills (m + ?r)"
    using Cons.IH [of e1 w1 f1 c1] e1(5,6,8) pre1 unfolding e1(2) c1 by blast
  have step: "file_step ok log ?p e e2" using file_step_trans e1(4) e2(4) by blast
  have "length c2 + ZNS_MAX_BUF * spills (length c + length (concat (d # ds))) = length c + length (concat (d # ds))"
    "length (f_map f2) \<le> length (f_map f) + 2 * spills (length c + length (concat (d # ds)))"
    "room (ev_zrocks e2) (f_level f) = room (ev_zrocks e) (f_level f) - slots_of ZNS_MAX_BUF * spills (length c + length (concat (d # ds)))"
    using e2(9,14,15) e1(12,14,15) m unfolding sp by (simp_all add: distrib_left)
  then show ?case using e1(1,3,7,11-13) e2(1-3,5-8,10-13) sz step
    by (intro exI [of _ w2] exI [of _ e2] exI [of _ f2] exI [of _ c2]) simp
qed

lemma create_ok:
  assumes "ok (ev_zrocks e)" "env_ok e" "nfname = px_norm px fname" "map_of (ev_files e) nfname = None" "\<not> IsFilePosix nfname"
    "length nfname \<le> FILE_NAME_LEN"
  shows "\<exists>h' w e' f. NewWritableFile zr px fname h e = Some (Zns w, h', e') \<and> ok (ev_zrocks e') \<and> env_ok e' \<and>
    log (ev_zrocks e') = log (ev_zrocks e) \<and> room (ev_zrocks e') = room (ev_zrocks e) \<and>
    map_of (ev_files e') nfname = Some (Some (wf_znsfile w)) \<and> obj (wf_znsfile w) e' = Some f \<and> f_cache f = Some [] \<and> f_map f = [] \<and>
    f_size f = 0 \<and> f_level f = 0 \<and> f_is_writing f \<and> synced_file (log (ev_zrocks e')) f \<and>
    (\<forall>q g. obj q e = Some g \<longrightarrow> q \<noteq> wf_znsfile w \<and> obj q e' = Some g)"
proof -
  obtain s where s: "zf_alloc zr ZNS_MAX_BUF (ev_zrocks e) = Some (True, s)" "ok s" "log s = log (ev_zrocks e)" "room s = room (ev_zrocks e)"
    using alloc_law [OF assms(1)] by blast
  define p where "p = length (ev_heap e)"
  define f where "f = \<lparr>f_name = nfname, f_size = 0, f_uuididx = ev_uuididx e, f_level = 0, f_map = [], f_startIndex = 0, f_cache = Some [],
    f_is_writing = True, f_current_nid = -1\<rparr>"
  define e' where "e' = e\<lparr>ev_heap := ev_heap e @ [Some f], ev_zrocks := s, ev_files := files_put nfname (Some p) (ev_files e), ev_uuididx := u64 (ev_uuididx e + 1)\<rparr>"
  define w where "w = \<lparr>wf_filename = nfname, wf_filesize = 0, wf_znsfile = p\<rparr>"
  obtain ret h' where h: "px_open px nfname h = (ret, h')" by fastforce
  have run: "NewWritableFile zr px fname h e = Some (Zns w, h', e')"
    using s(1) h assms(3-5)
    by (simp add: NewWritableFile_def Let_def new_ZNSFile_def obj_def get_at_def put_obj_def GetWRLock_def w_def e'_def f_def p_def)
  have old: "q \<noteq> p \<and> obj q e' = Some g" if "obj q e = Some g" for q g
    using that by (auto simp: obj_def get_at_def e'_def p_def nth_append split: if_splits)
  have new: "obj p e' = Some f" by (simp add: obj_def get_at_def e'_def p_def)
  have "env_ok e'" unfolding env_ok_def
  proof (intro allI impI)
    fix k q assume "(k, Some q) \<in> set (ev_files e')"
    then have "(k, Some q) = (nfname, Some p) \<or> (k, Some q) \<in> set (ev_files e)" using set_files_put [of nfname "Some p" "ev_files e"] by (auto simp: e'_def)
    then show "\<exists>g. obj q e' = Some g \<and> length (f_name g) \<le> FILE_NAME_LEN"
    proof
      assume "(k, Some q) = (nfname, Some p)"
      then show ?thesis using new assms(6) by (simp add: f_def)
    next
      assume "(k, Some q) \<in> set (ev_files e)"
      then show ?thesis using assms(2) old unfolding env_ok_def by blast
    qed
  qed
  then show ?thesis using run s(2-4) new old map_of_files_put [of nfname "Some p" "ev_files e"] assms(6)
    by (intro exI [of _ h'] exI [of _ w] exI [of _ e'] exI [of _ f])
       (simp add: w_def e'_def f_def synced_file_def file_live_def cache_bytes_def)
qed

lemma other_file:
  assumes "file_step ok log p e e'" "q \<noteq> p" "obj q e = Some g" "file_live (log (ev_zrocks e)) g"
  shows "\<exists>g'. obj q e' = Some g' \<and> like g g' \<and> file_live (log (ev_zrocks e')) g' \<and> file_bytes (log (ev_zrocks e')) g' = file_bytes (log (ev_zrocks e)) g"
proof -
  obtain g' where g': "obj q e' = Some g'" "like g g'" using assms(1-3) unfolding file_step_def by (metis option_rel_Some1)
  have "f_map g' = f_map g" "f_cache g' = f_cache g" using like_fields [OF g'(2)] by simp_all
  then have "file_live l g' = file_live l g" "file_bytes l g' = file_bytes l g" for l by (simp_all add: file_live_def file_bytes_def cache_bytes_def)
  moreover have "grows (log (ev_zrocks e)) (log (ev_zrocks e'))" using assms(1) by (simp add: file_step_def)
  ultimately show ?thesis using file_grows [of "log (ev_zrocks e)" "log (ev_zrocks e')" g] assms(4) g' by auto
qed

lemma closed_read:
  assumes "ok (ev_zrocks e)" "obj p e = Some f" "synced_file (log (ev_zrocks e)) f" "f_cache f = None" "f_size f = length (file_bytes (log (ev_zrocks e)) f)"
    "f_size f < 2 ^ 64" "offset < f_size f" "offset + n < 2 ^ 64"
  shows "\<exists>s'. RandomAccess_Read zr (Some p) offset n e = Some (OK, Some (take n (drop offset (file_bytes (log (ev_zrocks e)) f))), e\<lparr>ev_zrocks := s'\<rparr>) \<and>
    ok s' \<and> log s' = log (ev_zrocks e) \<and> room s' = room (ev_zrocks e)"
proof -
  have "file_ok (log (ev_zrocks e)) f" using assms(3,5,6) by (simp add: file_ok_def synced_file_def)
  moreover have "length (pieces_bytes (log (ev_zrocks e)) (f_map f)) = f_size f" using assms(4,5) by (simp add: file_bytes_def cache_bytes_def)
  ultimately show ?thesis using random_read [OF assms(1,2) _ assms(7,8)] by simp
qed

text \<open>The life of a file: created, appended to, closed.\<close>

lemma write_file_ok:
  assumes "ok (ev_zrocks e)" "env_ok e" "nfname = px_norm px fname" "map_of (ev_files e) nfname = None" "\<not> IsFilePosix nfname"
    "length nfname \<le> FILE_NAME_LEN" "length (concat ds) < 2 ^ 55" "slots_of (length (concat ds)) \<le> room (ev_zrocks e) 0"
  shows "\<exists>h' w e1 w2 e2 e3 f. NewWritableFile zr px fname h e = Some (Zns w, h', e1) \<and> append_all zr ds w e1 = Some (OK, w2, e2) \<and>
    Writable_Close zr w2 e2 = Some (OK, e3) \<and> map_of (ev_files e3) nfname = Some (Some (wf_znsfile w)) \<and> obj (wf_znsfile w) e3 = Some f \<and>
    ok (ev_zrocks e3) \<and> env_ok e3 \<and> synced_file (log (ev_zrocks e3)) f \<and> file_bytes (log (ev_zrocks e3)) f = concat ds \<and>
    f_cache f = None \<and> f_size f = length (concat ds) \<and> room (ev_zrocks e3) 0 = room (ev_zrocks e) 0 - slots_of (length (concat ds)) \<and>
    (\<forall>q g. obj q e = Some g \<and> file_live (log (ev_zrocks e)) g \<longrightarrow> (\<exists>g'. obj q e3 = Some g' \<and> like g g' \<and>
       file_live (log (ev_zrocks e3)) g' \<and> file_bytes (log (ev_zrocks e3)) g' = file_bytes (log (ev_zrocks e)) g))"
proof -
  let ?n = "length (concat ds)" and ?z = "length ([] :: nat list)"
  obtain h' w e1 f1 where e1: "NewWritableFile zr px fname h e = Some (Zns w, h', e1)" "ok (ev_zrocks e1)" "env_ok e1" "log (ev_zrocks e1) = log (ev_zrocks e)"
    "room (ev_zrocks e1) = room (ev_zrocks e)" "map_of (ev_files e1) nfname = Some (Some (wf_znsfile w))" "obj (wf_znsfile w) e1 = Some f1"
    "f_cache f1 = Some []" "f_map f1 = []" "f_size f1 = 0" "f_level f1 = 0" "f_is_writing f1" "synced_file (log (ev_zrocks e1)) f1"
    "\<forall>q g. obj q e = Some g \<longrightarrow> q \<noteq> wf_znsfile w \<and> obj q e1 = Some g"
    using create_ok [OF assms(1-6), of h] by blast
  let ?p = "wf_znsfile w"
  have sp: "spills ?n \<le> 2 ^ 30" using assms(7) by (simp add: spills_def)
  define m where "m = ?n - ZNS_MAX_BUF * spills ?n"
  have "ZNS_MAX_BUF * spills ?n \<le> ?n - 1" unfolding spills_def by (rule times_div_less_eq_dividend)
  then have m: "m + ZNS_MAX_BUF * spills ?n = ?n" unfolding m_def by linarith
  have sl: "slots_of ?n = slots_of ZNS_MAX_BUF * spills ?n + slots_of m" by (rule slots_split [OF m])
  have pre: "length (f_map f1) + 2 * spills (?z + ?n) < 2 ^ 32" "slots_of ZNS_MAX_BUF * spills (?z + ?n) \<le> room (ev_zrocks e1) (f_level f1)"
    "f_size f1 + ?n < 2 ^ 64" using e1(5,9-11) sp assms(7,8) sl by simp_all
  obtain w2 e2 f2 c2 where e2: "append_all zr ds w e1 = Some (OK, w2, e2)" "wf_znsfile w2 = ?p" "file_step ok log ?p e1 e2" "obj ?p e2 = Some f2"
    "synced_file (log (ev_zrocks e2)) f2" "file_bytes (log (ev_zrocks e2)) f2 = file_bytes (log (ev_zrocks e1)) f1 @ concat ds" "f_cache f2 = Some c2"
    "length c2 + ZNS_MAX_BUF * spills (?z + ?n) = ?z + ?n" "f_size f2 = f_size f1 + ?n" "f_level f2 = f_level f1" "f_is_writing f2 = f_is_writing f1"
    "length (f_map f2) \<le> length (f_map f1) + 2 * spills (?z + ?n)"
    "room (ev_zrocks e2) (f_level f1) = room (ev_zrocks e1) (f_level f1) - slots_of ZNS_MAX_BUF * spills (?z + ?n)"
    using append_all_ok [OF e1(2,3,7,8,13) pre] by blast
  have c2: "length c2 = m" using e2(8) m by simp
  have ek: "ok (ev_zrocks e2)" "env_ok e2" using e2(3) by (simp_all add: file_step_def)
  have pre2: "length (f_map f2) + 2 < 2 ^ 32" "slots_of (length c2) \<le> room (ev_zrocks e2) (f_level f2)" "f_is_writing f2"
    using e2(10-13) e1(5,9,11,12) sp assms(8) sl c2 by simp_all
  obtain e3 f3 where e3: "Writable_Close zr w2 e2 = Some (OK, e3)" "file_step ok log ?p e2 e3" "obj ?p e3 = Some f3" "synced_file (log (ev_zrocks e3)) f3"
    "file_bytes (log (ev_zrocks e3)) f3 = file_bytes (log (ev_zrocks e2)) f2" "f_cache f3 = None" "f_size f3 = f_size f2"
    "room (ev_zrocks e3) (f_level f2) = room (ev_zrocks e2) (f_level f2) - slots_of (length c2)"
    using close_ok [of e2 w2 f2 c2] ek e2(4,5,7) pre2 unfolding e2(2) by blast
  have step: "file_step ok log ?p e1 e3" using file_step_trans e2(3) e3(2) by blast
  have fb: "file_bytes (log (ev_zrocks e3)) f3 = concat ds" using e3(5) e2(6) e1(8,9) by (simp add: file_bytes_def pieces_bytes_def cache_bytes_def)
  have fz: "f_size f3 = ?n" "room (ev_zrocks e3) 0 = room (ev_zrocks e) 0 - slots_of ?n" using e3(7,8) e2(9,10,13) e1(5,10,11) c2 sl by simp_all
  have es: "ok (ev_zrocks e3)" "env_ok e3" "map_of (ev_files e3) nfname = Some (Some ?p)" using step e1(6) by (simp_all add: file_step_def)
  have others: "\<exists>g'. obj q e3 = Some g' \<and> like g g' \<and> file_live (log (ev_zrocks e3)) g' \<and> file_bytes (log (ev_zrocks e3)) g' = file_bytes (log (ev_zrocks e)) g"
    if "obj q e = Some g" "file_live (log (ev_zrocks e)) g" for q g
    using other_file [OF step, of q g] that e1(4,14) by simp
  show ?thesis using e1(1) e2(1) e3(1,3,4,6) es fb fz others
    by (intro exI [of _ h'] exI [of _ w] exI [of _ e1] exI [of _ w2] exI [of _ e2] exI [of _ e3] exI [of _ f3]) simp
qed

end

section \<open>Samples\<close>

text \<open>The store of \<open>Zrocks_Data\<close> with two metadata zones before the zones of its node, and no files.\<close>

definition store_poke :: "nat \<Rightarrow> nat list \<Rightarrow> store \<Rightarrow> store" where
  "store_poke a bs x = (case x of (rs, ws, m, dk) \<Rightarrow> (rs, ws, \<lambda>b. if a \<le> b \<and> b < a + length bs then bs ! (b - a) else m b, dk))"

definition store_nvm_write :: "nat \<Rightarrow> nat \<Rightarrow> nat list \<Rightarrow> store \<Rightarrow> int \<times> bool \<times> store" where
  "store_nvm_write slba nlb bs x = (case x of (rs, ws, m, dk) \<Rightarrow>
     if length bs < 4096 * (nlb + 1) then (-1, False, x)
     else (0, False, (rs, ws, m, \<lambda>b. if 4096 * slba \<le> b \<and> b < 4096 * (slba + nlb + 1) then bs ! (b - 4096 * slba) else dk b)))"

definition sample_conf :: "store lib_conf" where
  "sample_conf = \<lparr>cf_xn = store_dev, cf_zv = sample_zv\<lparr>zv_geo := sample_geo\<lparr>ge_sec_zn := ZTL_PRO_SEC_NUM_INZONE\<rparr>\<rparr>, cf_dma = store_dma, cf_poke = store_poke,
     cf_nvm_write = store_nvm_write, cf_reset = (\<lambda>a x. (0, x)), cf_buf = 65536, cf_misc0 = sample_misc, cf_ucmd0 = sample_ucmd 1, cf_mcmd0 = zero_mcmd,
     cf_zn0 = sample_zn_mcmd, cf_fuel = 2 ^ 20, cf_turns = 1, cf_attempts = 1\<rparr>"

definition meta_zone :: "nat \<Rightarrow> ztl_pro_zone" where
  "meta_zone i = \<lparr>zn_addr = set_sect (ZTL_PRO_SEC_NUM_INZONE * i) 0, zn_zmd_entry = Some i, zn_capacity = ZTL_PRO_SEC_NUM_INZONE, zn_lock = 0, zn_state = Some ZND_STATE_EMPTY\<rparr>"

definition sample_lib :: "store lib" where
  "sample_lib = \<lparr>lb_world = sample_zr, lb_md = fresh_md\<lparr>mt_metadata_zone := [meta_zone 0, meta_zone 1]\<rparr>\<rparr>"

definition sample_env :: "store lib ZNSEnv" where
  "sample_env = \<lparr>ev_heap = [], ev_files = [], ev_sequence = 0, ev_uuididx = 0, ev_nid_file_map = (\<lambda>n. []), ev_zrocks = sample_lib\<rparr>"

definition sample_posix :: "unit posix_fns" where
  "sample_posix = \<lparr>px_norm = (\<lambda>s. s), px_open = (\<lambda>n h. (OK, h)), px_delete = (\<lambda>n h. (OK, h)), px_rename = (\<lambda>n m h. (OK, h)),
     px_size = (\<lambda>n h. (OK, 0)), px_mtime = (\<lambda>n h. (OK, 0)), px_exists = (\<lambda>n h. OK)\<rparr>"

lemma store_nvm_law: "nvm_write_law (blocks store_disk) store_nvm_write"
proof -
  have out: "map g [4096 * b..<4096 * b + 4096] = map h [4096 * b..<4096 * b + 4096]"
    if "\<forall>a. a < 4096 * slba \<or> 4096 * (slba + nlb + 1) \<le> a \<longrightarrow> g a = h a" "b < slba \<or> slba + nlb < b" for g h :: "nat \<Rightarrow> nat" and b slba nlb :: nat
    using that by auto
  have inn: "map (\<lambda>a. if 4096 * slba \<le> a \<and> a < 4096 * (slba + nlb + 1) then bs ! (a - 4096 * slba) else d a) [4096 * (slba + i)..<4096 * (slba + i) + 4096] =
      take 4096 (drop (i * 4096) bs)" if "4096 * (nlb + 1) \<le> length bs" "i \<le> nlb" for bs d and slba nlb i :: nat
    using that by (intro nth_equalityI) (auto simp: algebra_simps)
  show ?thesis unfolding nvm_write_law_def blocks_def store_nvm_write_def store_disk_def
    using inn by (auto simp: not_less split: prod.splits if_splits intro!: out)
qed

lemma sample_device: "lib_device sample_conf store_disk store_pend store_infl"
  unfolding lib_device_def
proof (intro conjI)
  show "zns_device (cf_xn sample_conf) (cf_dma sample_conf) store_disk store_pend store_infl XZTL_WIO_MAX_MCMD"
    using store_dev_device by (simp add: sample_conf_def)
  show "nvm_write_law (blocks store_disk) (cf_nvm_write sample_conf)" using store_nvm_law by (simp add: sample_conf_def)
qed (auto simp: sample_conf_def store_poke_def store_nvm_write_def store_defs split: prod.splits if_splits)

lemma meta_zone_sect: "i < 2 \<Longrightarrow> g_sect (zn_addr (meta_zone i)) = 24576 * i"
  by (simp add: meta_zone_def sect_field.get_put_small)

lemma sample_meta: "meta_ok ZTL_PRO_SEC_NUM_INZONE (lb_md sample_lib) sample_tbl sample_pro sample_node"
proof -
  have sect: "g_sect (zn_addr (meta_zone 0)) = 0" "g_sect (zn_addr (meta_zone (Suc 0))) = 24576" using meta_zone_sect [of 0] meta_zone_sect [of 1] by simp_all
  have "pg_vnodes sample_pro = [sample_node]" by (simp add: sample_pro_def)
  moreover have "zone_wptr sample_tbl (meta_zone 0) = Some 0" by (simp add: zone_wptr_def meta_zone_def get_at_def) (simp add: sample_tbl_def)
  ultimately show ?thesis unfolding meta_ok_def
    by (auto simp: sample_lib_def fresh_md_def sect zone_apart_def sample_pro_zones sample_zone_sect)
       (simp_all add: meta_zone_def)
qed

lemma sample_lib_ok: "lib_ok sample_conf store_disk store_pend store_infl 0 sample_lib"
proof -
  have lv: "level_at (lb_md sample_lib) 0 0 7 sample_pro sample_node sample_tbl sample_zr"
    using sample_level unfolding level_at_def write_node_def node_numbered_def by (simp add: sample_lib_def get_metadata_zone_num_def fresh_md_def)
  have "lib_at sample_conf store_pend store_infl 0 0 7 sample_pro sample_node sample_tbl sample_lib"
    unfolding lib_at_def using lv sample_reads sample_meta sample_zr_simps(3)
    by (simp add: other_nodes_def sample_pro_def reads_idle_def) (simp add: sample_lib_def sample_conf_def sample_geo_def sample_zv_def)
  moreover have "lib_sized sample_conf" using sample_zr_simps(1) by (simp add: lib_sized_def sample_conf_def sample_geo_def)
  ultimately show ?thesis using sample_device unfolding lib_ok_def by blast
qed

lemma sample_room: "lib_room 0 sample_lib 0 = ZTL_PRO_OPT_SEC_NUM_INNODE"
  by (simp add: lib_room_def write_level_def sample_lib_def sample_zr_def sample_grp_def sample_q_def get_at_def sample_pro_def sample_node_def)

lemma sample_env_pre: "lib_ok sample_conf store_disk store_pend store_infl 0 (ev_zrocks sample_env)" "env_ok sample_env"
  "map_of (ev_files sample_env) (px_norm sample_posix ''000007.sst'') = None" "\<not> IsFilePosix (px_norm sample_posix ''000007.sst'')"
  "length (px_norm sample_posix ''000007.sst'') \<le> FILE_NAME_LEN" "lib_room 0 (ev_zrocks sample_env) 0 = ZTL_PRO_OPT_SEC_NUM_INNODE"
  using sample_lib_ok sample_room by (simp_all add: sample_env_def env_ok_def sample_posix_def IsFilePosix_def upt_rec)

text \<open>A file with one byte on the device and one in its cache.\<close>

lemma sample_mixed:
  "\<exists>w e1 w2 e2 e3 w4 e4 f. NewWritableFile (lib_calls sample_conf) sample_posix ''000007.sst'' () sample_env = Some (Zns w, (), e1) \<and>
    Writable_Append (lib_calls sample_conf) [1] w e1 = Some (OK, w2, e2) \<and> Writable_Sync (lib_calls sample_conf) w2 e2 = Some (OK, e3) \<and>
    Writable_Append (lib_calls sample_conf) [2] w2 e3 = Some (OK, w4, e4) \<and>
    lib_ok sample_conf store_disk store_pend store_infl 0 (ev_zrocks e4) \<and> obj (wf_znsfile w) e4 = Some f \<and>
    file_ok (lib_log store_disk (ev_zrocks e4)) f \<and> length (pieces_bytes (lib_log store_disk (ev_zrocks e4)) (f_map f)) = 1 \<and> f_size f = 2"
proof -
  let ?zr = "lib_calls sample_conf" and ?log = "\<lambda>e :: store lib ZNSEnv. lib_log store_disk (ev_zrocks e)"
  let ?ok = "lib_ok sample_conf store_disk store_pend store_infl 0" and ?room = "\<lambda>e :: store lib ZNSEnv. lib_room 0 (ev_zrocks e)"
  note ex = zlib.create_ok [OF sample_env_pre(1,2) refl sample_env_pre(3-5), of "()"]
  obtain w e1 f1 where e1: "NewWritableFile ?zr sample_posix ''000007.sst'' () sample_env = Some (Zns w, (), e1)" "?ok (ev_zrocks e1)" "env_ok e1"
    "?room e1 = ?room sample_env" "obj (wf_znsfile w) e1 = Some f1" "f_cache f1 = Some []" "f_map f1 = []" "f_size f1 = 0" "f_level f1 = 0"
    "synced_file (?log e1) f1" using ex by auto
  let ?p = "wf_znsfile w"
  have n0: "spills 1 = 0" "spills (Suc 0) = 0" "slots_of 1 = 1" "slots_of (Suc 0) = 1" by (simp_all add: spills_def slots_of_def)
  obtain w2 e2 f2 c2 where e2: "Writable_Append ?zr [1] w e1 = Some (OK, w2, e2)" "wf_znsfile w2 = ?p" "file_step ?ok (lib_log store_disk) ?p e1 e2" "obj ?p e2 = Some f2"
    "synced_file (?log e2) f2" "file_bytes (?log e2) f2 = file_bytes (?log e1) f1 @ [1]" "f_cache f2 = Some c2" "length c2 = 1" "f_size f2 = u64 (f_size f1 + 1)"
    "f_level f2 = f_level f1" "length (f_map f2) \<le> length (f_map f1)" "?room e2 (f_level f1) = ?room e1 (f_level f1)"
    using zlib.append_ok [OF e1(2,3,5,6,10), of "[1]"] e1(7) by (auto simp: n0)
  have k2: "?ok (ev_zrocks e2)" "env_ok e2" "length (f_map f2) + 2 < 2 ^ 32" "slots_of (length c2) \<le> ?room e2 (f_level f2)"
    using e2(3,8,10-12) e1(4,7,9) sample_env_pre(6) by (simp_all add: file_step_def n0)
  obtain e3 f3 where e3: "Writable_Sync ?zr w2 e2 = Some (OK, e3)" "file_step ?ok (lib_log store_disk) ?p e2 e3" "obj ?p e3 = Some f3" "synced_file (?log e3) f3"
    "file_bytes (?log e3) f3 = file_bytes (?log e2) f2" "f_cache f3 = Some []" "same_head f2 f3" "length (f_map f3) \<le> length (f_map f2) + 2"
    using zlib.sync_ok [OF k2(1,2) _ e2(7,5) k2(3,4), of w2] e2(2,4) by auto
  have k3: "?ok (ev_zrocks e3)" "env_ok e3" "f_size f3 = 1" "length (f_map f3) < 2 ^ 32"
    using e3(2,7,8) e2(9,11) e1(7,8) by (simp_all add: file_step_def same_head_def u64_small)
  obtain w4 e4 f4 c4 where e4: "Writable_Append ?zr [2] w2 e3 = Some (OK, w4, e4)" "file_step ?ok (lib_log store_disk) ?p e3 e4" "obj ?p e4 = Some f4"
    "synced_file (?log e4) f4" "file_bytes (?log e4) f4 = file_bytes (?log e3) f3 @ [2]" "f_cache f4 = Some c4" "length c4 = 1" "f_size f4 = u64 (f_size f3 + 1)"
    using zlib.append_ok [OF k3(1,2) _ e3(6,4), of w2 "[2]"] e2(2) e3(3) k3(4) by (auto simp: n0)
  have fb: "file_bytes (?log e4) f4 = [1, 2]" using e4(5) e3(5) e2(6) e1(6,7) by (simp add: file_bytes_def pieces_bytes_def cache_bytes_def)
  have "length (pieces_bytes (?log e4) (f_map f4) @ c4) = length [1, 2 :: nat]" using e4(6) fb by (simp add: file_bytes_def cache_bytes_def)
  then show ?thesis using e1(1) e2(1) e3(1) e4 fb k3(3)
    by (intro exI [of _ w] exI [of _ e1] exI [of _ w2] exI [of _ e2] exI [of _ e3] exI [of _ w4] exI [of _ e4] exI [of _ f4])
       (simp add: file_ok_def synced_file_def file_step_def u64_small)
qed

section \<open>Properties\<close>

text \<open>C1: A file that is created, appended to by any sequence of appends and closed holds exactly the appended bytes: it has their
  number as size, it can be opened by its name, and a read of any range in it returns the bytes of that range; all other
  files keep their contents. This is the whole way through the environment and the library down to the device, for every
  state of the library with one writable level, free of work, whose node has room for the bytes.\<close>

theorem file_written_is_read:
  assumes "lib_ok c disk pend infl level (ev_zrocks e)" "env_ok e" "map_of (ev_files e) (px_norm px fname) = None"
    "\<not> IsFilePosix (px_norm px fname)" "length (px_norm px fname) \<le> FILE_NAME_LEN" "length (concat ds) < 2 ^ 55"
    "slots_of (length (concat ds)) \<le> lib_room level (ev_zrocks e) 0"
  shows "\<exists>h' w e1 w2 e2 e3. NewWritableFile (lib_calls c) px fname h e = Some (Zns w, h', e1) \<and>
    append_all (lib_calls c) ds w e1 = Some (OK, w2, e2) \<and> Writable_Close (lib_calls c) w2 e2 = Some (OK, e3) \<and>
    GetFileSize px fname h' e3 = Some (OK, Some (length (concat ds))) \<and>
    NewRandomAccessFile px fname h' e3 = (Zns (Some (wf_znsfile w)), h', e3) \<and>
    (\<forall>offset n. offset < length (concat ds) \<and> offset + n < 2 ^ 64 \<longrightarrow>
       (\<exists>s. RandomAccess_Read (lib_calls c) (Some (wf_znsfile w)) offset n e3 = Some (OK, Some (take n (drop offset (concat ds))), e3\<lparr>ev_zrocks := s\<rparr>))) \<and>
    (\<forall>q g. obj q e = Some g \<and> file_live (lib_log disk (ev_zrocks e)) g \<longrightarrow>
       (\<exists>g'. obj q e3 = Some g' \<and> file_bytes (lib_log disk (ev_zrocks e3)) g' = file_bytes (lib_log disk (ev_zrocks e)) g \<and> f_size g' = f_size g))"
proof -
  let ?zr = "lib_calls c" and ?log = "\<lambda>e. lib_log disk (ev_zrocks e)"
  obtain h' w e1 w2 e2 e3 f where r: "NewWritableFile ?zr px fname h e = Some (Zns w, h', e1)" "append_all ?zr ds w e1 = Some (OK, w2, e2)"
    "Writable_Close ?zr w2 e2 = Some (OK, e3)" "map_of (ev_files e3) (px_norm px fname) = Some (Some (wf_znsfile w))" "obj (wf_znsfile w) e3 = Some f"
    "lib_ok c disk pend infl level (ev_zrocks e3)" "synced_file (?log e3) f" "file_bytes (?log e3) f = concat ds" "f_cache f = None" "f_size f = length (concat ds)"
    "\<forall>q g. obj q e = Some g \<and> file_live (?log e) g \<longrightarrow> (\<exists>g'. obj q e3 = Some g' \<and> like g g' \<and> file_live (?log e3) g' \<and> file_bytes (?log e3) g' = file_bytes (?log e) g)"
    using zlib.write_file_ok [OF assms(1,2) refl assms(3-7), of h] by metis
  have "GetFileSize px fname h' e3 = Some (OK, Some (length (concat ds)))" "NewRandomAccessFile px fname h' e3 = (Zns (Some (wf_znsfile w)), h', e3)"
    using r(4,5,10) assms(4) by (simp_all add: GetFileSize_def NewRandomAccessFile_def files_at_def Let_def)
  moreover have "\<exists>s. RandomAccess_Read ?zr (Some (wf_znsfile w)) offset n e3 = Some (OK, Some (take n (drop offset (concat ds))), e3\<lparr>ev_zrocks := s\<rparr>)"
    if "offset < length (concat ds)" "offset + n < 2 ^ 64" for offset n
    using zlib.closed_read [OF r(6,5,7,9), of offset n] r(8,10) that assms(6) by auto
  moreover have "\<exists>g'. obj q e3 = Some g' \<and> file_bytes (?log e3) g' = file_bytes (?log e) g \<and> f_size g' = f_size g" if "obj q e = Some g" "file_live (?log e) g" for q g
    using r(11) that like_fields(2) by blast
  ultimately show ?thesis using r(1-3)
    by (intro exI [of _ h'] exI [of _ w] exI [of _ e1] exI [of _ w2] exI [of _ e2] exI [of _ e3]) simp
qed

theorem file_written_is_read_witness:
  "\<exists>w e1 w2 e2 e3 s. NewWritableFile (lib_calls sample_conf) sample_posix ''000007.sst'' () sample_env = Some (Zns w, (), e1) \<and>
    append_all (lib_calls sample_conf) [replicate 40000 1, [2, 3], replicate 5000 4] w e1 = Some (OK, w2, e2) \<and>
    Writable_Close (lib_calls sample_conf) w2 e2 = Some (OK, e3) \<and>
    RandomAccess_Read (lib_calls sample_conf) (Some (wf_znsfile w)) 39999 4 e3 = Some (OK, Some [1, 2, 3, 4], e3\<lparr>ev_zrocks := s\<rparr>)"
proof -
  let ?ds = "[replicate 40000 1, [2, 3], replicate 5000 (4 :: nat)]"
  have len: "length (concat ?ds) = 45002" by simp
  have size: "length (concat ?ds) < 2 ^ 55" "slots_of (length (concat ?ds)) \<le> lib_room 0 (ev_zrocks sample_env) 0"
    unfolding len sample_env_pre(6) by (simp_all add: slots_of_def)
  have part: "take 4 (drop 39999 (concat ?ds)) = [1, 2, 3, 4]" by simp
  obtain w e1 w2 e2 e3 where r: "NewWritableFile (lib_calls sample_conf) sample_posix ''000007.sst'' () sample_env = Some (Zns w, (), e1)"
    "append_all (lib_calls sample_conf) ?ds w e1 = Some (OK, w2, e2)" "Writable_Close (lib_calls sample_conf) w2 e2 = Some (OK, e3)"
    "\<forall>offset n. offset < length (concat ?ds) \<and> offset + n < 2 ^ 64 \<longrightarrow>
       (\<exists>s. RandomAccess_Read (lib_calls sample_conf) (Some (wf_znsfile w)) offset n e3 = Some (OK, Some (take n (drop offset (concat ?ds))), e3\<lparr>ev_zrocks := s\<rparr>))"
    using file_written_is_read [OF sample_env_pre(1-5) size, of "()"] by auto
  have "\<exists>s. RandomAccess_Read (lib_calls sample_conf) (Some (wf_znsfile w)) 39999 4 e3 = Some (OK, Some (take 4 (drop 39999 (concat ?ds))), e3\<lparr>ev_zrocks := s\<rparr>)"
    by (rule r(4) [rule_format]) (simp only: len, simp)
  then show ?thesis unfolding part using r(1-3) by blast
qed

text \<open>C10: A read that starts in the pieces of a file and ends in its write cache does not return the bytes of the file: the loop over the
  pieces runs behind their end and throws, for files opened for random and for sequential access.\<close>

theorem read_across_cache:
  assumes "lib_ok c disk pend infl level (ev_zrocks e)" "obj p e = Some f" "file_ok (lib_log disk (ev_zrocks e)) f"
    "offset < length (pieces_bytes (lib_log disk (ev_zrocks e)) (f_map f))" "length (pieces_bytes (lib_log disk (ev_zrocks e)) (f_map f)) < offset + n"
    "offset + n \<le> f_size f"
  shows "\<exists>s. RandomAccess_Read (lib_calls c) (Some p) offset n e = Some (OutOfRange, None, e\<lparr>ev_zrocks := s\<rparr>) \<and>
    Sequential_Read (lib_calls c) n \<lparr>sq_filename = name, sq_znsfile = Some p, sq_read_off = offset\<rparr> e =
      Some (OutOfRange, None, \<lparr>sq_filename = name, sq_znsfile = Some p, sq_read_off = offset\<rparr>, e\<lparr>ev_zrocks := s\<rparr>)"
proof -
  let ?P = "pieces_bytes (lib_log disk (ev_zrocks e)) (f_map f)"
  have sz: "f_size f = length ?P + length (cache_bytes f)" "f_size f < 2 ^ 64" using assms(3) by (simp_all add: file_ok_def file_bytes_def)
  have cp: "usub 64 (f_size f) (length (cache_bytes f)) = length ?P" using sz by (subst usub_small) auto
  have n: "offset < f_size f" "u64 (offset + n) = offset + n" using assms(4-6) sz by (simp_all add: u64_small)
  obtain s where s: "read_mapped (lib_calls c) f offset n (ev_zrocks e) = Some (OutOfRange, None, s)"
    using zlib.read_mapped_beyond [OF assms(1,3-5)] by blast
  have "RandomAccess_Read (lib_calls c) (Some p) offset n e = Some (OutOfRange, None, e\<lparr>ev_zrocks := s\<rparr>)"
    using assms(2,4,6) n cp s by (simp add: RandomAccess_Read_def RandomAccess_ReadOffset_def Let_def)
  moreover have "Sequential_Read (lib_calls c) n \<lparr>sq_filename = name, sq_znsfile = Some p, sq_read_off = offset\<rparr> e =
      Some (OutOfRange, None, \<lparr>sq_filename = name, sq_znsfile = Some p, sq_read_off = offset\<rparr>, e\<lparr>ev_zrocks := s\<rparr>)"
    using assms(2,4,6) n cp s by (simp add: Sequential_Read_def Sequential_ReadOffset_def Let_def)
  ultimately show ?thesis by blast
qed

theorem read_across_cache_witness:
  "\<exists>w e1 w2 e2 e3 w4 e4 s. NewWritableFile (lib_calls sample_conf) sample_posix ''000007.sst'' () sample_env = Some (Zns w, (), e1) \<and>
    Writable_Append (lib_calls sample_conf) [1] w e1 = Some (OK, w2, e2) \<and> Writable_Sync (lib_calls sample_conf) w2 e2 = Some (OK, e3) \<and>
    Writable_Append (lib_calls sample_conf) [2] w2 e3 = Some (OK, w4, e4) \<and>
    RandomAccess_Read (lib_calls sample_conf) (Some (wf_znsfile w)) 0 2 e4 = Some (OutOfRange, None, e4\<lparr>ev_zrocks := s\<rparr>)"
proof -
  obtain w e1 w2 e2 e3 w4 e4 f where r: "NewWritableFile (lib_calls sample_conf) sample_posix ''000007.sst'' () sample_env = Some (Zns w, (), e1)"
    "Writable_Append (lib_calls sample_conf) [1] w e1 = Some (OK, w2, e2)" "Writable_Sync (lib_calls sample_conf) w2 e2 = Some (OK, e3)"
    "Writable_Append (lib_calls sample_conf) [2] w2 e3 = Some (OK, w4, e4)"
    "lib_ok sample_conf store_disk store_pend store_infl 0 (ev_zrocks e4)" "obj (wf_znsfile w) e4 = Some f"
    "file_ok (lib_log store_disk (ev_zrocks e4)) f" "length (pieces_bytes (lib_log store_disk (ev_zrocks e4)) (f_map f)) = 1" "f_size f = 2"
    using sample_mixed by blast
  have "\<exists>s. RandomAccess_Read (lib_calls sample_conf) (Some (wf_znsfile w)) 0 2 e4 = Some (OutOfRange, None, e4\<lparr>ev_zrocks := s\<rparr>)"
    using read_across_cache [OF r(5-7), of 0 2] r(8,9) by auto
  then show ?thesis using r(1-4) by blast
qed

end
