(* ===== verification/Xztl_Prometheus.thy ===== *)
theory Xztl_Prometheus
  imports Xztl_Mempool Xztl_Stats
begin

text \<open>
  The counters for monitoring, \<open>xztl-prometheus.c\<close>: bytes and commands since the last report, write
  amplification, and the queue of read latencies, whose entries come from a memory pool.

  A report is the numbers that are written to the files; the files themselves, the clock and the threads
  that report once a second are not modelled. The two quotients of a report, which the code computes as floating
  point numbers, are given by their operands.
\<close>

section \<open>Model\<close>

abbreviation (input) MAX_LATENCY_ENTS :: nat where "MAX_LATENCY_ENTS \<equiv> 8192"

record xztl_prometheus_stats =
  ps_written_bytes :: nat
  ps_read_bytes :: nat
  ps_io_count :: nat
  ps_user_write_bytes :: nat
  ps_zns_write_bytes :: nat

text \<open>A latency entry is the payload of the pool entry it refers to.\<close>

record prometheus_state =
  pm_stats :: xztl_prometheus_stats
  pm_lat_head :: "(xztl_mp_entry \<times> nat) list"
  pm_mp :: xztl_mempool

definition zero_prometheus :: xztl_prometheus_stats where
  "zero_prometheus = \<lparr>ps_written_bytes = 0, ps_read_bytes = 0, ps_io_count = 0, ps_user_write_bytes = 0, ps_zns_write_bytes = 0\<rparr>"

record prometheus_report =
  re_thput_w :: nat
  re_thput_r :: nat
  re_iops :: nat
  re_wamp :: "nat \<times> nat"

definition xztl_prometheus_reset :: "xztl_prometheus_stats \<Rightarrow> prometheus_report \<times> xztl_prometheus_stats" where
  "xztl_prometheus_reset p =
     (let w = ps_written_bytes p; r = ps_read_bytes p; io = ps_io_count p;
          p = p\<lparr>ps_written_bytes := 0, ps_read_bytes := 0, ps_io_count := 0\<rparr>;
          wa = (if ps_user_write_bytes p \<noteq> 0 then (ps_zns_write_bytes p, ps_user_write_bytes p) else (1, 1))
      in (\<lparr>re_thput_w = w, re_thput_r = r, re_iops = io, re_wamp = wa\<rparr>, p))"

definition xztl_prometheus_add_io ::
    "'s xztl_core \<Rightarrow> xztl_io_mcmd \<Rightarrow> xztl_prometheus_stats \<Rightarrow> xztl_prometheus_stats option" where
  "xztl_prometheus_add_io core cmd p = do {
     nsec \<leftarrow> mcmd_nsec cmd;
     if mc_opcode cmd = op XZTL_ZONE_APPEND \<or> mc_opcode cmd = op XZTL_CMD_WRITE
     then do {
       m \<leftarrow> core;
       Some (p\<lparr>ps_written_bytes := u64 (ps_written_bytes p + u32 (nsec * ge_nbytes (mm_geo m))), ps_io_count := u64 (ps_io_count p + 1)\<rparr>) }
     else if mc_opcode cmd = op XZTL_CMD_READ
     then do {
       m \<leftarrow> core;
       Some (p\<lparr>ps_read_bytes := u64 (ps_read_bytes p + u32 (nsec * ge_nbytes (mm_geo m))), ps_io_count := u64 (ps_io_count p + 1)\<rparr>) }
     else Some p }"

definition xztl_prometheus_add_wa :: "nat \<Rightarrow> nat \<Rightarrow> xztl_prometheus_stats \<Rightarrow> xztl_prometheus_stats" where
  "xztl_prometheus_add_wa user_writes zns_writes p = p\<lparr>ps_user_write_bytes := user_writes, ps_zns_write_bytes := zns_writes\<rparr>"

subsection \<open>Latencies\<close>

text \<open>The loop goes on while there are latencies, and at least for \<open>MAX_LATENCY_ENTS\<close> turns.\<close>

function flush_latency_loop ::
    "nat \<Rightarrow> (xztl_mp_entry \<times> nat) list \<Rightarrow> xztl_mempool \<Rightarrow> (nat list \<times> xztl_mempool) option" where
  "flush_latency_loop dequeued [] mp =
     (if dequeued < MAX_LATENCY_ENTS then flush_latency_loop (dequeued + 1) [] mp else Some ([], mp))"
| "flush_latency_loop dequeued ((ent, lat) # head) mp = do {
     mp \<leftarrow> xztl_mempool_put mp ent (mpt XZTL_PROMETHEUS_LAT) 0;
     (lats, mp) \<leftarrow> flush_latency_loop (dequeued + 1) head mp;
     Some (lat # lats, mp) }"
  by pat_completeness auto
termination
  by (relation "measure (\<lambda>(dequeued, head, mp). length head + (MAX_LATENCY_ENTS - dequeued))") auto

declare flush_latency_loop.simps(1) [simp del]

text \<open>\<open>fp_ok\<close> tells whether the file can be opened. The result are the latencies written.\<close>

definition xztl_prometheus_flush_latency :: "bool \<Rightarrow> prometheus_state \<Rightarrow> (nat list \<times> prometheus_state) option" where
  "xztl_prometheus_flush_latency fp_ok p =
     (if \<not> fp_ok then Some ([], p)
      else do {
        (lats, mp) \<leftarrow> flush_latency_loop 0 (pm_lat_head p) (pm_mp p);
        Some (lats, p\<lparr>pm_lat_head := [], pm_mp := mp\<rparr>) })"

definition xztl_prometheus_add_read_latency :: "nat \<Rightarrow> prometheus_state \<Rightarrow> prometheus_state option" where
  "xztl_prometheus_add_read_latency usec p = do {
     left \<leftarrow> xztl_mempool_left (pm_mp p) (mpt XZTL_PROMETHEUS_LAT) 0;
     if left = 0 then Some p
     else do {
       (mp_ent, mp) \<leftarrow> xztl_mempool_get (pm_mp p) (mpt XZTL_PROMETHEUS_LAT) 0;
       Some (p\<lparr>pm_mp := mp, pm_lat_head := tailq_insert_tail (pm_lat_head p) (mp_ent, usec)\<rparr>) } }"

subsection \<open>Start and stop\<close>

abbreviation (input) LATENCY_ENTRY_SZ :: nat where "LATENCY_ENTRY_SZ \<equiv> 24"

text \<open>\<open>spin\<close>, \<open>lat_th\<close> and \<open>flush_th\<close> are the results for the lock and the two threads. When the second thread cannot be
  created the code joins it, not the first: undefined.\<close>

definition xztl_prometheus_init ::
    "int \<Rightarrow> bool \<Rightarrow> (nat \<Rightarrow> nat) \<Rightarrow> (nat \<Rightarrow> nat) \<Rightarrow> int \<Rightarrow> int \<Rightarrow> prometheus_state \<Rightarrow> (int \<times> prometheus_state) option" where
  "xztl_prometheus_init spin pool_spin_fails ent_at opq_at lat_th flush_th p =
     (let p = p\<lparr>pm_stats := zero_prometheus, pm_lat_head := []\<rparr>
      in if spin \<noteq> 0 then Some (xz XZTL_ZTL_PROMETHEUS_ERR, p)
         else do {
           (ret, mp, evs) \<leftarrow> xztl_mempool_create pool_spin_fails ent_at opq_at (pm_mp p) (mpt XZTL_PROMETHEUS_LAT) 0
              MAX_LATENCY_ENTS LATENCY_ENTRY_SZ False False;
           let p = p\<lparr>pm_mp := mp\<rparr>;
           if ret \<noteq> 0 then Some (xz XZTL_ZTL_PROMETHEUS_ERR, p)
           else if lat_th \<noteq> 0
           then do {
             (ret, mp, evs) \<leftarrow> xztl_mempool_destroy mp (mpt XZTL_PROMETHEUS_LAT) 0;
             Some (xz XZTL_ZTL_PROMETHEUS_ERR, p\<lparr>pm_mp := mp\<rparr>) }
           else if flush_th \<noteq> 0 then None
           else Some (xz XZTL_OK, p) })"

text \<open>The threads report once more when they end.\<close>

definition xztl_prometheus_exit :: "bool \<Rightarrow> prometheus_state \<Rightarrow> (prometheus_report \<times> nat list \<times> prometheus_state) option" where
  "xztl_prometheus_exit fp_ok p = do {
     let (rep, stats) = xztl_prometheus_reset (pm_stats p);
     (lats, p) \<leftarrow> xztl_prometheus_flush_latency fp_ok (p\<lparr>pm_stats := stats\<rparr>);
     (ret, mp, evs) \<leftarrow> xztl_mempool_destroy (pm_mp p) (mpt XZTL_PROMETHEUS_LAT) 0;
     Some (rep, lats, p\<lparr>pm_mp := mp\<rparr>) }"

section \<open>The queue of latencies\<close>

datatype lat_op = Add nat | Flush

fun lat_run :: "lat_op list \<Rightarrow> prometheus_state \<Rightarrow> (nat list \<times> prometheus_state) option" where
  "lat_run [] p = Some ([], p)"
| "lat_run (Add usec # ops) p = do { p \<leftarrow> xztl_prometheus_add_read_latency usec p; lat_run ops p }"
| "lat_run (Flush # ops) p = do {
     (lats, p) \<leftarrow> xztl_prometheus_flush_latency True p;
     (out, p) \<leftarrow> lat_run ops p;
     Some (lats @ out, p) }"

fun added :: "lat_op list \<Rightarrow> nat list" where
  "added [] = []"
| "added (Add usec # ops) = usec # added ops"
| "added (Flush # ops) = added ops"

text \<open>After \<open>n\<close> gets on the pool of latencies.\<close>

definition lat_inv :: "nat \<Rightarrow> prometheus_state \<Rightarrow> bool" where
  "lat_inv n p \<longleftrightarrow> mp_wf (pm_mp p) \<and> n \<le> MAX_LATENCY_ENTS \<and> length (pm_lat_head p) \<le> n \<and> (\<exists>pool. pool_at (pm_mp p) (mpt XZTL_PROMETHEUS_LAT) 0 = Some pool \<and>
     po_entries pool = MAX_LATENCY_ENTS \<and> po_out_count pool = n \<and> po_in_count pool = 0 \<and>
     length (po_head pool) + length (pm_lat_head p) = MAX_LATENCY_ENTS)"

lemma flush_loop_idle: "flush_latency_loop dequeued [] mp = Some ([], mp)"
proof (induction "MAX_LATENCY_ENTS - dequeued" arbitrary: dequeued)
  case 0
  then show ?case by (subst flush_latency_loop.simps) simp
next
  case (Suc n)
  then have "flush_latency_loop (dequeued + 1) [] mp = Some ([], mp)" by (intro Suc.hyps(1)) simp
  then show ?case by (subst flush_latency_loop.simps) simp
qed

lemma flush_loop_all:
  "mp_wf mp \<Longrightarrow> pool_at mp (mpt XZTL_PROMETHEUS_LAT) 0 = Some pool \<Longrightarrow>
   \<exists>mp'. flush_latency_loop dequeued head mp = Some (map snd head, mp') \<and> mp_wf mp' \<and>
     pool_at mp' (mpt XZTL_PROMETHEUS_LAT) 0 = Some (pool\<lparr>po_head := po_head pool @ map fst head\<rparr>)"
proof (induction head arbitrary: dequeued mp pool)
  case (Cons x head)
  obtain ent lat where x: "x = (ent, lat)" by force
  let ?mp = "pool_upd mp (mpt XZTL_PROMETHEUS_LAT) 0 (mp_give ent pool)"
  have "mp_wf ?mp" "pool_at ?mp (mpt XZTL_PROMETHEUS_LAT) 0 = Some (mp_give ent pool)"
    using Cons.prems by (simp_all add: mp_wf_upd pool_at_upd)
  from Cons.IH [OF this, of "dequeued + 1"] show ?case
    using Cons.prems(2) unfolding x by (auto simp: xztl_mempool_put_def mp_give_def tailq_insert_tail_def)
qed (simp add: flush_loop_idle)

lemma add_latency_step:
  assumes "lat_inv n p"
  shows "\<exists>p'. xztl_prometheus_add_read_latency usec p = Some p' \<and>
    (if n < MAX_LATENCY_ENTS then lat_inv (Suc n) p' \<and> map snd (pm_lat_head p') = map snd (pm_lat_head p) @ [usec] else p' = p)"
proof -
  obtain pool where pool: "mp_wf (pm_mp p)" "pool_at (pm_mp p) (mpt XZTL_PROMETHEUS_LAT) 0 = Some pool" "po_entries pool = MAX_LATENCY_ENTS"
    "po_out_count pool = n" "po_in_count pool = 0" "length (po_head pool) + length (pm_lat_head p) = MAX_LATENCY_ENTS" "n \<le> MAX_LATENCY_ENTS" "length (pm_lat_head p) \<le> n"
    using assms by (auto simp: lat_inv_def)
  have left: "xztl_mempool_left (pm_mp p) (mpt XZTL_PROMETHEUS_LAT) 0 = Some (MAX_LATENCY_ENTS - n)"
    using pool by (simp add: xztl_mempool_left_def mp_left_def usub_small u32_small)
  show ?thesis
  proof (cases "n < MAX_LATENCY_ENTS")
    case True
    then have "po_head pool \<noteq> []" using pool(6,8) by auto
    then obtain e es where e: "po_head pool = e # es" by (cases "po_head pool") auto
    let ?pool = "pool\<lparr>po_head := es, po_out_count := Suc n\<rparr>"
    let ?p = "p\<lparr>pm_mp := pool_upd (pm_mp p) (mpt XZTL_PROMETHEUS_LAT) 0 ?pool, pm_lat_head := pm_lat_head p @ [(e, usec)]\<rparr>"
    have "xztl_prometheus_add_read_latency usec p = Some ?p"
      using left True pool(2,4) e
      by (simp add: xztl_prometheus_add_read_latency_def xztl_mempool_get_def mp_take_def tailq_insert_tail_def u16_small)
    moreover have "lat_inv (Suc n) ?p" using pool e True by (simp add: lat_inv_def pool_at_upd mp_wf_upd)
    ultimately show ?thesis using True by simp
  qed (use left pool(7) in \<open>simp add: xztl_prometheus_add_read_latency_def\<close>)
qed

lemma flush_step:
  assumes "lat_inv n p"
  shows "\<exists>p'. xztl_prometheus_flush_latency True p = Some (map snd (pm_lat_head p), p') \<and> lat_inv n p' \<and> pm_lat_head p' = []"
proof -
  obtain pool where pool: "mp_wf (pm_mp p)" "pool_at (pm_mp p) (mpt XZTL_PROMETHEUS_LAT) 0 = Some pool" "po_entries pool = MAX_LATENCY_ENTS"
    "po_out_count pool = n" "po_in_count pool = 0" "length (po_head pool) + length (pm_lat_head p) = MAX_LATENCY_ENTS" "n \<le> MAX_LATENCY_ENTS"
    using assms by (auto simp: lat_inv_def)
  from flush_loop_all [OF pool(1,2), of 0 "pm_lat_head p"] pool(3-7) show ?thesis
    by (auto simp: xztl_prometheus_flush_latency_def lat_inv_def)
qed

lemma lat_run_reports:
  "lat_inv n p \<Longrightarrow> \<exists>out p'. lat_run ops p = Some (out, p') \<and>
     out @ map snd (pm_lat_head p') = map snd (pm_lat_head p) @ take (MAX_LATENCY_ENTS - n) (added ops)"
proof (induction ops arbitrary: n p rule: added.induct)
  case (2 usec ops)
  obtain p1 where p1: "xztl_prometheus_add_read_latency usec p = Some p1"
    "if n < MAX_LATENCY_ENTS then lat_inv (Suc n) p1 \<and> map snd (pm_lat_head p1) = map snd (pm_lat_head p) @ [usec] else p1 = p"
    using add_latency_step [OF "2.prems"] by blast
  show ?case
  proof (cases "n < MAX_LATENCY_ENTS")
    case True
    then have "MAX_LATENCY_ENTS - n = Suc (MAX_LATENCY_ENTS - Suc n)" by simp
    then show ?thesis using p1 "2.IH" [of "Suc n" p1] True by auto
  next
    case False
    then show ?thesis using p1 "2.IH" [OF "2.prems"] by auto
  qed
next
  case (3 ops)
  obtain p1 where p1: "xztl_prometheus_flush_latency True p = Some (map snd (pm_lat_head p), p1)" "lat_inv n p1" "pm_lat_head p1 = []"
    using flush_step [OF "3.prems"] by blast
  then show ?case using "3.IH" [OF p1(2)] by auto
qed simp

section \<open>Properties\<close>

text \<open>C22: Only the first 8192 read latencies after the start are ever reported. After a successful start, whatever
  latencies are added and however often the queue is written out in between, the latencies written and those
  still queued are the first 8192 that were added: \<open>xztl_mempool_left\<close> has sunk to 0 by then, and all others
  are discarded although the entries are free.\<close>

theorem latency_reports_stop:
  assumes "mp_wf (pm_mp p0)" "\<not> po_active (pm_mp p0 ! mpt XZTL_PROMETHEUS_LAT ! 0)"
    "\<And>i. i < MAX_LATENCY_ENTS \<Longrightarrow> ent_at i \<noteq> 0 \<and> opq_at i \<noteq> 0"
  shows "\<exists>p out p'. xztl_prometheus_init 0 False ent_at opq_at 0 0 p0 = Some (xz XZTL_OK, p) \<and> lat_run ops p = Some (out, p') \<and>
    out @ map snd (pm_lat_head p') = take MAX_LATENCY_ENTS (added ops)"
proof -
  have fill: "mempool_fill ent_at opq_at False 0 0 MAX_LATENCY_ENTS [] = (True, map (mk_entry ent_at opq_at 0) [0..<MAX_LATENCY_ENTS], [])"
    using mempool_fill_ok [of 0 MAX_LATENCY_ENTS ent_at opq_at False 0 "[]"] assms(3) by (simp del: upt_rec_numeral)
  define pool where "pool = (pm_mp p0 ! mpt XZTL_PROMETHEUS_LAT ! 0)\<lparr>po_alloc_fn := False, po_free_fn := False,
    po_head := map (mk_entry ent_at opq_at 0) [0..<MAX_LATENCY_ENTS], po_entries := MAX_LATENCY_ENTS, po_in_count := 0, po_out_count := 0, po_active := True\<rparr>"
  define p where "p = p0\<lparr>pm_stats := zero_prometheus, pm_lat_head := [], pm_mp := pool_upd (pm_mp p0) (mpt XZTL_PROMETHEUS_LAT) 0 pool\<rparr>"
  have at: "pool_at (pm_mp p0) (mpt XZTL_PROMETHEUS_LAT) 0 = Some (pm_mp p0 ! mpt XZTL_PROMETHEUS_LAT ! 0)"
    using assms(1) by (intro pool_at_wf) simp_all
  have "xztl_prometheus_init 0 False ent_at opq_at 0 0 p0 = Some (xz XZTL_OK, p)"
    using at assms(2) fill unfolding xztl_prometheus_init_def xztl_mempool_create_def p_def pool_def
    by (simp add: Let_def del: upt_rec_numeral)
  moreover have "lat_inv 0 p" using assms(1) by (simp add: lat_inv_def p_def pool_def pool_at_upd mp_wf_upd del: upt_rec_numeral)
  from lat_run_reports [OF this, of ops] obtain out p' where "lat_run ops p = Some (out, p')" "out @ map snd (pm_lat_head p') = take MAX_LATENCY_ENTS (added ops)"
    by (auto simp: p_def)
  ultimately show ?thesis by blast
qed

theorem latency_reports_stop_witness:
  "\<exists>p out p'. xztl_prometheus_init 0 False (\<lambda>i. 1000 + i) (\<lambda>i. 20000 + i) 0 0
      \<lparr>pm_stats = zero_prometheus, pm_lat_head = [], pm_mp = snd (xztl_mempool_init [])\<rparr> = Some (xz XZTL_OK, p) \<and>
    lat_run [Add 5, Flush, Add 7] p = Some (out, p') \<and> out @ map snd (pm_lat_head p') = [5, 7]"
proof -
  have "\<not> po_active (snd (xztl_mempool_init []) ! mpt XZTL_PROMETHEUS_LAT ! 0)" by (simp add: xztl_mempool_init_def zero_pool_def)
  then show ?thesis
    using latency_reports_stop [of "\<lparr>pm_stats = zero_prometheus, pm_lat_head = [], pm_mp = snd (xztl_mempool_init [])\<rparr>" "\<lambda>i. 1000 + i" "\<lambda>i. 20000 + i"
        "[Add 5, Flush, Add 7]"] mp_wf_init by simp
qed

end
